(* ===== verification/Prelude.thy ===== *)
theory Prelude
  imports Main "HOL-Library.Word" "HOL-Library.AList" "HOL-Library.Sublist"
begin

section \<open>Bytes, machine integers and association lists\<close>

text \<open>
  What every component shares. A Go byte is a HOL \<open>char\<close> (8 bits), so a byte slice and a Go
  string are both a \<open>string\<close> and the conversions between them are the identity. A w-bit
  integer is a \<open>w word\<close>; a signed Go integer is the same word read with \<open>sint\<close>, so the Go
  conversion between \<open>uint32\<close> and \<open>int32\<close> is the identity too. Fallible operations return
  \<open>error + 'a\<close>, with \<open>Inl\<close> for the error. The theory holds the big-endian readers of
  \<open>encoding/binary\<close>, the association lists that stand for Go maps, and the theorem
  collections that later theories fill.
\<close>

named_theorems wire_simps "reading fixed-width fields from a byte string"
named_theorems text_simps "splitting and searching strings"
named_theorems store_simps "lookups in association-list stores"

type_synonym bytes = string
type_synonym uint8 = "8 word"
type_synonym uint16 = "16 word"
type_synonym uint32 = "32 word"
type_synonym uint64 = "64 word"
type_synonym int16 = "16 word"
type_synonym int32 = "32 word"
type_synonym int64 = "64 word"

abbreviation byte_nat :: "char \<Rightarrow> nat" where
  "byte_nat c \<equiv> of_char c"

abbreviation nul :: char where
  "nul \<equiv> CHR 0x00"

abbreviation newline :: char where
  "newline \<equiv> CHR 0x0A"

subsection \<open>Big-endian integers (encoding/binary)\<close>

definition be_nat :: "bytes \<Rightarrow> nat" where
  "be_nat bs = foldl (\<lambda>n c. n * 256 + byte_nat c) 0 bs"

definition be8 :: "bytes \<Rightarrow> uint8" where
  "be8 bs = word_of_nat (be_nat bs)"

definition be16 :: "bytes \<Rightarrow> uint16" where
  "be16 bs = word_of_nat (be_nat bs)"

definition be32 :: "bytes \<Rightarrow> uint32" where
  "be32 bs = word_of_nat (be_nat bs)"

definition be64 :: "bytes \<Rightarrow> uint64" where
  "be64 bs = word_of_nat (be_nat bs)"

text \<open>\<open>field i n b\<close> is the Go slice expression \<open>b[i : i+n]\<close>, used where its bounds hold.\<close>

definition field :: "nat \<Rightarrow> nat \<Rightarrow> bytes \<Rightarrow> bytes" where
  "field i n b = take n (drop i b)"

text \<open>The encoders are the wire format's side of the round trips; the program only reads.\<close>

fun be_bytes :: "nat \<Rightarrow> nat \<Rightarrow> bytes" where
  "be_bytes 0 n = []"
| "be_bytes (Suc k) n = be_bytes k (n div 256) @ [char_of (n mod 256)]"

lemma length_be_bytes [simp]: "length (be_bytes k n) = k"
  by (induction k n rule: be_bytes.induct) auto

lemma be_nat_Nil [simp]: "be_nat [] = 0"
  by (simp add: be_nat_def)

lemma be_nat_snoc [simp]: "be_nat (bs @ [c]) = be_nat bs * 256 + byte_nat c"
  by (simp add: be_nat_def)

lemma be_nat_be_bytes [wire_simps]: "be_nat (be_bytes k n) = n mod 256 ^ k"
proof (induction k n rule: be_bytes.induct)
  case (2 k n)
  have "n mod (256 * 256 ^ k) = 256 * (n div 256 mod 256 ^ k) + n mod 256"
    by (rule mod_mult2_eq)
  with 2 show ?case by simp
qed simp

lemma be_nat_less: "be_nat bs < 256 ^ length bs"
proof (induction bs rule: rev_induct)
  case (snoc c bs)
  have "byte_nat c < 256" by simp
  with snoc have "be_nat bs * 256 + byte_nat c < 256 ^ length bs * 256"
    by linarith
  then show ?case by (simp add: mult.commute)
qed simp

lemma be8_be_bytes [wire_simps]: "be8 (be_bytes (Suc 0) (unat w)) = w"
proof -
  have "unat w < 256" using unsigned_less [where ?'a = nat, of w] by simp
  then show ?thesis by (simp add: be8_def be_nat_be_bytes del: be_bytes.simps)
qed

lemma be16_be_bytes [wire_simps]: "be16 (be_bytes 2 (unat w)) = w"
proof -
  have "unat w < 256 ^ 2" using unsigned_less [where ?'a = nat, of w] by simp
  then show ?thesis by (simp add: be16_def be_nat_be_bytes)
qed

lemma be32_be_bytes [wire_simps]: "be32 (be_bytes 4 (unat w)) = w"
proof -
  have "unat w < 256 ^ 4" using unsigned_less [where ?'a = nat, of w] by simp
  then show ?thesis by (simp add: be32_def be_nat_be_bytes)
qed

lemma be64_be_bytes [wire_simps]: "be64 (be_bytes 8 (unat w)) = w"
proof -
  have "unat w < 256 ^ 8" using unsigned_less [where ?'a = nat, of w] by simp
  then show ?thesis by (simp add: be64_def be_nat_be_bytes)
qed

subsection \<open>Slices of a concatenation\<close>

text \<open>
  A record is decoded from fields laid end to end. \<open>field_skip\<close> drops a whole leading block,
  \<open>field_here\<close> reads the block at the front.
\<close>

lemma field_skip [wire_simps]:
  "length xs \<le> i \<Longrightarrow> field i n (xs @ ys) = field (i - length xs) n ys"
  by (simp add: field_def)

lemma field_here [wire_simps]: "length xs = n \<Longrightarrow> field 0 n (xs @ ys) = xs"
  by (simp add: field_def)

lemma field_all [wire_simps]: "length xs = n \<Longrightarrow> field 0 n xs = xs"
  by (simp add: field_def)

lemma length_field: "i + n \<le> length b \<Longrightarrow> length (field i n b) = n"
  by (simp add: field_def)

lemma field_inside: "i + n \<le> length xs \<Longrightarrow> field i n (xs @ ys) = field i n xs"
  by (simp add: field_def)

lemma field_take: "i + n \<le> m \<Longrightarrow> field i n (take m b) = field i n b"
  by (simp add: field_def drop_take)

lemma field_drop: "field i n (drop m b) = field (m + i) n b"
  by (simp add: field_def add.commute)

lemma field_field [wire_simps]: "i + n \<le> m \<Longrightarrow> field i n (field j m b) = field (j + i) n b"
  by (simp add: field_def drop_take add.commute min_def)

declare be_bytes.simps [simp del]

subsection \<open>Go maps as association lists\<close>

text \<open>
  A Go map is an association list with distinct keys: \<open>map_of\<close> looks a key up,
  \<open>AList.update\<close> stores a value, \<open>AList.delete\<close> removes a key and \<open>length\<close> is Go's \<open>len\<close>.
\<close>

abbreviation keys :: "('k \<times> 'v) list \<Rightarrow> 'k list" where
  "keys m \<equiv> List.map fst m"

lemma length_update_new:
  "map_of m k = None \<Longrightarrow> length (AList.update k v m) = Suc (length m)"
  by (induction m) (auto split: if_splits)

lemma length_update_old:
  "map_of m k \<noteq> None \<Longrightarrow> length (AList.update k v m) = length m"
  by (induction m) (auto split: if_splits)

lemma length_delete_le: "length (AList.delete k m) \<le> length m"
  by (simp add: AList.delete_eq)

lemma map_of_update [store_simps]:
  "map_of (AList.update k v m) k' = (if k' = k then Some v else map_of m k')"
  by (simp add: update_conv')

lemma map_of_delete [store_simps]:
  "map_of (AList.delete k m) k' = (if k' = k then None else map_of m k')"
  by (simp add: delete_conv')

lemma map_of_filter_key_value [store_simps]:
  "distinct (keys m) \<Longrightarrow>
   map_of (filter (\<lambda>kv. P (snd kv)) m) k =
     (case map_of m k of None \<Rightarrow> None | Some v \<Rightarrow> if P v then Some v else None)"
proof (induction m)
  case (Cons kv m)
  obtain a b where kv: "kv = (a, b)" by (cases kv)
  have "map_of m a = None" using Cons.prems kv by (simp add: map_of_eq_None_iff)
  with Cons kv show ?case by (auto split: option.splits)
qed simp

lemma distinct_keys_filter: "distinct (keys m) \<Longrightarrow> distinct (keys (filter P m))"
  by (induction m) auto

lemma ran_update_subset:
  "snd ` set (AList.update k v m) \<subseteq> insert v (snd ` set m)"
  by (induction m) auto

subsection \<open>Results of fallible operations\<close>

fun sum_bind :: "'e + 'a \<Rightarrow> ('a \<Rightarrow> 'e + 'b) \<Rightarrow> 'e + 'b" where
  "sum_bind (Inl e) f = Inl e"
| "sum_bind (Inr a) f = f a"

lemma sum_bind_Inr: "sum_bind x f = Inr b \<longleftrightarrow> (\<exists>a. x = Inr a \<and> f a = Inr b)"
  by (cases x) auto

lemma sum_bind_Inl: "sum_bind x f = Inl e \<longleftrightarrow> x = Inl e \<or> (\<exists>a. x = Inr a \<and> f a = Inl e)"
  by (cases x) auto

end
