(* ===== verification/Go_Strings.thy ===== *)
theory Go_Strings
  imports Prelude
begin

section \<open>The string functions of the Go library the program uses\<close>

text \<open>
  The operations of \<open>strings\<close>, \<open>bytes\<close>, \<open>strconv\<close>, \<open>fmt\<close> and \<open>path\<close> that the source calls,
  on byte strings. White space is Unicode's, recognised in its UTF-8 form (\<open>space_len\<close>);
  \<open>to_lower\<close> folds ASCII letters and leaves every other byte alone, so a text with non-ASCII
  letters is outside what it models. The lemmas say what splitting does to a joined text and
  that decimal rendering can be read back.
\<close>

subsection \<open>Splitting and joining (strings.Split, strings.SplitN, strings.Join)\<close>

fun split_on :: "char \<Rightarrow> string \<Rightarrow> string list" where
  "split_on c [] = [[]]"
| "split_on c (x # xs) =
     (if x = c then [] # split_on c xs
      else (case split_on c xs of [] \<Rightarrow> [[x]] | p # ps \<Rightarrow> (x # p) # ps))"

fun join :: "string \<Rightarrow> string list \<Rightarrow> string" where
  "join sep [] = []"
| "join sep [p] = p"
| "join sep (p # q # ps) = p @ sep @ join sep (q # ps)"

definition before :: "char \<Rightarrow> string \<Rightarrow> string" where
  "before c s = takeWhile (\<lambda>x. x \<noteq> c) s"

definition after :: "char \<Rightarrow> string \<Rightarrow> string" where
  "after c s = tl (dropWhile (\<lambda>x. x \<noteq> c) s)"

definition before_last :: "char \<Rightarrow> string \<Rightarrow> string" where
  "before_last c s = rev (after c (rev s))"

definition after_last :: "char \<Rightarrow> string \<Rightarrow> string" where
  "after_last c s = rev (before c (rev s))"

text \<open>\<open>strings.SplitN(s, c, 2)\<close>: at most one cut, at the first separator.\<close>

definition splitn2 :: "char \<Rightarrow> string \<Rightarrow> string list" where
  "splitn2 c s = (if c \<in> set s then [before c s, after c s] else [s])"

lemma split_on_not_Nil [simp]: "split_on c s \<noteq> []"
  by (induction s) (auto split: list.splits)

lemma split_on_none [text_simps]: "c \<notin> set s \<Longrightarrow> split_on c s = [s]"
  by (induction s) auto

lemma split_on_append [text_simps]:
  "c \<notin> set s \<Longrightarrow> split_on c (s @ c # t) = s # split_on c t"
  by (induction s) auto

lemma join_split_on: "join [c] (split_on c s) = s"
proof (induction s)
  case (Cons x s)
  obtain p ps where "split_on c s = p # ps" by (cases "split_on c s") auto
  with Cons show ?case by (cases ps) auto
qed simp

lemma split_on_pieces: "p \<in> set (split_on c s) \<Longrightarrow> c \<notin> set p"
proof (induction s arbitrary: p)
  case (Cons x s)
  then show ?case by (cases "split_on c s") (auto split: if_splits)
qed simp

lemma split_on_join:
  "ps \<noteq> [] \<Longrightarrow> (\<And>p. p \<in> set ps \<Longrightarrow> c \<notin> set p) \<Longrightarrow> split_on c (join [c] ps) = ps"
  by (induction "[c]" ps rule: join.induct) (simp_all add: text_simps)

lemma before_append [text_simps]: "c \<notin> set a \<Longrightarrow> before c (a @ c # b) = a"
  unfolding before_def by (subst takeWhile_append2) auto

lemma after_append [text_simps]: "c \<notin> set a \<Longrightarrow> after c (a @ c # b) = b"
  unfolding after_def by (subst dropWhile_append2) auto

lemma before_last_append [text_simps]: "c \<notin> set b \<Longrightarrow> before_last c (a @ c # b) = a"
  by (simp add: before_last_def after_append)

lemma after_last_append [text_simps]: "c \<notin> set b \<Longrightarrow> after_last c (a @ c # b) = b"
  by (simp add: after_last_def before_append)

lemma before_no_sep: "c \<notin> set (before c s)"
  unfolding before_def by (auto dest: set_takeWhileD)

lemma before_after: "c \<in> set s \<Longrightarrow> s = before c s @ c # after c s"
proof -
  assume "c \<in> set s"
  then have "dropWhile (\<lambda>x. x \<noteq> c) s = c # after c s"
    unfolding after_def by (induction s) auto
  then show ?thesis
    unfolding before_def by (metis takeWhile_dropWhile_id)
qed

lemma splitn2_append [text_simps]: "c \<notin> set a \<Longrightarrow> splitn2 c (a @ c # b) = [a, b]"
  by (simp add: splitn2_def text_simps)

lemma splitn2_none [text_simps]: "c \<notin> set s \<Longrightarrow> splitn2 c s = [s]"
  by (simp add: splitn2_def)

subsection \<open>Trimming, white space and case (strings.Trim, TrimSpace, Fields, ToLower)\<close>

definition has_prefix :: "string \<Rightarrow> string \<Rightarrow> bool" where
  "has_prefix s p \<longleftrightarrow> prefix p s"

definition trim_prefix :: "string \<Rightarrow> string \<Rightarrow> string" where
  "trim_prefix s p = (if prefix p s then drop (length p) s else s)"

definition trim_suffix :: "string \<Rightarrow> string \<Rightarrow> string" where
  "trim_suffix s p = (if suffix p s then take (length s - length p) s else s)"

definition trim_cutset :: "char list \<Rightarrow> string \<Rightarrow> string" where
  "trim_cutset cs s =
     rev (dropWhile (\<lambda>c. c \<in> set cs) (rev (dropWhile (\<lambda>c. c \<in> set cs) s)))"

definition trim_right_char :: "char \<Rightarrow> string \<Rightarrow> string" where
  "trim_right_char c s = rev (dropWhile (\<lambda>x. x = c) (rev s))"

definition is_space1 :: "char \<Rightarrow> bool" where
  "is_space1 c \<longleftrightarrow> c = CHR '' '' \<or> (9 \<le> byte_nat c \<and> byte_nat c \<le> 13)"

definition is_space2 :: "char \<Rightarrow> char \<Rightarrow> bool" where
  "is_space2 a b \<longleftrightarrow> a = CHR 0xC2 \<and> (b = CHR 0x85 \<or> b = CHR 0xA0)"

definition is_space3 :: "char \<Rightarrow> char \<Rightarrow> char \<Rightarrow> bool" where
  "is_space3 a b d \<longleftrightarrow>
     (a = CHR 0xE1 \<and> b = CHR 0x9A \<and> d = CHR 0x80) \<or>
     (a = CHR 0xE2 \<and> b = CHR 0x80 \<and>
        (128 \<le> byte_nat d \<and> byte_nat d \<le> 138 \<or>
         d = CHR 0xA8 \<or> d = CHR 0xA9 \<or> d = CHR 0xAF)) \<or>
     (a = CHR 0xE2 \<and> b = CHR 0x81 \<and> d = CHR 0x9F) \<or>
     (a = CHR 0xE3 \<and> b = CHR 0x80 \<and> d = CHR 0x80)"

text \<open>The number of bytes of the white-space rune a string starts with, 0 if there is none.\<close>

fun space_len :: "string \<Rightarrow> nat" where
  "space_len [] = 0"
| "space_len [a] = (if is_space1 a then 1 else 0)"
| "space_len [a, b] = (if is_space1 a then 1 else if is_space2 a b then 2 else 0)"
| "space_len (a # b # d # s) =
     (if is_space1 a then 1 else if is_space2 a b then 2 else if is_space3 a b d then 3 else 0)"

text \<open>The same at the end of a string, which is given reversed.\<close>

fun space_len_rev :: "string \<Rightarrow> nat" where
  "space_len_rev [] = 0"
| "space_len_rev [a] = (if is_space1 a then 1 else 0)"
| "space_len_rev [b, a] = (if is_space1 b then 1 else if is_space2 a b then 2 else 0)"
| "space_len_rev (d # b # a # s) =
     (if is_space1 d then 1 else if is_space2 b d then 2 else if is_space3 a b d then 3 else 0)"

lemma space_len_pos_length: "0 < space_len s \<Longrightarrow> s \<noteq> []"
  by (cases s) auto

lemma space_len_rev_pos_length: "0 < space_len_rev s \<Longrightarrow> s \<noteq> []"
  by (cases s) auto

function trim_left :: "string \<Rightarrow> string" where
  "trim_left s = (if space_len s = 0 then s else trim_left (drop (space_len s) s))"
  by pat_completeness auto
termination
  by (relation "measure length") (use space_len_pos_length in fastforce)+

function trim_left_rev :: "string \<Rightarrow> string" where
  "trim_left_rev s = (if space_len_rev s = 0 then s else trim_left_rev (drop (space_len_rev s) s))"
  by pat_completeness auto
termination
  by (relation "measure length") (use space_len_rev_pos_length in fastforce)+

definition trim_space :: "string \<Rightarrow> string" where
  "trim_space s = rev (trim_left_rev (rev (trim_left s)))"

function fields_from :: "string \<Rightarrow> string \<Rightarrow> string list" where
  "fields_from w s =
     (if s = [] then (if w = [] then [] else [w])
      else if space_len s = 0 then fields_from (w @ [hd s]) (tl s)
      else (if w = [] then [] else [w]) @ fields_from [] (drop (space_len s) s))"
  by pat_completeness auto
termination
  by (relation "measure (\<lambda>(w, s). length s)") auto

definition fields :: "string \<Rightarrow> string list" where
  "fields s = fields_from [] s"

declare trim_left.simps [simp del] trim_left_rev.simps [simp del] fields_from.simps [simp del]

definition lower_char :: "char \<Rightarrow> char" where
  "lower_char c = (if 65 \<le> byte_nat c \<and> byte_nat c \<le> 90 then char_of (byte_nat c + 32) else c)"

definition to_lower :: "string \<Rightarrow> string" where
  "to_lower s = List.map lower_char s"

lemma lower_char_idem [simp]: "lower_char (lower_char c) = lower_char c"
  by (auto simp: lower_char_def)

lemma to_lower_idem [simp]: "to_lower (to_lower s) = to_lower s"
  by (induction s) (simp_all add: to_lower_def)

lemma fields_from_not_empty: "p \<in> set (fields_from w s) \<Longrightarrow> p \<noteq> []"
proof (induction w s rule: fields_from.induct)
  case (1 w s)
  from "1.prems" show ?case
    by (subst (asm) fields_from.simps) (auto split: if_splits dest: "1.IH")
qed

lemma fields_not_empty: "p \<in> set (fields s) \<Longrightarrow> p \<noteq> []"
  by (simp add: fields_def fields_from_not_empty)

end
