(* ===== verification/Go_Numbers.thy ===== *)
theory Go_Numbers
  imports Go_Strings
begin

section \<open>Rendering and reading integers (strconv, fmt)\<close>

text \<open>
  \<open>strconv.AppendUint/AppendInt\<close>, \<open>ParseUint\<close>, \<open>Atoi\<close> and the \<open>%d\<close> verb of \<open>fmt.Sscanf\<close>.
  \<open>parse_digits\<close> stops at the first digit that overflows, before it has seen the rest, and
  \<open>Atoi\<close> returns the clamped value next to its error, as the library does: callers that
  ignore the error see that value. The round trips say that a rendered number reads back.
\<close>

definition digit_char :: "nat \<Rightarrow> char" where
  "digit_char d = (if d < 10 then char_of (48 + d) else char_of (87 + d))"

fun fmt_nat :: "nat \<Rightarrow> nat \<Rightarrow> string" where
  "fmt_nat b n =
     (if n < b \<or> b < 2 then [digit_char n] else fmt_nat b (n div b) @ [digit_char (n mod b)])"

declare fmt_nat.simps [simp del]

abbreviation dec_nat :: "nat \<Rightarrow> string" where
  "dec_nat \<equiv> fmt_nat 10"

definition fmt_int :: "nat \<Rightarrow> int \<Rightarrow> string" where
  "fmt_int b i = (if i < 0 then ''-'' @ fmt_nat b (nat (- i)) else fmt_nat b (nat i))"

abbreviation dec_int :: "int \<Rightarrow> string" where
  "dec_int \<equiv> fmt_int 10"

definition is_digit :: "char \<Rightarrow> bool" where
  "is_digit c \<longleftrightarrow> 48 \<le> byte_nat c \<and> byte_nat c \<le> 57"

definition digit_val :: "char \<Rightarrow> nat" where
  "digit_val c = byte_nat c - 48"

definition is_hex :: "char \<Rightarrow> bool" where
  "is_hex c \<longleftrightarrow> is_digit c \<or> (97 \<le> byte_nat c \<and> byte_nat c \<le> 102) \<or> (65 \<le> byte_nat c \<and> byte_nat c \<le> 70)"

definition hex_digit_val :: "char \<Rightarrow> nat" where
  "hex_digit_val c =
     (if is_digit c then byte_nat c - 48 else if 97 \<le> byte_nat c then byte_nat c - 87 else byte_nat c - 55)"

definition hex_val :: "string \<Rightarrow> nat" where
  "hex_val s = foldl (\<lambda>n c. 16 * n + hex_digit_val c) 0 s"

definition dec_val :: "string \<Rightarrow> nat" where
  "dec_val s = foldl (\<lambda>n c. 10 * n + digit_val c) 0 s"

datatype num_result = NumOk nat | NumSyntax | NumRange

fun parse_digits :: "nat \<Rightarrow> nat \<Rightarrow> string \<Rightarrow> num_result" where
  "parse_digits m n [] = NumOk n"
| "parse_digits m n (c # cs) =
     (if \<not> is_digit c then NumSyntax
      else if m < 10 * n + digit_val c then NumRange
      else parse_digits m (10 * n + digit_val c) cs)"

definition parse_uint :: "nat \<Rightarrow> string \<Rightarrow> num_result" where
  "parse_uint m s = (if s = [] then NumSyntax else parse_digits m 0 s)"

definition has_sign :: "string \<Rightarrow> bool" where
  "has_sign s \<longleftrightarrow> s \<noteq> [] \<and> (hd s = CHR ''-'' \<or> hd s = CHR ''+'')"

definition is_neg :: "string \<Rightarrow> bool" where
  "is_neg s \<longleftrightarrow> s \<noteq> [] \<and> hd s = CHR ''-''"

definition unsigned_part :: "string \<Rightarrow> string" where
  "unsigned_part s = (if has_sign s then tl s else s)"

text \<open>\<open>strconv.Atoi\<close> (\<open>ParseInt\<close> to 64 bits): the value and whether there was no error.\<close>

definition atoi :: "string \<Rightarrow> int \<times> bool" where
  "atoi s =
     (case parse_uint (2 ^ 64 - 1) (unsigned_part s) of
        NumSyntax \<Rightarrow> (0, False)
      | NumRange \<Rightarrow> (if is_neg s then - (2 ^ 63) else 2 ^ 63 - 1, False)
      | NumOk n \<Rightarrow>
          (if \<not> is_neg s \<and> 2 ^ 63 \<le> n then (2 ^ 63 - 1, False)
           else if is_neg s \<and> 2 ^ 63 < n then (- (2 ^ 63), False)
           else (if is_neg s then - int n else int n, True)))"

text \<open>\<open>strconv.ParseUint(s, 10, 32)\<close>, \<open>None\<close> on an error.\<close>

definition parse_uint32 :: "string \<Rightarrow> uint32 option" where
  "parse_uint32 s =
     (case parse_uint (2 ^ 32 - 1) s of NumOk n \<Rightarrow> Some (word_of_nat n) | _ \<Rightarrow> None)"

text \<open>
  \<open>fmt.Sscanf(s, "%d", &x)\<close> skips white space but fails on a newline, takes the longest run of
  digits (after a sign for a signed target) and ignores what follows it.
\<close>

function skip_space :: "string \<Rightarrow> string option" where
  "skip_space s =
     (if s \<noteq> [] \<and> hd s = newline then None
      else if space_len s = 0 then Some s
      else skip_space (drop (space_len s) s))"
  by pat_completeness auto
termination
  by (relation "measure length") (use space_len_pos_length in fastforce)+

declare skip_space.simps [simp del]

definition sscanf_int :: "string \<Rightarrow> int option" where
  "sscanf_int s =
     (case skip_space s of None \<Rightarrow> None
      | Some t \<Rightarrow>
          (let ds = takeWhile is_digit (unsigned_part t)
           in if ds = [] then None
              else (case atoi ((if is_neg t then ''-'' else []) @ ds) of
                      (v, ok) \<Rightarrow> if ok then Some v else None)))"

definition sscanf_uint32 :: "string \<Rightarrow> uint32 option" where
  "sscanf_uint32 s =
     (case skip_space s of None \<Rightarrow> None
      | Some t \<Rightarrow>
          (let ds = takeWhile is_digit t
           in if ds = [] then None else parse_uint32 ds))"

subsection \<open>Rendered numbers read back\<close>

lemma dec_val_snoc: "dec_val (s @ [c]) = 10 * dec_val s + digit_val c"
  by (simp add: dec_val_def)

lemma digit_char_is_digit: "d < 10 \<Longrightarrow> is_digit (digit_char d)"
  by (simp add: is_digit_def digit_char_def)

lemma digit_val_char: "d < 10 \<Longrightarrow> digit_val (digit_char d) = d"
  by (simp add: digit_val_def digit_char_def)

lemma fmt_nat_not_Nil [simp]: "fmt_nat b n \<noteq> []"
  by (subst fmt_nat.simps) simp

lemma dec_nat_digits: "c \<in> set (dec_nat n) \<Longrightarrow> is_digit c"
proof (induction "10::nat" n arbitrary: c rule: fmt_nat.induct)
  case (1 n)
  from "1.prems" show ?case
    by (subst (asm) fmt_nat.simps) (auto split: if_splits intro: "1.hyps" digit_char_is_digit)
qed

lemma dec_val_dec_nat: "dec_val (dec_nat n) = n"
proof (induction "10::nat" n rule: fmt_nat.induct)
  case (1 n)
  show ?case
  proof (cases "n < 10")
    case True
    then show ?thesis by (subst fmt_nat.simps) (simp add: dec_val_def digit_val_char)
  next
    case False
    with 1 show ?thesis
      by (subst fmt_nat.simps) (simp add: dec_val_snoc digit_val_char)
  qed
qed

lemma dec_nat_inject [simp]: "dec_nat m = dec_nat n \<longleftrightarrow> m = n"
  by (metis dec_val_dec_nat)

lemma parse_digits_ok:
  assumes "\<And>c. c \<in> set s \<Longrightarrow> is_digit c"
    and "foldl (\<lambda>n c. 10 * n + digit_val c) n s \<le> m"
  shows "parse_digits m n s = NumOk (foldl (\<lambda>n c. 10 * n + digit_val c) n s)"
  using assms
proof (induction s arbitrary: n)
  case (Cons c s)
  have mono: "k \<le> foldl (\<lambda>n c. 10 * n + digit_val c) k s" for k
  proof (induction s arbitrary: k)
    case (Cons d s)
    have "k \<le> 10 * k + digit_val d" by simp
    also have "\<dots> \<le> foldl (\<lambda>n c. 10 * n + digit_val c) (10 * k + digit_val d) s"
      by (rule Cons.IH)
    finally show ?case by simp
  qed simp
  have "10 * n + digit_val c \<le> m"
    using mono [of "10 * n + digit_val c"] Cons.prems(2) by simp
  with Cons show ?case by simp
qed simp

lemma parse_uint_dec_nat: "n \<le> m \<Longrightarrow> parse_uint m (dec_nat n) = NumOk n"
  using parse_digits_ok [of "dec_nat n" 0 m] dec_val_dec_nat [of n] dec_nat_digits
  by (auto simp: parse_uint_def dec_val_def)

lemma digit_not_special:
  assumes "is_digit c"
  shows "c \<noteq> CHR ''-''" "c \<noteq> CHR ''+''" "c \<noteq> CHR ''.''" "c \<noteq> CHR '':''" "c \<noteq> CHR ''@''"
    "c \<noteq> CHR ''/''" "c \<noteq> CHR ''#''" "c \<noteq> CHR ''&''" "c \<noteq> CHR ''=''" "c \<noteq> newline" "\<not> is_space1 c"
    "c \<noteq> CHR 0xC2" "c \<noteq> CHR 0xE1" "c \<noteq> CHR 0xE2" "c \<noteq> CHR 0xE3"
  using assms by (auto simp: is_digit_def is_space1_def)

lemma dec_nat_hd: "is_digit (hd (dec_nat n))"
  by (rule dec_nat_digits [of _ n]) simp

lemma dec_nat_no_sign [simp]:
  "\<not> has_sign (dec_nat n @ t)" "\<not> is_neg (dec_nat n @ t)" "\<not> is_neg (dec_nat n)"
  "\<not> has_sign (dec_nat n)"
  using dec_nat_hd [of n] by (auto simp: has_sign_def is_neg_def dest: digit_not_special)

lemma digit_not_space [simp]:
  assumes "is_digit c"
  shows "\<not> is_space1 c" "\<not> is_space2 c b" "\<not> is_space3 c b d"
  using digit_not_special [OF assms] by (simp_all add: is_space2_def is_space3_def)

lemma digit_space_len: "s \<noteq> [] \<Longrightarrow> is_digit (hd s) \<Longrightarrow> space_len s = 0"
  by (cases s rule: space_len.cases) simp_all

lemma takeWhile_dec_nat [simp]: "takeWhile is_digit (dec_nat n) = dec_nat n"
  by (simp add: takeWhile_eq_all_conv dec_nat_digits)

lemma skip_space_digit: "s \<noteq> [] \<Longrightarrow> is_digit (hd s) \<Longrightarrow> skip_space s = Some s"
  by (subst skip_space.simps) (auto simp: digit_space_len dest: digit_not_special)

lemma atoi_dec_nat: "n < 2 ^ 63 \<Longrightarrow> atoi (dec_nat n) = (int n, True)"
  by (simp add: atoi_def unsigned_part_def parse_uint_dec_nat)

lemma sscanf_int_dec_nat:
  assumes "n < 2 ^ 63" and "t = [] \<or> \<not> is_digit (hd t)"
  shows "sscanf_int (dec_nat n @ t) = Some (int n)"
proof -
  have "takeWhile is_digit (dec_nat n @ t) = dec_nat n"
    using assms(2) dec_nat_digits by (cases t) (auto simp: takeWhile_append2)
  moreover have "skip_space (dec_nat n @ t) = Some (dec_nat n @ t)"
    by (rule skip_space_digit) (simp_all add: dec_nat_hd)
  ultimately show ?thesis
    using assms(1) by (simp add: sscanf_int_def unsigned_part_def atoi_dec_nat Let_def)
qed

lemma parse_uint32_dec_nat: "parse_uint32 (dec_nat (unat w)) = Some w"
proof -
  have "unat w < 2 ^ 32" using unsigned_less [where ?'a = nat, of w] by simp
  then show ?thesis by (simp add: parse_uint32_def parse_uint_dec_nat)
qed

lemma sscanf_uint32_dec_nat: "sscanf_uint32 (dec_nat (unat w)) = Some w"
proof -
  have "skip_space (dec_nat (unat w)) = Some (dec_nat (unat w))"
    by (rule skip_space_digit) (simp_all add: dec_nat_hd)
  then show ?thesis
    by (simp add: sscanf_uint32_def parse_uint32_dec_nat)
qed

lemma fmt_int_not_Nil [simp]: "fmt_int b i \<noteq> []"
  by (simp add: fmt_int_def)

lemma dec_int_inject [simp]: "dec_int i = dec_int j \<longleftrightarrow> i = j"
proof -
  have "CHR ''-'' # s \<noteq> dec_nat n" for s n
    using dec_nat_hd [of n] by (metis digit_not_special(1) list.sel(1))
  then show ?thesis
    by (auto simp: fmt_int_def dest: sym)
qed

lemma dec_int_chars: "c \<in> set (dec_int i) \<Longrightarrow> is_digit c \<or> c = CHR ''-''"
  by (auto simp: fmt_int_def split: if_splits dest: dec_nat_digits)

lemma last_dec_nat: "is_digit (last (dec_nat n))"
  by (rule dec_nat_digits [of _ n]) simp

end
