(* ===== verification/Wire_Types.thy ===== *)
theory Wire_Types
  imports Go_Numbers
begin

unbundle bit_operations_syntax

section \<open>The data of the packet parser\<close>

text \<open>
  The constants and structs of \<open>parser/xrootd_parser.go\<close>: packet and record type codes, the
  packet header, one record per Go struct, the tagged union a packet's \<open>FileRecords\<close> holds,
  and the errors of the parser. The binary layouts (\<open>binaryHeader\<close> and its siblings) are the
  decoders that read each field at its offset. Field names carry the struct's initials, since
  a record field is a constant of the theory.
\<close>

subsection \<open>Type codes\<close>

abbreviation (input) "PacketTypeMap \<equiv> CHR ''=''"
abbreviation (input) "PacketTypeDictID \<equiv> CHR ''d''"
abbreviation (input) "PacketTypeFStat \<equiv> CHR ''f''"
abbreviation (input) "PacketTypeGStream \<equiv> CHR ''g''"
abbreviation (input) "PacketTypeInfo \<equiv> CHR ''i''"
abbreviation (input) "PacketTypePurg \<equiv> CHR ''p''"
abbreviation (input) "PacketTypeRedir \<equiv> CHR ''r''"
abbreviation (input) "PacketTypeTrace \<equiv> CHR ''t''"
abbreviation (input) "PacketTypeToken \<equiv> CHR ''T''"
abbreviation (input) "PacketTypeUser \<equiv> CHR ''u''"
abbreviation (input) "PacketTypeEAInfo \<equiv> CHR ''U''"
abbreviation (input) "PacketTypeXFR \<equiv> CHR ''x''"

abbreviation (input) "RecTypeClose \<equiv> (0 :: uint8)"
abbreviation (input) "RecTypeOpen \<equiv> (1 :: uint8)"
abbreviation (input) "RecTypeTime \<equiv> (2 :: uint8)"
abbreviation (input) "RecTypeXFR \<equiv> (3 :: uint8)"
abbreviation (input) "RecTypeDisc \<equiv> (4 :: uint8)"

subsection \<open>Structs\<close>

record Header =
  hdr_Code :: char
  hdr_Pseq :: uint8
  hdr_Plen :: uint16
  hdr_ServerStart :: int32

record MapRecord =
  mr_Header :: Header
  mr_DictId :: uint32
  mr_Info :: bytes

record FileHeader =
  fh_RecType :: uint8
  fh_RecFlag :: uint8
  fh_RecSize :: uint16
  fh_FileId :: uint32
  fh_UserId :: uint32
  fh_NRecs0 :: int16
  fh_NRecs1 :: int16

record FileTimeRecord =
  ftr_Header :: FileHeader
  ftr_TBeg :: int32
  ftr_TEnd :: int32
  ftr_SID :: int64

record StatXFR =
  xfr_Read :: int64
  xfr_Readv :: int64
  xfr_Write :: int64

record StatOPS =
  ops_Read :: int32
  ops_Readv :: int32
  ops_Write :: int32
  ops_RsMin :: int16
  ops_RsMax :: int16
  ops_Rsegs :: int64
  ops_RdMin :: int32
  ops_RdMax :: int32
  ops_RvMin :: int32
  ops_RvMax :: int32
  ops_WrMin :: int32
  ops_WrMax :: int32

record FileCloseRecord =
  fcr_Header :: FileHeader
  fcr_Xfr :: StatXFR
  fcr_Ops :: StatOPS

record FileOpenRecord =
  for_Header :: FileHeader
  for_FileSize :: int64
  for_User :: uint32
  for_Lfn :: bytes

record FileDisconnectRecord =
  fdr_Header :: FileHeader
  fdr_UserID :: uint32

datatype FileRecord =
    TimeRec FileTimeRecord
  | CloseRec FileCloseRecord
  | OpenRec FileOpenRecord
  | DiscRec FileDisconnectRecord

record UserInfo =
  ui_Protocol :: string
  ui_Username :: string
  ui_Pid :: int
  ui_Sid :: int
  ui_Host :: string

record AuthInfo =
  ai_AuthProtocol :: string
  ai_DN :: string
  ai_Hostname :: string
  ai_Org :: string
  ai_Role :: string
  ai_Groups :: string
  ai_Info :: string
  ai_ExecName :: string
  ai_MonInfo :: string
  ai_InetVersion :: string

record TokenInfo =
  ti_UserDictID :: uint32
  ti_Subject :: string
  ti_Username :: string
  ti_Org :: string
  ti_Role :: string
  ti_Groups :: string

record ServerInfo =
  si_Site :: string
  si_Port :: string
  si_Instance :: string
  si_Program :: string
  si_Version :: string

record UserRecord =
  ur_Header :: Header
  ur_DictId :: uint32
  ur_UserInfo :: UserInfo
  ur_AuthInfo :: AuthInfo
  ur_TokenInfo :: TokenInfo

text \<open>
  A decoded JSON value, as \<open>encoding/json\<close> puts it in an \<open>interface{}\<close>; a number is a
  \<open>float64\<close>, kept as its 64 bits.
\<close>

datatype json =
    JNull
  | JBool bool
  | JNum uint64
  | JStr string
  | JArr "json list"
  | JObj "(string \<times> json) list"

type_synonym json_object = "(string \<times> json) list"

record GStreamRecord =
  gs_Begin :: uint32
  gs_End :: uint32
  gs_Ident :: uint64
  gs_StreamType :: char
  gs_Events :: "json_object list"

record Packet =
  pkt_Header :: Header
  pkt_PacketType :: char
  pkt_IsXML :: bool
  pkt_MapRecord :: "MapRecord option"
  pkt_UserRecord :: "UserRecord option"
  pkt_ServerInfo :: "ServerInfo option"
  pkt_GStreamRecord :: "GStreamRecord option"
  pkt_FileRecords :: "FileRecord list"
  pkt_RawData :: bytes
  pkt_RemoteAddr :: string

datatype parse_error =
    PacketTooShort nat
  | HeaderTooShort nat
  | LengthMismatch nat nat
  | MapRecordTooShort nat
  | UserRecordTooShort nat
  | TokenRecordTooShort nat
  | GStreamTooShort nat
  | GStreamBadJSON string
  | FileRecordPacketTooShort nat
  | TimeRecordShort
  | CloseRecordShort
  | OpenRecordShort
  | EmptyUserInfo
  | MissingAt string
  | MissingColon string
  | MissingDot string
  | InvalidPid string
  | InvalidSid string
  | UnknownPacketType char

subsection \<open>Zero values\<close>

definition zero_Header :: Header where
  "zero_Header = \<lparr>hdr_Code = nul, hdr_Pseq = 0, hdr_Plen = 0, hdr_ServerStart = 0\<rparr>"

definition zero_StatOPS :: StatOPS where
  "zero_StatOPS = \<lparr>ops_Read = 0, ops_Readv = 0, ops_Write = 0, ops_RsMin = 0, ops_RsMax = 0,
     ops_Rsegs = 0, ops_RdMin = 0, ops_RdMax = 0, ops_RvMin = 0, ops_RvMax = 0,
     ops_WrMin = 0, ops_WrMax = 0\<rparr>"

definition zero_AuthInfo :: AuthInfo where
  "zero_AuthInfo = \<lparr>ai_AuthProtocol = [], ai_DN = [], ai_Hostname = [], ai_Org = [], ai_Role = [],
     ai_Groups = [], ai_Info = [], ai_ExecName = [], ai_MonInfo = [], ai_InetVersion = []\<rparr>"

definition zero_TokenInfo :: TokenInfo where
  "zero_TokenInfo = \<lparr>ti_UserDictID = 0, ti_Subject = [], ti_Username = [], ti_Org = [],
     ti_Role = [], ti_Groups = []\<rparr>"

definition zero_ServerInfo :: ServerInfo where
  "zero_ServerInfo = \<lparr>si_Site = [], si_Port = [], si_Instance = [], si_Program = [],
     si_Version = []\<rparr>"

definition zero_Packet :: Packet where
  "zero_Packet = \<lparr>pkt_Header = zero_Header, pkt_PacketType = nul, pkt_IsXML = False,
     pkt_MapRecord = None, pkt_UserRecord = None, pkt_ServerInfo = None,
     pkt_GStreamRecord = None, pkt_FileRecords = [], pkt_RawData = [], pkt_RemoteAddr = []\<rparr>"

subsection \<open>Binary layouts\<close>

text \<open>Each decoder reads the fields of one \<open>binary...\<close> struct at their offsets.\<close>

definition decode_binaryHeader :: "bytes \<Rightarrow> Header" where
  "decode_binaryHeader b = \<lparr>hdr_Code = hd b, hdr_Pseq = be8 (field 1 1 b),
     hdr_Plen = be16 (field 2 2 b), hdr_ServerStart = be32 (field 4 4 b)\<rparr>"

definition decode_binaryFileHeaderCommon :: "bytes \<Rightarrow> FileHeader" where
  "decode_binaryFileHeaderCommon b = \<lparr>fh_RecType = be8 (field 0 1 b), fh_RecFlag = be8 (field 1 1 b),
     fh_RecSize = be16 (field 2 2 b), fh_FileId = be32 (field 4 4 b),
     fh_UserId = 0, fh_NRecs0 = 0, fh_NRecs1 = 0\<rparr>"

definition decode_binaryFileTimeRecord :: "bytes \<Rightarrow> FileTimeRecord" where
  "decode_binaryFileTimeRecord b =
     \<lparr>ftr_Header = (decode_binaryFileHeaderCommon b)
        \<lparr>fh_NRecs0 := be16 (field 8 2 b), fh_NRecs1 := be16 (field 10 2 b)\<rparr>,
      ftr_TBeg = be32 (field 12 4 b), ftr_TEnd = be32 (field 16 4 b),
      ftr_SID = be64 (field 20 8 b)\<rparr>"

definition decode_binaryStatOPS :: "bytes \<Rightarrow> StatOPS" where
  "decode_binaryStatOPS b =
     \<lparr>ops_Read = be32 (field 0 4 b), ops_Readv = be32 (field 4 4 b), ops_Write = be32 (field 8 4 b),
      ops_RsMin = be16 (field 12 2 b), ops_RsMax = be16 (field 14 2 b),
      ops_Rsegs = be64 (field 16 8 b),
      ops_RdMin = be32 (field 24 4 b), ops_RdMax = be32 (field 28 4 b),
      ops_RvMin = be32 (field 32 4 b), ops_RvMax = be32 (field 36 4 b),
      ops_WrMin = be32 (field 40 4 b), ops_WrMax = be32 (field 44 4 b)\<rparr>"

definition decode_binaryFileCloseRecordHeader :: "bytes \<Rightarrow> FileCloseRecord" where
  "decode_binaryFileCloseRecordHeader b =
     \<lparr>fcr_Header = decode_binaryFileHeaderCommon b,
      fcr_Xfr = \<lparr>xfr_Read = be64 (field 8 8 b), xfr_Readv = be64 (field 16 8 b),
        xfr_Write = be64 (field 24 8 b)\<rparr>,
      fcr_Ops = zero_StatOPS\<rparr>"

definition decode_binaryFileOpenRecordHeader :: "bytes \<Rightarrow> FileOpenRecord" where
  "decode_binaryFileOpenRecordHeader b =
     \<lparr>for_Header = decode_binaryFileHeaderCommon b, for_FileSize = be64 (field 8 8 b),
      for_User = 0, for_Lfn = []\<rparr>"

abbreviation (input) "binaryHeader_size \<equiv> (8 :: nat)"
abbreviation (input) "binaryFileHeaderCommon_size \<equiv> (8 :: nat)"
abbreviation (input) "binaryFileTimeRecord_size \<equiv> (28 :: nat)"
abbreviation (input) "binaryFileCloseRecordHeader_size \<equiv> (32 :: nat)"
abbreviation (input) "binaryFileOpenRecordHeader_size \<equiv> (16 :: nat)"
abbreviation (input) "binaryStatOPS_size \<equiv> (48 :: nat)"

end
