(* ===== verification/User_Info.thy ===== *)
theory User_Info
  imports Wire_Types
begin

section \<open>Text fields: user ids and key-val lists\<close>

text \<open>
  The text parsers of \<open>parser/xrootd_parser.go\<close> (\<open>parseUserInfo\<close>, \<open>parseAuthInfo\<close>,
  \<open>parseTokenInfo\<close>, \<open>parseServerInfo\<close> and their byte-slice helpers) and the second user-id
  parser the collector keeps in \<open>collector/correlator.go\<close>. The lemmas are round trips from the
  textual form the XRootD servers send, and the comparison of the two user-id parsers: they
  agree on ids whose name has no dot and no at sign, and disagree on every name with a dot.
\<close>

subsection \<open>Byte-slice helpers\<close>

fun bytesIndexByte_from :: "nat \<Rightarrow> bytes \<Rightarrow> char \<Rightarrow> int" where
  "bytesIndexByte_from i [] c = -1"
| "bytesIndexByte_from i (v # vs) c = (if v = c then int i else bytesIndexByte_from (Suc i) vs c)"

definition bytesIndexByte :: "bytes \<Rightarrow> char \<Rightarrow> int" where
  "bytesIndexByte b c = bytesIndexByte_from 0 b c"

fun bytesLastIndexByte_down :: "bytes \<Rightarrow> char \<Rightarrow> nat \<Rightarrow> int" where
  "bytesLastIndexByte_down b c 0 = -1"
| "bytesLastIndexByte_down b c (Suc i) =
     (if b ! i = c then int i else bytesLastIndexByte_down b c i)"

definition bytesLastIndexByte :: "bytes \<Rightarrow> char \<Rightarrow> int" where
  "bytesLastIndexByte b c = bytesLastIndexByte_down b c (length b)"

fun bytesplit_from :: "bytes \<Rightarrow> bytes \<Rightarrow> char \<Rightarrow> bytes list" where
  "bytesplit_from part [] sep = (if part = [] then [] else [part])"
| "bytesplit_from part (v # vs) sep =
     (if v = sep then part # bytesplit_from [] vs sep else bytesplit_from (part @ [v]) vs sep)"

definition bytesplit :: "bytes \<Rightarrow> char \<Rightarrow> bytes list" where
  "bytesplit b sep = bytesplit_from [] b sep"

text \<open>The slices \<open>b[:i]\<close> and \<open>b[i+1:]\<close> around an index found before.\<close>

abbreviation slice_to :: "bytes \<Rightarrow> int \<Rightarrow> bytes" where
  "slice_to b i \<equiv> take (nat i) b"

abbreviation slice_after :: "bytes \<Rightarrow> int \<Rightarrow> bytes" where
  "slice_after b i \<equiv> drop (nat (i + 1)) b"

lemma bytesIndexByte_from_none: "c \<notin> set b \<Longrightarrow> bytesIndexByte_from i b c = -1"
  by (induction b arbitrary: i) auto

lemma bytesIndexByte_from_append:
  "c \<notin> set a \<Longrightarrow> bytesIndexByte_from i (a @ c # b) c = int (i + length a)"
  by (induction a arbitrary: i) auto

lemma bytesIndexByte_none [text_simps]: "c \<notin> set b \<Longrightarrow> bytesIndexByte b c = -1"
  by (simp add: bytesIndexByte_def bytesIndexByte_from_none)

lemma bytesIndexByte_append [text_simps]:
  "c \<notin> set a \<Longrightarrow> bytesIndexByte (a @ c # b) c = int (length a)"
  by (simp add: bytesIndexByte_def bytesIndexByte_from_append)

lemma bytesLastIndexByte_append [text_simps]:
  assumes "c \<notin> set b"
  shows "bytesLastIndexByte (a @ c # b) c = int (length a)"
proof -
  have "bytesLastIndexByte_down (a @ c # b) c (Suc (length a) + n) = int (length a)"
    if "n \<le> length b" for n
    using that
  proof (induction n)
    case (Suc n)
    then have "b ! n \<noteq> c" using assms by (metis Suc_le_lessD nth_mem)
    with Suc show ?case by (simp add: nth_append)
  qed simp
  from this [of "length b"] show ?thesis by (simp add: bytesLastIndexByte_def)
qed

lemma slice_to_append [text_simps]: "slice_to (a @ b) (int (length a)) = a"
  by simp

lemma slice_after_append [text_simps]: "slice_after (a @ c # b) (int (length a)) = b"
proof -
  have "nat (int (length a) + 1) = Suc (length a)" by simp
  then show ?thesis by simp
qed

lemma bytesplit_from_part [text_simps]:
  "sep \<notin> set p \<Longrightarrow> bytesplit_from a (p @ sep # b) sep = (a @ p) # bytesplit_from [] b sep"
  by (induction p arbitrary: a) auto

lemma bytesplit_from_last [text_simps]:
  "sep \<notin> set p \<Longrightarrow> bytesplit_from a p sep = (if a @ p = [] then [] else [a @ p])"
  by (induction p arbitrary: a) auto

subsection \<open>User ids: [protocol/]username.pid:sid@host\<close>

definition parse_user_numbers :: "string \<Rightarrow> string \<Rightarrow> string \<Rightarrow> string \<Rightarrow> string \<Rightarrow> parse_error + UserInfo" where
  "parse_user_numbers proto username pidStr sidStr host =
     (case sscanf_int pidStr of
        None \<Rightarrow> Inl (InvalidPid pidStr)
      | Some pid \<Rightarrow>
          (case sscanf_int sidStr of
             None \<Rightarrow> Inl (InvalidSid sidStr)
           | Some sid \<Rightarrow>
               Inr \<lparr>ui_Protocol = proto, ui_Username = username, ui_Pid = pid, ui_Sid = sid,
                    ui_Host = host\<rparr>))"

definition parse_user_pid_sid :: "string \<Rightarrow> string \<Rightarrow> string \<Rightarrow> parse_error + UserInfo" where
  "parse_user_pid_sid proto host s =
     (let colonIdx = bytesIndexByte s (CHR '':'')
      in if colonIdx < 0 then Inl (MissingColon s)
         else
           let sidStr = slice_after s colonIdx;
               s = slice_to s colonIdx;
               dotIdx = bytesLastIndexByte s (CHR ''.'')
           in if dotIdx < 0 then Inl (MissingDot s)
              else parse_user_numbers proto (slice_to s dotIdx) (slice_after s dotIdx) sidStr host)"

definition parse_user_host :: "string \<Rightarrow> string \<Rightarrow> parse_error + UserInfo" where
  "parse_user_host proto s =
     (let atIdx = bytesLastIndexByte s (CHR ''@'')
      in if atIdx < 0 then Inl (MissingAt s)
         else parse_user_pid_sid proto (slice_after s atIdx) (slice_to s atIdx))"

definition parseUserInfo :: "bytes \<Rightarrow> parse_error + UserInfo" where
  "parseUserInfo b =
     (if b = [] then Inl EmptyUserInfo
      else
        let idx = bytesIndexByte b (CHR ''/'')
        in if 0 \<le> idx then parse_user_host (slice_to b idx) (slice_after b idx)
           else parse_user_host [] b)"

text \<open>The collector's own parser of the same text; its errors carry no value.\<close>

definition collector_parseUserInfo :: "bytes \<Rightarrow> UserInfo option" where
  "collector_parseUserInfo info =
     (case splitn2 (CHR ''@'') info of
        [userPart, host] \<Rightarrow>
          (let proto = (if CHR ''/'' \<in> set userPart then before (CHR ''/'') userPart else []);
               userPart = (if CHR ''/'' \<in> set userPart then after (CHR ''/'') userPart else userPart)
           in case splitn2 (CHR ''.'') userPart of
                [username, pidSid] \<Rightarrow>
                  (let (pid, sid) =
                         (case splitn2 (CHR '':'') pidSid of
                            [p, q] \<Rightarrow> (fst (atoi p), fst (atoi q))
                          | _ \<Rightarrow> (0, 0))
                   in Some \<lparr>ui_Protocol = proto, ui_Username = username, ui_Pid = pid,
                            ui_Sid = sid, ui_Host = host\<rparr>)
              | _ \<Rightarrow> None)
      | _ \<Rightarrow> None)"

text \<open>The text of a user id, as the servers send it.\<close>

definition userinfo_text :: "UserInfo \<Rightarrow> string" where
  "userinfo_text u =
     (if ui_Protocol u = [] then [] else ui_Protocol u @ ''/'') @ ui_Username u @ ''.'' @
     dec_nat (nat (ui_Pid u)) @ '':'' @ dec_nat (nat (ui_Sid u)) @ ''@'' @ ui_Host u"

text \<open>Ids the parser reads back: the delimiters it looks for do not occur too early or too late.\<close>

definition wf_userinfo :: "UserInfo \<Rightarrow> bool" where
  "wf_userinfo u \<longleftrightarrow>
     CHR ''/'' \<notin> set (ui_Protocol u) \<and>
     (ui_Protocol u = [] \<longrightarrow> CHR ''/'' \<notin> set (ui_Username u) \<and> CHR ''/'' \<notin> set (ui_Host u)) \<and>
     CHR '':'' \<notin> set (ui_Username u) \<and> CHR ''@'' \<notin> set (ui_Host u) \<and>
     0 \<le> ui_Pid u \<and> ui_Pid u < 2 ^ 63 \<and> 0 \<le> ui_Sid u \<and> ui_Sid u < 2 ^ 63"

text \<open>Ids without a dot or an at sign in the name: the ones both parsers read alike.\<close>

definition plain_userinfo :: "UserInfo \<Rightarrow> bool" where
  "plain_userinfo u \<longleftrightarrow>
     CHR ''@'' \<notin> set (ui_Protocol u) \<and> CHR ''@'' \<notin> set (ui_Username u) \<and>
     CHR ''.'' \<notin> set (ui_Username u)"

lemma dec_nat_no_special [text_simps]:
  "CHR ''.'' \<notin> set (dec_nat n)" "CHR '':'' \<notin> set (dec_nat n)" "CHR ''@'' \<notin> set (dec_nat n)"
  "CHR ''/'' \<notin> set (dec_nat n)" "CHR ''#'' \<notin> set (dec_nat n)" "CHR ''-'' \<notin> set (dec_nat n)"
  "CHR ''&'' \<notin> set (dec_nat n)"
  using dec_nat_digits [of _ n] by (blast dest: digit_not_special)+

lemma sscanf_int_dec_nat_end: "n < 2 ^ 63 \<Longrightarrow> sscanf_int (dec_nat n) = Some (int n)"
  using sscanf_int_dec_nat [of n "[]"] by simp

lemma parse_user_pid_sid_text:
  assumes "CHR '':'' \<notin> set name" and "p < 2 ^ 63" and "q < 2 ^ 63"
  shows "parse_user_pid_sid proto host (name @ CHR ''.'' # dec_nat p @ CHR '':'' # dec_nat q) =
    Inr \<lparr>ui_Protocol = proto, ui_Username = name, ui_Pid = int p, ui_Sid = int q, ui_Host = host\<rparr>"
proof -
  let ?s = "name @ CHR ''.'' # dec_nat p"
  have s: "name @ CHR ''.'' # dec_nat p @ CHR '':'' # dec_nat q = ?s @ CHR '':'' # dec_nat q"
    by simp
  have "CHR '':'' \<notin> set ?s" using assms(1) by (simp add: text_simps)
  then have colon: "bytesIndexByte (?s @ CHR '':'' # dec_nat q) (CHR '':'') = int (length ?s)"
    by (rule bytesIndexByte_append)
  have dot: "bytesLastIndexByte ?s (CHR ''.'') = int (length name)"
    by (rule bytesLastIndexByte_append) (simp add: text_simps)
  have num: "sscanf_int (dec_nat p) = Some (int p)" "sscanf_int (dec_nat q) = Some (int q)"
    using assms(2,3) by (auto intro: sscanf_int_dec_nat_end)
  have nonneg: "\<not> int n < 0" for n by simp
  show ?thesis
    unfolding s parse_user_pid_sid_def Let_def colon slice_after_append slice_to_append dot
      parse_user_numbers_def num
    by (simp only: nonneg if_False option.case)
qed

lemma parse_user_host_text:
  assumes "CHR '':'' \<notin> set name" and "CHR ''@'' \<notin> set host" and "p < 2 ^ 63" and "q < 2 ^ 63"
  shows "parse_user_host proto
      (name @ CHR ''.'' # dec_nat p @ CHR '':'' # dec_nat q @ CHR ''@'' # host) =
    Inr \<lparr>ui_Protocol = proto, ui_Username = name, ui_Pid = int p, ui_Sid = int q, ui_Host = host\<rparr>"
proof -
  let ?s = "name @ CHR ''.'' # dec_nat p @ CHR '':'' # dec_nat q"
  have s: "name @ CHR ''.'' # dec_nat p @ CHR '':'' # dec_nat q @ CHR ''@'' # host
      = ?s @ CHR ''@'' # host"
    by simp
  have at: "bytesLastIndexByte (?s @ CHR ''@'' # host) (CHR ''@'') = int (length ?s)"
    using assms(2) by (rule bytesLastIndexByte_append)
  have nonneg: "\<not> int n < 0" for n by simp
  show ?thesis
    unfolding s parse_user_host_def Let_def at slice_after_append slice_to_append
      parse_user_pid_sid_text [OF assms(1,3,4)]
    by (simp only: nonneg if_False)
qed

lemma parseUserInfo_userinfo_text:
  assumes "wf_userinfo u"
  shows "parseUserInfo (userinfo_text u) = Inr u"
proof -
  let ?body = "ui_Username u @ CHR ''.'' # dec_nat (nat (ui_Pid u)) @ CHR '':'' #
    dec_nat (nat (ui_Sid u)) @ CHR ''@'' # ui_Host u"
  have w: "CHR '':'' \<notin> set (ui_Username u)" "CHR ''@'' \<notin> set (ui_Host u)"
    "nat (ui_Pid u) < 2 ^ 63" "nat (ui_Sid u) < 2 ^ 63"
    and nn: "0 \<le> ui_Pid u" "0 \<le> ui_Sid u"
    using assms by (auto simp: wf_userinfo_def)
  note host = parse_user_host_text [OF w]
  show ?thesis
  proof (cases "ui_Protocol u = []")
    case True
    then have "CHR ''/'' \<notin> set ?body" using assms by (simp add: wf_userinfo_def text_simps)
    then have "bytesIndexByte ?body (CHR ''/'') = -1" by (rule bytesIndexByte_none)
    with True nn show ?thesis by (simp add: userinfo_text_def parseUserInfo_def host)
  next
    case False
    have "CHR ''/'' \<notin> set (ui_Protocol u)" using assms by (simp add: wf_userinfo_def)
    then have idx: "bytesIndexByte (ui_Protocol u @ CHR ''/'' # ?body) (CHR ''/'')
        = int (length (ui_Protocol u))"
      by (rule bytesIndexByte_append)
    have shape: "userinfo_text u = ui_Protocol u @ CHR ''/'' # ?body"
      using False by (simp add: userinfo_text_def)
    have "parseUserInfo (userinfo_text u) = parse_user_host (ui_Protocol u) ?body"
      unfolding shape parseUserInfo_def Let_def idx slice_to_append slice_after_append by simp
    with nn show ?thesis by (simp add: host)
  qed
qed

lemma collector_parseUserInfo_body:
  assumes "CHR ''@'' \<notin> set proto" and "CHR ''@'' \<notin> set name" and "CHR ''/'' \<notin> set proto"
    and "proto = [] \<longrightarrow> CHR ''/'' \<notin> set name" and "CHR ''@'' \<notin> set rest"
    and "proto = [] \<longrightarrow> CHR ''/'' \<notin> set rest" and "CHR ''.'' \<notin> set name"
  shows "collector_parseUserInfo
      ((if proto = [] then [] else proto @ ''/'') @ name @ ''.'' @ rest @ ''@'' @ host) =
    (let (pid, sid) = (case splitn2 (CHR '':'') rest of
            [p, q] \<Rightarrow> (fst (atoi p), fst (atoi q)) | _ \<Rightarrow> (0, 0))
     in Some \<lparr>ui_Protocol = proto, ui_Username = name, ui_Pid = pid, ui_Sid = sid, ui_Host = host\<rparr>)"
proof -
  let ?up = "(if proto = [] then [] else proto @ ''/'') @ name @ ''.'' @ rest"
  have "CHR ''@'' \<notin> set ?up" using assms by simp
  then have at: "splitn2 (CHR ''@'') (?up @ CHR ''@'' # host) = [?up, host]"
    by (rule splitn2_append)
  have split: "splitn2 (CHR ''.'') (name @ CHR ''.'' # rest) = [name, rest]"
    using assms(7) by (rule splitn2_append)
  have slash: "(if CHR ''/'' \<in> set ?up then before (CHR ''/'') ?up else []) = proto"
    "(if CHR ''/'' \<in> set ?up then after (CHR ''/'') ?up else ?up) = name @ CHR ''.'' # rest"
    using assms before_append [of "CHR ''/''" proto] after_append [of "CHR ''/''" proto] by auto
  have "(if proto = [] then [] else proto @ ''/'') @ name @ ''.'' @ rest @ ''@'' @ host
      = ?up @ CHR ''@'' # host" by simp
  then show ?thesis
    by (simp only: collector_parseUserInfo_def at list.case Let_def slash split)
qed

lemma collector_parseUserInfo_userinfo_text:
  assumes "wf_userinfo u" and "plain_userinfo u"
  shows "collector_parseUserInfo (userinfo_text u) = Some u"
proof -
  let ?p = "dec_nat (nat (ui_Pid u))" and ?q = "dec_nat (nat (ui_Sid u))"
  have shape: "userinfo_text u = (if ui_Protocol u = [] then [] else ui_Protocol u @ ''/'')
      @ ui_Username u @ ''.'' @ (?p @ '':'' @ ?q) @ ''@'' @ ui_Host u"
    by (simp add: userinfo_text_def)
  have pq: "splitn2 (CHR '':'') (?p @ '':'' @ ?q) = [?p, ?q]"
    using splitn2_append [of "CHR '':''" ?p ?q] by (simp add: text_simps)
  have "collector_parseUserInfo (userinfo_text u) =
      (let (pid, sid) = (case splitn2 (CHR '':'') (?p @ '':'' @ ?q) of
            [p, q] \<Rightarrow> (fst (atoi p), fst (atoi q)) | _ \<Rightarrow> (0, 0))
       in Some \<lparr>ui_Protocol = ui_Protocol u, ui_Username = ui_Username u, ui_Pid = pid,
            ui_Sid = sid, ui_Host = ui_Host u\<rparr>)"
    unfolding shape
    by (rule collector_parseUserInfo_body)
      (use assms in \<open>auto simp: wf_userinfo_def plain_userinfo_def text_simps\<close>)
  moreover have "atoi ?p = (ui_Pid u, True)" and "atoi ?q = (ui_Sid u, True)"
    using assms(1) atoi_dec_nat [of "nat (ui_Pid u)"] atoi_dec_nat [of "nat (ui_Sid u)"]
    by (auto simp: wf_userinfo_def)
  ultimately show ?thesis using pq by simp
qed

lemma collector_parseUserInfo_dotted:
  assumes "wf_userinfo u" and "CHR ''.'' \<in> set (ui_Username u)"
  shows "collector_parseUserInfo (userinfo_text u) \<noteq> Some u"
proof
  assume eq: "collector_parseUserInfo (userinfo_text u) = Some u"
  have "CHR ''.'' \<notin> set name" if "splitn2 (CHR ''.'') s = [name, rest]" for s name rest
    using that before_no_sep [of "CHR ''.''"] by (auto simp: splitn2_def split: if_splits)
  with eq have "CHR ''.'' \<notin> set (ui_Username u)"
    by (auto simp: collector_parseUserInfo_def Let_def split: list.splits prod.splits)
  with assms(2) show False by simp
qed

subsection \<open>Key-val lists: &key=val&key=val\<close>

text \<open>
  The three parsers share one loop: split at \<open>&\<close>, skip a part with no \<open>=\<close> or nothing after
  it, cut the others at their first \<open>=\<close> and assign the field the key names.
\<close>

definition kv_split :: "bytes \<Rightarrow> (string \<times> string) option" where
  "kv_split part =
     (if part = [] then None
      else
        let eqIdx = bytesIndexByte part (CHR ''='')
        in if eqIdx < 0 \<or> int (length part) - 1 \<le> eqIdx then None
           else Some (slice_to part eqIdx, slice_after part eqIdx))"

definition parse_kvs :: "(string \<Rightarrow> string \<Rightarrow> 'a \<Rightarrow> 'a) \<Rightarrow> 'a \<Rightarrow> bytes \<Rightarrow> 'a" where
  "parse_kvs assign info b =
     foldl (\<lambda>info part. case kv_split part of None \<Rightarrow> info | Some (key, val) \<Rightarrow> assign key val info)
       info (bytesplit b (CHR ''&''))"

definition assign_auth :: "string \<Rightarrow> string \<Rightarrow> AuthInfo \<Rightarrow> AuthInfo" where
  "assign_auth key val info =
     (if key = ''p'' then info\<lparr>ai_AuthProtocol := val\<rparr>
      else if key = ''n'' then info\<lparr>ai_DN := val\<rparr>
      else if key = ''h'' then info\<lparr>ai_Hostname := val\<rparr>
      else if key = ''o'' then info\<lparr>ai_Org := val\<rparr>
      else if key = ''r'' then info\<lparr>ai_Role := val\<rparr>
      else if key = ''g'' then info\<lparr>ai_Groups := val\<rparr>
      else if key = ''m'' then info\<lparr>ai_Info := val\<rparr>
      else if key = ''x'' then info\<lparr>ai_ExecName := val\<rparr>
      else if key = ''y'' then info\<lparr>ai_MonInfo := val\<rparr>
      else if key = ''I'' then info\<lparr>ai_InetVersion := val\<rparr>
      else info)"

definition parseAuthInfo :: "bytes \<Rightarrow> AuthInfo" where
  "parseAuthInfo b = (if b = [] then zero_AuthInfo else parse_kvs assign_auth zero_AuthInfo b)"

definition assign_token :: "string \<Rightarrow> string \<Rightarrow> TokenInfo \<Rightarrow> TokenInfo" where
  "assign_token key val info =
     (if key = ''Uc'' then
        (case sscanf_uint32 val of None \<Rightarrow> info | Some udid \<Rightarrow> info\<lparr>ti_UserDictID := udid\<rparr>)
      else if key = ''s'' then info\<lparr>ti_Subject := val\<rparr>
      else if key = ''n'' then info\<lparr>ti_Username := val\<rparr>
      else if key = ''o'' then info\<lparr>ti_Org := val\<rparr>
      else if key = ''r'' then info\<lparr>ti_Role := val\<rparr>
      else if key = ''g'' then info\<lparr>ti_Groups := val\<rparr>
      else info)"

definition parseTokenInfo :: "bytes \<Rightarrow> TokenInfo" where
  "parseTokenInfo b = (if b = [] then zero_TokenInfo else parse_kvs assign_token zero_TokenInfo b)"

definition assign_server :: "string \<Rightarrow> string \<Rightarrow> ServerInfo \<Rightarrow> ServerInfo" where
  "assign_server key val info =
     (if key = ''site'' then info\<lparr>si_Site := val\<rparr>
      else if key = ''port'' then info\<lparr>si_Port := val\<rparr>
      else if key = ''inst'' then info\<lparr>si_Instance := val\<rparr>
      else if key = ''pgm'' then info\<lparr>si_Program := val\<rparr>
      else if key = ''ver'' then info\<lparr>si_Version := val\<rparr>
      else info)"

definition parseServerInfo :: "bytes \<Rightarrow> ServerInfo" where
  "parseServerInfo b = (if b = [] then zero_ServerInfo else parse_kvs assign_server zero_ServerInfo b)"

text \<open>The text of a list of pairs, as a server sends it.\<close>

fun kv_text :: "(string \<times> string) list \<Rightarrow> string" where
  "kv_text [] = []"
| "kv_text ((key, val) # kvs) = CHR ''&'' # key @ CHR ''='' # val @ kv_text kvs"

definition wf_kvs :: "(string \<times> string) list \<Rightarrow> bool" where
  "wf_kvs kvs \<longleftrightarrow>
     (\<forall>(key, val) \<in> set kvs. CHR ''&'' \<notin> set key \<and> CHR ''='' \<notin> set key \<and> CHR ''&'' \<notin> set val)"

fun assign_all :: "(string \<Rightarrow> string \<Rightarrow> 'a \<Rightarrow> 'a) \<Rightarrow> 'a \<Rightarrow> (string \<times> string) list \<Rightarrow> 'a" where
  "assign_all assign info [] = info"
| "assign_all assign info ((key, val) # kvs) =
     assign_all assign (if val = [] then info else assign key val info) kvs"

lemma kv_split_pair:
  assumes "CHR ''='' \<notin> set key"
  shows "kv_split (key @ CHR ''='' # val) = (if val = [] then None else Some (key, val))"
proof -
  have "bytesIndexByte (key @ CHR ''='' # val) (CHR ''='') = int (length key)"
    using assms by (rule bytesIndexByte_append)
  moreover have "slice_after (key @ CHR ''='' # val) (int (length key)) = val"
    by (rule slice_after_append)
  ultimately show ?thesis by (simp add: kv_split_def Let_def)
qed

lemma parse_kvs_tail:
  assumes "wf_kvs kvs" and "CHR ''&'' \<notin> set part"
  shows "foldl (\<lambda>info part. case kv_split part of None \<Rightarrow> info | Some (key, val) \<Rightarrow> assign key val info)
      info (bytesplit_from [] (part @ kv_text kvs) (CHR ''&'')) =
    assign_all assign
      (case kv_split part of None \<Rightarrow> info | Some (key, val) \<Rightarrow> assign key val info) kvs"
  using assms
proof (induction kvs arbitrary: part info)
  case Nil
  have "kv_split [] = None" by (simp add: kv_split_def)
  with Nil show ?case by (cases part) (auto simp: bytesplit_from_last)
next
  case (Cons kv kvs)
  obtain key val where kv: "kv = (key, val)" by (cases kv)
  with Cons.prems have w: "wf_kvs kvs" "CHR ''='' \<notin> set key" "CHR ''&'' \<notin> set (key @ CHR ''='' # val)"
    by (auto simp: wf_kvs_def)
  have "bytesplit_from [] (part @ kv_text (kv # kvs)) (CHR ''&'')
      = part # bytesplit_from [] ((key @ CHR ''='' # val) @ kv_text kvs) (CHR ''&'')"
    using Cons.prems by (simp add: kv bytesplit_from_part)
  with Cons.IH [OF w(1,3)] w(2) show ?case
    by (simp add: kv kv_split_pair)
qed

text \<open>A well-formed list of pairs is read pair by pair, later pairs over earlier ones.\<close>

lemma parse_kvs_kv_text:
  "wf_kvs kvs \<Longrightarrow> parse_kvs assign info (kv_text kvs) = assign_all assign info kvs"
  using parse_kvs_tail [of kvs "[]" assign info]
  by (simp add: parse_kvs_def bytesplit_def kv_split_def)

end
