(* ===== verification/Keys.thy ===== *)
theory Keys
  imports User_Info
begin

section \<open>Map keys (collector/key_builder.go)\<close>

text \<open>
  The strings under which the correlator files its state. A \<open>KeyBuilder\<close> is an append-only
  buffer taken from a pool and emptied on release, so a built key is the concatenation of what
  was written. The lemmas: which keys are injective in what they name, that the families
  sharing one map never meet, and that user-info keys keep only 32 bits of the pid and the sid.
\<close>

text \<open>The writers of \<open>KeyBuilder\<close>: each returns the buffer with its argument appended.\<close>

definition WriteUint32 :: "string \<Rightarrow> uint32 \<Rightarrow> string" where
  "WriteUint32 buf n = buf @ dec_nat (unat n)"

definition WriteInt64 :: "string \<Rightarrow> int64 \<Rightarrow> string" where
  "WriteInt64 buf n = buf @ dec_int (sint n)"

definition WriteInt32Hex :: "string \<Rightarrow> int32 \<Rightarrow> string" where
  "WriteInt32Hex buf n = buf @ fmt_int 16 (sint n)"

definition BuildDictKey :: "string \<Rightarrow> uint32 \<Rightarrow> string" where
  "BuildDictKey serverID dictID = WriteUint32 (serverID @ ''-dict-'') dictID"

definition BuildDictIDKey :: "string \<Rightarrow> uint32 \<Rightarrow> string" where
  "BuildDictIDKey serverID dictID = WriteUint32 (serverID @ ''-dictid-'') dictID"

definition BuildFileKey :: "string \<Rightarrow> uint32 \<Rightarrow> string" where
  "BuildFileKey serverID fileID = WriteUint32 (serverID @ ''-file-'') fileID"

definition BuildTimeKey :: "string \<Rightarrow> uint32 \<Rightarrow> int64 \<Rightarrow> string" where
  "BuildTimeKey serverID fileID sid =
     WriteInt64 (WriteUint32 (serverID @ ''-time-'') fileID @ ''-'') sid"

definition BuildUserInfoKey :: "string \<Rightarrow> UserInfo \<Rightarrow> string" where
  "BuildUserInfoKey serverID info =
     WriteUint32 (WriteUint32 (serverID @ ''-userinfo-'' @ ui_Protocol info @ ''/'' @
       ui_Username info @ ''.'') (word_of_int (ui_Pid info)) @ '':'') (word_of_int (ui_Sid info)) @
     ''@'' @ ui_Host info"

definition BuildServerID :: "int32 \<Rightarrow> string \<Rightarrow> string" where
  "BuildServerID serverStart remoteAddr = dec_int (sint serverStart) @ ''#'' @ remoteAddr"

definition BuildUserHex :: "uint32 \<Rightarrow> string" where
  "BuildUserHex userID = WriteInt32Hex [] userID"

subsection \<open>Keys that end in a number\<close>

text \<open>The digits at the end of a key are the number written last.\<close>

lemma trailing_number:
  assumes "s @ c # dec_nat m = t @ d # dec_nat n" and "\<not> is_digit c" and "\<not> is_digit d"
  shows "s = t \<and> c = d \<and> m = n"
proof -
  have tail: "takeWhile is_digit (rev (x @ e # dec_nat k)) = rev (dec_nat k)"
    if "\<not> is_digit e" for x e k
    using that by (simp add: takeWhile_append dec_nat_digits)
  from tail [OF assms(2), of s m] tail [OF assms(3), of t n] assms(1)
  have "dec_nat m = dec_nat n" by (metis rev_rev_ident)
  with assms(1) show ?thesis by simp
qed

lemma dash_not_digit [simp]: "\<not> is_digit (CHR ''-'')"
  by (simp add: is_digit_def)

lemma unat_dec_inject [simp]: "dec_nat (unat (a :: 'a::len word)) = dec_nat (unat b) \<longleftrightarrow> a = b"
  by (simp add: word_unat_eq_iff)

text \<open>Two keys of the families \<open>s-tag-number\<close> agree only when everything does.\<close>

lemma tagged_key:
  assumes "s @ tag @ CHR ''-'' # dec_nat m = t @ tag' @ CHR ''-'' # dec_nat n"
  shows "s @ tag = t @ tag' \<and> m = n"
  using trailing_number [of "s @ tag" "CHR ''-''" m "t @ tag'" "CHR ''-''" n] assms by simp

lemma BuildFileKey_shape: "BuildFileKey s f = s @ ''-file'' @ CHR ''-'' # dec_nat (unat f)"
  by (simp add: BuildFileKey_def WriteUint32_def)

lemma BuildDictKey_shape: "BuildDictKey s f = s @ ''-dict'' @ CHR ''-'' # dec_nat (unat f)"
  by (simp add: BuildDictKey_def WriteUint32_def)

lemma BuildDictIDKey_shape: "BuildDictIDKey s f = s @ ''-dictid'' @ CHR ''-'' # dec_nat (unat f)"
  by (simp add: BuildDictIDKey_def WriteUint32_def)

lemma BuildFileKey_inject [simp]: "BuildFileKey s f = BuildFileKey t g \<longleftrightarrow> s = t \<and> f = g"
proof
  assume "BuildFileKey s f = BuildFileKey t g"
  from tagged_key [OF this [unfolded BuildFileKey_shape]] show "s = t \<and> f = g"
    by (simp add: word_unat_eq_iff)
qed simp

lemma BuildDictKey_inject [simp]: "BuildDictKey s f = BuildDictKey t g \<longleftrightarrow> s = t \<and> f = g"
proof
  assume "BuildDictKey s f = BuildDictKey t g"
  from tagged_key [OF this [unfolded BuildDictKey_shape]] show "s = t \<and> f = g"
    by (simp add: word_unat_eq_iff)
qed simp

lemma BuildDictIDKey_inject [simp]: "BuildDictIDKey s f = BuildDictIDKey t g \<longleftrightarrow> s = t \<and> f = g"
proof
  assume "BuildDictIDKey s f = BuildDictIDKey t g"
  from tagged_key [OF this [unfolded BuildDictIDKey_shape]] show "s = t \<and> f = g"
    by (simp add: word_unat_eq_iff)
qed simp

lemma dict_not_dictid [simp]: "BuildDictKey s f \<noteq> BuildDictIDKey t g"
proof
  assume "BuildDictKey s f = BuildDictIDKey t g"
  from tagged_key [OF this [unfolded BuildDictKey_shape BuildDictIDKey_shape]]
  have "last (s @ ''-dict'') = last (t @ ''-dictid'')" by metis
  then show False by simp
qed

lemma dictid_not_dict [simp]: "BuildDictIDKey t g \<noteq> BuildDictKey s f"
  using dict_not_dictid by metis

lemma fmt_int_snoc: "\<exists>sign. sign \<in> {[], ''-''} \<and> dec_int i = sign @ dec_nat (nat \<bar>i\<bar>)"
  by (auto simp: fmt_int_def)

text \<open>A file key and a time key never meet in the state map they share.\<close>

lemma file_not_time [simp]: "BuildFileKey s f \<noteq> BuildTimeKey t g sid"
proof
  assume eq: "BuildFileKey s f = BuildTimeKey t g sid"
  obtain sign where sign: "sign \<in> {[], ''-''}" "dec_int (sint sid) = sign @ dec_nat (nat \<bar>sint sid\<bar>)"
    using fmt_int_snoc by blast
  let ?pre = "t @ ''-time-'' @ dec_nat (unat g)"
  have time: "BuildTimeKey t g sid = ?pre @ ''-'' @ sign @ dec_nat (nat \<bar>sint sid\<bar>)"
    by (simp add: BuildTimeKey_def WriteInt64_def WriteUint32_def sign(2))
  have "s @ ''-file'' = ?pre \<or> s @ ''-file'' = ?pre @ ''-''"
    using eq [unfolded BuildFileKey_shape time] sign(1)
      trailing_number [of "s @ ''-file''" "CHR ''-''" "unat f" ?pre "CHR ''-''" "nat \<bar>sint sid\<bar>"]
      trailing_number [of "s @ ''-file''" "CHR ''-''" "unat f" "?pre @ ''-''" "CHR ''-''" "nat \<bar>sint sid\<bar>"]
    by auto
  then have "last (s @ ''-file'') = last (dec_nat (unat g)) \<or> last (s @ ''-file'') = CHR ''-''"
    by (metis append_is_Nil_conv fmt_nat_not_Nil last_appendR last_snoc)
  moreover have "\<not> is_digit (CHR ''e'')" by (simp add: is_digit_def)
  ultimately show False using last_dec_nat [of "unat g"] by auto
qed

lemma time_not_file [simp]: "BuildTimeKey t g sid \<noteq> BuildFileKey s f"
  using file_not_time by metis

subsection \<open>User-info keys and server ids\<close>

text \<open>Ids of equal pid and sid modulo 2^32 and equal text have one key.\<close>

definition same_session :: "UserInfo \<Rightarrow> UserInfo \<Rightarrow> bool" where
  "same_session u v \<longleftrightarrow> ui_Protocol u = ui_Protocol v \<and> ui_Username u = ui_Username v \<and>
     ui_Host u = ui_Host v \<and> ui_Pid u mod 2 ^ 32 = ui_Pid v mod 2 ^ 32 \<and>
     ui_Sid u mod 2 ^ 32 = ui_Sid v mod 2 ^ 32"

lemma word_of_int_mod: "i mod 2 ^ 32 = j mod 2 ^ 32 \<Longrightarrow> (word_of_int i :: uint32) = word_of_int j"
  by (simp add: word_of_int_eq_iff take_bit_eq_mod)

lemma BuildUserInfoKey_same_session:
  assumes "same_session u v"
  shows "BuildUserInfoKey s u = BuildUserInfoKey s v"
proof -
  have "(word_of_int (ui_Pid u) :: uint32) = word_of_int (ui_Pid v)"
    and "(word_of_int (ui_Sid u) :: uint32) = word_of_int (ui_Sid v)"
    using assms by (auto simp: same_session_def intro: word_of_int_mod)
  moreover have "ui_Protocol u = ui_Protocol v" "ui_Username u = ui_Username v" "ui_Host u = ui_Host v"
    using assms by (simp_all add: same_session_def)
  ultimately show ?thesis by (simp add: BuildUserInfoKey_def)
qed

text \<open>Server ids are injective: the start time has no \<open>#\<close>.\<close>

lemma BuildServerID_inject [simp]: "BuildServerID a r = BuildServerID b q \<longleftrightarrow> a = b \<and> r = q"
proof
  assume eq: "BuildServerID a r = BuildServerID b q"
  have no: "CHR ''#'' \<notin> set (dec_int i)" for i
    using dec_int_chars [of "CHR ''#''" i] by (auto simp: is_digit_def)
  have "before (CHR ''#'') (BuildServerID a r) = dec_int (sint a)"
    "before (CHR ''#'') (BuildServerID b q) = dec_int (sint b)"
    unfolding BuildServerID_def using before_append [OF no] by simp_all
  with eq have "dec_int (sint a) = dec_int (sint b)" by simp
  with eq show "a = b \<and> r = q" by (auto simp: BuildServerID_def intro: signed_word_eqI)
qed simp

end
