(* ===== verification/State_Map.thy ===== *)
theory State_Map
  imports Prelude
begin

section \<open>The expiring map (collector/state.go)\<close>

text \<open>
  \<open>StateMap\<close>: a map whose entries expire \<open>ttl\<close> after they were last set, bounded by
  \<open>maxEntries\<close> when that is positive, and swept by a janitor. Each operation runs under the
  map's lock, so it is one step; the clock is the argument \<open>now\<close>, nanoseconds since the epoch.
  The locale \<open>ttl_store\<close> is what the correlator relies on: the laws of lookup, store, remove
  and sweep, and what follows from them for a run of operations; its interpretation
  \<open>state_map\<close> proves the laws of the model.
\<close>

subsection \<open>State and operations\<close>

record 'v StateEntry =
  se_Value :: 'v
  se_ExpiresAt :: int

record 'v StateMap =
  sm_entries :: "(string \<times> 'v StateEntry) list"
  sm_ttl :: int
  sm_maxEntries :: int

definition NewStateMap :: "int \<Rightarrow> int \<Rightarrow> 'v StateMap" where
  "NewStateMap ttl maxEntries = \<lparr>sm_entries = [], sm_ttl = ttl, sm_maxEntries = maxEntries\<rparr>"

text \<open>\<open>now.After(entry.ExpiresAt)\<close>\<close>

definition sm_expired :: "int \<Rightarrow> 'v StateEntry \<Rightarrow> bool" where
  "sm_expired now entry \<longleftrightarrow> se_ExpiresAt entry < now"

definition sm_Set :: "int \<Rightarrow> string \<Rightarrow> 'v \<Rightarrow> 'v StateMap \<Rightarrow> 'v StateMap \<times> bool" where
  "sm_Set now key val sm =
     (if 0 < sm_maxEntries sm \<and> sm_maxEntries sm \<le> int (length (sm_entries sm)) \<and>
         map_of (sm_entries sm) key = None
      then (sm, False)
      else (sm\<lparr>sm_entries := AList.update key
              \<lparr>se_Value = val, se_ExpiresAt = now + sm_ttl sm\<rparr> (sm_entries sm)\<rparr>, True))"

definition sm_Get :: "int \<Rightarrow> string \<Rightarrow> 'v StateMap \<Rightarrow> 'v option" where
  "sm_Get now key sm =
     (case map_of (sm_entries sm) key of
        None \<Rightarrow> None
      | Some entry \<Rightarrow> if sm_expired now entry then None else Some (se_Value entry))"

definition sm_Delete :: "string \<Rightarrow> 'v StateMap \<Rightarrow> 'v StateMap" where
  "sm_Delete key sm = sm\<lparr>sm_entries := AList.delete key (sm_entries sm)\<rparr>"

definition sm_Size :: "'v StateMap \<Rightarrow> nat" where
  "sm_Size sm = length (sm_entries sm)"

definition sm_cleanup :: "int \<Rightarrow> 'v StateMap \<Rightarrow> 'v StateMap \<times> nat" where
  "sm_cleanup now sm =
     (let kept = filter (\<lambda>kv. \<not> sm_expired now (snd kv)) (sm_entries sm)
      in (sm\<lparr>sm_entries := kept\<rparr>, length (sm_entries sm) - length kept))"

definition sm_GetAll :: "int \<Rightarrow> 'v StateMap \<Rightarrow> (string \<times> 'v) list" where
  "sm_GetAll now sm =
     List.map (\<lambda>(k, e). (k, se_Value e)) (filter (\<lambda>kv. \<not> sm_expired now (snd kv)) (sm_entries sm))"

abbreviation sm_put :: "int \<Rightarrow> string \<Rightarrow> 'v \<Rightarrow> 'v StateMap \<Rightarrow> 'v StateMap" where
  "sm_put now key val sm \<equiv> fst (sm_Set now key val sm)"

abbreviation sm_sweep :: "int \<Rightarrow> 'v StateMap \<Rightarrow> 'v StateMap" where
  "sm_sweep now sm \<equiv> fst (sm_cleanup now sm)"

text \<open>The map has room for a key it already holds, expired or not, or below its bound.\<close>

definition sm_room :: "string \<Rightarrow> 'v StateMap \<Rightarrow> bool" where
  "sm_room key sm \<longleftrightarrow> sm_maxEntries sm \<le> 0 \<or> int (length (sm_entries sm)) < sm_maxEntries sm \<or>
     map_of (sm_entries sm) key \<noteq> None"

definition sm_ok :: "'v StateMap \<Rightarrow> bool" where
  "sm_ok sm \<longleftrightarrow> distinct (keys (sm_entries sm)) \<and>
     (0 < sm_maxEntries sm \<longrightarrow> int (length (sm_entries sm)) \<le> sm_maxEntries sm)"

subsection \<open>The interface\<close>

text \<open>The updates of a store, and the key an update touches.\<close>

datatype 'v store_op = Put int string 'v | Remove string | Sweep int

fun op_key :: "'v store_op \<Rightarrow> string option" where
  "op_key (Put now k v) = Some k"
| "op_key (Remove k) = Some k"
| "op_key (Sweep now) = None"

locale ttl_store =
  fixes lookup :: "int \<Rightarrow> string \<Rightarrow> 's \<Rightarrow> 'v option"
    and store :: "int \<Rightarrow> string \<Rightarrow> 'v \<Rightarrow> 's \<Rightarrow> 's"
    and remove :: "string \<Rightarrow> 's \<Rightarrow> 's"
    and sweep :: "int \<Rightarrow> 's \<Rightarrow> 's"
    and room :: "string \<Rightarrow> 's \<Rightarrow> bool"
    and ttl :: "'s \<Rightarrow> int"
    and ok :: "'s \<Rightarrow> bool"
  assumes lookup_store: "room k s \<Longrightarrow> t \<le> now + ttl s \<Longrightarrow> lookup t k (store now k v s) = Some v"
    and lookup_store_old: "lookup t k (store now k v s) = Some w \<Longrightarrow> w = v \<or> lookup t k s = Some w"
    and store_full: "\<not> room k s \<Longrightarrow> store now k v s = s"
    and lookup_store_other: "k' \<noteq> k \<Longrightarrow> lookup t k' (store now k v s) = lookup t k' s"
    and lookup_remove: "lookup t k' (remove k s) = (if k' = k then None else lookup t k' s)"
    and lookup_sweep: "ok s \<Longrightarrow> now \<le> t \<Longrightarrow> lookup t k (sweep now s) = lookup t k s"
    and lookup_sweep_old: "ok s \<Longrightarrow> lookup t k (sweep now s) = Some w \<Longrightarrow> lookup t k s = Some w"
    and lookup_mono: "lookup later k s = Some v \<Longrightarrow> t \<le> later \<Longrightarrow> lookup t k s = Some v"
    and ok_store: "ok s \<Longrightarrow> ok (store now k v s)"
    and ok_remove: "ok s \<Longrightarrow> ok (remove k s)"
    and ok_sweep: "ok s \<Longrightarrow> ok (sweep now s)"
    and ttl_store_eq: "ttl (store now k v s) = ttl s"
    and ttl_remove: "ttl (remove k s) = ttl s"
    and ttl_sweep: "ttl (sweep now s) = ttl s"
begin

text \<open>Every value a store can ever return under a key has the property \<open>P\<close> for that key.\<close>

definition holds :: "(string \<Rightarrow> 'v \<Rightarrow> bool) \<Rightarrow> 's \<Rightarrow> bool" where
  "holds P s \<longleftrightarrow> (\<forall>t k v. lookup t k s = Some v \<longrightarrow> P k v)"

fun apply_op :: "'v store_op \<Rightarrow> 's \<Rightarrow> 's" where
  "apply_op (Put now k v) s = store now k v s"
| "apply_op (Remove k) s = remove k s"
| "apply_op (Sweep now) s = sweep now s"

lemma holds_store: "holds P s \<Longrightarrow> P k v \<Longrightarrow> holds P (store now k v s)"
  unfolding holds_def by (metis lookup_store_old lookup_store_other)

lemma holds_remove: "holds P s \<Longrightarrow> holds P (remove k s)"
  by (auto simp: holds_def lookup_remove split: if_splits)

lemma holds_sweep: "ok s \<Longrightarrow> holds P s \<Longrightarrow> holds P (sweep now s)"
  unfolding holds_def by (blast dest: lookup_sweep_old)

lemma holds_lookup: "holds P s \<Longrightarrow> lookup t k s = Some v \<Longrightarrow> P k v"
  by (simp add: holds_def)

text \<open>An update of other keys, and a sweep before the time of the lookup, change nothing.\<close>

lemma lookup_apply_op:
  assumes "ok s" and "op_key x \<noteq> Some k" and "\<And>now. x = Sweep now \<Longrightarrow> now \<le> t"
  shows "lookup t k (apply_op x s) = lookup t k s"
  using assms by (cases x) (auto simp: lookup_store_other lookup_remove lookup_sweep)

lemma ok_apply_op: "ok s \<Longrightarrow> ok (apply_op x s)"
  by (cases x) (auto intro: ok_store ok_remove ok_sweep)

definition run :: "'v store_op list \<Rightarrow> 's \<Rightarrow> 's" where
  "run xs s = fold apply_op xs s"

lemma ok_run: "ok s \<Longrightarrow> ok (run xs s)"
  unfolding run_def by (induction xs arbitrary: s) (auto intro: ok_apply_op)

text \<open>A value stored in a map with room for it is found for the next \<open>ttl\<close>, whatever happens to
  other keys and however often the janitor runs.\<close>

lemma lookup_run:
  assumes "ok s" and "\<forall>x \<in> set xs. op_key x \<noteq> Some k"
    and "\<forall>now. Sweep now \<in> set xs \<longrightarrow> now \<le> t"
  shows "lookup t k (run xs s) = lookup t k s"
  using assms
proof (induction xs arbitrary: s)
  case (Cons x xs)
  then have "lookup t k (run xs (apply_op x s)) = lookup t k (apply_op x s)"
    by (intro Cons.IH) (auto intro: ok_apply_op)
  also have "\<dots> = lookup t k s"
    using Cons.prems by (intro lookup_apply_op) auto
  finally show ?case by (simp add: run_def)
qed (simp add: run_def)

lemma lookup_store_run:
  assumes "ok s" and "room k s" and "t \<le> now + ttl s"
    and "\<forall>x \<in> set xs. op_key x \<noteq> Some k" and "\<forall>w. Sweep w \<in> set xs \<longrightarrow> w \<le> t"
  shows "lookup t k (run xs (store now k v s)) = Some v"
  using lookup_run [OF ok_store [OF assms(1)] assms(4,5)] lookup_store [OF assms(2,3)] by simp

end

subsection \<open>The model keeps the laws\<close>

lemma sm_ok_put: "sm_ok sm \<Longrightarrow> sm_ok (sm_put now k v sm)"
  by (cases "map_of (sm_entries sm) k")
    (auto simp: sm_Set_def sm_ok_def distinct_update length_update_new length_update_old)

lemma sm_ok_Delete: "sm_ok sm \<Longrightarrow> sm_ok (sm_Delete k sm)"
  using length_delete_le [of k "sm_entries sm"]
  by (auto simp: sm_Delete_def sm_ok_def distinct_delete)

lemma sm_ok_sweep: "sm_ok sm \<Longrightarrow> sm_ok (sm_sweep now sm)"
  by (auto simp: sm_cleanup_def sm_ok_def distinct_keys_filter Let_def
      intro: order_trans [OF of_nat_mono [OF length_filter_le]])

lemma sm_ok_New [simp]: "sm_ok (NewStateMap ttl m)"
  by (simp add: sm_ok_def NewStateMap_def)

lemma sm_Get_New [simp]: "sm_Get t k (NewStateMap ttl m) = None"
  by (simp add: sm_Get_def NewStateMap_def)

lemma sm_Get_sweep:
  "sm_ok sm \<Longrightarrow> sm_Get t k (sm_sweep now sm) =
     (case map_of (sm_entries sm) k of None \<Rightarrow> None
      | Some e \<Rightarrow> if sm_expired now e \<or> sm_expired t e then None else Some (se_Value e))"
  by (auto simp: sm_Get_def sm_cleanup_def Let_def sm_ok_def
      map_of_filter_key_value [where P = "\<lambda>e. \<not> sm_expired now e"] split: option.splits)

interpretation state_map: ttl_store sm_Get sm_put sm_Delete sm_sweep sm_room sm_ttl sm_ok
proof unfold_locales
  fix t now k w and v :: 'a and s :: "'a StateMap"
  show "sm_room k s \<Longrightarrow> t \<le> now + sm_ttl s \<Longrightarrow> sm_Get t k (sm_put now k v s) = Some v"
    by (auto simp: sm_room_def sm_Get_def sm_Set_def map_of_update sm_expired_def)
  show "sm_Get t k (sm_put now k v s) = Some w \<Longrightarrow> w = v \<or> sm_Get t k s = Some w"
    by (auto simp: sm_Get_def sm_Set_def map_of_update split: if_splits)
  show "\<not> sm_room k s \<Longrightarrow> sm_put now k v s = s"
    by (auto simp: sm_room_def sm_Set_def)
  show "sm_ok s \<Longrightarrow> now \<le> t \<Longrightarrow> sm_Get t k (sm_sweep now s) = sm_Get t k s"
    by (simp only: sm_Get_sweep) (auto simp: sm_Get_def sm_expired_def split: option.splits)
  show "sm_ok s \<Longrightarrow> sm_Get t k (sm_sweep now s) = Some w \<Longrightarrow> sm_Get t k s = Some w"
    by (simp only: sm_Get_sweep) (auto simp: sm_Get_def split: option.splits if_splits)
  show "sm_ok s \<Longrightarrow> sm_ok (sm_put now k v s)" by (rule sm_ok_put)
  show "sm_ok s \<Longrightarrow> sm_ok (sm_Delete k s)" by (rule sm_ok_Delete)
  show "sm_ok s \<Longrightarrow> sm_ok (sm_sweep now s)" by (rule sm_ok_sweep)
qed (auto simp: sm_Get_def sm_Set_def sm_Delete_def map_of_update map_of_delete
    sm_cleanup_def Let_def sm_expired_def split: option.splits if_splits)

subsection \<open>Runs of operations\<close>

fun sm_apply :: "'v store_op \<Rightarrow> 'v StateMap \<Rightarrow> 'v StateMap" where
  "sm_apply (Put now k v) sm = sm_put now k v sm"
| "sm_apply (Remove k) sm = sm_Delete k sm"
| "sm_apply (Sweep now) sm = sm_sweep now sm"

definition sm_run :: "'v store_op list \<Rightarrow> 'v StateMap \<Rightarrow> 'v StateMap" where
  "sm_run xs sm = fold sm_apply xs sm"

lemma sm_run_eq: "state_map.run xs sm = sm_run xs sm"
proof -
  have "state_map.apply_op x = sm_apply x" for x :: "'a store_op"
    by (rule ext, cases x) simp_all
  then have "state_map.apply_op = (sm_apply :: 'a store_op \<Rightarrow> 'a StateMap \<Rightarrow> _)" by (rule ext)
  then show ?thesis by (simp add: sm_run_def state_map.run_def)
qed

lemma sm_ok_run: "sm_ok sm \<Longrightarrow> sm_ok (sm_run xs sm)"
  using state_map.ok_run [of sm xs] by (simp add: sm_run_eq)

lemma sm_apply_bounds:
  "sm_maxEntries (sm_apply x sm) = sm_maxEntries sm \<and> sm_ttl (sm_apply x sm) = sm_ttl sm"
  by (cases x) (simp_all add: sm_Set_def sm_Delete_def sm_cleanup_def Let_def)

lemma sm_run_bounds: "sm_maxEntries (sm_run xs sm) = sm_maxEntries sm \<and> sm_ttl (sm_run xs sm) = sm_ttl sm"
  unfolding sm_run_def by (induction xs arbitrary: sm) (simp_all add: sm_apply_bounds)

lemma map_of_map_value:
  "map_of (List.map (\<lambda>(k, e). (k, f e)) es) k = map_option f (map_of es k)"
  by (induction es) auto

lemma map_of_GetAll: "sm_ok sm \<Longrightarrow> map_of (sm_GetAll now sm) k = sm_Get now k sm"
  by (simp add: sm_GetAll_def map_of_map_value sm_Get_def sm_ok_def
      map_of_filter_key_value [where P = "\<lambda>e. \<not> sm_expired now e"] split: option.splits)

subsection \<open>Theorems\<close>

text \<open>A value set in a map that has room for its key is what \<open>Get\<close> returns for the next
  \<open>ttl\<close>, whatever sets, deletes of other keys and janitor sweeps happen in between.\<close>

theorem sm_Get_after_Set:
  assumes "sm_ok sm" and "sm_room k sm" and "t \<le> now + sm_ttl sm"
    and "\<forall>x \<in> set xs. op_key x \<noteq> Some k" and "\<forall>w. Sweep w \<in> set xs \<longrightarrow> w \<le> t"
  shows "snd (sm_Set now k v sm) \<and> sm_Get t k (sm_run xs (fst (sm_Set now k v sm))) = Some v"
proof
  show "snd (sm_Set now k v sm)" using assms(2) by (auto simp: sm_Set_def sm_room_def)
  show "sm_Get t k (sm_run xs (fst (sm_Set now k v sm))) = Some v"
    using state_map.lookup_store_run [OF assms, of v] by (simp only: sm_run_eq)
qed

lemma sm_Get_after_Set_witness:
  "snd (sm_Set 5 ''a'' True (NewStateMap 10 2)) \<and>
   sm_Get 15 ''a'' (sm_run [Put 6 ''b'' False, Sweep 15, Remove ''b'']
     (fst (sm_Set 5 ''a'' True (NewStateMap 10 2)))) = Some True"
  by (rule sm_Get_after_Set [OF sm_ok_New]) (simp_all add: sm_room_def NewStateMap_def)

text \<open>Through every run of operations on a new map, the number of entries stays within
  \<open>maxEntries\<close> when that is positive, and \<open>GetAll\<close> lists exactly what \<open>Get\<close> finds.\<close>

theorem sm_run_bounded:
  "(sm_maxEntries (sm_run xs (NewStateMap ttl m)) = m) \<and>
   (m \<le> 0 \<or> int (sm_Size (sm_run xs (NewStateMap ttl m))) \<le> m) \<and>
   map_of (sm_GetAll now (sm_run xs (NewStateMap ttl m))) k = sm_Get now k (sm_run xs (NewStateMap ttl m))"
proof -
  let ?sm = "sm_run xs (NewStateMap ttl m)"
  have ok: "sm_ok ?sm" by (simp add: sm_ok_run)
  have "sm_maxEntries ?sm = m" using sm_run_bounds [of xs] by (simp add: NewStateMap_def)
  with ok show ?thesis by (auto simp: sm_ok_def sm_Size_def map_of_GetAll)
qed

text \<open>Expired entries count against the bound until the janitor runs: with \<open>maxEntries\<close>
  entries, all expired, a new key is refused and stays unknown, and right after a sweep the
  same \<open>Set\<close> succeeds.\<close>

theorem sm_Set_full_of_expired:
  assumes "0 < sm_maxEntries sm" and "int (sm_Size sm) = sm_maxEntries sm"
    and "\<forall>(k', e) \<in> set (sm_entries sm). sm_expired now e" and "map_of (sm_entries sm) k = None"
  shows "sm_GetAll now sm = [] \<and> sm_Set now k v sm = (sm, False) \<and> sm_Get t k sm = None \<and>
    snd (sm_cleanup now sm) = sm_Size sm \<and> snd (sm_Set now k v (fst (sm_cleanup now sm)))"
proof -
  have none: "filter (\<lambda>kv. \<not> sm_expired now (snd kv)) (sm_entries sm) = []"
    using assms(3) by (auto simp: filter_empty_conv)
  then show ?thesis
    using assms by (simp add: sm_GetAll_def sm_Set_def sm_Get_def sm_cleanup_def sm_Size_def)
qed

lemma sm_Set_full_of_expired_witness:
  "let sm = \<lparr>sm_entries = [(''a'', \<lparr>se_Value = True, se_ExpiresAt = 3\<rparr>)], sm_ttl = 1, sm_maxEntries = 1\<rparr>
   in sm_GetAll 9 sm = [] \<and> sm_Set 9 ''b'' False sm = (sm, False) \<and> sm_Get 9 ''b'' sm = None \<and>
      snd (sm_cleanup 9 sm) = sm_Size sm \<and> snd (sm_Set 9 ''b'' False (fst (sm_cleanup 9 sm)))"
  unfolding Let_def
  by (rule sm_Set_full_of_expired) (simp_all add: sm_Size_def sm_expired_def)

end
