(* ===== verification/Net_Addr.thy ===== *)
theory Net_Addr
  imports Go_Numbers
begin

section \<open>Addresses (net, and the address helpers of collector/correlator.go)\<close>

text \<open>
  The functions of Go's \<open>net\<close> package the collector calls on addresses - \<open>ParseIP\<close>, \<open>To4\<close>,
  \<open>String\<close> of an IPv4 address, \<open>SplitHostPort\<close> - and its own helpers over them:
  \<open>isIPPattern\<close>, \<open>extractIPFromHost\<close> and \<open>extractHostFromRemoteAddr\<close>. An IP is its 16 bytes.
  The lemmas: dotted IPv4 text is read back, IPv4-mapped IPv6 addresses come out as IPv4, and
  the host of \<open>host:port\<close> is the host.
\<close>

subsection \<open>net.ParseIP\<close>

definition parse_octet :: "string \<Rightarrow> uint8 option" where
  "parse_octet s =
     (if s = [] \<or> \<not> list_all is_digit s \<or> (hd s = CHR ''0'' \<and> 1 < length s) \<or> 255 < dec_val s
      then None else Some (word_of_nat (dec_val s)))"

definition parseIPv4 :: "string \<Rightarrow> uint8 list option" where
  "parseIPv4 s =
     (case split_on (CHR ''.'') s of
        [a, b, c, d] \<Rightarrow> those [parse_octet a, parse_octet b, parse_octet c, parse_octet d]
      | _ \<Rightarrow> None)"

text \<open>
  The loop of \<open>parseIPv6\<close>: the bytes read so far, where \<open>::\<close> stood, and the rest of the text.
  Every iteration adds two bytes, or the four of an embedded IPv4 address, and the loop stops at
  sixteen.
\<close>

function v6_groups ::
  "uint8 list \<Rightarrow> nat option \<Rightarrow> string \<Rightarrow> (uint8 list \<times> nat option \<times> string) option" where
  "v6_groups ip ellipsis s =
     (if 16 \<le> length ip then Some (ip, ellipsis, s)
      else
        let digits = takeWhile is_hex s; rest = dropWhile is_hex s
        in if digits = [] \<or> 4 < length digits then None
           else if rest \<noteq> [] \<and> hd rest = CHR ''.'' then
             (if ellipsis = None \<and> length ip \<noteq> 12 \<or> 16 < length ip + 4 then None
              else map_option (\<lambda>v4. (ip @ v4, ellipsis, [])) (parseIPv4 s))
           else
             let acc = hex_val digits;
                 ip = ip @ [word_of_nat (acc div 256), word_of_nat (acc mod 256)]
             in if rest = [] then Some (ip, ellipsis, [])
                else if hd rest \<noteq> CHR '':'' \<or> length rest = 1 then None
                else
                  let s = tl rest
                  in if hd s = CHR '':'' then
                       (if ellipsis \<noteq> None then None
                        else if tl s = [] then Some (ip, Some (length ip), [])
                        else v6_groups ip (Some (length ip)) (tl s))
                     else v6_groups ip ellipsis s)"
  by pat_completeness auto
termination
  by (relation "measure (\<lambda>(ip, _, _). 16 - length ip)") auto

declare v6_groups.simps [simp del]

definition v6_expand :: "uint8 list \<times> nat option \<times> string \<Rightarrow> uint8 list option" where
  "v6_expand r =
     (case r of (ip, ellipsis, s) \<Rightarrow>
        if s \<noteq> [] then None
        else if length ip < 16 then
          (case ellipsis of None \<Rightarrow> None
           | Some e \<Rightarrow> Some (take e ip @ replicate (16 - length ip) 0 @ drop e ip))
        else if ellipsis \<noteq> None then None else Some ip)"

definition parseIPv6 :: "string \<Rightarrow> uint8 list option" where
  "parseIPv6 s =
     (if has_prefix s ''::'' then
        (if drop 2 s = [] then Some (replicate 16 0)
         else Option.bind (v6_groups [] (Some 0) (drop 2 s)) v6_expand)
      else Option.bind (v6_groups [] None s) v6_expand)"

text \<open>
  The first of \<open>.\<close>, \<open>:\<close> and \<open>%\<close> decides the form. A zone makes \<open>ParseIP\<close> return nil.
\<close>

definition v4_in_v6 :: "uint8 list \<Rightarrow> uint8 list" where
  "v4_in_v6 v4 = replicate 10 0 @ [255, 255] @ v4"

definition ParseIP :: "string \<Rightarrow> uint8 list option" where
  "ParseIP s =
     (case find (\<lambda>c. c = CHR ''.'' \<or> c = CHR '':'' \<or> c = CHR ''%'') s of
        None \<Rightarrow> None
      | Some c \<Rightarrow>
          if c = CHR ''.'' then map_option v4_in_v6 (parseIPv4 s)
          else if c = CHR '':'' then (if CHR ''%'' \<in> set s then None else parseIPv6 s)
          else None)"

definition To4 :: "uint8 list \<Rightarrow> uint8 list option" where
  "To4 ip = (if take 12 ip = replicate 10 0 @ [255, 255] then Some (drop 12 ip) else None)"

definition ipv4_String :: "uint8 list \<Rightarrow> string" where
  "ipv4_String v4 = join ''.'' (List.map (\<lambda>b. dec_nat (unat b)) v4)"

subsection \<open>net.SplitHostPort\<close>

definition SplitHostPort :: "string \<Rightarrow> (string \<times> string) option" where
  "SplitHostPort hostport =
     (if CHR '':'' \<notin> set hostport then None
      else
        let port = after_last (CHR '':'') hostport
        in if hd hostport = CHR ''['' then
             (if CHR '']'' \<notin> set hostport then None
              else
                let host = before (CHR '']'') (tl hostport); rest = after (CHR '']'') hostport
                in if rest = [] \<or> hd rest \<noteq> CHR '':'' then None
                   else if CHR '':'' \<in> set (tl rest) then None
                   else if CHR ''['' \<in> set (tl hostport) \<or> CHR '']'' \<in> set rest then None
                   else Some (host, port))
           else
             let host = before_last (CHR '':'') hostport
             in if CHR '':'' \<in> set host then None
                else if CHR ''['' \<in> set hostport \<or> CHR '']'' \<in> set hostport then None
                else Some (host, port))"

subsection \<open>The collector's helpers\<close>

definition isIPPattern :: "string \<Rightarrow> bool" where
  "isIPPattern s \<longleftrightarrow>
     s \<noteq> [] \<and> (let firstChar = hd s
               in firstChar = CHR ''['' \<or> firstChar = CHR '':'' \<or> firstChar = CHR ''f'' \<or>
                  is_digit firstChar \<or> firstChar = CHR ''.'')"

definition strip_zone :: "string \<Rightarrow> string" where
  "strip_zone host = (if CHR ''%'' \<in> set host then before_last (CHR ''%'') host else host)"

definition extractIPFromHost :: "string \<Rightarrow> string" where
  "extractIPFromHost host =
     (if host = [] then []
      else
        let host = strip_zone (trim_cutset ''[]'' host)
        in case ParseIP host of
             None \<Rightarrow> host
           | Some ip \<Rightarrow>
               (case To4 ip of
                  Some v4 \<Rightarrow> ipv4_String v4
                | None \<Rightarrow>
                    if CHR ''.'' \<in> set host \<and> CHR '':'' \<in> set host then
                      (case Option.bind (ParseIP (after_last (CHR '':'') host)) To4 of
                         Some v4addr \<Rightarrow> ipv4_String v4addr
                       | None \<Rightarrow> host)
                    else host))"

definition legacy_host :: "string \<Rightarrow> string" where
  "legacy_host remoteAddr =
     (if 1 < count_list remoteAddr (CHR '':'') then
        (let hostCandidate = before_last (CHR '':'') remoteAddr;
             portCandidate = after_last (CHR '':'') remoteAddr
         in if hostCandidate \<noteq> [] \<and> portCandidate \<noteq> [] then
              (let (port, ok) = atoi portCandidate
               in if ok \<and> 0 \<le> port \<and> port \<le> 65535 \<and>
                     ParseIP (strip_zone (trim_cutset ''[]'' hostCandidate)) \<noteq> None
                  then hostCandidate else remoteAddr)
            else remoteAddr)
      else remoteAddr)"

definition extractHostFromRemoteAddr :: "string \<Rightarrow> string" where
  "extractHostFromRemoteAddr remoteAddr =
     (if remoteAddr = [] then []
      else case SplitHostPort remoteAddr of
             Some (host, _) \<Rightarrow> host
           | None \<Rightarrow>
               if ParseIP (strip_zone (trim_cutset ''[]'' remoteAddr)) \<noteq> None then remoteAddr
               else legacy_host remoteAddr)"

subsection \<open>Dotted text\<close>

lemma length_parseIPv4: "parseIPv4 s = Some v4 \<Longrightarrow> length v4 = 4"
  by (auto simp: parseIPv4_def split: list.splits option.splits)

lemma dec_nat_leading_zero: "hd (dec_nat n) = CHR ''0'' \<Longrightarrow> length (dec_nat n) = 1"
proof (induction n rule: less_induct)
  case (less n)
  show ?case
  proof (cases "n < 10")
    case True
    then show ?thesis by (simp add: fmt_nat.simps)
  next
    case False
    then have eq: "dec_nat n = dec_nat (n div 10) @ [digit_char (n mod 10)]"
      by (simp add: fmt_nat.simps)
    with less have "length (dec_nat (n div 10)) = 1" and hd: "hd (dec_nat (n div 10)) = CHR ''0''"
      using False by auto
    then have "dec_nat (n div 10) = ''0''" by (cases "dec_nat (n div 10)") auto
    moreover have "dec_nat 0 = ''0''" by code_simp
    ultimately have "n div 10 = 0" using dec_nat_inject by metis
    with False show ?thesis by simp
  qed
qed

lemma parse_octet_dec_nat: "parse_octet (dec_nat (unat (b :: uint8))) = Some b"
proof -
  have "unat b < 256" using unsigned_less [where ?'a = nat, of b] by simp
  moreover have "list_all is_digit (dec_nat n)" for n by (simp add: list_all_iff dec_nat_digits)
  moreover have "\<not> (hd (dec_nat n) = CHR ''0'' \<and> 1 < length (dec_nat n))" for n
    using dec_nat_leading_zero by fastforce
  ultimately show ?thesis by (simp add: parse_octet_def dec_val_dec_nat)
qed

lemma dot_not_digit: "CHR ''.'' \<notin> set (dec_nat n)"
  using dec_nat_digits [of "CHR ''.''" n] by (auto simp: is_digit_def)

lemma parseIPv4_String:
  assumes "length v4 = 4"
  shows "parseIPv4 (ipv4_String v4) = Some v4"
proof -
  obtain a b c d where v4: "v4 = [a, b, c, d]"
    using assms by (auto simp: length_Suc_conv eval_nat_numeral)
  have "ipv4_String v4 = join [CHR ''.''] [dec_nat (unat a), dec_nat (unat b), dec_nat (unat c), dec_nat (unat d)]"
    by (simp add: ipv4_String_def v4)
  moreover have "split_on (CHR ''.'') (join [CHR ''.''] [dec_nat (unat a), dec_nat (unat b),
      dec_nat (unat c), dec_nat (unat d)]) = [dec_nat (unat a), dec_nat (unat b), dec_nat (unat c), dec_nat (unat d)]"
    by (rule split_on_join) (auto simp: dot_not_digit)
  ultimately show ?thesis by (simp add: parseIPv4_def parse_octet_dec_nat v4)
qed

text \<open>The hexadecimal groups of \<open>::ffff:a.b.c.d\<close>: one group, then the embedded IPv4 text.\<close>

lemma digit_is_hex: "is_digit c \<Longrightarrow> is_hex c"
  by (simp add: is_hex_def)

lemma dot_not_hex: "\<not> is_hex (CHR ''.'')"
  by (simp add: is_hex_def is_digit_def)

lemma ipv4_String_shape:
  assumes "length v4 = 4"
  obtains rest where "ipv4_String v4 = dec_nat (unat (hd v4)) @ CHR ''.'' # rest"
proof -
  obtain a b c d where "v4 = [a, b, c, d]"
    using assms by (auto simp: length_Suc_conv eval_nat_numeral)
  then show ?thesis by (intro that) (simp add: ipv4_String_def)
qed

lemma length_octet: "length (dec_nat (unat (b :: uint8))) \<le> 3"
proof -
  have "unat b < 256" using unsigned_less [where ?'a = nat, of b] by simp
  then have "unat b div 10 div 10 < 10" by simp
  then show ?thesis by (simp add: fmt_nat.simps)
qed

lemma v6_groups_ipv4:
  assumes "length v4 = 4" and "length ip \<le> 12" and "ellipsis \<noteq> None"
  shows "v6_groups ip ellipsis (ipv4_String v4) = Some (ip @ v4, ellipsis, [])"
proof -
  obtain rest where rest: "ipv4_String v4 = dec_nat (unat (hd v4)) @ CHR ''.'' # rest"
    using ipv4_String_shape [OF assms(1)] .
  have hex: "\<forall>c \<in> set (dec_nat n). is_hex c" for n by (auto dest: dec_nat_digits digit_is_hex)
  have "takeWhile is_hex (ipv4_String v4) = dec_nat (unat (hd v4))"
    "dropWhile is_hex (ipv4_String v4) = CHR ''.'' # rest"
    using hex by (simp_all add: rest takeWhile_append dropWhile_append dot_not_hex)
  then show ?thesis
    using assms length_octet [of "hd v4"] parseIPv4_String [OF assms(1)]
    by (simp add: v6_groups.simps Let_def)
qed

lemma ParseIP_mapped:
  assumes "length v4 = 4"
  shows "ParseIP (''::ffff:'' @ ipv4_String v4) = Some (v4_in_v6 v4)"
proof -
  have digits: "c \<in> set (ipv4_String v4) \<Longrightarrow> is_digit c \<or> c = CHR ''.''" for c
  proof -
    obtain a b d e where "v4 = [a, b, d, e]"
      using assms by (auto simp: length_Suc_conv eval_nat_numeral)
    then show "c \<in> set (ipv4_String v4) \<Longrightarrow> is_digit c \<or> c = CHR ''.''"
      by (auto simp: ipv4_String_def dest: dec_nat_digits)
  qed
  from digits [of "CHR ''%''"] digits [of "CHR '':''"]
  have pct: "CHR ''%'' \<notin> set (ipv4_String v4)" and col: "CHR '':'' \<notin> set (ipv4_String v4)"
    by (auto simp: is_digit_def)
  obtain rest where rest: "ipv4_String v4 = dec_nat (unat (hd v4)) @ CHR ''.'' # rest"
    using ipv4_String_shape [OF assms] .
  have ne: "ipv4_String v4 \<noteq> []" by (simp add: rest)
  have hd: "hd (ipv4_String v4) \<noteq> CHR '':''" using ne col by (metis hd_in_set)
  have f: "is_hex (CHR ''f'')" "\<not> is_hex (CHR '':'')" by (simp_all add: is_hex_def is_digit_def)
  have val: "hex_val ''ffff'' = 65535" by (simp add: hex_val_def hex_digit_val_def is_digit_def)
  have "v6_groups [] (Some 0) (''ffff:'' @ ipv4_String v4) = v6_groups [255, 255] (Some 0) (ipv4_String v4)"
    using ne hd by (subst v6_groups.simps) (simp add: f val Let_def)
  also have "\<dots> = Some ([255, 255] @ v4, Some 0, [])"
    by (rule v6_groups_ipv4 [OF assms]) simp_all
  finally have "parseIPv6 (''::ffff:'' @ ipv4_String v4) = Some (v4_in_v6 v4)"
    using assms by (simp add: parseIPv6_def has_prefix_def v6_expand_def v4_in_v6_def eval_nat_numeral)
  then show ?thesis
    using pct by (simp add: ParseIP_def)
qed

lemma To4_v4_in_v6: "length v4 = 4 \<Longrightarrow> To4 (v4_in_v6 v4) = Some v4"
  by (simp add: To4_def v4_in_v6_def eval_nat_numeral)

lemma ParseIP_ipv4:
  assumes "length v4 = 4"
  shows "ParseIP (ipv4_String v4) = Some (v4_in_v6 v4)"
proof -
  obtain rest where rest: "ipv4_String v4 = dec_nat (unat (hd v4)) @ CHR ''.'' # rest"
    using ipv4_String_shape [OF assms] .
  have no: "\<forall>c \<in> set (dec_nat n). \<not> (c = CHR ''.'' \<or> c = CHR '':'' \<or> c = CHR ''%'')" for n
    by (auto dest!: dec_nat_digits simp: is_digit_def)
  have find_append: "find P (xs @ y # ys) = Some y" if "\<forall>x \<in> set xs. \<not> P x" and "P y"
    for P and xs :: string and y ys
    using that by (induction xs) auto
  have "find (\<lambda>c. c = CHR ''.'' \<or> c = CHR '':'' \<or> c = CHR ''%'') (ipv4_String v4) = Some (CHR ''.'')"
    unfolding rest by (rule find_append [OF no]) simp
  then show ?thesis by (simp add: ParseIP_def parseIPv4_String [OF assms])
qed

lemma SplitHostPort_plain:
  assumes "CHR '':'' \<notin> set host" "CHR ''['' \<notin> set host" "CHR '']'' \<notin> set host"
    and "CHR '':'' \<notin> set port" "CHR ''['' \<notin> set port" "CHR '']'' \<notin> set port"
  shows "SplitHostPort (host @ CHR '':'' # port) = Some (host, port)"
proof -
  have "hd (host @ CHR '':'' # port) \<noteq> CHR ''[''" using assms(2) by (cases host) auto
  then show ?thesis
    using assms by (simp add: SplitHostPort_def Let_def after_last_append before_last_append)
qed

lemma SplitHostPort_bracketed:
  assumes "CHR ''['' \<notin> set host" "CHR '']'' \<notin> set host"
    and "CHR '':'' \<notin> set port" "CHR ''['' \<notin> set port" "CHR '']'' \<notin> set port"
  shows "SplitHostPort (''['' @ host @ '']:'' @ port) = Some (host, port)"
proof -
  have "after_last (CHR '':'') ((CHR ''['' # host @ '']'') @ CHR '':'' # port) = port"
    using assms(3) by (rule after_last_append)
  moreover have "after (CHR '']'') ((CHR ''['' # host) @ CHR '']'' # CHR '':'' # port) = CHR '':'' # port"
    by (rule after_append) (use assms(2) in simp)
  moreover have "before (CHR '']'') (host @ CHR '']'' # CHR '':'' # port) = host"
    using assms(2) by (rule before_append)
  ultimately show ?thesis
    using assms by (simp add: SplitHostPort_def Let_def)
qed

lemma trim_cutset_none: "(\<forall>c \<in> set s. c \<notin> set cs) \<Longrightarrow> trim_cutset cs s = s"
  by (simp add: trim_cutset_def dropWhile_eq_self_iff hd_in_set)
    (metis hd_in_set rev_rev_ident set_rev dropWhile_eq_self_iff)

lemma ipv4_String_chars:
  assumes "length v4 = 4" and "c \<in> set (ipv4_String v4)"
  shows "is_digit c \<or> c = CHR ''.''"
proof -
  obtain a b d e where "v4 = [a, b, d, e]"
    using assms by (auto simp: length_Suc_conv eval_nat_numeral)
  with assms(2) show ?thesis by (auto simp: ipv4_String_def dest: dec_nat_digits)
qed

subsection \<open>Theorems\<close>

text \<open>\<open>extractIPFromHost\<close> returns the same dotted IPv4 text for an IPv4 host and for the
  IPv4-mapped IPv6 form of it in brackets, the form in which XRootD servers report an IPv4
  client: reverse lookups and counters see one address.\<close>

theorem extractIPFromHost_mapped:
  assumes "length v4 = 4"
  shows "extractIPFromHost (''[::ffff:'' @ ipv4_String v4 @ '']'') = ipv4_String v4 \<and>
    extractIPFromHost (ipv4_String v4) = ipv4_String v4"
proof
  have ch: "c \<noteq> CHR ''['' \<and> c \<noteq> CHR '']'' \<and> c \<noteq> CHR ''%''" if "c \<in> set (ipv4_String v4)" for c
    using ipv4_String_chars [OF assms that] by (auto simp: is_digit_def)
  then have no: "CHR ''%'' \<notin> set (ipv4_String v4)"
    and trim: "trim_cutset ''[]'' (ipv4_String v4) = ipv4_String v4"
    by (auto intro!: trim_cutset_none)
  have "ipv4_String v4 \<noteq> []" using ParseIP_ipv4 [OF assms] by (auto simp: ParseIP_def)
  with no trim show "extractIPFromHost (ipv4_String v4) = ipv4_String v4"
    by (simp add: extractIPFromHost_def strip_zone_def ParseIP_ipv4 [OF assms] To4_v4_in_v6 [OF assms])
  have mapped: "trim_cutset ''[]'' (''[::ffff:'' @ ipv4_String v4 @ '']'') = ''::ffff:'' @ ipv4_String v4"
  proof -
    have "trim_cutset ''[]'' (''[::ffff:'' @ ipv4_String v4 @ '']'')
        = trim_cutset ''[]'' (''::ffff:'' @ ipv4_String v4)"
      by (simp add: trim_cutset_def)
    also have "\<dots> = ''::ffff:'' @ ipv4_String v4"
      by (rule trim_cutset_none) (use ch in auto)
    finally show ?thesis .
  qed
  have "CHR ''%'' \<notin> set (''::ffff:'' @ ipv4_String v4)" using no by simp
  then show "extractIPFromHost (''[::ffff:'' @ ipv4_String v4 @ '']'') = ipv4_String v4"
    by (simp only: extractIPFromHost_def mapped strip_zone_def Let_def if_False
        ParseIP_mapped [OF assms] option.case To4_v4_in_v6 [OF assms]) simp
qed

lemma extractIPFromHost_mapped_witness:
  "extractIPFromHost (''[::ffff:'' @ ipv4_String [192, 168, 0, 7] @ '']'') = ipv4_String [192, 168, 0, 7] \<and>
   extractIPFromHost (ipv4_String [192, 168, 0, 7]) = ipv4_String [192, 168, 0, 7]"
  by (rule extractIPFromHost_mapped) simp

text \<open>\<open>extractHostFromRemoteAddr\<close> returns the host of \<open>[host]:port\<close>, for every host and
  port text without brackets and a port without a colon; colons in the host are allowed.\<close>

theorem extractHostFromRemoteAddr_bracketed:
  assumes "CHR ''['' \<notin> set host" "CHR '']'' \<notin> set host"
    and "CHR '':'' \<notin> set port" "CHR ''['' \<notin> set port" "CHR '']'' \<notin> set port"
  shows "extractHostFromRemoteAddr (''['' @ host @ '']:'' @ port) = host"
  using SplitHostPort_bracketed [OF assms] by (simp add: extractHostFromRemoteAddr_def)

lemma extractHostFromRemoteAddr_bracketed_witness:
  "extractHostFromRemoteAddr (''['' @ ''fe80::1'' @ '']:'' @ ''9931'') = ''fe80::1''"
  by (rule extractHostFromRemoteAddr_bracketed) simp_all

end
