(* ===== verification/Paths.thy ===== *)
theory Paths
  imports Go_Numbers
begin

section \<open>Paths, directory names and VO names (collector/correlator.go)\<close>

text \<open>
  \<open>path.Clean\<close> and \<open>path.Join\<close> on slash-separated paths, \<open>extractDirnames\<close>, which cuts a file
  name into the directory fields of a record, \<open>normalizeVO\<close>, which removes repeated VO tokens,
  and \<open>extractDomainFromHostname\<close>. The lemmas: a rooted path is cleaned to components that are
  neither empty nor dots, so cleaning is idempotent and every directory field is a prefix of
  the cleaned path.
\<close>

subsection \<open>path.Clean and path.Join\<close>

definition clean_step :: "bool \<Rightarrow> string list \<Rightarrow> string \<Rightarrow> string list" where
  "clean_step rooted out e =
     (if e = [] \<or> e = ''.'' then out
      else if e = ''..'' then
        (if out \<noteq> [] \<and> last out \<noteq> ''..'' then butlast out
         else if rooted then out else out @ [''..''])
      else out @ [e])"

definition clean_parts :: "bool \<Rightarrow> string \<Rightarrow> string list" where
  "clean_parts rooted p = foldl (clean_step rooted) [] (split_on (CHR ''/'') p)"

definition path_Clean :: "string \<Rightarrow> string" where
  "path_Clean p =
     (let rooted = has_prefix p ''/'';
          out = (if rooted then ''/'' else []) @ join ''/'' (clean_parts rooted p)
      in if out = [] then ''.'' else out)"

definition path_Join :: "string list \<Rightarrow> string" where
  "path_Join elems =
     (let es = filter (\<lambda>e. e \<noteq> []) elems
      in if es = [] then [] else path_Clean (join ''/'' es))"

subsection \<open>extractDirnames\<close>

abbreviation (input) "unknown_directory \<equiv> ''unknown directory''"

text \<open>\<open>"/" + path.Join(parts[0], ..., parts[n-1])\<close> when there are that many parts.\<close>

definition first_parts :: "nat \<Rightarrow> string list \<Rightarrow> string \<Rightarrow> string" where
  "first_parts n parts dirname2 =
     (if n \<le> length parts then ''/'' @ path_Join (take n parts) else dirname2)"

definition logical_dirname :: "string \<Rightarrow> string list \<Rightarrow> string \<Rightarrow> string" where
  "logical_dirname cleanPath parts dirname2 =
     (if has_prefix cleanPath ''/user'' then dirname2
      else if has_prefix cleanPath ''/osgconnect/public'' \<or> has_prefix cleanPath ''/osgconnect/protected'' \<or>
              has_prefix cleanPath ''/ospool/PROTECTED''
      then first_parts 3 parts dirname2
      else if has_prefix cleanPath ''/ospool'' then first_parts 4 parts dirname2
      else if has_prefix cleanPath ''/path-facility'' then first_parts 3 parts dirname2
      else if has_prefix cleanPath ''/hcc'' then first_parts 5 parts dirname2
      else if has_prefix cleanPath ''/pnfs/fnal.gov/usr'' then first_parts 4 parts dirname2
      else if has_prefix cleanPath ''/gwdata'' then dirname2
      else if has_prefix cleanPath ''/chtc/'' then ''/chtc''
      else if has_prefix cleanPath ''/icecube/'' then ''/icecube''
      else if has_prefix cleanPath ''/igwn'' then first_parts 3 parts dirname2
      else if has_prefix cleanPath ''/store'' \<or> has_prefix cleanPath ''/user/dteam'' then dirname2
      else unknown_directory)"

definition extractDirnames :: "string \<Rightarrow> string \<times> string \<times> string" where
  "extractDirnames filename =
     (if filename = [] \<or> filename = ''unknown'' \<or> filename = ''/''
      then (unknown_directory, unknown_directory, unknown_directory)
      else
        let cleanPath = path_Clean filename;
            parts = split_on (CHR ''/'') (trim_prefix cleanPath ''/'');
            dirname1 = (if hd parts \<noteq> [] then ''/'' @ hd parts else unknown_directory);
            dirname2 = (if 1 < length parts \<and> hd parts \<noteq> []
                        then ''/'' @ path_Join [parts ! 0, parts ! 1] else dirname1)
        in (dirname1, dirname2, logical_dirname cleanPath parts dirname2))"

subsection \<open>normalizeVO and extractDomainFromHostname\<close>

fun unique_tokens :: "string list \<Rightarrow> string list \<Rightarrow> string list" where
  "unique_tokens seen [] = []"
| "unique_tokens seen (token # tokens) =
     (if token = [] then unique_tokens seen tokens
      else
        let k = to_lower token
        in if k \<in> set seen then unique_tokens seen tokens
           else token # unique_tokens (k # seen) tokens)"

definition normalizeVO :: "string \<Rightarrow> string" where
  "normalizeVO raw =
     (let tokens = fields raw
      in if tokens = [] then [] else join '' '' (unique_tokens [] tokens))"

definition extractDomainFromHostname :: "string \<Rightarrow> string" where
  "extractDomainFromHostname hostname =
     (let parts = split_on (CHR ''.'') hostname
      in if length parts < 2 then [] else join ''.'' (drop (length parts - 2) parts))"

subsection \<open>Cleaned paths\<close>

definition plain_part :: "string \<Rightarrow> bool" where
  "plain_part e \<longleftrightarrow> e \<noteq> [] \<and> e \<noteq> ''.'' \<and> e \<noteq> ''..'' \<and> CHR ''/'' \<notin> set e"

lemma clean_step_plain: "plain_part e \<Longrightarrow> clean_step r out e = out @ [e]"
  by (simp add: clean_step_def plain_part_def)

lemma clean_step_rooted:
  "list_all plain_part out \<Longrightarrow> CHR ''/'' \<notin> set e \<Longrightarrow> list_all plain_part (clean_step True out e)"
  by (auto simp: clean_step_def plain_part_def list_all_iff dest: in_set_butlastD)

lemma foldl_clean_rooted:
  "list_all plain_part out \<Longrightarrow> (\<And>e. e \<in> set es \<Longrightarrow> CHR ''/'' \<notin> set e) \<Longrightarrow>
     list_all plain_part (foldl (clean_step True) out es)"
  by (induction es arbitrary: out) (auto intro: clean_step_rooted)

lemma clean_parts_rooted: "list_all plain_part (clean_parts True p)"
  unfolding clean_parts_def by (rule foldl_clean_rooted) (auto dest: split_on_pieces)

lemma foldl_clean_plain: "list_all plain_part es \<Longrightarrow> foldl (clean_step r) out es = out @ es"
  by (induction es arbitrary: out) (auto simp: clean_step_plain)

text \<open>The text of a list of plain parts is split and cleaned back to the list.\<close>

lemma split_join_parts:
  "list_all plain_part es \<Longrightarrow> es \<noteq> [] \<Longrightarrow> split_on (CHR ''/'') (join ''/'' es) = es"
  by (rule split_on_join) (auto simp: list_all_iff plain_part_def)

lemma hd_join_part:
  "list_all plain_part (e # es) \<Longrightarrow> \<not> has_prefix (join ''/'' (e # es)) ''/''"
  by (cases es; cases e) (auto simp: has_prefix_def plain_part_def)

lemma clean_parts_join:
  "list_all plain_part es \<Longrightarrow> es \<noteq> [] \<Longrightarrow> clean_parts r (join ''/'' es) = es"
  by (simp add: clean_parts_def split_join_parts foldl_clean_plain)

lemma clean_parts_slash: "clean_parts r (CHR ''/'' # p) = clean_parts r p"
  by (simp add: clean_parts_def clean_step_def)

lemma path_Clean_rooted:
  "path_Clean (CHR ''/'' # p) = CHR ''/'' # join ''/'' (clean_parts True p)"
  by (simp add: path_Clean_def has_prefix_def clean_parts_slash)

lemma path_Clean_parts:
  "list_all plain_part es \<Longrightarrow> path_Clean (CHR ''/'' # join ''/'' es) = CHR ''/'' # join ''/'' es"
  by (cases "es = []")
    (simp_all add: path_Clean_rooted clean_parts_join, simp add: clean_parts_def clean_step_def)

lemma join_not_Nil: "list_all plain_part es \<Longrightarrow> es \<noteq> [] \<Longrightarrow> join ''/'' es \<noteq> []"
  by (cases es rule: list.exhaust; cases "tl es") (auto simp: plain_part_def)

lemma path_Join_plain:
  assumes "list_all plain_part es" and "es \<noteq> []"
  shows "path_Join es = join ''/'' es"
proof -
  have "filter (\<lambda>e. e \<noteq> []) es = es"
    using assms(1) by (auto simp: list_all_iff plain_part_def filter_id_conv)
  moreover have "\<not> has_prefix (join ''/'' es) ''/''"
    using assms hd_join_part by (cases es) auto
  ultimately show ?thesis
    using assms join_not_Nil [OF assms]
    by (simp add: path_Join_def path_Clean_def clean_parts_join Let_def)
qed

lemma list_all_take: "list_all P xs \<Longrightarrow> list_all P (take n xs)"
  by (auto simp: list_all_iff dest: in_set_takeD)

lemma first_parts_take:
  assumes "list_all plain_part es" and "es \<noteq> []" and "0 < n"
  shows "first_parts n es d = (if n \<le> length es then ''/'' @ join ''/'' (take n es) else d)"
  using assms path_Join_plain [of "take n es"] list_all_take [of plain_part es n]
  by (simp add: first_parts_def)

subsection \<open>Theorems\<close>

text \<open>The fields of a file name whose cleaned path has the parts \<open>es\<close>.\<close>

definition prefix_dir :: "nat \<Rightarrow> string list \<Rightarrow> string" where
  "prefix_dir n es = ''/'' @ join ''/'' (take n es)"

lemma extractDirnames_parts:
  assumes "list_all plain_part es" and "es \<noteq> []" and "path_Clean f = CHR ''/'' # join ''/'' es"
    and "f \<noteq> []" "f \<noteq> ''unknown''" "f \<noteq> ''/''"
  shows "extractDirnames f = (prefix_dir 1 es, prefix_dir 2 es,
    logical_dirname (CHR ''/'' # join ''/'' es) es (prefix_dir 2 es))"
proof -
  have parts: "split_on (CHR ''/'') (trim_prefix (path_Clean f) ''/'') = es"
    using assms(1-3) by (simp add: trim_prefix_def split_join_parts)
  have hd: "hd es \<noteq> []" using assms(1,2) by (cases es) (auto simp: plain_part_def)
  have d1: "prefix_dir 1 es = ''/'' @ hd es" using assms(2) by (cases es) (simp_all add: prefix_dir_def)
  have d2: "prefix_dir 2 es = (if 1 < length es then ''/'' @ path_Join [es ! 0, es ! 1] else prefix_dir 1 es)"
  proof (cases "1 < length es")
    case True
    then obtain a b r where es: "es = a # b # r" by (cases es; cases "tl es") auto
    with assms(1) path_Join_plain [of "[a, b]"] show ?thesis by (simp add: prefix_dir_def)
  next
    case False
    with assms(2) show ?thesis by (cases es) (simp_all add: prefix_dir_def)
  qed
  show ?thesis
    using assms(3-6) parts hd d1 d2 by (simp add: extractDirnames_def Let_def)
qed

lemma logical_dirname_cases:
  assumes "P d" and "P (first_parts 3 parts d)" "P (first_parts 4 parts d)" "P (first_parts 5 parts d)"
    and "has_prefix cp ''/chtc/'' \<Longrightarrow> P ''/chtc''" and "has_prefix cp ''/icecube/'' \<Longrightarrow> P ''/icecube''"
    and "P unknown_directory"
  shows "P (logical_dirname cp parts d)"
  using assms unfolding logical_dirname_def by simp

text \<open>For every rooted file name with at least one real component, the first two directory
  fields are the first one and the first two components of the cleaned path, and the logical
  one is either unknown or its first one to five components: no field ever contains a dot
  component or leaves the cleaned path.\<close>

theorem extractDirnames_prefixes:
  assumes "es = clean_parts True p" and "es \<noteq> []"
  shows "\<exists>logical. extractDirnames (CHR ''/'' # p) = (prefix_dir 1 es, prefix_dir 2 es, logical) \<and>
    (logical = ''unknown directory'' \<or> (\<exists>n \<in> {1..5}. logical = prefix_dir n es)) \<and>
    list_all (\<lambda>e. e \<notin> {[], ''.'', ''..''} \<and> CHR ''/'' \<notin> set e) es"
proof -
  have plain: "list_all plain_part es" using assms(1) clean_parts_rooted by simp
  have "CHR ''/'' # p \<noteq> ''/''" using assms by (auto simp: clean_parts_def clean_step_def)
  then have dirs: "extractDirnames (CHR ''/'' # p) = (prefix_dir 1 es, prefix_dir 2 es,
      logical_dirname (CHR ''/'' # join ''/'' es) es (prefix_dir 2 es))"
    using assms(1) by (intro extractDirnames_parts [OF plain assms(2)]) (simp_all add: path_Clean_rooted)
  have fp: "first_parts n es (prefix_dir 2 es) \<in> {prefix_dir n es, prefix_dir 2 es}" if "0 < n" for n
    using first_parts_take [OF plain assms(2) that] by (simp add: prefix_dir_def)
  have one: "prefix_dir 1 es = ''/'' @ hd es" using assms(2) by (cases es) (simp_all add: prefix_dir_def)
  define cp where "cp = CHR ''/'' # join ''/'' es"
  have cut: "hd es = t" if "has_prefix cp (CHR ''/'' # t @ ''/'')" "CHR ''/'' \<notin> set t" for t
  proof -
    have "prefix (t @ ''/'') (join ''/'' es)" using that(1) by (simp add: has_prefix_def cp_def)
    then obtain u where "join ''/'' es = t @ CHR ''/'' # u" by (auto elim!: prefixE)
    then have "es = t # split_on (CHR ''/'') u"
      using split_join_parts [OF plain assms(2)] split_on_append [OF that(2)] by simp
    then show ?thesis by simp
  qed
  have known: "\<exists>n \<in> {1..5}. prefix_dir m es = prefix_dir n es" if "m \<in> {1, 2, 3, 4, 5}" for m
    using that by (intro bexI [of _ m]) auto
  have "logical_dirname cp es (prefix_dir 2 es) = ''unknown directory'' \<or>
      (\<exists>n \<in> {1..5}. logical_dirname cp es (prefix_dir 2 es) = prefix_dir n es)"
    by (rule logical_dirname_cases)
      (use fp [of 3] fp [of 4] fp [of 5] cut [of "''chtc''"] cut [of "''icecube''"] one
        known [of 1] known [of 2] known [of 3] known [of 4] known [of 5] in auto)
  moreover have "list_all (\<lambda>e. e \<notin> {[], ''.'', ''..''} \<and> CHR ''/'' \<notin> set e) es"
    using plain by (simp add: list_all_iff plain_part_def)
  ultimately show ?thesis using dirs unfolding cp_def by blast
qed

lemma extractDirnames_prefixes_witness:
  "\<exists>logical. extractDirnames ''/a/./b/../c'' = (prefix_dir 1 [''a'', ''c''], prefix_dir 2 [''a'', ''c''], logical) \<and>
    (logical = ''unknown directory'' \<or> (\<exists>n \<in> {1..5}. logical = prefix_dir n [''a'', ''c''])) \<and>
    list_all (\<lambda>e. e \<notin> {[], ''.'', ''..''} \<and> CHR ''/'' \<notin> set e) [''a'', ''c'']"
proof -
  have "[''a'', ''c''] = clean_parts True ''a/./b/../c''"
    by (simp add: clean_parts_def clean_step_def)
  from extractDirnames_prefixes [OF this] show ?thesis by simp
qed

lemma unique_tokens_props:
  assumes "[] \<notin> set ts"
  shows "distinct (List.map to_lower (unique_tokens seen ts)) \<and>
    to_lower ` set (unique_tokens seen ts) = to_lower ` set ts - set seen \<and>
    subseq (unique_tokens seen ts) ts"
  using assms
proof (induction ts arbitrary: seen)
  case (Cons t ts)
  then have t: "t \<noteq> []" and ts: "[] \<notin> set ts" by auto
  show ?case
  proof (cases "to_lower t \<in> set seen")
    case True
    with Cons.IH [OF ts, of seen] t show ?thesis by auto
  next
    case False
    with Cons.IH [OF ts, of "to_lower t # seen"] t show ?thesis by auto
  qed
qed simp

text \<open>\<open>normalizeVO\<close> keeps a selection of the VO tokens, in their order, in which no two are
  equal up to letter case and in which every token of the input is represented.\<close>

theorem normalizeVO_unique:
  "\<exists>us. normalizeVO raw = join '' '' us \<and> subseq us (fields raw) \<and>
     distinct (List.map to_lower us) \<and> to_lower ` set us = to_lower ` set (fields raw)"
proof -
  have "[] \<notin> set (fields raw)" using fields_not_empty by blast
  from unique_tokens_props [OF this, of "[]"] show ?thesis
    by (intro exI [of _ "unique_tokens [] (fields raw)"]) (simp add: normalizeVO_def Let_def)
qed

end
