(* ===== verification/Packet_Parser.thy ===== *)
theory Packet_Parser
  imports Wire_Types
begin

section \<open>The packet parser (parser/xrootd_parser.go)\<close>

text \<open>
  \<open>ParsePacket\<close> and everything it calls: the record loop over an f-stream packet, written over
  a \<open>bytes.Reader\<close> (its data and position), the text fields of user, token and server packets,
  and the g-stream record. The loop is total: every iteration that goes on moves the reader
  forward. \<open>encoding/json\<close> is an argument of the g-stream parser, so nothing depends on how
  it reads a line.
\<close>

subsection \<open>bytes.Reader and binary.Read\<close>

record reader =
  rd_data :: bytes
  rd_pos :: nat

definition rd_Len :: "reader \<Rightarrow> nat" where
  "rd_Len r = length (rd_data r) - rd_pos r"

definition rd_Seek :: "nat \<Rightarrow> reader \<Rightarrow> reader" where
  "rd_Seek p r = r\<lparr>rd_pos := p\<rparr>"

text \<open>\<open>io.ReadFull\<close>: all \<open>n\<close> bytes, or an error with the reader left at the end of its data.\<close>

definition rd_ReadFull :: "nat \<Rightarrow> reader \<Rightarrow> bytes option \<times> reader" where
  "rd_ReadFull n r =
     (if rd_pos r + n \<le> length (rd_data r)
      then (Some (field (rd_pos r) n (rd_data r)), r\<lparr>rd_pos := rd_pos r + n\<rparr>)
      else (None, r\<lparr>rd_pos := max (rd_pos r) (length (rd_data r))\<rparr>))"

lemma rd_data_Seek [simp]: "rd_data (rd_Seek p r) = rd_data r"
  by (simp add: rd_Seek_def)

lemma rd_pos_Seek [simp]: "rd_pos (rd_Seek p r) = p"
  by (simp add: rd_Seek_def)

subsection \<open>One iteration of the record loop\<close>

datatype loop_step =
    Break
  | Fail parse_error
  | Continue "FileRecord list" reader

definition parse_time_record :: "reader \<Rightarrow> loop_step" where
  "parse_time_record r =
     (case rd_ReadFull binaryFileTimeRecord_size r of
        (None, _) \<Rightarrow> Fail TimeRecordShort
      | (Some h, r1) \<Rightarrow> Continue [TimeRec (decode_binaryFileTimeRecord h)] r1)"

definition close_with_ops :: "FileCloseRecord \<Rightarrow> reader \<Rightarrow> FileCloseRecord" where
  "close_with_ops c r =
     (if fh_RecFlag (fcr_Header c) AND 2 \<noteq> 0 \<and> binaryStatOPS_size \<le> rd_Len r
      then (case rd_ReadFull binaryStatOPS_size r of
              (Some o48, _) \<Rightarrow> c\<lparr>fcr_Ops := decode_binaryStatOPS o48\<rparr>
            | (None, _) \<Rightarrow> c)
      else c)"

definition parse_close_record :: "nat \<Rightarrow> reader \<Rightarrow> loop_step" where
  "parse_close_record pos r =
     (case rd_ReadFull binaryFileCloseRecordHeader_size r of
        (None, _) \<Rightarrow> Fail CloseRecordShort
      | (Some h, r1) \<Rightarrow>
          (let c = decode_binaryFileCloseRecordHeader h
           in Continue [CloseRec (close_with_ops c r1)]
                (rd_Seek (pos + unat (fh_RecSize (fcr_Header c))) r1)))"

definition open_with_user :: "FileOpenRecord \<Rightarrow> reader \<Rightarrow> FileOpenRecord \<times> reader" where
  "open_with_user c r =
     (if fh_RecFlag (for_Header c) AND 1 \<noteq> 0
      then (case rd_ReadFull 4 r of
              (Some u, r1) \<Rightarrow>
                (c\<lparr>for_User := be32 u, for_Header := (for_Header c)\<lparr>fh_UserId := be32 u\<rparr>\<rparr>, r1)
            | (None, r1) \<Rightarrow> (c, r1))
      else (c, r))"

definition open_with_lfn :: "nat \<Rightarrow> FileOpenRecord \<Rightarrow> reader \<Rightarrow> FileOpenRecord" where
  "open_with_lfn recordEnd c r =
     (let lfnLen = int recordEnd - int (rd_pos r)
      in if 0 < lfnLen
         then (case rd_ReadFull (nat lfnLen) r of
                 (Some lfn, _) \<Rightarrow> c\<lparr>for_Lfn := trim_right_char nul lfn\<rparr>
               | (None, _) \<Rightarrow> c)
         else c)"

definition parse_open_record :: "nat \<Rightarrow> reader \<Rightarrow> loop_step" where
  "parse_open_record pos r =
     (case rd_ReadFull binaryFileOpenRecordHeader_size r of
        (None, _) \<Rightarrow> Fail OpenRecordShort
      | (Some h, r1) \<Rightarrow>
          (let c = decode_binaryFileOpenRecordHeader h;
               recordEnd = pos + unat (fh_RecSize (for_Header c));
               (c1, r2) = open_with_user c r1
           in Continue [OpenRec (open_with_lfn recordEnd c1 r2)] (rd_Seek recordEnd r2)))"

definition parse_disc_record :: "FileHeader \<Rightarrow> FileRecord" where
  "parse_disc_record common = DiscRec \<lparr>fdr_Header = common, fdr_UserID = fh_FileId common\<rparr>"

definition parse_file_record :: "reader \<Rightarrow> loop_step" where
  "parse_file_record r =
     (let pos = rd_pos r
      in case rd_ReadFull binaryFileHeaderCommon_size r of
           (None, _) \<Rightarrow> Break
         | (Some h, r1) \<Rightarrow>
             (let common = decode_binaryFileHeaderCommon h;
                  size = unat (fh_RecSize common)
              in if size < 8 \<or> 16384 < size then Break
                 else if rd_Len r1 + 8 < size then Break
                 else
                   let r2 = rd_Seek pos r1
                   in if fh_RecType common = RecTypeTime then parse_time_record r2
                      else if fh_RecType common = RecTypeClose then parse_close_record pos r2
                      else if fh_RecType common = RecTypeOpen then parse_open_record pos r2
                      else if fh_RecType common = RecTypeDisc
                      then Continue [parse_disc_record common] (rd_Seek (pos + size) r2)
                      else Continue [] (rd_Seek (pos + size) r2)))"

lemma rd_ReadFull_Some:
  "rd_ReadFull n r = (Some x, r1) \<longleftrightarrow>
     rd_pos r + n \<le> length (rd_data r) \<and> x = field (rd_pos r) n (rd_data r) \<and>
     r1 = r\<lparr>rd_pos := rd_pos r + n\<rparr>"
  by (auto simp: rd_ReadFull_def)

lemma rd_data_ReadFull: "rd_ReadFull n r = (x, r1) \<Longrightarrow> rd_data r1 = rd_data r"
  by (auto simp: rd_ReadFull_def split: if_splits)

lemma fh_RecSize_field:
  "8 < m \<Longrightarrow> decode_binaryFileHeaderCommon (field i m b) = decode_binaryFileHeaderCommon (field i 8 b)"
  by (simp add: decode_binaryFileHeaderCommon_def field_def drop_take min_def)

lemma parse_time_Continue:
  "parse_time_record r = Continue new r' \<Longrightarrow>
     rd_data r' = rd_data r \<and> rd_pos r' = rd_pos r + 28 \<and> length new = 1"
  by (auto simp: parse_time_record_def rd_ReadFull_def split: if_splits)

lemma parse_close_Continue:
  assumes "parse_close_record pos r = Continue new r'"
  shows "rd_data r' = rd_data r \<and> length new = 1 \<and>
    rd_pos r' = pos + unat (fh_RecSize (decode_binaryFileHeaderCommon (field (rd_pos r) 8 (rd_data r))))"
proof (cases "rd_pos r + 32 \<le> length (rd_data r)")
  case True
  with assms show ?thesis
    unfolding parse_close_record_def rd_ReadFull_def Let_def decode_binaryFileCloseRecordHeader_def
    by (auto simp: fh_RecSize_field)
next
  case False
  with assms show ?thesis by (simp add: parse_close_record_def rd_ReadFull_def)
qed

lemma open_with_user_data: "open_with_user c r = (c', r') \<Longrightarrow> rd_data r' = rd_data r"
  by (auto simp: open_with_user_def rd_ReadFull_def split: if_splits)

lemma parse_open_Continue:
  assumes "parse_open_record pos r = Continue new r'"
  shows "rd_data r' = rd_data r \<and> length new = 1 \<and>
    rd_pos r' = pos + unat (fh_RecSize (decode_binaryFileHeaderCommon (field (rd_pos r) 8 (rd_data r))))"
proof (cases "rd_pos r + 16 \<le> length (rd_data r)")
  case True
  with assms show ?thesis
    unfolding parse_open_record_def rd_ReadFull_def Let_def decode_binaryFileOpenRecordHeader_def
    by (auto simp: fh_RecSize_field dest: open_with_user_data split: prod.splits)
next
  case False
  with assms show ?thesis by (simp add: parse_open_record_def rd_ReadFull_def)
qed

text \<open>An iteration that goes on leaves the data alone and moves the reader at least 8 bytes on.\<close>

lemma parse_file_record_Continue:
  assumes "parse_file_record r = Continue new r'"
  shows "rd_data r' = rd_data r" and "rd_pos r + 8 \<le> rd_pos r'"
    and "rd_pos r + 8 \<le> length (rd_data r)" and "length new \<le> 1"
proof -
  obtain h r1 where h: "rd_ReadFull 8 r = (Some h, r1)"
    using assms by (auto simp: parse_file_record_def Let_def split: prod.splits option.splits)
  have r1: "rd_Seek (rd_pos r) r1 = r" "rd_data r1 = rd_data r"
    and hf: "h = field (rd_pos r) 8 (rd_data r)"
    and len: "rd_pos r + 8 \<le> length (rd_data r)"
    using h by (simp_all add: rd_ReadFull_Some rd_Seek_def)
  define size where "size = unat (fh_RecSize (decode_binaryFileHeaderCommon h))"
  have size: "8 \<le> size" and branch:
    "parse_time_record r = Continue new r' \<or> parse_close_record (rd_pos r) r = Continue new r' \<or>
     parse_open_record (rd_pos r) r = Continue new r' \<or>
     (r' = rd_Seek (rd_pos r + size) r \<and> length new \<le> 1)"
    using assms h by (auto simp: parse_file_record_def Let_def size_def r1 split: if_splits)
  from branch have "rd_data r' = rd_data r \<and> rd_pos r + 8 \<le> rd_pos r' \<and> length new \<le> 1"
    using size hf
    by (elim disjE) (auto simp: size_def dest: parse_time_Continue parse_close_Continue parse_open_Continue)
  with len show "rd_data r' = rd_data r" and "rd_pos r + 8 \<le> rd_pos r'"
    and "rd_pos r + 8 \<le> length (rd_data r)" and "length new \<le> 1"
    by auto
qed

function parse_loop :: "reader \<Rightarrow> FileRecord list \<Rightarrow> FileRecord list \<times> parse_error option" where
  "parse_loop r records =
     (if rd_Len r = 0 then (records, None)
      else case parse_file_record r of
             Break \<Rightarrow> (records, None)
           | Fail e \<Rightarrow> (records, Some e)
           | Continue new r' \<Rightarrow> parse_loop r' (records @ new))"
  by pat_completeness auto
termination
proof (relation "measure (\<lambda>(r, _). length (rd_data r) - rd_pos r)")
  fix r :: reader and records new r'
  assume "rd_Len r \<noteq> 0" and "parse_file_record r = Continue new r'"
  then show "((r', records @ new), r, records)
      \<in> measure (\<lambda>(r, _). length (rd_data r) - rd_pos r)"
    using parse_file_record_Continue [of r new r'] by (simp add: rd_Len_def)
qed simp

declare parse_loop.simps [simp del]

text \<open>
  \<open>parseFileRecords\<close>. The first record of an f-stream packet is skipped when it is a time
  record; the function's \<open>header\<close> and \<open>packetType\<close> arguments are never read.
\<close>

definition skip_first_time_record :: "reader \<Rightarrow> reader" where
  "skip_first_time_record r =
     (if 8 \<le> rd_Len r
      then (case rd_ReadFull binaryFileHeaderCommon_size r of
              (Some h, r1) \<Rightarrow>
                (let firstHeader = decode_binaryFileHeaderCommon h
                 in if fh_RecType firstHeader = RecTypeTime
                    then rd_Seek (rd_pos r + unat (fh_RecSize firstHeader)) r1
                    else rd_Seek (rd_pos r) r1)
            | (None, r1) \<Rightarrow> rd_Seek (rd_pos r) r1)
      else r)"

definition parseFileRecords :: "bytes \<Rightarrow> FileRecord list \<times> parse_error option" where
  "parseFileRecords b =
     (if length b < 8 then ([], Some (FileRecordPacketTooShort (length b)))
      else parse_loop (skip_first_time_record \<lparr>rd_data = drop 8 b, rd_pos = 0\<rparr>) [])"

end
