(* ===== verification/Fstream.thy ===== *)
theory Fstream
  imports Packet_Parser
begin

section \<open>The f-stream record loop against the wire format\<close>

text \<open>
  The wire format of the records of an f-stream packet, and what \<open>parseFileRecords\<close> makes of
  them: every sequence of well-formed open, close, disconnect and unknown records behind a
  leading time record is read back exactly, in order, unknown records skipped; the number of
  records is bounded by the bytes of the packet; and a time record that is not the first one
  takes 28 bytes whatever its length field says, so a 24-byte one (the size the protocol gives
  it) swallows the start of the record behind it.
\<close>

subsection \<open>Encoding\<close>

definition encode_file_header :: "FileHeader \<Rightarrow> bytes" where
  "encode_file_header h =
     be_bytes 1 (unat (fh_RecType h)) @ be_bytes 1 (unat (fh_RecFlag h)) @
     be_bytes 2 (unat (fh_RecSize h)) @ be_bytes 4 (unat (fh_FileId h))"

definition encode_ops :: "StatOPS \<Rightarrow> bytes" where
  "encode_ops s =
     be_bytes 4 (unat (ops_Read s)) @ be_bytes 4 (unat (ops_Readv s)) @
     be_bytes 4 (unat (ops_Write s)) @ be_bytes 2 (unat (ops_RsMin s)) @
     be_bytes 2 (unat (ops_RsMax s)) @ be_bytes 8 (unat (ops_Rsegs s)) @
     be_bytes 4 (unat (ops_RdMin s)) @ be_bytes 4 (unat (ops_RdMax s)) @
     be_bytes 4 (unat (ops_RvMin s)) @ be_bytes 4 (unat (ops_RvMax s)) @
     be_bytes 4 (unat (ops_WrMin s)) @ be_bytes 4 (unat (ops_WrMax s))"

definition encode_close :: "FileCloseRecord \<Rightarrow> bytes" where
  "encode_close c =
     encode_file_header (fcr_Header c) @ be_bytes 8 (unat (xfr_Read (fcr_Xfr c))) @
     be_bytes 8 (unat (xfr_Readv (fcr_Xfr c))) @ be_bytes 8 (unat (xfr_Write (fcr_Xfr c))) @
     (if fh_RecFlag (fcr_Header c) AND 2 \<noteq> 0 then encode_ops (fcr_Ops c) else [])"

text \<open>An open record's file name is padded with NUL bytes up to the record's size.\<close>

definition encode_open_fixed :: "FileOpenRecord \<Rightarrow> bytes" where
  "encode_open_fixed c =
     encode_file_header ((for_Header c)\<lparr>fh_UserId := 0\<rparr>) @ be_bytes 8 (unat (for_FileSize c)) @
     (if fh_RecFlag (for_Header c) AND 1 \<noteq> 0 then be_bytes 4 (unat (for_User c)) else [])"

definition encode_open :: "FileOpenRecord \<Rightarrow> bytes" where
  "encode_open c =
     encode_open_fixed c @ for_Lfn c @
     replicate (unat (fh_RecSize (for_Header c)) - length (encode_open_fixed c) - length (for_Lfn c)) nul"

datatype wire_item = Item FileRecord | Unknown FileHeader bytes

fun encode_item :: "wire_item \<Rightarrow> bytes" where
  "encode_item (Item (CloseRec c)) = encode_close c"
| "encode_item (Item (OpenRec c)) = encode_open c"
| "encode_item (Item (DiscRec d)) = encode_file_header (fdr_Header d)"
| "encode_item (Item (TimeRec t)) = []"
| "encode_item (Unknown h body) = encode_file_header h @ body"

fun item_records :: "wire_item \<Rightarrow> FileRecord list" where
  "item_records (Item r) = [r]"
| "item_records (Unknown h body) = []"

definition plain_header :: "FileHeader \<Rightarrow> bool" where
  "plain_header h \<longleftrightarrow> fh_UserId h = 0 \<and> fh_NRecs0 h = 0 \<and> fh_NRecs1 h = 0"

definition wf_close :: "FileCloseRecord \<Rightarrow> bool" where
  "wf_close c \<longleftrightarrow>
     plain_header (fcr_Header c) \<and> fh_RecType (fcr_Header c) = RecTypeClose \<and>
     (if fh_RecFlag (fcr_Header c) AND 2 \<noteq> 0 then fh_RecSize (fcr_Header c) = 80
      else fh_RecSize (fcr_Header c) = 32 \<and> fcr_Ops c = zero_StatOPS)"

definition wf_open :: "FileOpenRecord \<Rightarrow> bool" where
  "wf_open c \<longleftrightarrow>
     fh_NRecs0 (for_Header c) = 0 \<and> fh_NRecs1 (for_Header c) = 0 \<and>
     fh_RecType (for_Header c) = RecTypeOpen \<and>
     fh_UserId (for_Header c) = for_User c \<and>
     (fh_RecFlag (for_Header c) AND 1 = 0 \<longrightarrow> for_User c = 0) \<and>
     (for_Lfn c = [] \<or> last (for_Lfn c) \<noteq> nul) \<and>
     length (encode_open_fixed c) + length (for_Lfn c) \<le> unat (fh_RecSize (for_Header c)) \<and>
     unat (fh_RecSize (for_Header c)) \<le> 16384"

fun wf_item :: "wire_item \<Rightarrow> bool" where
  "wf_item (Item (CloseRec c)) \<longleftrightarrow> wf_close c"
| "wf_item (Item (OpenRec c)) \<longleftrightarrow> wf_open c"
| "wf_item (Item (DiscRec d)) \<longleftrightarrow>
     plain_header (fdr_Header d) \<and> fh_RecType (fdr_Header d) = RecTypeDisc \<and>
     fh_RecSize (fdr_Header d) = 8 \<and> fdr_UserID d = fh_FileId (fdr_Header d)"
| "wf_item (Item (TimeRec t)) \<longleftrightarrow> False"
| "wf_item (Unknown h body) \<longleftrightarrow>
     plain_header h \<and> fh_RecType h \<notin> {RecTypeClose, RecTypeOpen, RecTypeTime, RecTypeDisc} \<and>
     unat (fh_RecSize h) = 8 + length body \<and> 8 + length body \<le> 16384"

subsection \<open>Decoding an encoded record\<close>

lemma length_encode_file_header [simp]: "length (encode_file_header h) = 8"
  by (simp add: encode_file_header_def)

lemma length_encode_ops [simp]: "length (encode_ops s) = 48"
  by (simp add: encode_ops_def)

lemma decode_encode_file_header [wire_simps]:
  "decode_binaryFileHeaderCommon (encode_file_header h @ rest) =
     h\<lparr>fh_UserId := 0, fh_NRecs0 := 0, fh_NRecs1 := 0\<rparr>"
  by (cases h) (simp add: decode_binaryFileHeaderCommon_def encode_file_header_def wire_simps)

lemma decode_encode_file_header_alone [wire_simps]:
  "decode_binaryFileHeaderCommon (encode_file_header h) =
     h\<lparr>fh_UserId := 0, fh_NRecs0 := 0, fh_NRecs1 := 0\<rparr>"
  using decode_encode_file_header [of h "[]"] by simp

lemma decode_header_field [wire_simps]:
  "8 \<le> m \<Longrightarrow> decode_binaryFileHeaderCommon (field i m b) = decode_binaryFileHeaderCommon (drop i b)"
  by (simp add: decode_binaryFileHeaderCommon_def field_field field_drop)

lemma decode_encode_ops [wire_simps]: "decode_binaryStatOPS (encode_ops s) = s"
  by (cases s) (simp add: decode_binaryStatOPS_def encode_ops_def wire_simps)

lemma field_at: "field (length pre) n (pre @ b) = field 0 n b"
  by (simp add: field_def)

text \<open>Reading at the front of an encoded item, wherever it stands in the packet.\<close>

lemma parse_file_record_at:
  assumes size: "unat (fh_RecSize h) = length (encode_file_header h @ body)"
    and small: "unat (fh_RecSize h) \<le> 16384" and plain: "fh_NRecs0 h = 0" "fh_NRecs1 h = 0"
  shows "parse_file_record \<lparr>rd_data = pre @ (encode_file_header h @ body) @ post, rd_pos = length pre\<rparr> =
    (let r = \<lparr>rd_data = pre @ (encode_file_header h @ body) @ post, rd_pos = length pre\<rparr>;
         h0 = h\<lparr>fh_UserId := 0\<rparr>
     in if fh_RecType h = RecTypeTime then parse_time_record r
        else if fh_RecType h = RecTypeClose then parse_close_record (length pre) r
        else if fh_RecType h = RecTypeOpen then parse_open_record (length pre) r
        else if fh_RecType h = RecTypeDisc
        then Continue [parse_disc_record h0] (rd_Seek (length pre + unat (fh_RecSize h)) r)
        else Continue [] (rd_Seek (length pre + unat (fh_RecSize h)) r))"
proof -
  have "h\<lparr>fh_UserId := 0, fh_NRecs0 := 0, fh_NRecs1 := 0\<rparr> = h\<lparr>fh_UserId := 0\<rparr>"
    using plain by (cases h) simp
  then show ?thesis
    using size small
    by (simp add: parse_file_record_def rd_ReadFull_def Let_def wire_simps rd_Len_def rd_Seek_def)
qed

text \<open>The reader standing in front of, or behind, a block of a packet.\<close>

abbreviation at_block :: "bytes \<Rightarrow> bytes \<Rightarrow> bytes \<Rightarrow> reader" where
  "at_block pre block post \<equiv> \<lparr>rd_data = pre @ block @ post, rd_pos = length pre\<rparr>"

abbreviation past_block :: "bytes \<Rightarrow> bytes \<Rightarrow> bytes \<Rightarrow> reader" where
  "past_block pre block post \<equiv> \<lparr>rd_data = pre @ block @ post, rd_pos = length pre + length block\<rparr>"

lemma plain_header_update: "plain_header h \<Longrightarrow> h\<lparr>fh_UserId := 0\<rparr> = h"
  "plain_header h \<Longrightarrow> h\<lparr>fh_UserId := 0, fh_NRecs0 := 0, fh_NRecs1 := 0\<rparr> = h"
  by (cases h, simp add: plain_header_def)+

lemma length_encode_close:
  "length (encode_close c) = (if fh_RecFlag (fcr_Header c) AND 2 \<noteq> 0 then 80 else 32)"
  by (simp add: encode_close_def)

lemma decode_encode_close:
  assumes "plain_header (fcr_Header c)"
  shows "decode_binaryFileCloseRecordHeader (field (length pre) 32 (pre @ encode_close c @ post)) =
    c\<lparr>fcr_Ops := zero_StatOPS\<rparr>"
proof -
  obtain r v w where x: "fcr_Xfr c = \<lparr>xfr_Read = r, xfr_Readv = v, xfr_Write = w\<rparr>"
    by (cases "fcr_Xfr c")
  show ?thesis
    using x plain_header_update(2) [OF assms]
    by (cases c) (simp add: decode_binaryFileCloseRecordHeader_def encode_close_def field_at wire_simps)
qed

lemma field_ops_of_close:
  "fh_RecFlag (fcr_Header c) AND 2 \<noteq> 0 \<Longrightarrow>
     field 32 48 (encode_close c @ post) = encode_ops (fcr_Ops c)"
  by (simp add: encode_close_def wire_simps)

lemma close_with_ops_at:
  assumes "wf_close c"
  shows "close_with_ops (c\<lparr>fcr_Ops := zero_StatOPS\<rparr>)
    \<lparr>rd_data = pre @ encode_close c @ post, rd_pos = length pre + 32\<rparr> = c"
proof (cases "fh_RecFlag (fcr_Header c) AND 2 \<noteq> 0")
  case True
  then show ?thesis
    by (cases c) (simp add: close_with_ops_def rd_Len_def rd_ReadFull_def length_encode_close
        field_ops_of_close wire_simps)
next
  case False
  with assms have "fcr_Ops c = zero_StatOPS" by (simp add: wf_close_def)
  with False show ?thesis by (cases c) (simp add: close_with_ops_def)
qed

lemma parse_close_at:
  assumes "wf_close c"
  shows "parse_close_record (length pre) (at_block pre (encode_close c) post) =
    Continue [CloseRec c] (past_block pre (encode_close c) post)"
proof -
  have plain: "plain_header (fcr_Header c)"
    and size: "unat (fh_RecSize (fcr_Header c)) = length (encode_close c)"
    using assms by (auto simp: wf_close_def length_encode_close split: if_splits)
  have len: "32 \<le> length (encode_close c)" by (simp add: length_encode_close)
  show ?thesis
    using len close_with_ops_at [OF assms, of pre post] size
    by (simp add: parse_close_record_def rd_ReadFull_def Let_def decode_encode_close [OF plain]
        rd_Seek_def)
qed

lemma length_encode_open_fixed:
  "length (encode_open_fixed c) = (if fh_RecFlag (for_Header c) AND 1 \<noteq> 0 then 20 else 16)"
  by (simp add: encode_open_fixed_def)

lemma length_encode_open:
  "wf_open c \<Longrightarrow> length (encode_open c) = unat (fh_RecSize (for_Header c))"
  by (simp add: encode_open_def wf_open_def)

lemma decode_encode_open:
  assumes "wf_open c"
  shows "decode_binaryFileOpenRecordHeader (field (length pre) 16 (pre @ encode_open c @ post)) =
    \<lparr>for_Header = (for_Header c)\<lparr>fh_UserId := 0\<rparr>, for_FileSize = for_FileSize c,
     for_User = 0, for_Lfn = []\<rparr>"
proof -
  have "(for_Header c)\<lparr>fh_UserId := 0, fh_NRecs0 := 0, fh_NRecs1 := 0\<rparr> = (for_Header c)\<lparr>fh_UserId := 0\<rparr>"
    using assms by (cases "for_Header c") (simp add: wf_open_def)
  then show ?thesis
    by (simp add: decode_binaryFileOpenRecordHeader_def encode_open_def encode_open_fixed_def
        field_at wire_simps)
qed

lemma field_user_of_open:
  "fh_RecFlag (for_Header c) AND 1 \<noteq> 0 \<Longrightarrow>
     be32 (field 16 4 (encode_open c @ post)) = for_User c"
  by (simp add: encode_open_def encode_open_fixed_def wire_simps)

lemma trim_right_char_replicate:
  "xs = [] \<or> last xs \<noteq> c \<Longrightarrow> trim_right_char c (xs @ replicate n c) = xs"
  by (cases xs rule: rev_cases) (auto simp: trim_right_char_def dropWhile_append3)

lemma field_lfn_of_open:
  assumes "n = length (encode_open c) - length (encode_open_fixed c)"
  shows "field (length (encode_open_fixed c)) n (encode_open c @ post) =
    for_Lfn c @ replicate (n - length (for_Lfn c)) nul"
  using assms by (simp add: encode_open_def field_def)

lemma open_with_user_at:
  assumes "wf_open c"
  shows "open_with_user \<lparr>for_Header = (for_Header c)\<lparr>fh_UserId := 0\<rparr>, for_FileSize = for_FileSize c,
       for_User = 0, for_Lfn = []\<rparr> \<lparr>rd_data = pre @ encode_open c @ post, rd_pos = length pre + 16\<rparr> =
    (c\<lparr>for_Lfn := []\<rparr>, \<lparr>rd_data = pre @ encode_open c @ post,
       rd_pos = length pre + length (encode_open_fixed c)\<rparr>)"
proof (cases "fh_RecFlag (for_Header c) AND 1 \<noteq> 0")
  case True
  have "20 \<le> length (encode_open c)"
    using True by (simp add: encode_open_def length_encode_open_fixed)
  with True assms show ?thesis
    by (cases c)
      (simp add: open_with_user_def rd_ReadFull_def field_user_of_open length_encode_open_fixed
        wire_simps wf_open_def)
next
  case False
  with assms show ?thesis
    by (cases c) (simp add: open_with_user_def length_encode_open_fixed wf_open_def)
qed

lemma open_with_lfn_at:
  assumes "wf_open c"
  shows "open_with_lfn (length pre + length (encode_open c)) (c\<lparr>for_Lfn := []\<rparr>)
      \<lparr>rd_data = pre @ encode_open c @ post, rd_pos = length pre + length (encode_open_fixed c)\<rparr> = c"
proof -
  define n where "n = length (encode_open c) - length (encode_open_fixed c)"
  have n: "int (length (encode_open c)) - int (length (encode_open_fixed c)) = int n"
    by (simp add: n_def encode_open_def)
  have field: "field (length pre + length (encode_open_fixed c)) n (pre @ encode_open c @ post)
      = for_Lfn c @ replicate (n - length (for_Lfn c)) nul"
    using field_lfn_of_open [OF n_def] by (simp add: wire_simps)
  have trim: "trim_right_char nul (for_Lfn c @ replicate (n - length (for_Lfn c)) nul) = for_Lfn c"
    by (rule trim_right_char_replicate) (use assms in \<open>simp add: wf_open_def\<close>)
  have bound: "length (encode_open_fixed c) + n = length (encode_open c)"
    by (simp add: n_def encode_open_def)
  have short: "n = 0 \<Longrightarrow> for_Lfn c = []" by (simp add: n_def encode_open_def)
  show ?thesis
    using n field trim bound short
    by (cases c) (auto simp: open_with_lfn_def Let_def rd_ReadFull_def)
qed

lemma parse_open_at:
  assumes "wf_open c"
  shows "parse_open_record (length pre) (at_block pre (encode_open c) post) =
    Continue [OpenRec c] (past_block pre (encode_open c) post)"
proof -
  have len: "16 \<le> length (encode_open c)"
    by (simp add: encode_open_def length_encode_open_fixed)
  show ?thesis
    using len open_with_user_at [OF assms, of pre post] open_with_lfn_at [OF assms, of pre post]
    by (simp add: parse_open_record_def rd_ReadFull_def Let_def decode_encode_open [OF assms]
        rd_Seek_def length_encode_open [OF assms])
qed

text \<open>One iteration of the loop reads exactly one item.\<close>

lemma parse_item_at:
  assumes "wf_item x"
  shows "parse_file_record (at_block pre (encode_item x) post) =
    Continue (item_records x) (past_block pre (encode_item x) post)"
proof (cases x rule: encode_item.cases)
  case (1 c)
  have hdr: "plain_header (fcr_Header c)" "fh_RecType (fcr_Header c) = 0"
    using assms 1 by (simp_all add: wf_close_def)
  define body where "body = drop 8 (encode_close c)"
  have enc: "encode_close c = encode_file_header (fcr_Header c) @ body"
    by (simp add: body_def encode_close_def)
  have "unat (fh_RecSize (fcr_Header c)) = length (encode_close c)"
    using assms 1 by (simp add: wf_close_def length_encode_close split: if_splits)
  with 1 hdr parse_close_at [of c pre post] assms parse_file_record_at [of "fcr_Header c" body pre post]
  show ?thesis by (simp add: enc [symmetric] length_encode_close plain_header_def split: if_splits)
next
  case (2 c)
  define h where "h = (for_Header c)\<lparr>fh_UserId := 0\<rparr>"
  have wf: "wf_open c" using assms 2 by simp
  then have hdr: "fh_RecType h = 1" "fh_NRecs0 h = 0" "fh_NRecs1 h = 0"
    "fh_RecSize h = fh_RecSize (for_Header c)" "unat (fh_RecSize h) \<le> 16384"
    by (simp_all add: wf_open_def h_def)
  define body where "body = drop 8 (encode_open c)"
  have enc: "encode_open c = encode_file_header h @ body"
    by (simp add: body_def encode_open_def encode_open_fixed_def h_def)
  have "unat (fh_RecSize h) = length (encode_file_header h @ body)"
    using length_encode_open [OF wf] hdr by (simp add: enc)
  then have "parse_file_record (at_block pre (encode_file_header h @ body) post) =
      parse_open_record (length pre) (at_block pre (encode_file_header h @ body) post)"
    using parse_file_record_at [of h body pre post] hdr by (simp add: Let_def)
  with 2 parse_open_at [OF wf, of pre post] show ?thesis by (simp add: enc)
next
  case (3 d)
  then show ?thesis
    using assms parse_file_record_at [of "fdr_Header d" "[]" pre post]
    by (cases d) (simp add: parse_disc_record_def plain_header_def plain_header_update rd_Seek_def)
next
  case (5 h body)
  then show ?thesis
    using assms parse_file_record_at [of h body pre post]
    by (simp add: plain_header_def rd_Seek_def)
qed (use assms in simp)

subsection \<open>The loop\<close>

definition encode_items :: "wire_item list \<Rightarrow> bytes" where
  "encode_items xs = concat (List.map encode_item xs)"

definition items_records :: "wire_item list \<Rightarrow> FileRecord list" where
  "items_records xs = concat (List.map item_records xs)"

lemma length_encode_item: "wf_item x \<Longrightarrow> 8 \<le> length (encode_item x)"
  by (cases x rule: encode_item.cases)
    (auto simp: length_encode_close encode_open_def length_encode_open_fixed)

lemma parse_loop_item:
  assumes "wf_item x"
  shows "parse_loop (at_block pre (encode_item x) post) records =
    parse_loop (past_block pre (encode_item x) post) (records @ item_records x)"
proof -
  have "rd_Len (at_block pre (encode_item x) post) \<noteq> 0"
    using length_encode_item [OF assms] by (auto simp: rd_Len_def)
  then show ?thesis
    by (subst parse_loop.simps) (simp add: parse_item_at [OF assms])
qed

lemma parse_loop_items:
  "\<forall>x \<in> set xs. wf_item x \<Longrightarrow>
     parse_loop (at_block pre (encode_items xs) post) records =
     parse_loop (past_block pre (encode_items xs) post) (records @ items_records xs)"
proof (induction xs arbitrary: pre records)
  case (Cons x xs)
  have "parse_loop (at_block pre (encode_item x) (encode_items xs @ post)) records =
      parse_loop (past_block pre (encode_item x) (encode_items xs @ post)) (records @ item_records x)"
    using Cons.prems by (intro parse_loop_item) simp
  moreover have "parse_loop (at_block (pre @ encode_item x) (encode_items xs) post)
        (records @ item_records x) =
      parse_loop (past_block (pre @ encode_item x) (encode_items xs) post)
        ((records @ item_records x) @ items_records xs)"
    using Cons.prems by (intro Cons.IH) simp
  ultimately show ?case
    by (simp add: encode_items_def items_records_def add.assoc)
qed (simp add: encode_items_def items_records_def)

lemma parse_loop_end: "length (rd_data r) \<le> rd_pos r \<Longrightarrow> parse_loop r records = (records, None)"
  by (subst parse_loop.simps) (simp add: rd_Len_def)

text \<open>A record cut short ends the loop without an error and without a trace.\<close>

lemma parse_file_record_cut:
  assumes "wf_item x" and "k < length (encode_item x)"
  shows "parse_file_record \<lparr>rd_data = pre @ take k (encode_item x), rd_pos = length pre\<rparr> = Break"
proof (cases "k < 8")
  case True
  then show ?thesis
    using assms(2) by (simp add: parse_file_record_def rd_ReadFull_def Let_def)
next
  case False
  obtain h body where enc: "encode_item x = encode_file_header h @ body"
    and size: "unat (fh_RecSize h) = length (encode_item x)"
  proof (cases x rule: encode_item.cases)
    case (1 c)
    with assms(1) show ?thesis
      by (intro that [of "fcr_Header c" "drop 8 (encode_close c)"])
        (auto simp: encode_close_def length_encode_close wf_close_def split: if_splits)
  next
    case (2 c)
    with assms(1) length_encode_open [of c] show ?thesis
      by (intro that [of "(for_Header c)\<lparr>fh_UserId := 0\<rparr>" "drop 8 (encode_open c)"])
        (auto simp: encode_open_def encode_open_fixed_def)
  next
    case (3 d)
    with assms(1) show ?thesis
      by (intro that [of "fdr_Header d" "[]"]) auto
  next
    case (5 h body)
    with assms(1) show ?thesis by (intro that [of h body]) auto
  qed (use assms(1) in simp)
  have k: "k = 8 + (k - 8)" using False by simp
  have cut: "take k (encode_item x) = encode_file_header h @ take (k - 8) body"
    unfolding enc by (subst k) (simp add: take_add)
  have "length body \<ge> k - 8" using assms(2) enc by simp
  then show ?thesis
    using size assms(2) False
    by (simp add: cut parse_file_record_def rd_ReadFull_def Let_def field_at rd_Len_def wire_simps enc)
qed

definition encode_time_block :: "FileHeader \<Rightarrow> bytes \<Rightarrow> bytes" where
  "encode_time_block h body = encode_file_header h @ body"

definition wf_time_block :: "FileHeader \<Rightarrow> bytes \<Rightarrow> bool" where
  "wf_time_block h body \<longleftrightarrow>
     plain_header h \<and> fh_RecType h = RecTypeTime \<and> unat (fh_RecSize h) = 8 + length body"

lemma skip_first_time_block:
  assumes "wf_time_block h body"
  shows "skip_first_time_record \<lparr>rd_data = encode_time_block h body @ rest, rd_pos = 0\<rparr> =
    \<lparr>rd_data = encode_time_block h body @ rest, rd_pos = length (encode_time_block h body)\<rparr>"
  using assms plain_header_update(2) [of h]
  by (simp add: skip_first_time_record_def rd_Len_def rd_ReadFull_def encode_time_block_def
      wf_time_block_def Let_def wire_simps rd_Seek_def)

lemma parseFileRecords_items:
  assumes "length hdr = 8" and "wf_time_block h body" and "\<forall>x \<in> set xs. wf_item x"
  shows "parseFileRecords (hdr @ encode_time_block h body @ encode_items xs @ rest) =
    parse_loop (past_block (encode_time_block h body) (encode_items xs) rest) (items_records xs)"
  using assms(1) parse_loop_items [OF assms(3), of "encode_time_block h body" rest "[]"]
  by (simp add: parseFileRecords_def skip_first_time_block [OF assms(2)])

lemma parseFileRecords_cut:
  assumes "length hdr = 8" and "wf_time_block h body" and "\<forall>x \<in> set xs. wf_item x"
    and "wf_item y" and "k < length (encode_item y)"
  shows "parseFileRecords (hdr @ encode_time_block h body @ encode_items xs @ take k (encode_item y)) =
    (items_records xs, None)"
proof -
  let ?tod = "encode_time_block h body" and ?rest = "take k (encode_item y)"
  have "parse_loop (past_block ?tod (encode_items xs) ?rest) (items_records xs) = (items_records xs, None)"
    using parse_file_record_cut [OF assms(4,5), of "?tod @ encode_items xs"]
    by (subst parse_loop.simps) simp
  then show ?thesis using parseFileRecords_items [OF assms(1-3), of ?rest] by simp
qed

lemma parse_loop_bound:
  "length (fst (parse_loop r records)) \<le> length records + (length (rd_data r) - rd_pos r) div 8"
proof (induction r records rule: parse_loop.induct)
  case (1 r records)
  show ?case
  proof (cases "parse_file_record r")
    case (Continue new r')
    note step = parse_file_record_Continue [OF Continue]
    have "(length (rd_data r') - rd_pos r') div 8 + 1 \<le> (length (rd_data r) - rd_pos r) div 8"
      using step by (simp add: div_le_mono less_eq_div_iff_mult_less_eq)
    moreover have "rd_Len r \<noteq> 0" using step(3) by (simp add: rd_Len_def)
    ultimately show ?thesis
      using 1 [OF _ Continue] step(4) by (subst parse_loop.simps) (simp add: Continue)
  qed (simp_all add: parse_loop.simps)
qed

end
