(* ===== verification/Parse_Packet.thy ===== *)
theory Parse_Packet
  imports User_Info Fstream
begin

section \<open>Whole packets (ParsePacket)\<close>

text \<open>
  The record parsers that need the packet header and \<open>ParsePacket\<close>, which dispatches on the
  packet's code. The JSON decoder of the g-stream parser is the argument \<open>unmarshal\<close>
  (\<open>json.Unmarshal\<close> into a \<open>map[string]interface{}\<close>): it returns the object or \<open>None\<close> on a
  line it rejects, and nothing is supposed of it. The lemmas: which packets are accepted, what
  an accepted packet holds, and the round trips from the wire form of each kind of packet.
\<close>

subsection \<open>Dictionary, user and token packets\<close>

definition parseMapRecord :: "Header \<Rightarrow> bytes \<Rightarrow> parse_error + MapRecord" where
  "parseMapRecord header b =
     (if length b < 12 then Inl (MapRecordTooShort (length b))
      else Inr \<lparr>mr_Header = header, mr_DictId = be32 (field 8 4 b), mr_Info = drop 12 b\<rparr>)"

definition parseUserRecord :: "Header \<Rightarrow> bytes \<Rightarrow> parse_error + UserRecord" where
  "parseUserRecord header b =
     (if length b < 12 then Inl (UserRecordTooShort (length b))
      else
        let dictId = be32 (field 8 4 b);
            parts = splitn2 newline (drop 12 b);
            userInfoBytes = parts ! 0;
            authInfoBytes = (if 1 < length parts then parts ! 1 else [])
        in sum_bind (parseUserInfo userInfoBytes) (\<lambda>userInfo.
             Inr \<lparr>ur_Header = header, ur_DictId = dictId, ur_UserInfo = userInfo,
                  ur_AuthInfo = parseAuthInfo authInfoBytes, ur_TokenInfo = zero_TokenInfo\<rparr>))"

definition parseTokenRecord :: "Header \<Rightarrow> bytes \<Rightarrow> parse_error + UserRecord" where
  "parseTokenRecord header b =
     (if length b < 12 then Inl (TokenRecordTooShort (length b))
      else
        let dictId = be32 (field 8 4 b);
            info = drop 12 b;
            newlineIdx = bytesIndexByte info newline;
            userInfoBytes = (if 0 \<le> newlineIdx then slice_to info newlineIdx else info);
            tokenInfoBytes = (if 0 \<le> newlineIdx then slice_after info newlineIdx else [])
        in sum_bind (parseUserInfo userInfoBytes) (\<lambda>userInfo.
             Inr \<lparr>ur_Header = header, ur_DictId = dictId, ur_UserInfo = userInfo,
                  ur_AuthInfo = zero_AuthInfo, ur_TokenInfo = parseTokenInfo tokenInfoBytes\<rparr>))"

subsection \<open>g-stream packets\<close>

fun parse_events ::
  "(string \<Rightarrow> json_object option) \<Rightarrow> string list \<Rightarrow> parse_error + json_object list" where
  "parse_events unmarshal [] = Inr []"
| "parse_events unmarshal (l # ls) =
     (let line = trim_space l
      in if line = [] then parse_events unmarshal ls
         else (case unmarshal line of
                 None \<Rightarrow> Inl (GStreamBadJSON line)
               | Some event \<Rightarrow>
                   sum_bind (parse_events unmarshal ls) (\<lambda>events. Inr (event # events))))"

definition parseGStreamRecord ::
  "(string \<Rightarrow> json_object option) \<Rightarrow> bytes \<Rightarrow> parse_error + GStreamRecord" where
  "parseGStreamRecord unmarshal b =
     (if length b < 16 then Inl (GStreamTooShort (length b))
      else
        let ident = be64 (field 8 8 b);
            eventData = trim_right_char nul (drop 16 b)
        in sum_bind (if eventData = [] then Inr []
                     else parse_events unmarshal (split_on newline eventData)) (\<lambda>events.
             Inr \<lparr>gs_Begin = be32 (field 0 4 b), gs_End = be32 (field 4 4 b), gs_Ident = ident,
                  gs_StreamType = char_of (unat (drop_bit 56 ident)), gs_Events = events\<rparr>))"

subsection \<open>ParsePacket\<close>

definition server_info_of :: "MapRecord \<Rightarrow> ServerInfo option" where
  "server_info_of mapRec =
     (if mr_Info mapRec \<noteq> []
      then (let parts = splitn2 newline (mr_Info mapRec)
            in if 1 < length parts then Some (parseServerInfo (parts ! 1)) else None)
      else None)"

definition parse_body ::
  "(string \<Rightarrow> json_object option) \<Rightarrow> Header \<Rightarrow> bytes \<Rightarrow> Packet \<Rightarrow> parse_error + Packet" where
  "parse_body unmarshal header b packet =
     (let code = hdr_Code header
      in if code = PacketTypeMap then
           sum_bind (parseMapRecord header b) (\<lambda>mapRec.
             Inr (packet\<lparr>pkt_MapRecord := Some mapRec, pkt_ServerInfo := server_info_of mapRec\<rparr>))
         else if code = PacketTypeUser then
           sum_bind (parseUserRecord header b) (\<lambda>userRec.
             Inr (packet\<lparr>pkt_UserRecord := Some userRec\<rparr>))
         else if code = PacketTypeToken then
           sum_bind (parseTokenRecord header b) (\<lambda>userRec.
             Inr (packet\<lparr>pkt_UserRecord := Some userRec\<rparr>))
         else if code = PacketTypeFStat then
           (case parseFileRecords b of
              (fileRecs, None) \<Rightarrow> Inr (packet\<lparr>pkt_FileRecords := fileRecs\<rparr>)
            | (_, Some _) \<Rightarrow> Inr (packet\<lparr>pkt_FileRecords := []\<rparr>))
         else if code = PacketTypeTrace then Inr packet
         else if code = PacketTypeDictID \<or> code = PacketTypeEAInfo \<or> code = PacketTypeInfo then
           sum_bind (parseMapRecord header b) (\<lambda>mapRec.
             Inr (packet\<lparr>pkt_MapRecord := Some mapRec\<rparr>))
         else if code = PacketTypeXFR then Inr packet
         else if code = PacketTypeGStream then
           sum_bind (parseGStreamRecord unmarshal (drop 8 b)) (\<lambda>gstreamRec.
             Inr (packet\<lparr>pkt_GStreamRecord := Some gstreamRec\<rparr>))
         else if code = PacketTypePurg \<or> code = PacketTypeRedir then Inr packet
         else Inl (UnknownPacketType code))"

definition ParsePacket :: "(string \<Rightarrow> json_object option) \<Rightarrow> bytes \<Rightarrow> parse_error + Packet" where
  "ParsePacket unmarshal b =
     (if length b < 1 then Inl (PacketTooShort (length b))
      else if hd b = CHR ''<'' then Inr (zero_Packet\<lparr>pkt_IsXML := True, pkt_RawData := b\<rparr>)
      else if length b < 8 then Inl (HeaderTooShort (length b))
      else
        let header = decode_binaryHeader b
        in if length b \<noteq> unat (hdr_Plen header)
           then Inl (LengthMismatch (length b) (unat (hdr_Plen header)))
           else parse_body unmarshal header b
                  (zero_Packet\<lparr>pkt_Header := header, pkt_PacketType := hdr_Code header,
                     pkt_RawData := b\<rparr>))"

definition GetRequestID :: "Packet \<Rightarrow> string" where
  "GetRequestID p =
     (case pkt_MapRecord p of
        Some m \<Rightarrow> ''map-'' @ dec_nat (unat (mr_DictId m))
      | None \<Rightarrow>
          (case pkt_FileRecords p of
             TimeRec rec # _ \<Rightarrow> ''time-'' @ dec_nat (unat (fh_FileId (ftr_Header rec))) @ ''-'' @
               dec_int (sint (ftr_SID rec))
           | CloseRec rec # _ \<Rightarrow> ''close-'' @ dec_nat (unat (fh_FileId (fcr_Header rec))) @ ''-'' @
               dec_nat (unat (fh_UserId (fcr_Header rec)))
           | OpenRec rec # _ \<Rightarrow> ''open-'' @ dec_nat (unat (fh_FileId (for_Header rec))) @ ''-'' @
               dec_nat (unat (fh_UserId (for_Header rec)))
           | _ \<Rightarrow> ''unknown-'' @ dec_nat (unat (hdr_Pseq (pkt_Header p)))))"

subsection \<open>What an accepted packet holds\<close>

lemma trim_space_line: "parse_events u (l # ls) =
    (if trim_space l = [] then parse_events u ls
     else case u (trim_space l) of None \<Rightarrow> Inl (GStreamBadJSON (trim_space l))
          | Some e \<Rightarrow> sum_bind (parse_events u ls) (\<lambda>es. Inr (e # es)))"
  by (simp add: Let_def)

definition accepted_header :: "bytes \<Rightarrow> Packet \<Rightarrow> bool" where
  "accepted_header b p \<longleftrightarrow>
     pkt_RawData p = b \<and> \<not> pkt_IsXML p \<and> pkt_Header p = decode_binaryHeader b \<and>
     pkt_PacketType p = hd b \<and> 8 \<le> length b \<and> unat (hdr_Plen (pkt_Header p)) = length b"

lemma parse_body_keeps:
  "parse_body u h b p = Inr p' \<Longrightarrow>
     pkt_RawData p' = pkt_RawData p \<and> pkt_IsXML p' = pkt_IsXML p \<and> pkt_Header p' = pkt_Header p \<and>
     pkt_PacketType p' = pkt_PacketType p \<and> pkt_RemoteAddr p' = pkt_RemoteAddr p"
  by (auto simp: parse_body_def Let_def sum_bind_Inr split: if_splits prod.splits option.splits)

lemma ParsePacket_accepts:
  assumes "ParsePacket u b = Inr p" and "hd b \<noteq> CHR ''<''"
  shows "accepted_header b p"
proof -
  let ?h = "decode_binaryHeader b"
  have "b \<noteq> []" "8 \<le> length b" "unat (hdr_Plen ?h) = length b"
    and body: "parse_body u ?h b (zero_Packet\<lparr>pkt_Header := ?h, pkt_PacketType := hdr_Code ?h,
      pkt_RawData := b\<rparr>) = Inr p"
    using assms by (auto simp: ParsePacket_def Let_def split: if_splits)
  with parse_body_keeps [OF body] show ?thesis
    by (simp add: accepted_header_def zero_Packet_def decode_binaryHeader_def)
qed

text \<open>Which optional parts a packet code brings with it.\<close>

lemma parse_body_parts:
  assumes "parse_body u h b p = Inr p'"
    and "pkt_MapRecord p = None" "pkt_UserRecord p = None" "pkt_ServerInfo p = None"
    "pkt_GStreamRecord p = None" "pkt_FileRecords p = []"
  shows "pkt_FileRecords p' \<noteq> [] \<Longrightarrow> hdr_Code h = PacketTypeFStat"
    and "pkt_MapRecord p' \<noteq> None \<longleftrightarrow> hdr_Code h \<in> {PacketTypeMap, PacketTypeDictID, PacketTypeEAInfo, PacketTypeInfo}"
    and "pkt_UserRecord p' \<noteq> None \<longleftrightarrow> hdr_Code h \<in> {PacketTypeUser, PacketTypeToken}"
    and "pkt_GStreamRecord p' \<noteq> None \<longleftrightarrow> hdr_Code h = PacketTypeGStream"
    and "pkt_ServerInfo p' \<noteq> None \<Longrightarrow> hdr_Code h = PacketTypeMap"
  using assms
  by (auto simp: parse_body_def Let_def sum_bind_Inr split: if_splits prod.splits option.splits)


subsection \<open>The wire form of whole packets\<close>

text \<open>The 8-byte packet header, its length field that of the whole packet.\<close>

definition encode_packet :: "char \<Rightarrow> uint8 \<Rightarrow> int32 \<Rightarrow> bytes \<Rightarrow> bytes" where
  "encode_packet code pseq stod body =
     code # be_bytes 1 (unat pseq) @ be_bytes 2 (8 + length body) @ be_bytes 4 (unat stod) @ body"

definition packet_header :: "char \<Rightarrow> uint8 \<Rightarrow> int32 \<Rightarrow> bytes \<Rightarrow> Header" where
  "packet_header code pseq stod body =
     \<lparr>hdr_Code = code, hdr_Pseq = pseq, hdr_Plen = word_of_nat (8 + length body),
      hdr_ServerStart = stod\<rparr>"

definition bare_packet :: "char \<Rightarrow> uint8 \<Rightarrow> int32 \<Rightarrow> bytes \<Rightarrow> Packet" where
  "bare_packet code pseq stod body =
     zero_Packet\<lparr>pkt_Header := packet_header code pseq stod body, pkt_PacketType := code,
       pkt_RawData := encode_packet code pseq stod body\<rparr>"

lemma length_encode_packet [simp]: "length (encode_packet code pseq stod body) = 8 + length body"
  by (simp add: encode_packet_def)

lemma field_1_of_packet: "field (Suc i) n (x # b) = field i n b"
  by (simp add: field_def)

lemma be16_be_bytes_nat: "n < 2 ^ 16 \<Longrightarrow> be16 (be_bytes 2 n) = word_of_nat n"
  by (simp add: be16_def be_nat_be_bytes)

lemma decode_encode_packet:
  assumes "8 + length body < 2 ^ 16"
  shows "decode_binaryHeader (encode_packet code pseq stod body) = packet_header code pseq stod body"
proof -
  let ?b = "encode_packet code pseq stod body"
  have n2: "field 2 2 ?b = be_bytes 2 (8 + length body)" and n4: "field 4 4 ?b = be_bytes 4 (unat stod)"
    and n1: "field 1 1 ?b = be_bytes 1 (unat pseq)" and hd: "hd ?b = code"
    by (simp_all add: encode_packet_def field_def numeral_2_eq_2 eval_nat_numeral)
  show ?thesis
    using assms
    by (simp add: decode_binaryHeader_def packet_header_def hd n1 [simplified] n2 n4
        be16_be_bytes_nat be32_be_bytes be8_be_bytes)
qed

lemma drop8_encode_packet [simp]: "drop 8 (encode_packet code pseq stod body) = body"
  by (simp add: encode_packet_def eval_nat_numeral)

lemma encode_packet_split:
  "\<exists>hdr. length hdr = 8 \<and> encode_packet code pseq stod body = hdr @ body"
  by (rule exI [of _ "take 8 (encode_packet code pseq stod body)"])
    (metis append_take_drop_id drop8_encode_packet length_encode_packet le_add1 length_take min.absorb2)

text \<open>A packet whose length field is right reaches its body parser, with a header read back.\<close>

lemma ParsePacket_encode:
  assumes "8 + length body < 2 ^ 16" and "code \<noteq> CHR ''<''"
  shows "ParsePacket u (encode_packet code pseq stod body) =
    parse_body u (packet_header code pseq stod body) (encode_packet code pseq stod body)
      (bare_packet code pseq stod body)"
proof -
  have hd: "hd (encode_packet code pseq stod body) = code" by (simp add: encode_packet_def)
  have "unat (hdr_Plen (packet_header code pseq stod body)) = 8 + length body"
    using assms(1) by (simp add: packet_header_def unat_of_nat del: of_nat_add)
  then show ?thesis
    using assms by (simp add: ParsePacket_def Let_def decode_encode_packet hd bare_packet_def)
      (simp add: packet_header_def)
qed

definition encode_dict_body :: "uint32 \<Rightarrow> bytes \<Rightarrow> bytes" where
  "encode_dict_body dictId info = be_bytes 4 (unat dictId) @ info"

lemma dict_body_of_packet:
  "field 8 4 (encode_packet code pseq stod (encode_dict_body d info)) = be_bytes 4 (unat d)"
  "drop 12 (encode_packet code pseq stod (encode_dict_body d info)) = info"
proof -
  let ?b = "encode_packet code pseq stod (encode_dict_body d info)"
  have "field 8 4 ?b = field 0 4 (drop 8 ?b)" by (simp only: field_drop) simp
  then show "field 8 4 ?b = be_bytes 4 (unat d)"
    by (simp add: encode_dict_body_def wire_simps)
  have "drop 12 ?b = drop 4 (drop 8 ?b)" by (simp only: drop_drop) simp
  then show "drop 12 ?b = info"
    by (simp only: drop8_encode_packet) (simp add: encode_dict_body_def)
qed

lemma parseMapRecord_encode:
  "parseMapRecord h (encode_packet code pseq stod (encode_dict_body d info)) =
     Inr \<lparr>mr_Header = h, mr_DictId = d, mr_Info = info\<rparr>"
  by (simp add: parseMapRecord_def dict_body_of_packet wire_simps del: drop_drop)
    (simp add: encode_dict_body_def)

text \<open>A 'u' packet: the user id, a newline, the authorisation list.\<close>

definition encode_user_info :: "UserInfo \<Rightarrow> (string \<times> string) list \<Rightarrow> bytes" where
  "encode_user_info ui kvs = userinfo_text ui @ newline # kv_text kvs"

lemma parseAuthInfo_kv_text:
  "wf_kvs kvs \<Longrightarrow> parseAuthInfo (kv_text kvs) = assign_all assign_auth zero_AuthInfo kvs"
  using parse_kvs_kv_text [of kvs assign_auth zero_AuthInfo]
  by (cases kvs rule: kv_text.cases) (simp_all add: parseAuthInfo_def)

lemma parseTokenInfo_kv_text:
  "wf_kvs kvs \<Longrightarrow> parseTokenInfo (kv_text kvs) = assign_all assign_token zero_TokenInfo kvs"
  using parse_kvs_kv_text [of kvs assign_token zero_TokenInfo]
  by (cases kvs rule: kv_text.cases) (simp_all add: parseTokenInfo_def)

lemma parseServerInfo_kv_text:
  "wf_kvs kvs \<Longrightarrow> parseServerInfo (kv_text kvs) = assign_all assign_server zero_ServerInfo kvs"
  using parse_kvs_kv_text [of kvs assign_server zero_ServerInfo]
  by (cases kvs rule: kv_text.cases) (simp_all add: parseServerInfo_def)

lemma parseUserRecord_encode:
  assumes "wf_userinfo ui" and "newline \<notin> set (userinfo_text ui)" and "wf_kvs kvs"
  shows "parseUserRecord h (encode_packet code pseq stod (encode_dict_body d (encode_user_info ui kvs))) =
    Inr \<lparr>ur_Header = h, ur_DictId = d, ur_UserInfo = ui,
      ur_AuthInfo = assign_all assign_auth zero_AuthInfo kvs, ur_TokenInfo = zero_TokenInfo\<rparr>"
proof -
  have "splitn2 newline (encode_user_info ui kvs) = [userinfo_text ui, kv_text kvs]"
    unfolding encode_user_info_def using assms(2) by (rule splitn2_append)
  moreover have "\<not> length (encode_packet code pseq stod (encode_dict_body d x)) < 12" for x
    by (simp add: encode_dict_body_def)
  ultimately show ?thesis
    using assms
    by (simp add: parseUserRecord_def Let_def dict_body_of_packet wire_simps
        parseUserInfo_userinfo_text parseAuthInfo_kv_text del: length_encode_packet)
qed

lemma parseTokenRecord_encode:
  assumes "wf_userinfo ui" and "newline \<notin> set (userinfo_text ui)" and "wf_kvs kvs"
  shows "parseTokenRecord h (encode_packet code pseq stod (encode_dict_body d (encode_user_info ui kvs))) =
    Inr \<lparr>ur_Header = h, ur_DictId = d, ur_UserInfo = ui, ur_AuthInfo = zero_AuthInfo,
      ur_TokenInfo = assign_all assign_token zero_TokenInfo kvs\<rparr>"
proof -
  let ?info = "userinfo_text ui @ newline # kv_text kvs"
  have idx: "bytesIndexByte ?info newline = int (length (userinfo_text ui))"
    using assms(2) by (rule bytesIndexByte_append)
  have "\<not> length (encode_packet code pseq stod (encode_dict_body d x)) < 12" for x
    by (simp add: encode_dict_body_def)
  moreover have "slice_after ?info (int (length (userinfo_text ui))) = kv_text kvs"
    by (rule slice_after_append)
  moreover have "slice_to ?info (int (length (userinfo_text ui))) = userinfo_text ui"
    by simp
  ultimately show ?thesis
    using assms
    by (simp only: parseTokenRecord_def Let_def dict_body_of_packet encode_user_info_def idx
        parseUserInfo_userinfo_text parseTokenInfo_kv_text be32_be_bytes)
      (simp add: parseUserInfo_userinfo_text parseTokenInfo_kv_text)
qed


subsection \<open>Acceptance\<close>

text \<open>The conditions under which each kind of packet is accepted, read off the bytes alone.\<close>

definition user_id_ok :: "bytes \<Rightarrow> bool" where
  "user_id_ok b \<longleftrightarrow> \<not> isl (parseUserInfo (before newline (drop 12 b)))"

definition events_ok :: "(string \<Rightarrow> json_object option) \<Rightarrow> bytes \<Rightarrow> bool" where
  "events_ok u b \<longleftrightarrow>
     list_all (\<lambda>line. trim_space line = [] \<or> u (trim_space line) \<noteq> None)
       (split_on newline (trim_right_char nul (drop 24 b)))"

definition body_ok :: "(string \<Rightarrow> json_object option) \<Rightarrow> bytes \<Rightarrow> bool" where
  "body_ok u b \<longleftrightarrow>
     (let code = hd b
      in if code \<in> {PacketTypeFStat, PacketTypeTrace, PacketTypeXFR, PacketTypePurg, PacketTypeRedir}
         then True
         else if code \<in> {PacketTypeMap, PacketTypeDictID, PacketTypeEAInfo, PacketTypeInfo}
         then 12 \<le> length b
         else if code \<in> {PacketTypeUser, PacketTypeToken} then 12 \<le> length b \<and> user_id_ok b
         else if code = PacketTypeGStream then 24 \<le> length b \<and> events_ok u b
         else False)"

lemma isl_sum_bind: "isl (sum_bind x f) \<longleftrightarrow> isl x \<or> isl (f (projr x))"
  by (cases x) auto

lemma isl_parse_events:
  "isl (parse_events u ls) \<longleftrightarrow>
     \<not> list_all (\<lambda>line. trim_space line = [] \<or> u (trim_space line) \<noteq> None) ls"
  by (induction ls)
    (auto simp: trim_space_line isl_sum_bind simp del: parse_events.simps(2) split: option.splits)

lemma isl_parseMapRecord: "isl (parseMapRecord h b) \<longleftrightarrow> length b < 12"
  by (simp add: parseMapRecord_def)

lemma before_takeWhile_none: "c \<notin> set s \<Longrightarrow> before c s = s"
  unfolding before_def by (rule takeWhile_eq_all_conv [THEN iffD2]) auto

lemma isl_parseUserRecord:
  "isl (parseUserRecord h b) \<longleftrightarrow> length b < 12 \<or> \<not> user_id_ok b"
  by (auto simp: parseUserRecord_def Let_def isl_sum_bind user_id_ok_def splitn2_def
      before_takeWhile_none)

lemma slice_to_index:
  "(if 0 \<le> bytesIndexByte s c then slice_to s (bytesIndexByte s c) else s) = before c s"
proof (cases "c \<in> set s")
  case True
  have idx: "bytesIndexByte s c = int (length (before c s))"
    using bytesIndexByte_append [OF before_no_sep, of c s "after c s"]
    unfolding before_after [OF True, symmetric] .
  have "take (length (before c s)) s = before c s"
    unfolding before_def by (rule takeWhile_eq_take [symmetric])
  then show ?thesis by (simp add: idx)
next
  case False
  then show ?thesis by (simp add: bytesIndexByte_none before_takeWhile_none)
qed

lemma isl_parseTokenRecord:
  "isl (parseTokenRecord h b) \<longleftrightarrow> length b < 12 \<or> \<not> user_id_ok b"
  using slice_to_index [of "drop 12 b" newline]
  by (simp add: parseTokenRecord_def Let_def isl_sum_bind user_id_ok_def)

lemma trim_space_Nil: "trim_space [] = []"
  by (simp add: trim_space_def trim_left.simps trim_left_rev.simps)

lemma isl_parseGStreamRecord:
  "isl (parseGStreamRecord u (drop 8 b)) \<longleftrightarrow> length b < 24 \<or> \<not> events_ok u b"
proof -
  have len: "length (drop 8 b) < 16 \<longleftrightarrow> length b < 24" by auto
  show ?thesis
    by (simp add: parseGStreamRecord_def Let_def isl_sum_bind events_ok_def isl_parse_events
        trim_space_Nil len del: length_drop)
qed

lemma isl_parse_body: "isl (parse_body u (decode_binaryHeader b) b p) \<longleftrightarrow> \<not> body_ok u b"
  by (simp add: parse_body_def body_ok_def Let_def isl_sum_bind isl_parseMapRecord
      isl_parseUserRecord isl_parseTokenRecord isl_parseGStreamRecord decode_binaryHeader_def
      not_less split: prod.splits option.splits) (auto simp: not_le)

end
