(* ===== verification/Collector_Types.thy ===== *)
theory Collector_Types
  imports Keys State_Map Net_Addr Paths Parse_Packet "HOL-Library.Signed_Division"
begin

section \<open>The data of the collector\<close>

text \<open>
  The structs of \<open>collector/correlator.go\<close> and \<open>collector/scitags.go\<close>, the Prometheus counters
  of \<open>collector/metrics.go\<close> and the correlator's state. A \<open>StateMap\<close> holds \<open>interface{}\<close>
  values: \<open>map_value\<close> has one constructor for every Go type the program stores, so each type
  assertion is a case distinction. Pointers to \<open>UserState\<close> are stored values: the program
  mutates one only between a \<open>Get\<close> and the \<open>Set\<close> of the same key, and copies its strings into
  records. Times are nanoseconds since the epoch; \<open>Unix\<close> is the quotient by \<open>10^9\<close>.
\<close>

subsection \<open>Tracked states\<close>

record FileState =
  fs_FileID :: uint32
  fs_UserID :: uint32
  fs_OpenTime :: int64
  fs_FileSize :: int64
  fs_Filename :: string
  fs_ServerID :: string
  fs_StreamID :: int64
  fs_CreatedAt :: int

record UserState =
  us_UserID :: uint32
  us_UserInfo :: UserInfo
  us_AuthInfo :: AuthInfo
  us_TokenInfo :: TokenInfo
  us_AppInfo :: string
  us_ExperimentID :: int
  us_ActivityID :: int
  us_CreatedAt :: int

record PathInfo =
  pi_Path :: string
  pi_UserInfo :: UserInfo

datatype map_value =
    VFile FileState
  | VUser UserState
  | VPath PathInfo
  | VUserInfo UserInfo
  | VStr string
  | VServer ServerInfo

definition zero_UserState :: UserState where
  "zero_UserState = \<lparr>us_UserID = 0,
     us_UserInfo = \<lparr>ui_Protocol = [], ui_Username = [], ui_Pid = 0, ui_Sid = 0, ui_Host = []\<rparr>,
     us_AuthInfo = zero_AuthInfo, us_TokenInfo = zero_TokenInfo, us_AppInfo = [],
     us_ExperimentID = 0, us_ActivityID = 0, us_CreatedAt = 0\<rparr>"

subsection \<open>Records\<close>

text \<open>
  A \<open>float64\<close> field that is 0 or the quotient of two converted integers; the rounding of the
  conversions and of the division is not computed.
\<close>

datatype float_expr = FZero | FQuot int64 int32

record CollectorRecord =
  cr_Timestamp :: int
  cr_StartTime :: int64
  cr_EndTime :: int64
  cr_OperationTime :: int64
  cr_ServerID :: string
  cr_ServerHostname :: string
  cr_Server :: string
  cr_ServerIP :: string
  cr_Site :: string
  cr_User :: string
  cr_UserDN :: string
  cr_UserDomain :: string
  cr_VO :: string
  cr_Host :: string
  cr_TokenSubject :: string
  cr_TokenUsername :: string
  cr_TokenOrg :: string
  cr_TokenRole :: string
  cr_TokenGroups :: string
  cr_Experiment :: string
  cr_Activity :: string
  cr_ExperimentID :: int
  cr_ActivityID :: int
  cr_ScitagsVO :: string
  cr_Filename :: string
  cr_Dirname1 :: string
  cr_Dirname2 :: string
  cr_LogicalDirname :: string
  cr_Protocol :: string
  cr_AppInfo :: string
  cr_IPv6 :: bool
  cr_Filesize :: int64
  cr_ReadOperations :: int32
  cr_ReadSingleOperations :: int32
  cr_ReadVectorOperations :: int32
  cr_WriteOperations :: int32
  cr_Read :: int64
  cr_ReadSingleBytes :: int64
  cr_Readv :: int64
  cr_Write :: int64
  cr_ReadMin :: int32
  cr_ReadMax :: int32
  cr_ReadAverage :: int64
  cr_ReadSingleMin :: int32
  cr_ReadSingleMax :: int32
  cr_ReadSingleAverage :: int64
  cr_ReadVectorMin :: int32
  cr_ReadVectorMax :: int32
  cr_ReadVectorAverage :: int64
  cr_WriteMin :: int32
  cr_WriteMax :: int32
  cr_WriteAverage :: int64
  cr_ReadVectorCountMin :: int16
  cr_ReadVectorCountMax :: int16
  cr_ReadVectorCountAverage :: float_expr
  cr_ReadBytesAtClose :: int64
  cr_WriteBytesAtClose :: int64
  cr_HasFileCloseMsg :: int
  cr_needsDNSEnrichment :: bool
  cr_enrichmentIP :: string
  cr_needsServerDNS :: bool
  cr_serverEnrichmentIP :: string

end
