(* ===== verification/Scitags.thy ===== *)
theory Scitags
  imports Prelude Go_Strings
begin

unbundle bit_operations_syntax

section \<open>The SciTags registry (collector/scitags.go)\<close>

text \<open>
  The registry that resolves the numeric experiment and activity ids of the 'U' stream. An
  activity is filed under one 64-bit key packed from both ids, and a document replaces the
  registry only when it parses and lists an experiment. The JSON decoder of the document is the
  argument \<open>unmarshal\<close> of \<open>Load\<close>; fetching the document and the refresh timer are in
  \<open>Scitags_Source\<close>. The lemmas: which ids the packing keeps apart, and what a loaded registry answers.
\<close>

record scitagsActivity =
  sa_ActivityName :: string
  sa_ActivityID :: int

record scitagsExperiment =
  se_ExpName :: string
  se_ExpID :: int
  se_Activities :: "scitagsActivity list"

record scitagsDoc =
  sd_Experiments :: "scitagsExperiment list"
  sd_Version :: int
  sd_Modified :: string

record ScitagsRegistry =
  sr_experiments :: "(int \<times> string) list"
  sr_activities :: "(int64 \<times> string) list"
  sr_version :: int
  sr_modified :: string

datatype scitags_error = ParseRegistry | NoExperiments

definition empty_registry :: ScitagsRegistry where
  "empty_registry = \<lparr>sr_experiments = [], sr_activities = [], sr_version = 0, sr_modified = []\<rparr>"

definition activityKey :: "int \<Rightarrow> int \<Rightarrow> int64" where
  "activityKey expID actID = push_bit 32 (word_of_int expID) OR word_of_int actID"

text \<open>One round of the loop over the experiments of a document.\<close>

definition load_experiment ::
  "scitagsExperiment \<Rightarrow> (int \<times> string) list \<times> (int64 \<times> string) list \<Rightarrow>
   (int \<times> string) list \<times> (int64 \<times> string) list" where
  "load_experiment e maps =
     (if se_ExpID e = 0 then maps
      else
        let (experiments, activities) = maps
        in (AList.update (se_ExpID e) (se_ExpName e) experiments,
            fold (\<lambda>a m. AList.update (activityKey (se_ExpID e) (sa_ActivityID a)) (sa_ActivityName a) m)
              (se_Activities e) activities))"

definition Load ::
  "(bytes \<Rightarrow> scitagsDoc option) \<Rightarrow> bytes \<Rightarrow> ScitagsRegistry \<Rightarrow> ScitagsRegistry \<times> scitags_error option" where
  "Load unmarshal data r =
     (case unmarshal data of
        None \<Rightarrow> (r, Some ParseRegistry)
      | Some doc \<Rightarrow>
          if sd_Experiments doc = [] then (r, Some NoExperiments)
          else
            let (experiments, activities) = fold load_experiment (sd_Experiments doc) ([], [])
            in (r\<lparr>sr_experiments := experiments, sr_activities := activities,
                  sr_version := sd_Version doc, sr_modified := sd_Modified doc\<rparr>, None))"

definition NewScitagsRegistry :: "(bytes \<Rightarrow> scitagsDoc option) \<Rightarrow> bytes \<Rightarrow> ScitagsRegistry" where
  "NewScitagsRegistry unmarshal embeddedScitagsAPI =
     fst (Load unmarshal embeddedScitagsAPI empty_registry)"

text \<open>A missing key of a Go map reads as the empty string.\<close>

definition lookup_name :: "('k \<times> string) list \<Rightarrow> 'k \<Rightarrow> string" where
  "lookup_name m k = (case map_of m k of None \<Rightarrow> [] | Some name \<Rightarrow> name)"

definition ExperimentName :: "ScitagsRegistry \<Rightarrow> int \<Rightarrow> string" where
  "ExperimentName r expID = (if expID = 0 then [] else lookup_name (sr_experiments r) expID)"

definition ActivityName :: "ScitagsRegistry \<Rightarrow> int \<Rightarrow> int \<Rightarrow> string" where
  "ActivityName r expID actID =
     (if expID = 0 \<or> actID = 0 then [] else lookup_name (sr_activities r) (activityKey expID actID))"

subsection \<open>The packed key\<close>

lemma activityKey_sum:
  assumes "0 \<le> a" "a < 2 ^ 32"
  shows "activityKey e a = word_of_int (e * 2 ^ 32 + a)"
proof -
  have "activityKey e a = word_of_int (push_bit 32 e OR a)"
    unfolding activityKey_def by transfer simp
  moreover have "push_bit 32 e OR a = e * 2 ^ 32 + a"
  proof -
    have a: "take_bit 32 a = a" using assms by (simp add: take_bit_int_eq_self_iff)
    have "push_bit 32 e OR a = concat_bit 32 a e" by (simp add: concat_bit_def a or.commute)
    then show ?thesis by (simp add: concat_bit_eq a push_bit_eq_mult)
  qed
  ultimately show ?thesis by simp
qed

lemma activityKey_inject:
  assumes "0 \<le> a" "a < 2 ^ 32" "0 \<le> a'" "a' < 2 ^ 32"
    and "0 \<le> e" "e < 2 ^ 32" "0 \<le> e'" "e' < 2 ^ 32"
  shows "activityKey e a = activityKey e' a' \<longleftrightarrow> e = e' \<and> a = a'"
proof
  assume "activityKey e a = activityKey e' a'"
  then have "(word_of_int (e * 2 ^ 32 + a) :: int64) = word_of_int (e' * 2 ^ 32 + a')"
    using assms activityKey_sum [of a e] activityKey_sum [of a' e'] by metis
  then have "(e * 2 ^ 32 + a) mod 2 ^ 64 = (e' * 2 ^ 32 + a') mod 2 ^ 64"
    unfolding word_of_int_eq_iff by (simp add: take_bit_eq_mod)
  moreover have small: "x * 2 ^ 32 + y \<in> {0 ..< 2 ^ 64}" if "0 \<le> x" "x < 2 ^ 32" "0 \<le> y" "y < 2 ^ 32"
    for x y :: int using that by simp
  ultimately have eq: "e * 2 ^ 32 + a = e' * 2 ^ 32 + a'"
    using small [of e a] small [of e' a'] assms by (simp add: mod_pos_pos_trivial)
  have split: "(x * 2 ^ 32 + y) div 2 ^ 32 = x" if "0 \<le> y" "y < 2 ^ 32" for x y :: int
    using that by simp
  have "e = e'" using arg_cong [OF eq, of "\<lambda>n. n div 2 ^ 32"] split assms(1-4) by metis
  with eq show "e = e' \<and> a = a'" by simp
qed simp

subsection \<open>Loading a document\<close>

definition doc_ids_ok :: "scitagsDoc \<Rightarrow> bool" where
  "doc_ids_ok doc \<longleftrightarrow> (\<forall>e \<in> set (sd_Experiments doc). 0 < se_ExpID e \<and> se_ExpID e < 2 ^ 32 \<and>
     (\<forall>a \<in> set (se_Activities e). 0 < sa_ActivityID a \<and> sa_ActivityID a < 2 ^ 32)) \<and>
   distinct (List.map se_ExpID (sd_Experiments doc)) \<and>
   (\<forall>e \<in> set (sd_Experiments doc). distinct (List.map sa_ActivityID (se_Activities e)))"

lemma map_of_fold_update:
  "map_of (fold (\<lambda>a m. AList.update (f a) (g a) m) xs m) k =
     (case map_of (rev (List.map (\<lambda>a. (f a, g a)) xs)) k of Some v \<Rightarrow> Some v | None \<Rightarrow> map_of m k)"
  by (induction xs arbitrary: m) (auto simp: map_of_update map_add_def split: option.splits)

lemma activities_in_experiment:
  assumes "\<forall>a \<in> set as. 0 < sa_ActivityID a \<and> sa_ActivityID a < 2 ^ 32"
    and "0 < e" "e < 2 ^ 32" and "distinct (List.map sa_ActivityID as)" and "a \<in> set as"
  shows "map_of (fold (\<lambda>a m. AList.update (activityKey e (sa_ActivityID a)) (sa_ActivityName a) m) as m)
    (activityKey e (sa_ActivityID a)) = Some (sa_ActivityName a)"
  using assms(1,4,5)
proof (induction as arbitrary: m rule: rev_induct)
  case (snoc b bs)
  show ?case
  proof (cases "a = b")
    case True
    then show ?thesis by (simp add: map_of_update)
  next
    case False
    with snoc.prems have "a \<in> set bs" by simp
    moreover have "sa_ActivityID b \<notin> sa_ActivityID ` set bs" using snoc.prems(2) by simp
    ultimately have "sa_ActivityID a \<noteq> sa_ActivityID b" by (metis image_eqI)
    with snoc.prems assms(2,3) \<open>a \<in> set bs\<close> have "activityKey e (sa_ActivityID a) \<noteq> activityKey e (sa_ActivityID b)"
      by (subst activityKey_inject) auto
    with snoc \<open>a \<in> set bs\<close> show ?thesis by (simp add: map_of_update)
  qed
qed simp

lemma activities_elsewhere:
  assumes "\<forall>a \<in> set as. 0 < sa_ActivityID a \<and> sa_ActivityID a < 2 ^ 32"
    and "0 < e" "e < 2 ^ 32" "0 < e'" "e' < 2 ^ 32" "0 < i" "i < 2 ^ 32" and "e \<noteq> e'"
  shows "map_of (fold (\<lambda>a m. AList.update (activityKey e (sa_ActivityID a)) (sa_ActivityName a) m) as m)
    (activityKey e' i) = map_of m (activityKey e' i)"
  using assms(1)
proof (induction as arbitrary: m)
  case (Cons a as)
  have "activityKey e (sa_ActivityID a) \<noteq> activityKey e' i"
    using Cons.prems assms(2-) by (subst activityKey_inject) auto
  with Cons show ?case by (simp add: map_of_update)
qed simp

text \<open>What the fold over the experiments answers for one of them.\<close>

lemma fold_load_experiment:
  assumes "\<forall>e \<in> set es. 0 < se_ExpID e \<and> se_ExpID e < 2 ^ 32 \<and>
      (\<forall>a \<in> set (se_Activities e). 0 < sa_ActivityID a \<and> sa_ActivityID a < 2 ^ 32) \<and>
      distinct (List.map sa_ActivityID (se_Activities e))"
    and "distinct (List.map se_ExpID es)" and "e \<in> set es" and "a \<in> set (se_Activities e)"
    and "fold load_experiment es m = (experiments, activities)"
  shows "map_of experiments (se_ExpID e) = Some (se_ExpName e) \<and>
    map_of activities (activityKey (se_ExpID e) (sa_ActivityID a)) = Some (sa_ActivityName a)"
  using assms
proof (induction es arbitrary: experiments activities rule: rev_induct)
  case (snoc x es)
  obtain ex ac where m: "fold load_experiment es m = (ex, ac)" by (cases "fold load_experiment es m")
  have x: "experiments = AList.update (se_ExpID x) (se_ExpName x) ex"
    "activities = fold (\<lambda>a m. AList.update (activityKey (se_ExpID x) (sa_ActivityID a)) (sa_ActivityName a) m)
       (se_Activities x) ac"
    using snoc.prems(1,5) m load_experiment_def [of x "(ex, ac)"] by auto
  show ?case
  proof (cases "e = x")
    case True
    then show ?thesis
      using snoc.prems(1,4) activities_in_experiment [of "se_Activities x" "se_ExpID x" a ac]
      by (simp add: x map_of_update)
  next
    case False
    with snoc.prems(3) have "e \<in> set es" by simp
    moreover have "se_ExpID x \<notin> se_ExpID ` set es" using snoc.prems(2) by simp
    ultimately have e: "e \<in> set es" "se_ExpID e \<noteq> se_ExpID x" by (auto, metis image_eqI)
    then have "map_of ex (se_ExpID e) = Some (se_ExpName e) \<and>
        map_of ac (activityKey (se_ExpID e) (sa_ActivityID a)) = Some (sa_ActivityName a)"
      using snoc.prems by (intro snoc.IH [OF _ _ _ _ m]) auto
    moreover have "map_of activities (activityKey (se_ExpID e) (sa_ActivityID a))
        = map_of ac (activityKey (se_ExpID e) (sa_ActivityID a))"
      unfolding x(2) using snoc.prems(1,3,4) e by (intro activities_elsewhere) auto
    ultimately show ?thesis using e by (simp add: x(1) map_of_update)
  qed
qed simp

subsection \<open>Theorems\<close>

text \<open>After a document whose ids are positive, below 2^32 and listed once each has been
  loaded, every experiment id and every pair of experiment and activity id in it resolves to
  the name the document gives it, although both ids share one packed key.\<close>

theorem Load_resolves:
  assumes "unmarshal data = Some doc" and "doc_ids_ok doc"
    and "e \<in> set (sd_Experiments doc)" and "a \<in> set (se_Activities e)"
  shows "snd (Load unmarshal data r) = None \<and>
    ExperimentName (fst (Load unmarshal data r)) (se_ExpID e) = se_ExpName e \<and>
    ActivityName (fst (Load unmarshal data r)) (se_ExpID e) (sa_ActivityID a) = sa_ActivityName a"
proof -
  obtain ex ac where m: "fold load_experiment (sd_Experiments doc) ([], []) = (ex, ac)"
    by (cases "fold load_experiment (sd_Experiments doc) ([], [])")
  have ids: "se_ExpID e \<noteq> 0" "sa_ActivityID a \<noteq> 0" and ne: "sd_Experiments doc \<noteq> []"
    using assms(2-4) by (fastforce simp: doc_ids_ok_def)+
  have "map_of ex (se_ExpID e) = Some (se_ExpName e) \<and>
      map_of ac (activityKey (se_ExpID e) (sa_ActivityID a)) = Some (sa_ActivityName a)"
    using assms(2-4) by (intro fold_load_experiment [OF _ _ _ _ m]) (auto simp: doc_ids_ok_def)
  then show ?thesis
    using assms(1) ids ne
    by (simp add: Load_def m ExperimentName_def ActivityName_def lookup_name_def)
qed

definition sample_doc :: scitagsDoc where
  "sample_doc = \<lparr>sd_Experiments = [\<lparr>se_ExpName = ''cms'', se_ExpID = 3,
     se_Activities = [\<lparr>sa_ActivityName = ''cache'', sa_ActivityID = 4\<rparr>]\<rparr>],
     sd_Version = 1, sd_Modified = []\<rparr>"

lemma Load_resolves_witness:
  "snd (Load (\<lambda>_. Some sample_doc) [] empty_registry) = None \<and>
   ExperimentName (fst (Load (\<lambda>_. Some sample_doc) [] empty_registry)) 3 = ''cms'' \<and>
   ActivityName (fst (Load (\<lambda>_. Some sample_doc) [] empty_registry)) 3 4 = ''cache''"
  using Load_resolves [of "\<lambda>_. Some sample_doc" "[]" sample_doc "hd (sd_Experiments sample_doc)"
      "hd (se_Activities (hd (sd_Experiments sample_doc)))" empty_registry]
  by (simp add: sample_doc_def doc_ids_ok_def)

text \<open>A document that does not parse or lists no experiment leaves the registry as it was.\<close>

theorem Load_keeps:
  "snd (Load unmarshal data r) = None \<or> fst (Load unmarshal data r) = r"
  by (auto simp: Load_def split: option.splits prod.splits)

end
