(* ===== verification/Correlator.thy ===== *)
theory Correlator
  imports Collector_Types Scitags
begin

section \<open>The correlator (collector/correlator.go)\<close>

text \<open>
  The state of a \<open>Correlator\<close> and its packet handlers, in the order of the source. A handler
  takes the time \<open>now\<close> at which it runs (the source reads the clock several times within a
  handler; the model uses one reading) and returns the new state, with an error or a record
  where the source returns them. Metrics are a count per label. \<open>ProcessPacket\<close> composes the
  handlers as the source does. The DNS resolver of \<open>ProcessGStreamPacket\<close> is the argument
  \<open>resolve\<close>.
\<close>

subsection \<open>State\<close>

datatype counter =
    PacketsPerServer string string
  | FileOpenRecords string
  | FileCloseRecords string
  | FileTimeRecords string
  | StandaloneCloseRecords
  | ScitagsUnmappedIDs string

record Correlator =
  c_stateMap :: "map_value StateMap"
  c_userMap :: "map_value StateMap"
  c_dictMap :: "map_value StateMap"
  c_serverMap :: "map_value StateMap"
  c_enableDNSEnrichment :: bool
  c_dnsCache :: "map_value StateMap"
  c_scitags :: ScitagsRegistry
  c_wlcgDisabled :: bool
  c_wlcgVOs :: "string list"
  c_wlcgPathPrefixes :: "string list"
  c_dropPathPrefixes :: "string list"
  c_dropVOs :: "string list"
  c_vo :: string
  c_counters :: "counter \<Rightarrow> nat"

record CorrelatorConfig =
  cc_TTL :: int
  cc_MaxEntries :: int
  cc_EnableDNSEnrichment :: bool
  cc_DNSCacheTTL :: int
  cc_Scitags :: ScitagsRegistry
  cc_DisableWLCG :: bool
  cc_WLCGVOs :: "string list option"
  cc_WLCGPathPrefixes :: "string list option"
  cc_DropPathPrefixes :: "string list"
  cc_DropVOs :: "string list"
  cc_VO :: string

definition defaultWLCGVOs :: "string list" where
  "defaultWLCGVOs = [''cms'']"

definition defaultWLCGPathPrefixes :: "string list" where
  "defaultWLCGPathPrefixes = [''/store'', ''/user/dteam'']"

definition NewCorrelatorWithConfig :: "CorrelatorConfig \<Rightarrow> Correlator" where
  "NewCorrelatorWithConfig config =
     (let dnsCacheTTL = (if cc_DNSCacheTTL config \<le> 0 then 3600 * 10 ^ 9 else cc_DNSCacheTTL config);
          new = NewStateMap (cc_TTL config) (cc_MaxEntries config)
      in \<lparr>c_stateMap = new, c_userMap = new, c_dictMap = new, c_serverMap = new,
          c_enableDNSEnrichment = cc_EnableDNSEnrichment config,
          c_dnsCache = NewStateMap dnsCacheTTL (cc_MaxEntries config),
          c_scitags = cc_Scitags config,
          c_wlcgDisabled = cc_DisableWLCG config,
          c_wlcgVOs = (case cc_WLCGVOs config of None \<Rightarrow> defaultWLCGVOs | Some vos \<Rightarrow> vos),
          c_wlcgPathPrefixes =
            (case cc_WLCGPathPrefixes config of None \<Rightarrow> defaultWLCGPathPrefixes | Some ps \<Rightarrow> ps),
          c_dropPathPrefixes = cc_DropPathPrefixes config, c_dropVOs = cc_DropVOs config,
          c_vo = cc_VO config, c_counters = (\<lambda>_. 0)\<rparr>)"

definition count :: "counter \<Rightarrow> Correlator \<Rightarrow> Correlator" where
  "count l c = c\<lparr>c_counters := (c_counters c)(l := Suc (c_counters c l))\<rparr>"

definition state_put :: "int \<Rightarrow> string \<Rightarrow> map_value \<Rightarrow> Correlator \<Rightarrow> Correlator" where
  "state_put now key val c = c\<lparr>c_stateMap := sm_put now key val (c_stateMap c)\<rparr>"

definition dict_put :: "int \<Rightarrow> string \<Rightarrow> map_value \<Rightarrow> Correlator \<Rightarrow> Correlator" where
  "dict_put now key val c = c\<lparr>c_dictMap := sm_put now key val (c_dictMap c)\<rparr>"

definition user_put :: "int \<Rightarrow> string \<Rightarrow> map_value \<Rightarrow> Correlator \<Rightarrow> Correlator" where
  "user_put now key val c = c\<lparr>c_userMap := sm_put now key val (c_userMap c)\<rparr>"

definition PacketTypeName :: "char \<Rightarrow> string" where
  "PacketTypeName code =
     (if code = PacketTypeMap then ''map''
      else if code = PacketTypeDictID then ''dict''
      else if code = PacketTypeFStat then ''fstat''
      else if code = PacketTypeGStream then ''gstream''
      else if code = PacketTypeInfo then ''info''
      else if code = PacketTypePurg then ''purge''
      else if code = PacketTypeRedir then ''redir''
      else if code = PacketTypeTrace then ''trace''
      else if code = PacketTypeToken then ''token''
      else if code = PacketTypeUser then ''user''
      else if code = PacketTypeEAInfo then ''eainfo''
      else if code = PacketTypeXFR then ''xfr''
      else ''unknown'')"

definition getServerID :: "Packet \<Rightarrow> string" where
  "getServerID packet = BuildServerID (hdr_ServerStart (pkt_Header packet)) (pkt_RemoteAddr packet)"

subsection \<open>Dictionary records\<close>

text \<open>A new user state with nothing but what the first packet about the user says.\<close>

definition new_UserState :: "int \<Rightarrow> uint32 \<Rightarrow> UserInfo \<Rightarrow> UserState" where
  "new_UserState now userID info = zero_UserState\<lparr>us_UserID := userID, us_UserInfo := info, us_CreatedAt := now\<rparr>"

text \<open>Look a user state up, change it in place or store \<open>fresh\<close> when there is none.\<close>

definition update_user ::
  "int \<Rightarrow> string \<Rightarrow> (UserState \<Rightarrow> UserState) \<Rightarrow> UserState \<Rightarrow> Correlator \<Rightarrow> Correlator" where
  "update_user now key change fresh c =
     (case sm_Get now key (c_userMap c) of
        Some (VUser userState) \<Rightarrow> user_put now key (VUser (change userState)) c
      | Some _ \<Rightarrow> c
      | None \<Rightarrow> user_put now key (VUser fresh) c)"

definition handle_path :: "int \<Rightarrow> MapRecord \<Rightarrow> string \<Rightarrow> UserInfo \<Rightarrow> string list \<Rightarrow> Correlator \<Rightarrow> Correlator" where
  "handle_path now rec serverID userInfo parts c =
     dict_put now (BuildDictIDKey serverID (mr_DictId rec)) (VUserInfo userInfo)
       (if 1 < length parts
        then dict_put now (BuildDictKey serverID (mr_DictId rec))
               (VPath \<lparr>pi_Path = parts ! 1, pi_UserInfo = userInfo\<rparr>) c
        else c)"

definition handle_appinfo :: "int \<Rightarrow> MapRecord \<Rightarrow> string \<Rightarrow> UserInfo \<Rightarrow> string list \<Rightarrow> Correlator \<Rightarrow> Correlator" where
  "handle_appinfo now rec serverID userInfo parts c =
     (if 1 < length parts then
        update_user now (BuildUserInfoKey serverID userInfo) (\<lambda>us. us\<lparr>us_AppInfo := parts ! 1\<rparr>)
          ((new_UserState now (mr_DictId rec) userInfo)\<lparr>us_AppInfo := parts ! 1\<rparr>)
          (dict_put now (BuildDictIDKey serverID (mr_DictId rec)) (VUserInfo userInfo) c)
      else c)"

definition assign_ea :: "string \<Rightarrow> string \<Rightarrow> uint32 \<times> int \<times> int \<Rightarrow> uint32 \<times> int \<times> int" where
  "assign_ea key val r =
     (case r of (udid, experimentID, activityID) \<Rightarrow>
        if key = ''Uc'' then
          (case parse_uint32 val of Some u \<Rightarrow> (u, experimentID, activityID) | None \<Rightarrow> r)
        else if key = ''Ec'' then (udid, fst (atoi val), activityID)
        else if key = ''Ac'' then (udid, experimentID, fst (atoi val))
        else r)"

definition parseEAInfo :: "string \<Rightarrow> uint32 \<times> int \<times> int" where
  "parseEAInfo eaInfo =
     foldl (\<lambda>r part.
         if part = [] then r
         else case splitn2 (CHR ''='') part of [key, val] \<Rightarrow> assign_ea key val r | _ \<Rightarrow> r)
       (0, 0, 0) (split_on (CHR ''&'') eaInfo)"

definition handle_eainfo_user ::
  "int \<Rightarrow> string \<Rightarrow> uint32 \<Rightarrow> int \<Rightarrow> int \<Rightarrow> UserInfo \<Rightarrow> Correlator \<Rightarrow> Correlator" where
  "handle_eainfo_user now serverID udid experimentID activityID userInfo c =
     update_user now (BuildUserInfoKey serverID userInfo)
       (\<lambda>us. us\<lparr>us_ExperimentID := experimentID, us_ActivityID := activityID\<rparr>)
       ((new_UserState now udid userInfo)
          \<lparr>us_ExperimentID := experimentID, us_ActivityID := activityID\<rparr>) c"

definition handle_eainfo :: "int \<Rightarrow> string \<Rightarrow> UserInfo \<Rightarrow> string list \<Rightarrow> Correlator \<Rightarrow> Correlator" where
  "handle_eainfo now serverID userInfo parts c =
     (if 1 < length parts then
        (case parseEAInfo (parts ! 1) of (udid, experimentID, activityID) \<Rightarrow>
           if udid = 0 then c
           else
             let existingDictKey = BuildDictIDKey serverID udid
             in case sm_Get now existingDictKey (c_dictMap c) of
                  None \<Rightarrow>
                    handle_eainfo_user now serverID udid experimentID activityID userInfo
                      (dict_put now existingDictKey (VUserInfo userInfo) c)
                | Some (VUserInfo existingUserInfo) \<Rightarrow>
                    handle_eainfo_user now serverID udid experimentID activityID existingUserInfo c
                | Some _ \<Rightarrow> c)
      else c)"

definition handleDictIDRecord :: "int \<Rightarrow> MapRecord \<Rightarrow> string \<Rightarrow> char \<Rightarrow> Correlator \<Rightarrow> Correlator" where
  "handleDictIDRecord now rec serverID packetType c =
     (let parts = splitn2 newline (mr_Info rec)
      in case collector_parseUserInfo (parts ! 0) of
           None \<Rightarrow> dict_put now (BuildDictKey serverID (mr_DictId rec)) (VStr (mr_Info rec)) c
         | Some userInfo \<Rightarrow>
             if packetType = PacketTypeDictID then handle_path now rec serverID userInfo parts c
             else if packetType = PacketTypeInfo then handle_appinfo now rec serverID userInfo parts c
             else if packetType = PacketTypeEAInfo then handle_eainfo now serverID userInfo parts c
             else c)"

subsection \<open>Server, user and disconnect records\<close>

definition handleServerInfo :: "int \<Rightarrow> ServerInfo \<Rightarrow> string \<Rightarrow> Correlator \<Rightarrow> Correlator" where
  "handleServerInfo now info serverID c =
     c\<lparr>c_serverMap := sm_put now serverID (VServer info) (c_serverMap c)\<rparr>"

definition handle_token :: "int \<Rightarrow> UserRecord \<Rightarrow> string \<Rightarrow> Correlator \<Rightarrow> Correlator" where
  "handle_token now rec serverID c =
     (case sm_Get now (BuildDictIDKey serverID (ti_UserDictID (ur_TokenInfo rec))) (c_dictMap c) of
        Some (VUserInfo existingUserInfo) \<Rightarrow>
          (let existingUserInfoKey = BuildUserInfoKey serverID existingUserInfo
           in case sm_Get now existingUserInfoKey (c_userMap c) of
                Some (VUser existingUserState) \<Rightarrow>
                  user_put now existingUserInfoKey
                    (VUser (existingUserState\<lparr>us_TokenInfo := ur_TokenInfo rec\<rparr>)) c
              | _ \<Rightarrow> c)
      | _ \<Rightarrow> c)"

definition handleUserRecord :: "int \<Rightarrow> UserRecord \<Rightarrow> string \<Rightarrow> Correlator \<Rightarrow> Correlator" where
  "handleUserRecord now rec serverID c =
     (if ti_UserDictID (ur_TokenInfo rec) \<noteq> 0 then handle_token now rec serverID c
      else
        let userState = zero_UserState\<lparr>us_UserID := ur_DictId rec, us_UserInfo := ur_UserInfo rec,
              us_AuthInfo := ur_AuthInfo rec, us_TokenInfo := ur_TokenInfo rec, us_CreatedAt := now\<rparr>
        in user_put now (BuildUserInfoKey serverID (ur_UserInfo rec)) (VUser userState)
             (dict_put now (BuildDictIDKey serverID (ur_DictId rec)) (VUserInfo (ur_UserInfo rec)) c))"

definition handleDisconnect :: "int \<Rightarrow> FileDisconnectRecord \<Rightarrow> string \<Rightarrow> Correlator \<Rightarrow> Correlator" where
  "handleDisconnect now rec serverID c =
     (let dictKey = BuildDictIDKey serverID (fdr_UserID rec)
      in case sm_Get now dictKey (c_dictMap c) of
           Some (VUserInfo userInfo) \<Rightarrow>
             c\<lparr>c_dictMap := sm_Delete dictKey (c_dictMap c),
               c_userMap := sm_Delete (BuildUserInfoKey serverID userInfo) (c_userMap c)\<rparr>
         | _ \<Rightarrow> c)"

subsection \<open>User lookup\<close>

definition user_of_id :: "int \<Rightarrow> uint32 \<Rightarrow> string \<Rightarrow> Correlator \<Rightarrow> UserInfo option" where
  "user_of_id now userID serverID c =
     (if userID \<noteq> 0 then
        (case sm_Get now (BuildDictIDKey serverID userID) (c_dictMap c) of
           Some (VUserInfo ui) \<Rightarrow> Some ui
         | _ \<Rightarrow> None)
      else None)"

definition user_of_file :: "int \<Rightarrow> uint32 \<Rightarrow> string \<Rightarrow> Correlator \<Rightarrow> UserInfo option" where
  "user_of_file now fileID serverID c =
     (if fileID \<noteq> 0 then
        (case sm_Get now (BuildDictKey serverID fileID) (c_dictMap c) of
           Some (VPath pathInfo) \<Rightarrow> Some (pi_UserInfo pathInfo)
         | _ \<Rightarrow> None)
      else None)"

definition getUserInfo :: "int \<Rightarrow> uint32 \<Rightarrow> uint32 \<Rightarrow> string \<Rightarrow> Correlator \<Rightarrow> UserState option" where
  "getUserInfo now userID fileID serverID c =
     (case (case user_of_id now userID serverID c of
              Some ui \<Rightarrow> Some ui
            | None \<Rightarrow> user_of_file now fileID serverID c) of
        None \<Rightarrow> None
      | Some userInfo \<Rightarrow>
          (case sm_Get now (BuildUserInfoKey serverID userInfo) (c_userMap c) of
             None \<Rightarrow> Some (zero_UserState\<lparr>us_UserInfo := userInfo\<rparr>)
           | Some (VUser userState) \<Rightarrow> Some userState
           | Some _ \<Rightarrow> None))"

subsection \<open>Records\<close>

definition enrichWithDNSSync :: "int \<Rightarrow> string \<Rightarrow> Correlator \<Rightarrow> string \<times> bool" where
  "enrichWithDNSSync now ipStr c =
     (if \<not> c_enableDNSEnrichment c \<or> ipStr = [] then ([], False)
      else case sm_Get now ipStr (c_dnsCache c) of
             Some (VStr hostname) \<Rightarrow> (hostname, False)
           | _ \<Rightarrow> ([], True))"

text \<open>The user's domain, whether it needs a lookup, and the address to look up.\<close>

definition user_domain :: "int \<Rightarrow> string \<Rightarrow> Correlator \<Rightarrow> string \<times> bool \<times> string" where
  "user_domain now host c =
     (if host = [] then ([], False, [])
      else if isIPPattern host then
        (let ipStr = extractIPFromHost host;
             (hostname, needsAsync) = enrichWithDNSSync now ipStr c
         in if hostname \<noteq> [] then (extractDomainFromHostname hostname, False, [])
            else if needsAsync then ([], True, ipStr)
            else ([], False, []))
      else (extractDomainFromHostname host, False, []))"

text \<open>The server's address and hostname, whether that needs a lookup, and what to look up.\<close>

definition server_names :: "int \<Rightarrow> string \<Rightarrow> Correlator \<Rightarrow> string \<times> string \<times> bool \<times> string" where
  "server_names now remoteAddr c =
     (if remoteAddr = [] then (''unknown'', ''unknown'', False, [])
      else
        let serverIP = extractHostFromRemoteAddr remoteAddr
        in if isIPPattern serverIP then
             (let ipStr = extractIPFromHost serverIP;
                  (hostname, needsAsync) = enrichWithDNSSync now ipStr c
              in if hostname \<noteq> [] then (serverIP, hostname, False, [])
                 else if needsAsync then (serverIP, serverIP, True, ipStr)
                 else (serverIP, serverIP, False, []))
           else (serverIP, serverIP, False, []))"

definition site_of :: "int \<Rightarrow> string \<Rightarrow> Correlator \<Rightarrow> string" where
  "site_of now serverID c =
     (case sm_Get now serverID (c_serverMap c) of
        Some (VServer serverInfo) \<Rightarrow> if si_Site serverInfo \<noteq> [] then si_Site serverInfo else ''UNKNOWN''
      | _ \<Rightarrow> ''UNKNOWN'')"

text \<open>The names of an experiment and an activity id, and the counters of the unknown ones.\<close>

definition scitags_names :: "int \<Rightarrow> int \<Rightarrow> Correlator \<Rightarrow> string \<times> string \<times> Correlator" where
  "scitags_names experimentID activityID c =
     (if experimentID = 0 then ([], [], c)
      else
        let experiment = ExperimentName (c_scitags c) experimentID
        in if experiment = [] then ([], [], count (ScitagsUnmappedIDs ''experiment'') c)
           else if activityID = 0 then (experiment, [], c)
           else
             let activity = ActivityName (c_scitags c) experimentID activityID
             in (experiment, activity,
                 if activity = [] then count (ScitagsUnmappedIDs ''activity'') c else c))"

definition average :: "int64 \<Rightarrow> int32 \<Rightarrow> int64" where
  "average tot ops = (if 0 < sint ops then word_of_int (sint tot sdiv sint ops) else 0)"

text \<open>The first part of a DN split at \<open>::\<close>.\<close>

fun first_of_dn :: "string \<Rightarrow> string" where
  "first_of_dn [] = []"
| "first_of_dn (x # xs) = (if has_prefix (x # xs) ''::'' then [] else x # first_of_dn xs)"

definition createCorrelatedRecord ::
  "int \<Rightarrow> FileState \<Rightarrow> FileCloseRecord \<Rightarrow> Packet \<Rightarrow> Correlator \<Rightarrow> Correlator \<times> CollectorRecord" where
  "createCorrelatedRecord now state rec packet c =
     (let ops = fcr_Ops rec; xfr = fcr_Xfr rec;
          userInfo = getUserInfo now (fs_UserID state) (fs_FileID state) (fs_ServerID state) c;
          us = (case userInfo of None \<Rightarrow> zero_UserState | Some us \<Rightarrow> us);
          known = (userInfo \<noteq> None);
          host = ui_Host (us_UserInfo us);
          (userDomain, needsDNS, enrichmentIP) = (if known then user_domain now host c else ([], False, []));
          (experiment, activity, c1) = scitags_names (us_ExperimentID us) (us_ActivityID us) c;
          (dirname1, dirname2, logicalDirname) = extractDirnames (fs_Filename state);
          (serverIP, serverHostname, needsServerDNS, serverEnrichmentIP) =
            server_names now (pkt_RemoteAddr packet) c
      in (c1,
          \<lparr>cr_Timestamp = now,
           cr_StartTime = fs_OpenTime state,
           cr_EndTime = word_of_int (now div 10 ^ 9),
           cr_OperationTime = word_of_int (now div 10 ^ 9) - fs_OpenTime state,
           cr_ServerID = BuildServerID (hdr_ServerStart (pkt_Header packet)) (pkt_RemoteAddr packet),
           cr_ServerHostname = serverHostname,
           cr_Server = serverIP,
           cr_ServerIP = serverIP,
           cr_Site = site_of now (fs_ServerID state) c,
           cr_User = (if known then ui_Username (us_UserInfo us) else BuildUserHex (fs_UserID state)),
           cr_UserDN = first_of_dn (ai_DN (us_AuthInfo us)),
           cr_UserDomain = userDomain,
           cr_VO = (if ai_Org (us_AuthInfo us) \<noteq> [] then normalizeVO (ai_Org (us_AuthInfo us)) else []),
           cr_Host = (if known then host else ''unknown''),
           cr_TokenSubject = ti_Subject (us_TokenInfo us),
           cr_TokenUsername = ti_Username (us_TokenInfo us),
           cr_TokenOrg = ti_Org (us_TokenInfo us),
           cr_TokenRole = ti_Role (us_TokenInfo us),
           cr_TokenGroups = ti_Groups (us_TokenInfo us),
           cr_Experiment = experiment,
           cr_Activity = activity,
           cr_ExperimentID = us_ExperimentID us,
           cr_ActivityID = us_ActivityID us,
           cr_ScitagsVO = experiment,
           cr_Filename = fs_Filename state,
           cr_Dirname1 = dirname1,
           cr_Dirname2 = dirname2,
           cr_LogicalDirname = logicalDirname,
           cr_Protocol = (if known then ui_Protocol (us_UserInfo us) else ''unknown''),
           cr_AppInfo = us_AppInfo us,
           cr_IPv6 = (ai_InetVersion (us_AuthInfo us) = ''6''),
           cr_Filesize = fs_FileSize state,
           cr_ReadOperations = ops_Read ops,
           cr_ReadSingleOperations = ops_Read ops,
           cr_ReadVectorOperations = ops_Readv ops,
           cr_WriteOperations = ops_Write ops,
           cr_Read = xfr_Read xfr,
           cr_ReadSingleBytes = xfr_Read xfr,
           cr_Readv = xfr_Readv xfr,
           cr_Write = xfr_Write xfr,
           cr_ReadMin = ops_RdMin ops,
           cr_ReadMax = ops_RdMax ops,
           cr_ReadAverage = average (xfr_Read xfr) (ops_Read ops),
           cr_ReadSingleMin = ops_RdMin ops,
           cr_ReadSingleMax = ops_RdMax ops,
           cr_ReadSingleAverage = average (xfr_Read xfr) (ops_Read ops),
           cr_ReadVectorMin = ops_RvMin ops,
           cr_ReadVectorMax = ops_RvMax ops,
           cr_ReadVectorAverage = average (xfr_Readv xfr) (ops_Readv ops),
           cr_WriteMin = ops_WrMin ops,
           cr_WriteMax = ops_WrMax ops,
           cr_WriteAverage = average (xfr_Write xfr) (ops_Write ops),
           cr_ReadVectorCountMin = ops_RsMin ops,
           cr_ReadVectorCountMax = ops_RsMax ops,
           cr_ReadVectorCountAverage =
             (if 0 < sint (ops_Readv ops) then FQuot (ops_Rsegs ops) (ops_Readv ops) else FZero),
           cr_ReadBytesAtClose = xfr_Read xfr,
           cr_WriteBytesAtClose = xfr_Write xfr,
           cr_HasFileCloseMsg = 1,
           cr_needsDNSEnrichment = needsDNS,
           cr_enrichmentIP = enrichmentIP,
           cr_needsServerDNS = needsServerDNS,
           cr_serverEnrichmentIP = serverEnrichmentIP\<rparr>))"

definition createStandaloneCloseRecord ::
  "int \<Rightarrow> FileCloseRecord \<Rightarrow> Packet \<Rightarrow> Correlator \<Rightarrow> Correlator \<times> CollectorRecord" where
  "createStandaloneCloseRecord now rec packet c =
     createCorrelatedRecord now
       \<lparr>fs_FileID = fh_FileId (fcr_Header rec), fs_UserID = fh_UserId (fcr_Header rec),
        fs_OpenTime = scast (hdr_ServerStart (pkt_Header packet)), fs_FileSize = 0,
        fs_Filename = ''unknown'', fs_ServerID = getServerID packet, fs_StreamID = 0,
        fs_CreatedAt = 0\<rparr> rec packet c"

subsection \<open>File records\<close>

datatype corr_error = InvalidStateType

text \<open>What a handler returns next to the new state: an error, or a record or none.\<close>

type_synonym handler_result = "Correlator \<times> (corr_error + CollectorRecord option)"

definition open_filename :: "int \<Rightarrow> FileOpenRecord \<Rightarrow> string \<Rightarrow> Correlator \<Rightarrow> string" where
  "open_filename now rec serverID c =
     (if for_Lfn rec = [] \<and> fh_FileId (for_Header rec) \<noteq> 0 then
        (case sm_Get now (BuildDictKey serverID (fh_FileId (for_Header rec))) (c_dictMap c) of
           Some (VStr path) \<Rightarrow> path
         | _ \<Rightarrow> for_Lfn rec)
      else for_Lfn rec)"

definition open_state :: "int \<Rightarrow> FileOpenRecord \<Rightarrow> Packet \<Rightarrow> string \<Rightarrow> Correlator \<Rightarrow> FileState" where
  "open_state now rec packet serverID c =
     \<lparr>fs_FileID = fh_FileId (for_Header rec),
      fs_UserID = (if fh_UserId (for_Header rec) = 0 then for_User rec else fh_UserId (for_Header rec)),
      fs_OpenTime = scast (hdr_ServerStart (pkt_Header packet)),
      fs_FileSize = for_FileSize rec,
      fs_Filename = open_filename now rec serverID c,
      fs_ServerID = serverID, fs_StreamID = 0, fs_CreatedAt = now\<rparr>"

definition handleFileOpen :: "int \<Rightarrow> FileOpenRecord \<Rightarrow> Packet \<Rightarrow> string \<Rightarrow> Correlator \<Rightarrow> handler_result" where
  "handleFileOpen now rec packet serverID c =
     (state_put now (BuildFileKey serverID (fh_FileId (for_Header rec)))
        (VFile (open_state now rec packet serverID c)) c, Inr None)"

definition handleFileClose :: "int \<Rightarrow> FileCloseRecord \<Rightarrow> Packet \<Rightarrow> string \<Rightarrow> Correlator \<Rightarrow> handler_result" where
  "handleFileClose now rec packet serverID c =
     (let key = BuildFileKey serverID (fh_FileId (fcr_Header rec))
      in case sm_Get now key (c_stateMap c) of
           None \<Rightarrow>
             (let (c1, record) = createStandaloneCloseRecord now rec packet (count StandaloneCloseRecords c)
              in (c1, Inr (Some record)))
         | Some (VFile state) \<Rightarrow>
             (let (c1, record) = createCorrelatedRecord now state rec packet c
              in (c1\<lparr>c_stateMap := sm_Delete key (c_stateMap c1)\<rparr>, Inr (Some record)))
         | Some _ \<Rightarrow> (c, Inl InvalidStateType))"

definition handleTimeRecord :: "int \<Rightarrow> FileTimeRecord \<Rightarrow> Packet \<Rightarrow> string \<Rightarrow> Correlator \<Rightarrow> handler_result" where
  "handleTimeRecord now rec packet serverID c =
     (state_put now (BuildTimeKey serverID (fh_FileId (ftr_Header rec)) (ftr_SID rec))
        (VFile \<lparr>fs_FileID = fh_FileId (ftr_Header rec), fs_UserID = fh_UserId (ftr_Header rec),
           fs_OpenTime = scast (ftr_TBeg rec), fs_FileSize = 0, fs_Filename = [],
           fs_ServerID = serverID, fs_StreamID = ftr_SID rec, fs_CreatedAt = now\<rparr>) c, Inr None)"

definition process_record ::
  "int \<Rightarrow> string \<Rightarrow> Packet \<Rightarrow> string \<Rightarrow> FileRecord \<Rightarrow> Correlator \<Rightarrow> handler_result" where
  "process_record now serverIP packet serverID rec c =
     (case rec of
        OpenRec r \<Rightarrow> handleFileOpen now r packet serverID (count (FileOpenRecords serverIP) c)
      | CloseRec r \<Rightarrow> handleFileClose now r packet serverID (count (FileCloseRecords serverIP) c)
      | TimeRec r \<Rightarrow> handleTimeRecord now r packet serverID (count (FileTimeRecords serverIP) c)
      | DiscRec r \<Rightarrow> (handleDisconnect now r serverID c, Inr None))"

fun process_records ::
  "int \<Rightarrow> string \<Rightarrow> Packet \<Rightarrow> string \<Rightarrow> FileRecord list \<Rightarrow> CollectorRecord list \<Rightarrow> Correlator \<Rightarrow>
   Correlator \<times> CollectorRecord list \<times> corr_error option" where
  "process_records now serverIP packet serverID [] records c = (c, records, None)"
| "process_records now serverIP packet serverID (rec # recs) records c =
     (case process_record now serverIP packet serverID rec c of
        (c1, Inl e) \<Rightarrow> (c1, records, Some e)
      | (c1, Inr result) \<Rightarrow>
          process_records now serverIP packet serverID recs
            (case result of None \<Rightarrow> records | Some r \<Rightarrow> records @ [r]) c1)"

definition packet_server_ip :: "Packet \<Rightarrow> string" where
  "packet_server_ip packet = extractIPFromHost (extractHostFromRemoteAddr (pkt_RemoteAddr packet))"

definition ProcessPacket ::
  "int \<Rightarrow> Packet \<Rightarrow> Correlator \<Rightarrow> Correlator \<times> CollectorRecord list \<times> corr_error option" where
  "ProcessPacket now packet c =
     (if pkt_IsXML packet then (c, [], None)
      else
        let serverIP = packet_server_ip packet;
            c1 = count (PacketsPerServer serverIP (PacketTypeName (pkt_PacketType packet))) c;
            serverID = getServerID packet
        in case pkt_ServerInfo packet of
             Some info \<Rightarrow> (handleServerInfo now info serverID c1, [], None)
           | None \<Rightarrow>
               (case pkt_MapRecord packet of
                  Some rec \<Rightarrow> (handleDictIDRecord now rec serverID (pkt_PacketType packet) c1, [], None)
                | None \<Rightarrow>
                    (case pkt_UserRecord packet of
                       Some rec \<Rightarrow> (handleUserRecord now rec serverID c1, [], None)
                     | None \<Rightarrow>
                         process_records now serverIP packet serverID (pkt_FileRecords packet) [] c1)))"

subsection \<open>g-stream packets\<close>

definition performDNSLookup :: "(string \<Rightarrow> string list option) \<Rightarrow> string \<Rightarrow> string" where
  "performDNSLookup resolve ipStr =
     (if ParseIP ipStr = None then []
      else case resolve ipStr of
             Some (name # _) \<Rightarrow> trim_suffix name ''.''
           | _ \<Rightarrow> [])"

definition lookupDNSHostname ::
  "(string \<Rightarrow> string list option) \<Rightarrow> int \<Rightarrow> string \<Rightarrow> Correlator \<Rightarrow> Correlator \<times> string" where
  "lookupDNSHostname resolve now ipStr c =
     (let (hostname, needsLookup) = enrichWithDNSSync now ipStr c
      in if hostname \<noteq> [] \<or> \<not> needsLookup then (c, hostname)
         else
           let hostname = performDNSLookup resolve ipStr
           in (if hostname \<noteq> [] then c\<lparr>c_dnsCache := sm_put now ipStr (VStr hostname) (c_dnsCache c)\<rparr> else c,
               hostname))"

definition enrich_event :: "string \<Rightarrow> string \<Rightarrow> string \<Rightarrow> string \<Rightarrow> json_object \<Rightarrow> json_object" where
  "enrich_event serverID host serverHostname addr event =
     AList.update ''from'' (JStr addr)
       (AList.update ''server_hostname'' (JStr serverHostname)
         (AList.update ''server_ip'' (JStr host)
           (AList.update ''sid'' (JStr serverID) event)))"

definition ProcessGStreamPacket ::
  "(string \<Rightarrow> string list option) \<Rightarrow> int \<Rightarrow> Packet \<Rightarrow> Correlator \<Rightarrow>
   Correlator \<times> json_object list \<times> char" where
  "ProcessGStreamPacket resolve now packet c =
     (case pkt_GStreamRecord packet of
        None \<Rightarrow> (c, [], nul)
      | Some gstream \<Rightarrow>
          (let c1 = count (PacketsPerServer (packet_server_ip packet) ''gstream'') c;
               serverID = getServerID packet;
               addr = pkt_RemoteAddr packet;
               host = extractHostFromRemoteAddr addr;
               (c2, resolved) =
                 (if isIPPattern host then lookupDNSHostname resolve now (extractIPFromHost host) c1
                  else (c1, []));
               serverHostname = (if resolved \<noteq> [] then resolved else host)
           in (c2, List.map (enrich_event serverID host serverHostname addr) (gs_Events gstream),
               gs_StreamType gstream)))"

end
