(* ===== verification/Correlator_Invariant.thy ===== *)
theory Correlator_Invariant
  imports Correlator
begin

section \<open>The correlator's type invariant\<close>

text \<open>
  Every map of the correlator holds values of the Go types its handlers store there, under keys of
  its own families: one type in every map but the dictionary, which holds users under one family
  of keys and path records and strings under the other. The tracked states name the server and
  file their key names. Every handler keeps this, so no type assertion whose failure is an error
  ever fails in a reachable state; the two assertions on what a path's key holds can fail, and
  fall through. The correlator's life is the
  step relation \<open>corr_step\<close>: a packet processed at some later time, or a janitor's sweep of one
  map; \<open>corr_reach\<close> are the states it comes to.
\<close>

subsection \<open>The typing of the maps\<close>

definition state_typed :: "string \<Rightarrow> map_value \<Rightarrow> bool" where
  "state_typed k v \<longleftrightarrow> (\<exists>st. v = VFile st \<and>
     (k = BuildFileKey (fs_ServerID st) (fs_FileID st) \<or>
      k = BuildTimeKey (fs_ServerID st) (fs_FileID st) (fs_StreamID st)))"

text \<open>A path's key holds a path record, or the whole text when no user was readable in it.\<close>

definition dict_typed :: "string \<Rightarrow> map_value \<Rightarrow> bool" where
  "dict_typed k v \<longleftrightarrow>
     (\<exists>s d. k = BuildDictKey s d \<and> ((\<exists>p. v = VPath p) \<or> (\<exists>t. v = VStr t))) \<or>
     (\<exists>s d u. k = BuildDictIDKey s d \<and> v = VUserInfo u)"

definition user_typed :: "string \<Rightarrow> map_value \<Rightarrow> bool" where
  "user_typed k v \<longleftrightarrow> (\<exists>s us. v = VUser us \<and> k = BuildUserInfoKey s (us_UserInfo us))"

definition server_typed :: "string \<Rightarrow> map_value \<Rightarrow> bool" where
  "server_typed k v \<longleftrightarrow> (\<exists>info. v = VServer info)"

definition dns_typed :: "string \<Rightarrow> map_value \<Rightarrow> bool" where
  "dns_typed k v \<longleftrightarrow> (\<exists>hostname. v = VStr hostname \<and> hostname \<noteq> [])"

definition typed_map :: "(string \<Rightarrow> map_value \<Rightarrow> bool) \<Rightarrow> map_value StateMap \<Rightarrow> bool" where
  "typed_map P sm \<longleftrightarrow> sm_ok sm \<and> state_map.holds P sm"

definition corr_ok :: "Correlator \<Rightarrow> bool" where
  "corr_ok c \<longleftrightarrow> typed_map state_typed (c_stateMap c) \<and> typed_map dict_typed (c_dictMap c) \<and>
     typed_map user_typed (c_userMap c) \<and> typed_map server_typed (c_serverMap c) \<and>
     typed_map dns_typed (c_dnsCache c)"

lemma typed_map_put: "typed_map P sm \<Longrightarrow> P k v \<Longrightarrow> typed_map P (sm_put now k v sm)"
  by (simp add: typed_map_def sm_ok_put state_map.holds_store)

lemma typed_map_Delete: "typed_map P sm \<Longrightarrow> typed_map P (sm_Delete k sm)"
  by (simp add: typed_map_def sm_ok_Delete state_map.holds_remove)

lemma typed_map_sweep: "typed_map P sm \<Longrightarrow> typed_map P (sm_sweep now sm)"
  by (simp add: typed_map_def sm_ok_sweep state_map.holds_sweep)

lemma typed_map_New: "typed_map P (NewStateMap ttl m)"
  by (simp add: typed_map_def state_map.holds_def)

lemma typed_map_Get: "typed_map P sm \<Longrightarrow> sm_Get t k sm = Some v \<Longrightarrow> P k v"
  by (auto simp: typed_map_def dest: state_map.holds_lookup)

lemmas typed_map_intros = typed_map_put typed_map_Delete typed_map_sweep typed_map_New

text \<open>What the typing says of a lookup under a key of each family.\<close>

lemma file_key_typed: "state_typed (BuildFileKey s f) v \<Longrightarrow> \<exists>st. v = VFile st \<and> fs_ServerID st = s \<and> fs_FileID st = f"
  by (auto simp: state_typed_def)

lemma dictid_key_typed: "dict_typed (BuildDictIDKey s d) v \<Longrightarrow> \<exists>u. v = VUserInfo u"
  by (auto simp: dict_typed_def)

lemma dict_key_typed: "dict_typed (BuildDictKey s d) v \<Longrightarrow> (\<exists>p. v = VPath p) \<or> (\<exists>t. v = VStr t)"
  by (auto simp: dict_typed_def)

subsection \<open>Handlers keep it\<close>

lemma corr_ok_count [simp]: "corr_ok (count l c) \<longleftrightarrow> corr_ok c"
  by (simp add: corr_ok_def count_def)

lemma corr_ok_state_put: "corr_ok c \<Longrightarrow> state_typed k v \<Longrightarrow> corr_ok (state_put now k v c)"
  by (simp add: corr_ok_def state_put_def typed_map_put)

lemma corr_ok_dict_put: "corr_ok c \<Longrightarrow> dict_typed k v \<Longrightarrow> corr_ok (dict_put now k v c)"
  by (simp add: corr_ok_def dict_put_def typed_map_put)

lemma corr_ok_user_put: "corr_ok c \<Longrightarrow> user_typed k v \<Longrightarrow> corr_ok (user_put now k v c)"
  by (simp add: corr_ok_def user_put_def typed_map_put)

lemma dict_typed_intros:
  "dict_typed (BuildDictKey s d) (VPath p)" "dict_typed (BuildDictKey s d) (VStr t)"
  "dict_typed (BuildDictIDKey s d) (VUserInfo u)"
  by (auto simp: dict_typed_def)

lemma corr_ok_update_user:
  assumes "corr_ok c" and "\<And>us. us_UserInfo (change us) = us_UserInfo us"
    and "user_typed k (VUser fresh)"
  shows "corr_ok (update_user now k change fresh c)"
proof (cases "sm_Get now k (c_userMap c)")
  case None
  with assms show ?thesis by (simp add: update_user_def corr_ok_user_put)
next
  case (Some v)
  then have "user_typed k v" using assms(1) typed_map_Get unfolding corr_ok_def by blast
  then obtain s us where v: "v = VUser us" and k: "k = BuildUserInfoKey s (us_UserInfo us)"
    by (auto simp: user_typed_def)
  then have "user_typed k (VUser (change us))" using assms(2) by (auto simp: user_typed_def)
  with assms(1) Some v show ?thesis by (simp add: update_user_def corr_ok_user_put)
qed

lemma new_UserState_info [simp]: "us_UserInfo (new_UserState now i u) = u"
  by (simp add: new_UserState_def)

lemma corr_ok_handleDictIDRecord: "corr_ok c \<Longrightarrow> corr_ok (handleDictIDRecord now rec s ty c)"
proof -
  have typed: "us_UserInfo us = u \<Longrightarrow> user_typed (BuildUserInfoKey s u) (VUser us)" for us u
    by (auto simp: user_typed_def)
  have user: "corr_ok c \<Longrightarrow> corr_ok (handle_eainfo_user now s d e a u c)" for c d e a u
    unfolding handle_eainfo_user_def by (rule corr_ok_update_user) (auto intro: typed)
  have app: "corr_ok c \<Longrightarrow> corr_ok (handle_appinfo now rec s u parts c)" for c u parts
    unfolding handle_appinfo_def
    by (auto intro!: corr_ok_update_user corr_ok_dict_put dict_typed_intros typed)
  have ea: "corr_ok c \<Longrightarrow> corr_ok (handle_eainfo now s u parts c)" for c u parts
    unfolding handle_eainfo_def
    by (auto simp: Let_def intro!: user corr_ok_dict_put dict_typed_intros
        split: prod.splits option.splits map_value.splits)
  show "corr_ok c \<Longrightarrow> ?thesis"
    unfolding handleDictIDRecord_def handle_path_def Let_def
    by (auto intro!: app ea corr_ok_dict_put dict_typed_intros split: option.splits)
qed

lemma corr_ok_handleServerInfo: "corr_ok c \<Longrightarrow> corr_ok (handleServerInfo now info s c)"
  by (simp add: corr_ok_def handleServerInfo_def typed_map_put server_typed_def)

lemma corr_ok_handle_token:
  assumes "corr_ok c"
  shows "corr_ok (handle_token now rec s c)"
proof -
  have "user_typed k (VUser (us\<lparr>us_TokenInfo := ti\<rparr>))"
    if "sm_Get now k (c_userMap c) = Some (VUser us)" for k us ti
  proof -
    have "user_typed k (VUser us)" using that assms typed_map_Get unfolding corr_ok_def by blast
    then show ?thesis by (auto simp: user_typed_def)
  qed
  then show ?thesis
    using assms by (auto simp: handle_token_def Let_def intro!: corr_ok_user_put
        split: option.splits map_value.splits)
qed

lemma corr_ok_handleUserRecord: "corr_ok c \<Longrightarrow> corr_ok (handleUserRecord now rec s c)"
  by (auto simp: handleUserRecord_def Let_def user_typed_def
      intro!: corr_ok_handle_token corr_ok_user_put corr_ok_dict_put dict_typed_intros)

lemma corr_ok_handleDisconnect: "corr_ok c \<Longrightarrow> corr_ok (handleDisconnect now rec s c)"
  by (auto simp: handleDisconnect_def Let_def corr_ok_def typed_map_Delete
      split: option.splits map_value.splits)

lemma scitags_names_state:
  "\<exists>k. snd (snd (scitags_names e a c)) = c\<lparr>c_counters := k\<rparr>"
proof -
  have "\<exists>k. c = c\<lparr>c_counters := k\<rparr>" by (rule exI [of _ "c_counters c"]) simp
  then show ?thesis by (auto simp: scitags_names_def Let_def count_def)
qed

text \<open>Building a record changes nothing but counters.\<close>

lemma createCorrelatedRecord_state:
  "\<exists>k. fst (createCorrelatedRecord now st rec p c) = c\<lparr>c_counters := k\<rparr>"
proof -
  let ?us = "(case getUserInfo now (fs_UserID st) (fs_FileID st) (fs_ServerID st) c of
    None \<Rightarrow> zero_UserState | Some us \<Rightarrow> us)"
  have "fst (createCorrelatedRecord now st rec p c) =
      snd (snd (scitags_names (us_ExperimentID ?us) (us_ActivityID ?us) c))"
    by (simp only: createCorrelatedRecord_def Let_def case_prod_beta fst_conv)
  then show ?thesis using scitags_names_state by metis
qed

lemma corr_ok_counters [simp]: "corr_ok (c\<lparr>c_counters := k\<rparr>) \<longleftrightarrow> corr_ok c"
  by (simp add: corr_ok_def)

lemma createStandaloneCloseRecord_state:
  "\<exists>k. fst (createStandaloneCloseRecord now rec p c) = c\<lparr>c_counters := k\<rparr>"
  by (simp add: createStandaloneCloseRecord_def createCorrelatedRecord_state)

text \<open>What a close record does: one record, and the state of its file is gone.\<close>

lemma handleFileClose_cases:
  assumes "corr_ok c"
  obtains (opened) st out k where
      "sm_Get now (BuildFileKey s (fh_FileId (fcr_Header rec))) (c_stateMap c) = Some (VFile st)"
      "out = snd (createCorrelatedRecord now st rec p c)"
      "handleFileClose now rec p s c = (c\<lparr>c_counters := k,
         c_stateMap := sm_Delete (BuildFileKey s (fh_FileId (fcr_Header rec))) (c_stateMap c)\<rparr>, Inr (Some out))"
  | (standalone) out k where
      "sm_Get now (BuildFileKey s (fh_FileId (fcr_Header rec))) (c_stateMap c) = None"
      "out = snd (createStandaloneCloseRecord now rec p (count StandaloneCloseRecords c))"
      "handleFileClose now rec p s c = (c\<lparr>c_counters := k\<rparr>, Inr (Some out))"
proof (cases "sm_Get now (BuildFileKey s (fh_FileId (fcr_Header rec))) (c_stateMap c)")
  case None
  obtain k where "fst (createStandaloneCloseRecord now rec p (count StandaloneCloseRecords c))
      = (count StandaloneCloseRecords c)\<lparr>c_counters := k\<rparr>"
    using createStandaloneCloseRecord_state by blast
  with None show ?thesis
    by (intro standalone [of _ k]) (simp_all add: handleFileClose_def case_prod_beta Let_def count_def)
next
  case (Some v)
  then have "state_typed (BuildFileKey s (fh_FileId (fcr_Header rec))) v"
    using assms typed_map_Get unfolding corr_ok_def by blast
  then obtain st where v: "v = VFile st" using file_key_typed by blast
  obtain k where "fst (createCorrelatedRecord now st rec p c) = c\<lparr>c_counters := k\<rparr>"
    using createCorrelatedRecord_state by blast
  with Some v show ?thesis
    by (intro opened [of st _ k]) (simp_all add: handleFileClose_def case_prod_beta Let_def)
qed

lemma corr_ok_state_Delete: "corr_ok c \<Longrightarrow> corr_ok (c\<lparr>c_stateMap := sm_Delete k (c_stateMap c)\<rparr>)"
  by (simp add: corr_ok_def typed_map_Delete)

fun is_close :: "FileRecord \<Rightarrow> bool" where
  "is_close (CloseRec r) \<longleftrightarrow> True"
| "is_close (OpenRec r) \<longleftrightarrow> False"
| "is_close (TimeRec r) \<longleftrightarrow> False"
| "is_close (DiscRec r) \<longleftrightarrow> False"

text \<open>A file record keeps the invariant, never fails, and yields a record exactly when it is a close.\<close>

lemma process_record_ok:
  assumes "corr_ok c"
  shows "corr_ok (fst (process_record now ip p s rec c)) \<and>
    (\<exists>result. snd (process_record now ip p s rec c) = Inr result \<and> (result \<noteq> None \<longleftrightarrow> is_close rec))"
proof (cases rec)
  case (TimeRec r)
  then show ?thesis
    using assms by (auto simp: process_record_def handleTimeRecord_def state_typed_def
        intro!: corr_ok_state_put)
next
  case (OpenRec r)
  then show ?thesis
    using assms by (auto simp: process_record_def handleFileOpen_def state_typed_def
        open_state_def intro!: corr_ok_state_put)
next
  case (DiscRec r)
  then show ?thesis
    using assms by (auto simp: process_record_def intro: corr_ok_handleDisconnect)
next
  case (CloseRec r)
  have "corr_ok (count (FileCloseRecords ip) c)" using assms by simp
  then show ?thesis
  proof (cases rule: handleFileClose_cases [of _ now s r p])
    case (opened st out k)
    then show ?thesis
      using CloseRec assms
      by (auto simp: process_record_def corr_ok_def typed_map_Delete count_def)
  next
    case (standalone out k)
    then show ?thesis
      using CloseRec assms
      by (auto simp: process_record_def corr_ok_def count_def)
  qed
qed

lemma process_records_ok:
  assumes "corr_ok c"
  shows "corr_ok (fst (process_records now ip p s recs records c)) \<and>
    snd (snd (process_records now ip p s recs records c)) = None \<and>
    length (fst (snd (process_records now ip p s recs records c))) =
      length records + length (filter is_close recs)"
  using assms
proof (induction recs arbitrary: records c)
  case (Cons rec recs)
  obtain c1 result where step: "process_record now ip p s rec c = (c1, Inr result)"
    "corr_ok c1" "result \<noteq> None \<longleftrightarrow> is_close rec"
    using process_record_ok [OF Cons.prems, of now ip p s rec] by (metis prod.collapse)
  from Cons.IH [OF step(2), of "case result of None \<Rightarrow> records | Some r \<Rightarrow> records @ [r]"]
  show ?case using step by (auto split: option.splits)
qed simp

lemma ProcessPacket_ok:
  assumes "corr_ok c"
  shows "corr_ok (fst (ProcessPacket now p c)) \<and> snd (snd (ProcessPacket now p c)) = None"
  using assms process_records_ok
  by (auto simp: ProcessPacket_def Let_def corr_ok_handleServerInfo corr_ok_handleDictIDRecord
      corr_ok_handleUserRecord split: option.splits)

lemma corr_ok_ProcessGStreamPacket:
  "corr_ok c \<Longrightarrow> corr_ok (fst (ProcessGStreamPacket resolve now p c))"
proof -
  have lookup: "corr_ok (fst (lookupDNSHostname resolve now ip c))" if "corr_ok c" for ip c
    using that by (auto simp: lookupDNSHostname_def Let_def corr_ok_def dns_typed_def
        intro!: typed_map_put split: prod.splits)
  assume "corr_ok c"
  then show ?thesis
    using lookup by (auto simp: ProcessGStreamPacket_def Let_def case_prod_beta split: option.splits)
qed

subsection \<open>The correlator's life\<close>

datatype which_map = StateM | UserM | DictM | ServerM | DnsM

fun sweep_map :: "int \<Rightarrow> which_map \<Rightarrow> Correlator \<Rightarrow> Correlator" where
  "sweep_map now StateM c = c\<lparr>c_stateMap := sm_sweep now (c_stateMap c)\<rparr>"
| "sweep_map now UserM c = c\<lparr>c_userMap := sm_sweep now (c_userMap c)\<rparr>"
| "sweep_map now DictM c = c\<lparr>c_dictMap := sm_sweep now (c_dictMap c)\<rparr>"
| "sweep_map now ServerM c = c\<lparr>c_serverMap := sm_sweep now (c_serverMap c)\<rparr>"
| "sweep_map now DnsM c = c\<lparr>c_dnsCache := sm_sweep now (c_dnsCache c)\<rparr>"

text \<open>The events of a correlator: packets of either kind, and the janitors.\<close>

datatype corr_event = Received Packet | ReceivedGStream Packet | Janitor which_map

fun corr_apply :: "(string \<Rightarrow> string list option) \<Rightarrow> int \<Rightarrow> corr_event \<Rightarrow> Correlator \<Rightarrow> Correlator" where
  "corr_apply resolve now (Received p) c = fst (ProcessPacket now p c)"
| "corr_apply resolve now (ReceivedGStream p) c = fst (ProcessGStreamPacket resolve now p c)"
| "corr_apply resolve now (Janitor m) c = sweep_map now m c"

inductive corr_step ::
  "(string \<Rightarrow> string list option) \<Rightarrow> int \<times> Correlator \<Rightarrow> corr_event \<Rightarrow> int \<times> Correlator \<Rightarrow> bool"
  for resolve where
  step: "now \<le> later \<Longrightarrow> corr_step resolve (now, c) ev (later, corr_apply resolve later ev c)"

inductive corr_reach ::
  "(string \<Rightarrow> string list option) \<Rightarrow> CorrelatorConfig \<Rightarrow> int \<times> Correlator \<Rightarrow> bool"
  for resolve config where
  start: "corr_reach resolve config (now, NewCorrelatorWithConfig config)"
| next_state: "corr_reach resolve config s \<Longrightarrow> corr_step resolve s ev s' \<Longrightarrow> corr_reach resolve config s'"

inductive_cases corr_stepE: "corr_step resolve (now, c) ev s'"

inductive_simps corr_step_iff: "corr_step resolve (now, c) ev (later, c')"

lemma corr_ok_sweep: "corr_ok c \<Longrightarrow> corr_ok (sweep_map now m c)"
  by (cases m) (simp_all add: corr_ok_def typed_map_sweep)

lemma corr_ok_apply: "corr_ok c \<Longrightarrow> corr_ok (corr_apply resolve now ev c)"
  by (cases ev) (simp_all add: ProcessPacket_ok corr_ok_ProcessGStreamPacket corr_ok_sweep)

lemma corr_ok_New: "corr_ok (NewCorrelatorWithConfig config)"
  by (simp add: corr_ok_def NewCorrelatorWithConfig_def Let_def typed_map_New)

lemma corr_reach_ok: "corr_reach resolve config s \<Longrightarrow> corr_ok (snd s)"
  by (induction rule: corr_reach.induct)
    (auto simp: corr_ok_New elim!: corr_step.cases intro: corr_ok_apply)

end
