(* ===== verification/Correlator_Frame.thy ===== *)
theory Correlator_Frame
  imports Correlator_Invariant
begin

section \<open>What an event leaves alone\<close>

text \<open>
  Frame lemmas: which maps a handler touches and under which keys. A packet writes file states
  only for its own server and the files its records name, and dictionary entries only for its
  own server; everything else is as before, up to counters and the expiry a sweep completes.
  With the laws of \<open>ttl_store\<close> they carry a stored state across a run of other events.
\<close>

subsection \<open>Maps a handler does not touch\<close>

lemma count_maps [simp]:
  "c_stateMap (count l c) = c_stateMap c" "c_userMap (count l c) = c_userMap c"
  "c_dictMap (count l c) = c_dictMap c" "c_serverMap (count l c) = c_serverMap c"
  "c_dnsCache (count l c) = c_dnsCache c" "c_scitags (count l c) = c_scitags c"
  by (simp_all add: count_def)

lemma put_maps [simp]:
  "c_userMap (state_put now k v c) = c_userMap c" "c_dictMap (state_put now k v c) = c_dictMap c"
  "c_serverMap (state_put now k v c) = c_serverMap c"
  "c_stateMap (dict_put now k v c) = c_stateMap c" "c_userMap (dict_put now k v c) = c_userMap c"
  "c_serverMap (dict_put now k v c) = c_serverMap c"
  "c_stateMap (user_put now k v c) = c_stateMap c" "c_dictMap (user_put now k v c) = c_dictMap c"
  "c_serverMap (user_put now k v c) = c_serverMap c"
  "c_stateMap (state_put now k v c) = sm_put now k v (c_stateMap c)"
  "c_dictMap (dict_put now k v c) = sm_put now k v (c_dictMap c)"
  "c_userMap (user_put now k v c) = sm_put now k v (c_userMap c)"
  by (simp_all add: state_put_def dict_put_def user_put_def)

lemma update_user_maps [simp]:
  "c_stateMap (update_user now k f u c) = c_stateMap c" "c_dictMap (update_user now k f u c) = c_dictMap c"
  "c_serverMap (update_user now k f u c) = c_serverMap c"
  by (auto simp: update_user_def split: option.splits map_value.splits)

lemma createCorrelatedRecord_maps [simp]:
  "c_stateMap (fst (createCorrelatedRecord now st rec p c)) = c_stateMap c"
  "c_userMap (fst (createCorrelatedRecord now st rec p c)) = c_userMap c"
  "c_dictMap (fst (createCorrelatedRecord now st rec p c)) = c_dictMap c"
  "c_serverMap (fst (createCorrelatedRecord now st rec p c)) = c_serverMap c"
  using createCorrelatedRecord_state [of now st rec p c] by auto

lemma createStandaloneCloseRecord_maps [simp]:
  "c_stateMap (fst (createStandaloneCloseRecord now rec p c)) = c_stateMap c"
  "c_userMap (fst (createStandaloneCloseRecord now rec p c)) = c_userMap c"
  "c_dictMap (fst (createStandaloneCloseRecord now rec p c)) = c_dictMap c"
  "c_serverMap (fst (createStandaloneCloseRecord now rec p c)) = c_serverMap c"
  by (simp_all add: createStandaloneCloseRecord_def)

lemma dictionary_stateMap [simp]:
  "c_stateMap (handleDictIDRecord now rec s ty c) = c_stateMap c"
  "c_stateMap (handleUserRecord now urec s c) = c_stateMap c"
  "c_stateMap (handleServerInfo now info s c) = c_stateMap c"
  "c_stateMap (handleDisconnect now drec s c) = c_stateMap c"
  by (auto simp: handleDictIDRecord_def handle_path_def handle_appinfo_def handle_eainfo_def
      handle_eainfo_user_def handleUserRecord_def handle_token_def handleServerInfo_def
      handleDisconnect_def Let_def split: option.splits map_value.splits prod.splits)

lemma lookupDNS_maps [simp]:
  "c_stateMap (fst (lookupDNSHostname resolve now ip c)) = c_stateMap c"
  "c_userMap (fst (lookupDNSHostname resolve now ip c)) = c_userMap c"
  "c_dictMap (fst (lookupDNSHostname resolve now ip c)) = c_dictMap c"
  "c_serverMap (fst (lookupDNSHostname resolve now ip c)) = c_serverMap c"
  by (simp_all add: lookupDNSHostname_def Let_def case_prod_beta)

lemma gstream_maps [simp]:
  "c_stateMap (fst (ProcessGStreamPacket resolve now p c)) = c_stateMap c"
  "c_userMap (fst (ProcessGStreamPacket resolve now p c)) = c_userMap c"
  "c_dictMap (fst (ProcessGStreamPacket resolve now p c)) = c_dictMap c"
  "c_serverMap (fst (ProcessGStreamPacket resolve now p c)) = c_serverMap c"
  by (simp_all add: ProcessGStreamPacket_def Let_def case_prod_beta split: option.splits)

subsection \<open>File states\<close>

text \<open>The file a record opens or closes.\<close>

fun record_file :: "FileRecord \<Rightarrow> uint32 option" where
  "record_file (OpenRec r) = Some (fh_FileId (for_Header r))"
| "record_file (CloseRec r) = Some (fh_FileId (fcr_Header r))"
| "record_file (TimeRec r) = None"
| "record_file (DiscRec r) = None"

lemma sm_Get_put_other: "k' \<noteq> k \<Longrightarrow> sm_Get t k' (sm_put now k v sm) = sm_Get t k' sm"
  by (rule state_map.lookup_store_other)

lemma sm_Get_Delete: "sm_Get t k' (sm_Delete k sm) = (if k' = k then None else sm_Get t k' sm)"
  by (rule state_map.lookup_remove)

lemmas sm_frame = sm_Get_put_other sm_Get_Delete

lemma handleFileClose_stateMap:
  assumes "corr_ok c"
  shows "c_stateMap (fst (handleFileClose now r p s c)) =
    (if sm_Get now (BuildFileKey s (fh_FileId (fcr_Header r))) (c_stateMap c) = None then c_stateMap c
     else sm_Delete (BuildFileKey s (fh_FileId (fcr_Header r))) (c_stateMap c))"
  using assms by (rule handleFileClose_cases [of c now s r p]) auto

lemma process_record_file_frame:
  assumes "corr_ok c" and "\<not> (s' = s \<and> record_file rec = Some f)"
  shows "sm_Get t (BuildFileKey s f) (c_stateMap (fst (process_record now ip p s' rec c))) =
    sm_Get t (BuildFileKey s f) (c_stateMap c)"
proof (cases rec)
  case (CloseRec r)
  have "corr_ok (count (FileCloseRecords ip) c)" using assms(1) by simp
  from handleFileClose_stateMap [OF this, of now r p s'] show ?thesis
    using CloseRec assms(2) by (auto simp: process_record_def sm_frame)
qed (use assms(2) in \<open>auto simp: process_record_def handleTimeRecord_def handleFileOpen_def
      intro!: sm_Get_put_other\<close>)

lemma process_records_file_frame:
  assumes "corr_ok c" and "\<forall>rec \<in> set recs. \<not> (s' = s \<and> record_file rec = Some f)"
  shows "sm_Get t (BuildFileKey s f) (c_stateMap (fst (process_records now ip p s' recs out c))) =
    sm_Get t (BuildFileKey s f) (c_stateMap c)"
  using assms
proof (induction recs arbitrary: out c)
  case (Cons rec recs)
  obtain c1 result where step: "process_record now ip p s' rec c = (c1, Inr result)" "corr_ok c1"
    using process_record_ok [OF Cons.prems(1), of now ip p s' rec] by (metis prod.collapse)
  have "sm_Get t (BuildFileKey s f) (c_stateMap c1) = sm_Get t (BuildFileKey s f) (c_stateMap c)"
    using process_record_file_frame [OF Cons.prems(1), of s' s rec f t now ip p] Cons.prems(2) step(1)
    by simp
  with Cons.IH [OF step(2)] Cons.prems(2) step(1) show ?case by simp
qed simp

text \<open>A packet that carries file records and nothing else.\<close>

definition file_packet :: "Packet \<Rightarrow> bool" where
  "file_packet p \<longleftrightarrow> \<not> pkt_IsXML p \<and> pkt_ServerInfo p = None \<and> pkt_MapRecord p = None \<and>
     pkt_UserRecord p = None"

lemma ProcessPacket_file_packet:
  "file_packet p \<Longrightarrow> ProcessPacket now p c =
     process_records now (packet_server_ip p) p (getServerID p) (pkt_FileRecords p) []
       (count (PacketsPerServer (packet_server_ip p) (PacketTypeName (pkt_PacketType p))) c)"
  by (simp add: ProcessPacket_def file_packet_def Let_def)

text \<open>The events that open or close a file.\<close>

fun touches :: "string \<Rightarrow> uint32 \<Rightarrow> corr_event \<Rightarrow> bool" where
  "touches s f (Received p) \<longleftrightarrow> getServerID p = s \<and> (\<exists>rec \<in> set (pkt_FileRecords p). record_file rec = Some f)"
| "touches s f (ReceivedGStream p) \<longleftrightarrow> False"
| "touches s f (Janitor m) \<longleftrightarrow> False"

lemma corr_apply_file_frame:
  assumes "corr_ok c" and "\<not> touches s f ev" and "now \<le> t"
  shows "sm_Get t (BuildFileKey s f) (c_stateMap (corr_apply resolve now ev c)) =
    sm_Get t (BuildFileKey s f) (c_stateMap c)"
proof (cases ev)
  case (Received p)
  show ?thesis
  proof (cases "file_packet p")
    case True
    with Received assms show ?thesis
      by (auto simp: ProcessPacket_file_packet process_records_file_frame)
  next
    case False
    with Received show ?thesis
      by (auto simp: ProcessPacket_def file_packet_def Let_def split: option.splits)
  qed
next
  case (Janitor m)
  with assms show ?thesis
    by (cases m) (auto simp: corr_ok_def typed_map_def state_map.lookup_sweep)
qed simp

lemma sm_ttl_put [simp]: "sm_ttl (sm_put now k v sm) = sm_ttl sm"
  by (rule state_map.ttl_store_eq)

text \<open>A run of events, each with its time.\<close>

definition corr_run ::
  "(string \<Rightarrow> string list option) \<Rightarrow> (int \<times> corr_event) list \<Rightarrow> Correlator \<Rightarrow> Correlator" where
  "corr_run resolve evs c = fold (\<lambda>(t, ev). corr_apply resolve t ev) evs c"

lemma corr_ok_run: "corr_ok c \<Longrightarrow> corr_ok (corr_run resolve evs c)"
  unfolding corr_run_def by (induction evs arbitrary: c) (auto intro: corr_ok_apply)

lemma corr_run_file_frame:
  assumes "corr_ok c" and "\<forall>(now, ev) \<in> set evs. now \<le> t \<and> \<not> touches s f ev"
  shows "sm_Get t (BuildFileKey s f) (c_stateMap (corr_run resolve evs c)) =
    sm_Get t (BuildFileKey s f) (c_stateMap c)"
  using assms
proof (induction evs arbitrary: c)
  case (Cons x evs)
  obtain now ev where x: "x = (now, ev)" by (cases x)
  have "sm_Get t (BuildFileKey s f) (c_stateMap (corr_run resolve evs (corr_apply resolve now ev c))) =
      sm_Get t (BuildFileKey s f) (c_stateMap (corr_apply resolve now ev c))"
    using Cons.prems x by (intro Cons.IH) (auto intro: corr_ok_apply)
  also have "\<dots> = sm_Get t (BuildFileKey s f) (c_stateMap c)"
    using Cons.prems x by (intro corr_apply_file_frame) auto
  finally show ?case by (simp add: corr_run_def x)
qed (simp add: corr_run_def)

end
