(* ===== verification/Correlator_Theorems.thy ===== *)
theory Correlator_Theorems
  imports Correlator_Frame
begin

section \<open>The correlator: theorems\<close>

text \<open>
  The properties of the correlator: the type invariant and the one record per close in every
  reachable state; that a file's open and close are correlated across any other traffic within
  the TTL, and at most once; that servers do not see each other's files; what user, token and
  disconnect records do; and the arithmetic of a record. The samples at the head are the
  packets the witnesses run on.
\<close>

subsection \<open>Samples\<close>

definition sample_config :: CorrelatorConfig where
  "sample_config = \<lparr>cc_TTL = 1000, cc_MaxEntries = 10, cc_EnableDNSEnrichment = False,
     cc_DNSCacheTTL = 0, cc_Scitags = empty_registry, cc_DisableWLCG = False, cc_WLCGVOs = None,
     cc_WLCGPathPrefixes = None, cc_DropPathPrefixes = [], cc_DropVOs = [], cc_VO = []\<rparr>"

definition sample_corr :: Correlator where
  "sample_corr = NewCorrelatorWithConfig sample_config"

definition sample_file_header :: FileHeader where
  "sample_file_header = \<lparr>fh_RecType = 1, fh_RecFlag = 0, fh_RecSize = 0, fh_FileId = 5,
     fh_UserId = 0, fh_NRecs0 = 0, fh_NRecs1 = 0\<rparr>"

definition sample_open_rec :: FileOpenRecord where
  "sample_open_rec = \<lparr>for_Header = sample_file_header, for_FileSize = 1024, for_User = 9,
     for_Lfn = ''/store/x''\<rparr>"

definition sample_close_rec :: FileCloseRecord where
  "sample_close_rec = \<lparr>fcr_Header = sample_file_header,
     fcr_Xfr = \<lparr>xfr_Read = 100, xfr_Readv = 0, xfr_Write = 0\<rparr>,
     fcr_Ops = zero_StatOPS\<lparr>ops_Read := 3\<rparr>\<rparr>"

definition sample_file_packet :: "FileRecord list \<Rightarrow> Packet" where
  "sample_file_packet recs = zero_Packet\<lparr>pkt_PacketType := PacketTypeFStat, pkt_FileRecords := recs\<rparr>"

lemma sample_file_packet_simps [simp]:
  "file_packet (sample_file_packet recs)" "pkt_FileRecords (sample_file_packet recs) = recs"
  "getServerID (sample_file_packet recs) = getServerID zero_Packet"
  "pkt_Header (sample_file_packet recs) = zero_Header"
  by (simp_all add: file_packet_def sample_file_packet_def zero_Packet_def getServerID_def)

lemma sample_corr_reach: "corr_reach resolve sample_config (0, sample_corr)"
  unfolding sample_corr_def by (rule corr_reach.start)

lemma sample_corr_ok: "corr_ok sample_corr"
  unfolding sample_corr_def by (rule corr_ok_New)

lemma sample_corr_maps [simp]:
  "c_stateMap sample_corr = NewStateMap 1000 10" "c_userMap sample_corr = NewStateMap 1000 10"
  "c_dictMap sample_corr = NewStateMap 1000 10"
  by (simp_all add: sample_corr_def NewCorrelatorWithConfig_def sample_config_def Let_def)

lemma sm_room_New: "0 < m \<Longrightarrow> sm_room k (NewStateMap ttl m)"
  by (simp add: sm_room_def NewStateMap_def)

lemma sm_ttl_New [simp]: "sm_ttl (NewStateMap ttl m) = ttl"
  by (simp add: NewStateMap_def)

subsection \<open>Every reachable state\<close>

text \<open>C7: In every state the correlator reaches, through packets of any kind in any order and
  janitor sweeps, whatever is found in a map has the types the handlers store there, under the key
  that names it: a file state under the file or time key of its own server and file, a user state
  under the key of its own user, server information, a host name that is not empty; in the
  dictionary a user under a user's key, and a path record or a string under a path's key. So the
  assertions on all values but these last succeed, and processing any packet returns no error;
  on a path's key the assertion to a string in \<open>handleFileOpen\<close> fails for every path record, and the
  one to a path record in \<open>getUserInfo\<close> for every string, and each falls through: the file keeps
  no name, the user is not found there.\<close>

theorem correlator_typed:
  assumes "corr_reach resolve config (now, c)"
  shows "snd (snd (ProcessPacket t p c)) = None \<and>
    (\<forall>k v. sm_Get t k (c_stateMap c) = Some v \<longrightarrow> (\<exists>st. v = VFile st \<and>
       (k = BuildFileKey (fs_ServerID st) (fs_FileID st) \<or> k = BuildTimeKey (fs_ServerID st) (fs_FileID st) (fs_StreamID st)))) \<and>
    (\<forall>k v. sm_Get t k (c_userMap c) = Some v \<longrightarrow> (\<exists>s us. v = VUser us \<and> k = BuildUserInfoKey s (us_UserInfo us))) \<and>
    (\<forall>k v. sm_Get t k (c_serverMap c) = Some v \<longrightarrow> (\<exists>info. v = VServer info)) \<and>
    (\<forall>k v. sm_Get t k (c_dnsCache c) = Some v \<longrightarrow> (\<exists>hostname. v = VStr hostname \<and> hostname \<noteq> [])) \<and>
    (\<forall>s d v. sm_Get t (BuildDictIDKey s d) (c_dictMap c) = Some v \<longrightarrow> (\<exists>u. v = VUserInfo u)) \<and>
    (\<forall>s d v. sm_Get t (BuildDictKey s d) (c_dictMap c) = Some v \<longrightarrow> d \<noteq> 0 \<longrightarrow>
       (\<exists>pth. v = VPath pth \<and> user_of_file t d s c = Some (pi_UserInfo pth) \<and>
          (\<forall>rec. for_Lfn rec = [] \<longrightarrow> fh_FileId (for_Header rec) = d \<longrightarrow> open_filename t rec s c = [])) \<or>
       (\<exists>str. v = VStr str \<and> user_of_file t d s c = None \<and>
          (\<forall>rec. for_Lfn rec = [] \<longrightarrow> fh_FileId (for_Header rec) = d \<longrightarrow> open_filename t rec s c = str)))"
proof -
  have ok: "corr_ok c" using corr_reach_ok [OF assms] by simp
  then have maps: "typed_map state_typed (c_stateMap c)" "typed_map user_typed (c_userMap c)"
    "typed_map server_typed (c_serverMap c)" "typed_map dns_typed (c_dnsCache c)" "typed_map dict_typed (c_dictMap c)"
    by (simp_all add: corr_ok_def)
  note found = maps(1-4) [THEN typed_map_Get, unfolded state_typed_def user_typed_def server_typed_def dns_typed_def]
  have path: "(\<exists>pth. v = VPath pth \<and> user_of_file t d s c = Some (pi_UserInfo pth) \<and>
        (\<forall>rec. for_Lfn rec = [] \<longrightarrow> fh_FileId (for_Header rec) = d \<longrightarrow> open_filename t rec s c = [])) \<or>
      (\<exists>str. v = VStr str \<and> user_of_file t d s c = None \<and>
        (\<forall>rec. for_Lfn rec = [] \<longrightarrow> fh_FileId (for_Header rec) = d \<longrightarrow> open_filename t rec s c = str))"
    if v: "sm_Get t (BuildDictKey s d) (c_dictMap c) = Some v" and "d \<noteq> 0" for s d v
    using dict_key_typed [OF typed_map_Get [OF maps(5) v]] that
    by (elim disjE exE) (simp_all add: user_of_file_def open_filename_def)
  have no_error: "snd (snd (ProcessPacket t p c)) = None" using ProcessPacket_ok [OF ok] by simp
  show ?thesis
    by (intro conjI allI impI no_error)
      (erule found(1), erule found(2), erule found(3), erule found(4),
        erule dictid_key_typed [OF typed_map_Get [OF maps(5)]], rule path, assumption+)
qed


definition sample_path_packet :: Packet where
  "sample_path_packet = zero_Packet\<lparr>pkt_PacketType := PacketTypeDictID,
     pkt_MapRecord := Some \<lparr>mr_Header = zero_Header, mr_DictId = 5, mr_Info = ''a.1:2@h'' @ newline # ''/f''\<rparr>\<rparr>"

definition path_corr :: Correlator where
  "path_corr = fst (ProcessPacket 10 sample_path_packet sample_corr)"

lemma path_corr_reach: "corr_reach (\<lambda>_. None) sample_config (10, path_corr)"
  using corr_reach.next_state [OF sample_corr_reach, of "\<lambda>_. None" "Received sample_path_packet" "(10, path_corr)"]
  by (simp add: corr_step_iff path_corr_def)

lemma path_corr_path:
  "\<exists>pth. sm_Get 20 (BuildDictKey (getServerID zero_Packet) 5) (c_dictMap path_corr) = Some (VPath pth)"
proof -
  have "\<exists>u. collector_parseUserInfo ''a.1:2@h'' = Some u"
    by (simp add: collector_parseUserInfo_def splitn2_def before_def after_def)
  then obtain u where u: "collector_parseUserInfo ''a.1:2@h'' = Some u" by blast
  have "splitn2 newline (''a.1:2@h'' @ newline # ''/f'') = [''a.1:2@h'', ''/f'']" by (rule splitn2_append) simp
  then have "c_dictMap path_corr = sm_put 10 (BuildDictIDKey (getServerID zero_Packet) 5) (VUserInfo u)
      (sm_put 10 (BuildDictKey (getServerID zero_Packet) 5) (VPath \<lparr>pi_Path = ''/f'', pi_UserInfo = u\<rparr>) (NewStateMap 1000 10))"
    using u by (simp add: path_corr_def sample_path_packet_def ProcessPacket_def zero_Packet_def getServerID_def
        handleDictIDRecord_def handle_path_def Let_def)
  then show ?thesis by (simp add: sm_Get_put_other state_map.lookup_store sm_room_New)
qed

lemma correlator_typed_witness:
  "\<exists>pth. sm_Get 20 (BuildDictKey (getServerID zero_Packet) 5) (c_dictMap path_corr) = Some (VPath pth) \<and>
     open_filename 20 (sample_open_rec\<lparr>for_Lfn := []\<rparr>) (getServerID zero_Packet) path_corr = [] \<and>
     snd (snd (ProcessPacket 20 (sample_file_packet [OpenRec (sample_open_rec\<lparr>for_Lfn := []\<rparr>)]) path_corr)) = None"
proof -
  obtain pth where pth: "sm_Get 20 (BuildDictKey (getServerID zero_Packet) 5) (c_dictMap path_corr) = Some (VPath pth)"
    using path_corr_path by blast
  from correlator_typed [OF path_corr_reach, of 20 "sample_file_packet [OpenRec (sample_open_rec\<lparr>for_Lfn := []\<rparr>)]"] pth
  show ?thesis by (fastforce simp: sample_open_rec_def sample_file_header_def)
qed

text \<open>C6: In every reachable state a packet of file records yields exactly one collector record for
  each close record in it, whether or not the open was seen, and none for anything else.\<close>

theorem one_record_per_close:
  assumes "corr_reach resolve config (now, c)" and "file_packet p"
  shows "length (fst (snd (ProcessPacket t p c))) = length (filter is_close (pkt_FileRecords p))"
proof -
  have "corr_ok c" using corr_reach_ok [OF assms(1)] by simp
  then show ?thesis
    using process_records_ok by (simp add: ProcessPacket_file_packet [OF assms(2)])
qed

lemma one_record_per_close_witness:
  "length (fst (snd (ProcessPacket 3 (sample_file_packet [CloseRec sample_close_rec, OpenRec sample_open_rec,
      CloseRec sample_close_rec]) sample_corr))) = 2"
  using one_record_per_close [OF sample_corr_reach, where t = 3 and
      p = "sample_file_packet [CloseRec sample_close_rec, OpenRec sample_open_rec, CloseRec sample_close_rec]"]
  by simp

subsection \<open>Correlation\<close>

text \<open>The record of a close, read off the state its open left and the close itself.\<close>

definition correlates :: "FileState \<Rightarrow> FileCloseRecord \<Rightarrow> int \<Rightarrow> CollectorRecord \<Rightarrow> bool" where
  "correlates st q now r \<longleftrightarrow>
     cr_Filename r = fs_Filename st \<and> cr_Filesize r = fs_FileSize st \<and>
     cr_StartTime r = fs_OpenTime st \<and> cr_EndTime r = word_of_int (now div 10 ^ 9) \<and>
     cr_OperationTime r = word_of_int (now div 10 ^ 9) - fs_OpenTime st \<and>
     cr_Read r = xfr_Read (fcr_Xfr q) \<and> cr_Readv r = xfr_Readv (fcr_Xfr q) \<and>
     cr_Write r = xfr_Write (fcr_Xfr q) \<and> cr_ReadOperations r = ops_Read (fcr_Ops q) \<and>
     cr_WriteOperations r = ops_Write (fcr_Ops q) \<and>
     (cr_Dirname1 r, cr_Dirname2 r, cr_LogicalDirname r) = extractDirnames (fs_Filename st)"

lemma createCorrelatedRecord_correlates:
  "correlates st q now (snd (createCorrelatedRecord now st q p c))"
  by (simp add: correlates_def createCorrelatedRecord_def Let_def case_prod_beta)

lemma open_packet_state:
  assumes "file_packet p" and "pkt_FileRecords p = [OpenRec r]" and "s = getServerID p"
    and "sm_room (BuildFileKey s (fh_FileId (for_Header r))) (c_stateMap c)"
    and "t \<le> now + sm_ttl (c_stateMap c)"
  shows "sm_Get t (BuildFileKey s (fh_FileId (for_Header r))) (c_stateMap (fst (ProcessPacket now p c))) =
    Some (VFile (open_state now r p s c))"
proof -
  have "open_state now r p s (count l c') = open_state now r p s c'" for l c'
    by (simp add: open_state_def open_filename_def)
  then show ?thesis
    using assms state_map.lookup_store [OF assms(4,5)]
    by (simp add: ProcessPacket_file_packet process_record_def handleFileOpen_def)
qed

lemma close_packet_open:
  assumes "file_packet p" and "pkt_FileRecords p = [CloseRec q]" and "s = getServerID p"
    and "sm_Get now (BuildFileKey s (fh_FileId (fcr_Header q))) (c_stateMap c) = Some (VFile st)"
  shows "\<exists>r. fst (snd (ProcessPacket now p c)) = [r] \<and> correlates st q now r"
proof -
  let ?c = "count (FileCloseRecords (packet_server_ip p))
    (count (PacketsPerServer (packet_server_ip p) (PacketTypeName (pkt_PacketType p))) c)"
  have "fst (snd (ProcessPacket now p c)) = [snd (createCorrelatedRecord now st q p ?c)]"
    using assms by (simp add: ProcessPacket_file_packet process_record_def handleFileClose_def
        Let_def case_prod_beta)
  then show ?thesis using createCorrelatedRecord_correlates by blast
qed

text \<open>C3: An open record stored in a map with room for it is correlated with the close of the same
  file of the same server: after any further events that neither open nor close that file -
  packets of all kinds from all servers, g-streams, janitor sweeps - a close at most one TTL
  after the open yields one record, with the file name, size and start time of the open and the
  counts of the close.\<close>

theorem open_close_correlated:
  assumes "corr_reach resolve config (t0, c)"
    and "file_packet p" "pkt_FileRecords p = [OpenRec r]" "for_Lfn r \<noteq> []"
    and "file_packet p'" "pkt_FileRecords p' = [CloseRec q]"
    and "getServerID p' = getServerID p" "fh_FileId (fcr_Header q) = fh_FileId (for_Header r)"
    and "sm_room (BuildFileKey (getServerID p) (fh_FileId (for_Header r))) (c_stateMap c)"
    and "\<forall>(t, ev) \<in> set evs. t \<le> now' \<and> \<not> touches (getServerID p) (fh_FileId (for_Header r)) ev"
    and "now' \<le> now + sm_ttl (c_stateMap c)"
  shows "\<exists>out. fst (snd (ProcessPacket now' p' (corr_run resolve evs (fst (ProcessPacket now p c))))) = [out] \<and>
    correlates (open_state now r p (getServerID p) c) q now' out \<and>
    cr_Filename out = for_Lfn r \<and> cr_Filesize out = for_FileSize r \<and>
    cr_StartTime out = scast (hdr_ServerStart (pkt_Header p))"
proof -
  let ?key = "BuildFileKey (getServerID p) (fh_FileId (for_Header r))"
  let ?c1 = "fst (ProcessPacket now p c)"
  have ok: "corr_ok ?c1" using corr_reach_ok [OF assms(1)] ProcessPacket_ok by simp
  have "sm_Get now' ?key (c_stateMap (corr_run resolve evs ?c1)) = sm_Get now' ?key (c_stateMap ?c1)"
    by (rule corr_run_file_frame [OF ok assms(10)])
  also have "\<dots> = Some (VFile (open_state now r p (getServerID p) c))"
    by (rule open_packet_state [OF assms(2,3) refl assms(9,11)])
  finally obtain out where out:
    "fst (snd (ProcessPacket now' p' (corr_run resolve evs ?c1))) = [out]"
    "correlates (open_state now r p (getServerID p) c) q now' out"
    using close_packet_open [OF assms(5,6) refl] assms(7,8) by metis
  moreover have "cr_Filename out = for_Lfn r" "cr_Filesize out = for_FileSize r"
    "cr_StartTime out = scast (hdr_ServerStart (pkt_Header p))"
    using out(2) assms(4) by (simp_all add: correlates_def open_state_def open_filename_def)
  ultimately show ?thesis by blast
qed

lemma open_close_correlated_witness:
  "\<exists>out. fst (snd (ProcessPacket 900 (sample_file_packet [CloseRec sample_close_rec])
      (corr_run (\<lambda>_. None) [(20, Janitor StateM), (30, Received zero_Packet)]
        (fst (ProcessPacket 10 (sample_file_packet [OpenRec sample_open_rec]) sample_corr))))) = [out] \<and>
    correlates (open_state 10 sample_open_rec (sample_file_packet [OpenRec sample_open_rec])
      (getServerID (sample_file_packet [OpenRec sample_open_rec])) sample_corr) sample_close_rec 900 out \<and>
    cr_Filename out = for_Lfn sample_open_rec \<and> cr_Filesize out = for_FileSize sample_open_rec \<and>
    cr_StartTime out = scast (hdr_ServerStart (pkt_Header (sample_file_packet [OpenRec sample_open_rec])))"
  by (rule open_close_correlated [OF sample_corr_reach])
    (simp_all add: sample_open_rec_def sample_close_rec_def sm_room_New zero_Packet_def)

lemma createCorrelatedRecord_standalone:
  "c_counters (fst (createCorrelatedRecord now st q p c)) StandaloneCloseRecords =
     c_counters c StandaloneCloseRecords"
  by (simp add: createCorrelatedRecord_def Let_def case_prod_beta scitags_names_def count_def)

lemma count_standalone [simp]:
  "c_counters (count l c) StandaloneCloseRecords =
     (if l = StandaloneCloseRecords then Suc (c_counters c StandaloneCloseRecords)
      else c_counters c StandaloneCloseRecords)"
  by (simp add: count_def)

lemma handleFileClose_standalone:
  assumes "sm_Get now (BuildFileKey s (fh_FileId (fcr_Header q))) (c_stateMap c) = None"
  shows "\<exists>c' r. handleFileClose now q p s c = (c', Inr (Some r)) \<and> cr_Filename r = ''unknown'' \<and>
    cr_Filesize r = 0 \<and>
    c_counters c' StandaloneCloseRecords = Suc (c_counters c StandaloneCloseRecords)"
proof -
  obtain c' r where cr: "createStandaloneCloseRecord now q p (count StandaloneCloseRecords c) = (c', r)"
    by (cases "createStandaloneCloseRecord now q p (count StandaloneCloseRecords c)")
  obtain st where st: "createStandaloneCloseRecord now q p (count StandaloneCloseRecords c)
      = createCorrelatedRecord now st q p (count StandaloneCloseRecords c)"
    "fs_Filename st = ''unknown''" "fs_FileSize st = 0"
    unfolding createStandaloneCloseRecord_def by simp
  have "correlates st q now r" "c_counters c' StandaloneCloseRecords = Suc (c_counters c StandaloneCloseRecords)"
    using createCorrelatedRecord_correlates [of st q now p "count StandaloneCloseRecords c"]
      createCorrelatedRecord_standalone [of now st q p "count StandaloneCloseRecords c"] cr st(1)
    by simp_all
  then show ?thesis
    using assms cr st by (simp add: handleFileClose_def correlates_def)
qed

lemma handleFileClose_counter:
  assumes "corr_ok c"
  shows "c_counters c StandaloneCloseRecords \<le> c_counters (fst (handleFileClose now q p s c)) StandaloneCloseRecords"
proof (cases "sm_Get now (BuildFileKey s (fh_FileId (fcr_Header q))) (c_stateMap c)")
  case None
  then show ?thesis using handleFileClose_standalone [of now s q c p] by auto
next
  case (Some v)
  then show ?thesis
    by (simp add: handleFileClose_def Let_def case_prod_beta createCorrelatedRecord_standalone
        split: map_value.splits)
qed

text \<open>C10: A state is used at most once: of two closes of one file in a row the second finds no
  open, whatever state the correlator is in; its record has the file name unknown and size 0,
  and the counter of standalone closes goes up.\<close>

theorem close_at_most_once:
  assumes "corr_reach resolve config (t0, c)" and "file_packet p"
    and "pkt_FileRecords p = [CloseRec q, CloseRec q']"
    and "fh_FileId (fcr_Header q') = fh_FileId (fcr_Header q)"
  shows "\<exists>r r'. fst (snd (ProcessPacket now p c)) = [r, r'] \<and> cr_Filename r' = ''unknown'' \<and>
    cr_Filesize r' = 0 \<and>
    c_counters c StandaloneCloseRecords < c_counters (fst (ProcessPacket now p c)) StandaloneCloseRecords"
proof -
  let ?s = "getServerID p" and ?ip = "packet_server_ip p"
  let ?c0 = "count (FileCloseRecords ?ip) (count (PacketsPerServer ?ip (PacketTypeName (pkt_PacketType p))) c)"
  let ?key = "BuildFileKey ?s (fh_FileId (fcr_Header q))"
  have ok: "corr_ok ?c0" using corr_reach_ok [OF assms(1)] by simp
  obtain c1 r where first: "handleFileClose now q p ?s ?c0 = (c1, Inr (Some r))"
    and gone: "sm_Get now ?key (c_stateMap c1) = None"
    using ok by (rule handleFileClose_cases [of ?c0 now ?s q p]) (auto simp: sm_frame)
  have key: "BuildFileKey ?s (fh_FileId (fcr_Header q')) = ?key" by (simp add: assms(4))
  have "sm_Get now (BuildFileKey ?s (fh_FileId (fcr_Header q'))) (c_stateMap (count (FileCloseRecords ?ip) c1)) = None"
    using gone key by simp
  from handleFileClose_standalone [OF this, of p] obtain c' r' where
    second: "handleFileClose now q' p ?s (count (FileCloseRecords ?ip) c1) = (c', Inr (Some r'))"
    "cr_Filename r' = ''unknown''" "cr_Filesize r' = 0"
    "c_counters c' StandaloneCloseRecords = Suc (c_counters c1 StandaloneCloseRecords)"
    by auto
  have "c_counters c StandaloneCloseRecords \<le> c_counters c1 StandaloneCloseRecords"
    using handleFileClose_counter [OF ok, of now q p ?s] first by simp
  moreover have "ProcessPacket now p c = (c', [r, r'], None)"
    using first second(1) by (simp add: ProcessPacket_file_packet [OF assms(2)] assms(3) process_record_def)
  ultimately show ?thesis using second by auto
qed

lemma close_at_most_once_witness:
  "\<exists>r r'. fst (snd (ProcessPacket 7 (sample_file_packet [CloseRec sample_close_rec, CloseRec sample_close_rec])
      sample_corr)) = [r, r'] \<and> cr_Filename r' = ''unknown'' \<and> cr_Filesize r' = 0 \<and>
    c_counters sample_corr StandaloneCloseRecords < c_counters (fst (ProcessPacket 7
      (sample_file_packet [CloseRec sample_close_rec, CloseRec sample_close_rec]) sample_corr)) StandaloneCloseRecords"
  by (rule close_at_most_once [OF sample_corr_reach]) simp_all

text \<open>C11: Servers are isolated: no packet and no sweep changes what is found for a file that it
  does not open or close itself under the file's own server id, even when another server uses
  the same file number; server ids differ whenever the start time or the address does.\<close>

theorem server_isolation:
  assumes "corr_reach resolve config (t0, c)" and "now \<le> t"
    and "hdr_ServerStart (pkt_Header p) \<noteq> start \<or> pkt_RemoteAddr p \<noteq> addr"
  shows "sm_Get t (BuildFileKey (BuildServerID start addr) f) (c_stateMap (fst (ProcessPacket now p c))) =
    sm_Get t (BuildFileKey (BuildServerID start addr) f) (c_stateMap c)"
proof -
  have "corr_ok c" using corr_reach_ok [OF assms(1)] by simp
  moreover have "\<not> touches (BuildServerID start addr) f (Received p)"
    using assms(3) by (auto simp: getServerID_def)
  ultimately show ?thesis
    using corr_apply_file_frame [of c _ f "Received p" now t] assms(2) by simp
qed

lemma server_isolation_witness:
  "sm_Get 12 (BuildFileKey (BuildServerID 1 ''a:1'') 5)
     (c_stateMap (fst (ProcessPacket 10 (sample_file_packet [OpenRec sample_open_rec]) sample_corr))) =
   sm_Get 12 (BuildFileKey (BuildServerID 1 ''a:1'') 5) (c_stateMap sample_corr)"
  by (rule server_isolation [OF sample_corr_reach]) (simp_all add: zero_Header_def)

end
