(* ===== verification/Parser_Theorems.thy ===== *)
theory Parser_Theorems
  imports Parse_Packet
begin

section \<open>The packet parser: theorems\<close>

text \<open>
  The properties of \<open>parser/xrootd_parser.go\<close>: which byte strings are packets, the round trips
  from the wire form of f-stream, user, token and server packets, the bound on the records a
  packet can yield, and the record a misread time record destroys. The samples at the head
  are the concrete packets the witnesses run on.
\<close>

subsection \<open>Samples\<close>

definition sample_disc_header :: FileHeader where
  "sample_disc_header = \<lparr>fh_RecType = 4, fh_RecFlag = 0, fh_RecSize = 8, fh_FileId = 77,
     fh_UserId = 0, fh_NRecs0 = 0, fh_NRecs1 = 0\<rparr>"

definition sample_disc :: FileDisconnectRecord where
  "sample_disc = \<lparr>fdr_Header = sample_disc_header, fdr_UserID = 77\<rparr>"

definition sample_open :: FileOpenRecord where
  "sample_open = \<lparr>for_Header = \<lparr>fh_RecType = 1, fh_RecFlag = 1, fh_RecSize = 28, fh_FileId = 5,
       fh_UserId = 9, fh_NRecs0 = 0, fh_NRecs1 = 0\<rparr>,
     for_FileSize = 1024, for_User = 9, for_Lfn = ''/a/b''\<rparr>"

definition sample_tod :: FileHeader where
  "sample_tod = \<lparr>fh_RecType = 2, fh_RecFlag = 0, fh_RecSize = 24, fh_FileId = 0,
     fh_UserId = 0, fh_NRecs0 = 0, fh_NRecs1 = 0\<rparr>"

definition sample_tod_body :: bytes where
  "sample_tod_body = replicate 16 (CHR 0x01)"

definition sample_user :: UserInfo where
  "sample_user = \<lparr>ui_Protocol = ''xroot'', ui_Username = ''ann'', ui_Pid = 12, ui_Sid = 34,
     ui_Host = ''h.org''\<rparr>"

definition sample_dotted_user :: UserInfo where
  "sample_dotted_user = sample_user\<lparr>ui_Username := ''ann.b''\<rparr>"

definition sample_bytes :: bytes where
  "sample_bytes = encode_packet PacketTypeFStat 1 2 (encode_item (Item (DiscRec sample_disc)))"

definition sample_packet :: Packet where
  "sample_packet = (bare_packet PacketTypeFStat 1 2 (encode_item (Item (DiscRec sample_disc))))
     \<lparr>pkt_FileRecords := [DiscRec sample_disc]\<rparr>"

lemma sample_disc_wf: "wf_item (Item (DiscRec sample_disc))"
  by (simp add: sample_disc_def sample_disc_header_def plain_header_def)

lemma sample_open_wf: "wf_item (Item (OpenRec sample_open))"
  by (simp add: sample_open_def wf_open_def length_encode_open_fixed)

lemma sample_tod_wf: "wf_time_block sample_tod sample_tod_body"
  by (simp add: wf_time_block_def sample_tod_def sample_tod_body_def plain_header_def)

lemma sample_user_wf: "wf_userinfo sample_user" "newline \<notin> set (userinfo_text sample_user)"
  "wf_kvs [(''p'', ''gsi''), (''n'', ''/CN=a'')]"
proof -
  have "newline \<notin> set (dec_nat n)" for n
    using dec_nat_digits [of newline n] by (auto simp: is_digit_def)
  then show "newline \<notin> set (userinfo_text sample_user)"
    by (simp add: userinfo_text_def sample_user_def)
qed (simp_all add: wf_userinfo_def sample_user_def wf_kvs_def)

subsection \<open>Acceptance\<close>

text \<open>C9: \<open>ParsePacket\<close> accepts exactly the byte strings that begin with \<open><\<close> and those with an
  8-byte header whose length field is the number of bytes received and whose body fits the
  code: any body for f, t, x, p and r packets, a dictionary id for =, d, U and i packets, a
  dictionary id and a readable user id for u and T packets, and 16 bytes followed by lines of
  JSON objects for g packets. A packet with any other code is refused.\<close>

theorem ParsePacket_accepts_iff:
  "\<not> isl (ParsePacket u b) \<longleftrightarrow>
     b \<noteq> [] \<and> (hd b = CHR ''<'' \<or>
       8 \<le> length b \<and> unat (hdr_Plen (decode_binaryHeader b)) = length b \<and> body_ok u b)"
  by (cases "b = []") (auto simp: ParsePacket_def Let_def isl_parse_body)

subsection \<open>f-stream packets\<close>

text \<open>C8: An f-stream packet that holds the leading time record, any sequence of well-formed open,
  close, disconnect and unknown records, and then a record cut short by the end of the packet
  is accepted; its file records are exactly the known records, in order, with every field as
  sent, the unknown ones and the cut one left out.\<close>

theorem ParsePacket_fstream:
  assumes "wf_time_block h body" and "\<forall>x \<in> set xs. wf_item x"
    and "wf_item y" and "k < length (encode_item y)"
    and "payload = encode_time_block h body @ encode_items xs @ take k (encode_item y)"
    and "8 + length payload < 2 ^ 16"
  shows "ParsePacket u (encode_packet PacketTypeFStat pseq stod payload) =
    Inr ((bare_packet PacketTypeFStat pseq stod payload)\<lparr>pkt_FileRecords := items_records xs\<rparr>)"
proof -
  let ?tod = "encode_time_block h body" and ?rest = "take k (encode_item y)"
  obtain hdr where hdr: "length hdr = 8"
    "encode_packet PacketTypeFStat pseq stod payload = hdr @ ?tod @ encode_items xs @ ?rest"
    using encode_packet_split assms(5) by blast
  have "parseFileRecords (encode_packet PacketTypeFStat pseq stod payload) = (items_records xs, None)"
    unfolding hdr(2) by (rule parseFileRecords_cut [OF hdr(1) assms(1-4)])
  then show ?thesis
    using assms(6) by (simp add: ParsePacket_encode parse_body_def packet_header_def)
qed

lemma ParsePacket_fstream_witness:
  "ParsePacket (\<lambda>_. None) (encode_packet PacketTypeFStat 1 2
      (encode_time_block sample_tod sample_tod_body @
       encode_items [Item (OpenRec sample_open), Item (DiscRec sample_disc)] @
       take 5 (encode_item (Item (DiscRec sample_disc))))) =
   Inr ((bare_packet PacketTypeFStat 1 2
      (encode_time_block sample_tod sample_tod_body @
       encode_items [Item (OpenRec sample_open), Item (DiscRec sample_disc)] @
       take 5 (encode_item (Item (DiscRec sample_disc)))))
      \<lparr>pkt_FileRecords := items_records [Item (OpenRec sample_open), Item (DiscRec sample_disc)]\<rparr>)"
proof (rule ParsePacket_fstream [OF sample_tod_wf _ sample_disc_wf _ refl])
  show "\<forall>x \<in> set [Item (OpenRec sample_open), Item (DiscRec sample_disc)]. wf_item x"
    using sample_disc_wf sample_open_wf by simp
  have "length (encode_open sample_open) = 28"
    using length_encode_open [of sample_open] sample_open_wf by (simp add: sample_open_def)
  then show "8 + length (encode_time_block sample_tod sample_tod_body @
      encode_items [Item (OpenRec sample_open), Item (DiscRec sample_disc)] @
      take 5 (encode_item (Item (DiscRec sample_disc)))) < 2 ^ 16"
    by (simp add: encode_time_block_def encode_items_def sample_tod_body_def)
qed simp

text \<open>C33: Only f-stream packets yield file records, and never more than one for every eight bytes
  behind the packet header: no trace packet and no other packet can fabricate one.\<close>

theorem ParsePacket_file_records:
  assumes "ParsePacket u b = Inr p" and "pkt_FileRecords p \<noteq> []"
  shows "pkt_PacketType p = PacketTypeFStat \<and> length (pkt_FileRecords p) \<le> (length b - 8) div 8"
proof -
  have "hd b \<noteq> CHR ''<''" using assms by (auto simp: ParsePacket_def zero_Packet_def split: if_splits)
  with assms(1) have acc: "accepted_header b p" by (rule ParsePacket_accepts)
  then have body: "parse_body u (decode_binaryHeader b) b
      (zero_Packet\<lparr>pkt_Header := decode_binaryHeader b, pkt_PacketType := hd b, pkt_RawData := b\<rparr>) = Inr p"
    using assms(1) \<open>hd b \<noteq> CHR ''<''\<close>
    by (auto simp: ParsePacket_def Let_def accepted_header_def decode_binaryHeader_def split: if_splits)
  have code: "hd b = PacketTypeFStat"
    using parse_body_parts(1) [OF body] assms(2) by (simp add: zero_Packet_def decode_binaryHeader_def)
  define r where "r = skip_first_time_record \<lparr>rd_data = drop 8 b, rd_pos = 0\<rparr>"
  have "rd_data r = drop 8 b"
    by (auto simp: r_def skip_first_time_record_def Let_def rd_ReadFull_def)
  then have "length (fst (parse_loop r [])) \<le> (length b - 8 - rd_pos r) div 8"
    using parse_loop_bound [of r "[]"] by simp
  also have "\<dots> \<le> (length b - 8) div 8" by (rule div_le_mono) simp
  finally have "length (fst (parseFileRecords b)) \<le> (length b - 8) div 8"
    by (simp add: parseFileRecords_def r_def)
  then have "length (pkt_FileRecords p) \<le> (length b - 8) div 8"
    using body code
    by (auto simp: parse_body_def decode_binaryHeader_def Let_def split: prod.splits option.splits)
  with code acc show ?thesis by (simp add: accepted_header_def)
qed

lemma ParsePacket_file_records_witness:
  "ParsePacket (\<lambda>_. None) sample_bytes = Inr sample_packet \<and>
   pkt_PacketType sample_packet = PacketTypeFStat \<and>
   length (pkt_FileRecords sample_packet) \<le> (length sample_bytes - 8) div 8"
proof -
  have skip: "skip_first_time_record (at_block [] (encode_item (Item (DiscRec sample_disc))) [])
      = at_block [] (encode_item (Item (DiscRec sample_disc))) []"
    by (simp add: skip_first_time_record_def rd_Len_def rd_ReadFull_def Let_def sample_disc_def
        sample_disc_header_def wire_simps rd_Seek_def)
  have "parseFileRecords sample_bytes = ([DiscRec sample_disc], None)"
    using skip parse_loop_item [OF sample_disc_wf, of "[]" "[]" "[]"]
    by (simp add: parseFileRecords_def parse_loop_end sample_bytes_def)
  then have p: "ParsePacket (\<lambda>_. None) sample_bytes = Inr sample_packet"
    unfolding sample_bytes_def
    by (simp add: ParsePacket_encode parse_body_def packet_header_def sample_packet_def)
  moreover have "pkt_FileRecords sample_packet \<noteq> []" by (simp add: sample_packet_def)
  ultimately show ?thesis
    using ParsePacket_file_records [OF p] by blast
qed

text \<open>A time record that is not the first of its packet is read as 28 bytes although it
  announces 24: when the packet goes on with a disconnect record, the loop reads the time
  record and four bytes of the disconnect record as one, finds no record header in the four
  bytes left, and returns without an error and without the disconnect record.\<close>

theorem parseFileRecords_second_time_record:
  assumes "length hdr = 8" and "wf_time_block h body" and "wf_time_block h2 body2"
    and "length body2 = 16" and "wf_item (Item (DiscRec d))"
  shows "\<exists>t. parseFileRecords (hdr @ encode_time_block h body @ encode_time_block h2 body2 @
      encode_item (Item (DiscRec d))) = ([TimeRec t], None)"
proof -
  let ?tod = "encode_time_block h body" and ?tod2 = "encode_time_block h2 body2"
    and ?disc = "encode_item (Item (DiscRec d))"
  let ?r = "\<lparr>rd_data = ?tod @ ?tod2 @ ?disc, rd_pos = length ?tod\<rparr>"
  let ?r' = "\<lparr>rd_data = ?tod @ ?tod2 @ ?disc, rd_pos = length ?tod + 28\<rparr>"
  have len2: "length ?tod2 = 24" and lend: "length ?disc = 8"
    using assms(4) by (simp_all add: encode_time_block_def)
  have size: "unat (fh_RecSize h2) = 24" and plain: "plain_header h2" and ty: "fh_RecType h2 = 2"
    using assms(3,4) by (simp_all add: wf_time_block_def)
  have "parse_file_record ?r = parse_time_record ?r"
    using parse_file_record_at [of h2 body2 ?tod ?disc] size ty plain assms(4)
    by (simp add: encode_time_block_def plain_header_def)
  moreover obtain t where "parse_time_record ?r = Continue [TimeRec t] ?r'"
    using len2 lend by (simp add: parse_time_record_def rd_ReadFull_def)
  moreover have "parse_file_record ?r' = Break"
    using len2 lend by (simp add: parse_file_record_def rd_ReadFull_def)
  moreover have "rd_Len ?r \<noteq> 0" "rd_Len ?r' \<noteq> 0" using len2 lend by (auto simp: rd_Len_def)
  ultimately have "parse_loop ?r [] = ([TimeRec t], None)"
    by (simp add: parse_loop.simps)
  then have "parseFileRecords (hdr @ ?tod @ ?tod2 @ ?disc) = ([TimeRec t], None)"
    using assms(1) by (simp add: parseFileRecords_def skip_first_time_block [OF assms(2)]
        del: encode_item.simps)
  then show ?thesis ..
qed

lemma parseFileRecords_second_time_record_witness:
  "\<exists>t. parseFileRecords (replicate 8 nul @ encode_time_block sample_tod sample_tod_body @
      encode_time_block sample_tod sample_tod_body @ encode_item (Item (DiscRec sample_disc))) =
    ([TimeRec t], None)"
  by (rule parseFileRecords_second_time_record [OF _ sample_tod_wf sample_tod_wf _ sample_disc_wf])
    (simp_all add: sample_tod_body_def)

subsection \<open>User, token and server packets\<close>

text \<open>A user packet whose body is a dictionary id, the text of a user id, a newline and an
  authorisation list is read back field by field: the user id is the one sent and each
  authorisation field is the last non-empty one the list gives its key.\<close>

theorem ParsePacket_user:
  assumes "wf_userinfo ui" and "newline \<notin> set (userinfo_text ui)" and "wf_kvs kvs"
    and "payload = encode_dict_body d (encode_user_info ui kvs)" and "8 + length payload < 2 ^ 16"
  shows "ParsePacket u (encode_packet PacketTypeUser pseq stod payload) =
    Inr ((bare_packet PacketTypeUser pseq stod payload)\<lparr>pkt_UserRecord :=
      Some \<lparr>ur_Header = packet_header PacketTypeUser pseq stod payload, ur_DictId = d,
        ur_UserInfo = ui, ur_AuthInfo = assign_all assign_auth zero_AuthInfo kvs,
        ur_TokenInfo = zero_TokenInfo\<rparr>\<rparr>)"
  using assms(5) parseUserRecord_encode [OF assms(1-3)]
  by (simp add: ParsePacket_encode parse_body_def packet_header_def assms(4) Let_def)

lemma ParsePacket_user_witness:
  "\<exists>p. ParsePacket (\<lambda>_. None) (encode_packet PacketTypeUser 1 2
      (encode_dict_body 3 (encode_user_info sample_user [(''p'', ''gsi''), (''n'', ''/CN=a'')]))) = Inr p \<and>
    map_option (\<lambda>r. ai_DN (ur_AuthInfo r)) (pkt_UserRecord p) = Some ''/CN=a''"
proof (intro exI conjI)
  show "ParsePacket (\<lambda>_. None) (encode_packet PacketTypeUser 1 2
      (encode_dict_body 3 (encode_user_info sample_user [(''p'', ''gsi''), (''n'', ''/CN=a'')]))) =
    Inr ((bare_packet PacketTypeUser 1 2
        (encode_dict_body 3 (encode_user_info sample_user [(''p'', ''gsi''), (''n'', ''/CN=a'')])))
      \<lparr>pkt_UserRecord := Some \<lparr>ur_Header = packet_header PacketTypeUser 1 2
          (encode_dict_body 3 (encode_user_info sample_user [(''p'', ''gsi''), (''n'', ''/CN=a'')])),
        ur_DictId = 3, ur_UserInfo = sample_user,
        ur_AuthInfo = assign_all assign_auth zero_AuthInfo [(''p'', ''gsi''), (''n'', ''/CN=a'')],
        ur_TokenInfo = zero_TokenInfo\<rparr>\<rparr>)"
  proof (rule ParsePacket_user [OF sample_user_wf refl])
    have "length (userinfo_text sample_user) = 21"
      by (simp add: userinfo_text_def sample_user_def fmt_nat.simps)
    then show "8 + length (encode_dict_body 3 (encode_user_info sample_user
        [(''p'', ''gsi''), (''n'', ''/CN=a'')])) < 2 ^ 16"
      by (simp add: encode_dict_body_def encode_user_info_def)
  qed
qed (simp add: assign_auth_def)

text \<open>A server identification packet is read back: its dictionary id, its whole text and the
  server fields of the list behind the first newline.\<close>

theorem ParsePacket_server:
  assumes "newline \<notin> set name" and "wf_kvs kvs"
    and "payload = encode_dict_body d (name @ newline # kv_text kvs)" and "8 + length payload < 2 ^ 16"
  shows "ParsePacket u (encode_packet PacketTypeMap pseq stod payload) =
    Inr ((bare_packet PacketTypeMap pseq stod payload)\<lparr>pkt_MapRecord :=
        Some \<lparr>mr_Header = packet_header PacketTypeMap pseq stod payload, mr_DictId = d,
          mr_Info = name @ newline # kv_text kvs\<rparr>,
      pkt_ServerInfo := Some (assign_all assign_server zero_ServerInfo kvs)\<rparr>)"
proof -
  have "splitn2 newline (name @ newline # kv_text kvs) = [name, kv_text kvs]"
    using assms(1) by (rule splitn2_append)
  with assms show ?thesis
    by (simp add: ParsePacket_encode parse_body_def packet_header_def parseMapRecord_encode
        server_info_of_def parseServerInfo_kv_text Let_def)
qed

lemma ParsePacket_server_witness:
  "ParsePacket (\<lambda>_. None) (encode_packet PacketTypeMap 1 2
      (encode_dict_body 0 (''x'' @ newline # kv_text [(''site'', ''UW'')]))) =
    Inr ((bare_packet PacketTypeMap 1 2 (encode_dict_body 0 (''x'' @ newline # kv_text [(''site'', ''UW'')])))
      \<lparr>pkt_MapRecord := Some \<lparr>mr_Header = packet_header PacketTypeMap 1 2
          (encode_dict_body 0 (''x'' @ newline # kv_text [(''site'', ''UW'')])), mr_DictId = 0,
          mr_Info = ''x'' @ newline # kv_text [(''site'', ''UW'')]\<rparr>,
      pkt_ServerInfo := Some (assign_all assign_server zero_ServerInfo [(''site'', ''UW'')])\<rparr>)"
  by (rule ParsePacket_server [OF _ _ refl])
    (simp_all add: wf_kvs_def encode_dict_body_def)

text \<open>The packet parser reads back every well-formed user id; the collector's own parser of
  the same text never does when the user name has a dot, since it cuts at the first dot and the
  packet parser at the last.\<close>

theorem parseUserInfo_disagree:
  assumes "wf_userinfo u" and "CHR ''.'' \<in> set (ui_Username u)"
  shows "parseUserInfo (userinfo_text u) = Inr u \<and> collector_parseUserInfo (userinfo_text u) \<noteq> Some u"
  using parseUserInfo_userinfo_text collector_parseUserInfo_dotted assms by blast

lemma parseUserInfo_disagree_witness:
  "parseUserInfo (userinfo_text sample_dotted_user) = Inr sample_dotted_user \<and>
   collector_parseUserInfo (userinfo_text sample_dotted_user) \<noteq> Some sample_dotted_user"
  by (rule parseUserInfo_disagree)
    (simp_all add: sample_dotted_user_def sample_user_def wf_userinfo_def)

end
