(* ===== verification/User_Theorems.thy ===== *)
theory User_Theorems
  imports Correlator_Theorems Parser_Theorems
begin

section \<open>Users: theorems\<close>

text \<open>
  What user, token, dictionary and disconnect records do to the user a record is attributed to,
  and the averages of a record. \<open>getUserInfo\<close> is the observation: the user state a close of a
  file opened under a user id would be given.
\<close>

subsection \<open>User records\<close>

lemma sm_room_after_put: "sm_room k sm \<Longrightarrow> sm_room k (sm_put now k v sm)"
  by (auto simp: sm_room_def sm_Set_def map_of_update)

lemma sm_Get_put_same:
  "sm_room k sm \<Longrightarrow> t \<le> now + sm_ttl sm \<Longrightarrow> sm_Get t k (sm_put now k v sm) = Some v"
  by (rule state_map.lookup_store)

text \<open>The state a 'u' record stores.\<close>

definition user_state_of :: "int \<Rightarrow> UserRecord \<Rightarrow> UserState" where
  "user_state_of now rec = zero_UserState\<lparr>us_UserID := ur_DictId rec, us_UserInfo := ur_UserInfo rec,
     us_AuthInfo := ur_AuthInfo rec, us_TokenInfo := ur_TokenInfo rec, us_CreatedAt := now\<rparr>"

text \<open>A 'u' record finds room for both of its keys and is not a token record.\<close>

definition stores_user :: "UserRecord \<Rightarrow> string \<Rightarrow> Correlator \<Rightarrow> bool" where
  "stores_user rec s c \<longleftrightarrow> ti_UserDictID (ur_TokenInfo rec) = 0 \<and> ur_DictId rec \<noteq> 0 \<and>
     sm_room (BuildDictIDKey s (ur_DictId rec)) (c_dictMap c) \<and>
     sm_room (BuildUserInfoKey s (ur_UserInfo rec)) (c_userMap c)"

definition user_ttl :: "Correlator \<Rightarrow> int" where
  "user_ttl c = min (sm_ttl (c_dictMap c)) (sm_ttl (c_userMap c))"

lemma handleUserRecord_stored:
  assumes "stores_user rec s c"
  shows "c_dictMap (handleUserRecord now rec s c) =
      sm_put now (BuildDictIDKey s (ur_DictId rec)) (VUserInfo (ur_UserInfo rec)) (c_dictMap c)"
    and "c_userMap (handleUserRecord now rec s c) =
      sm_put now (BuildUserInfoKey s (ur_UserInfo rec)) (VUser (user_state_of now rec)) (c_userMap c)"
  using assms by (simp_all add: handleUserRecord_def stores_user_def user_state_of_def Let_def)

lemma handle_token_known:
  assumes "sm_Get now (BuildDictIDKey s (ti_UserDictID (ur_TokenInfo tok))) (c_dictMap c) = Some (VUserInfo u)"
    and "sm_Get now (BuildUserInfoKey s u) (c_userMap c) = Some (VUser us)"
    and "ti_UserDictID (ur_TokenInfo tok) \<noteq> 0"
  shows "handleUserRecord now tok s c =
    user_put now (BuildUserInfoKey s u) (VUser (us\<lparr>us_TokenInfo := ur_TokenInfo tok\<rparr>)) c"
  using assms by (simp add: handleUserRecord_def handle_token_def)

lemma getUserInfo_known:
  assumes "d \<noteq> 0" and "sm_Get t (BuildDictIDKey s d) (c_dictMap c) = Some (VUserInfo u)"
    and "sm_Get t (BuildUserInfoKey s u) (c_userMap c) = Some (VUser us)"
  shows "getUserInfo t d f s c = Some us"
  using assms by (simp add: getUserInfo_def user_of_id_def)

text \<open>A token record that refers to a user's dictionary id adds the token to that user's state
  and keeps the authorisation of the user record: a close under that id within the TTL is
  attributed to the user with both.\<close>

theorem token_augments_user:
  assumes "stores_user rec s c" and "ti_UserDictID (ur_TokenInfo tok) = ur_DictId rec"
    and "t1 \<le> t2" "t2 \<le> t3" "t3 \<le> t1 + user_ttl c"
  shows "\<exists>us. getUserInfo t3 (ur_DictId rec) f s (handleUserRecord t2 tok s (handleUserRecord t1 rec s c)) = Some us \<and>
    us_UserInfo us = ur_UserInfo rec \<and> us_AuthInfo us = ur_AuthInfo rec \<and> us_TokenInfo us = ur_TokenInfo tok"
proof -
  let ?c1 = "handleUserRecord t1 rec s c" and ?u = "ur_UserInfo rec"
  let ?dk = "BuildDictIDKey s (ur_DictId rec)" and ?uk = "BuildUserInfoKey s ?u"
  let ?us = "(user_state_of t1 rec)\<lparr>us_TokenInfo := ur_TokenInfo tok\<rparr>"
  note c1 = handleUserRecord_stored [OF assms(1), of t1]
  have room: "sm_room ?dk (c_dictMap c)" "sm_room ?uk (c_userMap c)" and d: "ur_DictId rec \<noteq> 0"
    using assms(1) by (simp_all add: stores_user_def)
  have dict: "sm_Get t ?dk (c_dictMap ?c1) = Some (VUserInfo ?u)" if "t \<le> t3" for t
    unfolding c1 using that assms(5) room by (intro sm_Get_put_same) (simp_all add: user_ttl_def)
  have "sm_Get t2 ?uk (c_userMap ?c1) = Some (VUser (user_state_of t1 rec))"
    unfolding c1 using assms(3-5) room by (intro sm_Get_put_same) (simp_all add: user_ttl_def)
  then have tok: "handleUserRecord t2 tok s ?c1 = user_put t2 ?uk (VUser ?us) ?c1"
    using dict [OF assms(4)] assms(2) d by (intro handle_token_known) simp_all
  have "sm_Get t3 ?uk (c_userMap (user_put t2 ?uk (VUser ?us) ?c1)) = Some (VUser ?us)"
    using assms(3-5) room(2)
    by (simp add: c1 sm_Get_put_same sm_room_after_put user_ttl_def)
  then have "getUserInfo t3 (ur_DictId rec) f s (handleUserRecord t2 tok s ?c1) = Some ?us"
    unfolding tok using dict [of t3] d by (intro getUserInfo_known) simp_all
  then show ?thesis by (simp add: user_state_of_def)
qed

definition sample_user_rec :: UserRecord where
  "sample_user_rec = \<lparr>ur_Header = zero_Header, ur_DictId = 7, ur_UserInfo = sample_user,
     ur_AuthInfo = zero_AuthInfo\<lparr>ai_DN := ''/CN=ann''\<rparr>, ur_TokenInfo = zero_TokenInfo\<rparr>"

definition sample_token_rec :: UserRecord where
  "sample_token_rec = \<lparr>ur_Header = zero_Header, ur_DictId = 8, ur_UserInfo = sample_user,
     ur_AuthInfo = zero_AuthInfo, ur_TokenInfo = zero_TokenInfo\<lparr>ti_UserDictID := 7, ti_Subject := ''ann''\<rparr>\<rparr>"

lemma sample_user_stores: "stores_user sample_user_rec ''0#'' sample_corr"
  by (simp add: stores_user_def sample_user_rec_def zero_TokenInfo_def sm_room_New)

lemma user_ttl_sample [simp]: "user_ttl sample_corr = 1000"
  by (simp add: user_ttl_def)

lemma token_augments_user_witness:
  "\<exists>us. getUserInfo 30 (ur_DictId sample_user_rec) 5 ''0#'' (handleUserRecord 20 sample_token_rec ''0#''
      (handleUserRecord 10 sample_user_rec ''0#'' sample_corr)) = Some us \<and>
    us_UserInfo us = ur_UserInfo sample_user_rec \<and> us_AuthInfo us = ur_AuthInfo sample_user_rec \<and>
    us_TokenInfo us = ur_TokenInfo sample_token_rec"
  by (rule token_augments_user [OF sample_user_stores])
    (simp_all add: sample_user_rec_def sample_token_rec_def)

text \<open>C31: User states are filed under 32 bits of the pid and the session id: when two users of one
  server have the same protocol, name and host and equal pids and session ids modulo 2^32, the
  later user record replaces the state of the earlier one, and a close under the earlier
  dictionary id is attributed the later user's authorisation.\<close>

theorem user_sessions_collide:
  assumes "stores_user rec s c" and "stores_user rec' s (handleUserRecord t1 rec s c)"
    and "same_session (ur_UserInfo rec) (ur_UserInfo rec')" and "ur_DictId rec \<noteq> ur_DictId rec'"
    and "t1 \<le> t2" "t2 \<le> t3" "t3 \<le> t1 + user_ttl c"
  shows "getUserInfo t3 (ur_DictId rec) f s (handleUserRecord t2 rec' s (handleUserRecord t1 rec s c)) =
    Some (user_state_of t2 rec')"
proof -
  let ?c1 = "handleUserRecord t1 rec s c" and ?dk = "BuildDictIDKey s (ur_DictId rec)"
  let ?c2 = "handleUserRecord t2 rec' s ?c1"
  note c1 = handleUserRecord_stored [OF assms(1), of t1] and c2 = handleUserRecord_stored [OF assms(2), of t2]
  have key: "BuildUserInfoKey s (ur_UserInfo rec) = BuildUserInfoKey s (ur_UserInfo rec')"
    using assms(3) by (rule BuildUserInfoKey_same_session)
  have "sm_room ?dk (c_dictMap c)" "sm_room (BuildUserInfoKey s (ur_UserInfo rec)) (c_userMap c)"
    and d: "ur_DictId rec \<noteq> 0"
    using assms(1) by (simp_all add: stores_user_def)
  then have "sm_Get t3 ?dk (c_dictMap ?c1) = Some (VUserInfo (ur_UserInfo rec))"
    unfolding c1 using assms(7) by (intro sm_Get_put_same) (simp_all add: user_ttl_def)
  then have dict: "sm_Get t3 ?dk (c_dictMap ?c2) = Some (VUserInfo (ur_UserInfo rec))"
    unfolding c2 using assms(4) by (simp add: sm_Get_put_other)
  have "sm_ttl (c_userMap ?c1) = sm_ttl (c_userMap c)" by (simp add: c1)
  then have "sm_Get t3 (BuildUserInfoKey s (ur_UserInfo rec)) (c_userMap ?c2) = Some (VUser (user_state_of t2 rec'))"
    unfolding c2 key using assms(2,5-7)
    by (intro sm_Get_put_same) (simp_all add: stores_user_def user_ttl_def)
  with d dict show ?thesis by (intro getUserInfo_known)
qed

definition sample_later_rec :: UserRecord where
  "sample_later_rec = sample_user_rec\<lparr>ur_DictId := 9,
     ur_UserInfo := sample_user\<lparr>ui_Sid := ui_Sid sample_user + 2 ^ 32\<rparr>,
     ur_AuthInfo := zero_AuthInfo\<lparr>ai_DN := ''/CN=eve''\<rparr>\<rparr>"

lemma user_sessions_collide_witness:
  "getUserInfo 30 (ur_DictId sample_user_rec) 5 ''0#'' (handleUserRecord 20 sample_later_rec ''0#''
      (handleUserRecord 10 sample_user_rec ''0#'' sample_corr)) = Some (user_state_of 20 sample_later_rec)"
proof (rule user_sessions_collide [OF sample_user_stores])
  have sess: "same_session sample_user (sample_user\<lparr>ui_Sid := ui_Sid sample_user + 2 ^ 32\<rparr>)"
    by (simp add: same_session_def sample_user_def)
  then show "same_session (ur_UserInfo sample_user_rec) (ur_UserInfo sample_later_rec)"
    by (simp add: sample_user_rec_def sample_later_rec_def)
  have key: "BuildUserInfoKey ''0#'' (ur_UserInfo sample_later_rec) = BuildUserInfoKey ''0#'' (ur_UserInfo sample_user_rec)"
    using BuildUserInfoKey_same_session [OF sess, of "''0#''"]
    by (simp add: sample_user_rec_def sample_later_rec_def)
  have "sm_room k (sm_put 10 k' v (NewStateMap 1000 10))" for k k' and v :: map_value
    by (auto simp: sm_room_def sm_Set_def NewStateMap_def)
  then show "stores_user sample_later_rec ''0#'' (handleUserRecord 10 sample_user_rec ''0#'' sample_corr)"
    by (simp add: stores_user_def handleUserRecord_stored [OF sample_user_stores])
      (simp add: sample_later_rec_def sample_user_rec_def zero_TokenInfo_def)
qed (simp_all add: sample_user_rec_def sample_later_rec_def)

subsection \<open>Disconnects and dictionary records\<close>

text \<open>After a disconnect record no later close is attributed through the user's dictionary id,
  whether the id was known, unknown or expired, and the states of open files stay as they were.\<close>

theorem disconnect_forgets_user:
  assumes "corr_reach resolve config (t0, c)" and "now \<le> t"
  shows "user_of_id t (fdr_UserID rec) s (handleDisconnect now rec s c) = None \<and>
    c_stateMap (handleDisconnect now rec s c) = c_stateMap c"
proof -
  let ?k = "BuildDictIDKey s (fdr_UserID rec)"
  have ok: "corr_ok c" using corr_reach_ok [OF assms(1)] by simp
  have "sm_Get t ?k (c_dictMap (handleDisconnect now rec s c)) = None"
  proof (cases "sm_Get now ?k (c_dictMap c)")
    case None
    then have "sm_Get t ?k (c_dictMap c) = None"
      using state_map.lookup_mono [OF _ assms(2), of ?k "c_dictMap c"] by (metis option.exhaust)
    with None show ?thesis by (simp add: handleDisconnect_def)
  next
    case (Some v)
    then have "dict_typed ?k v" using ok typed_map_Get unfolding corr_ok_def by blast
    then obtain u where "v = VUserInfo u" using dictid_key_typed by blast
    with Some show ?thesis by (simp add: handleDisconnect_def sm_Get_Delete)
  qed
  then show ?thesis by (simp add: user_of_id_def)
qed

lemma disconnect_forgets_user_witness:
  "user_of_id 9 (fdr_UserID sample_disc) ''0#'' (handleDisconnect 8 sample_disc ''0#'' sample_corr) = None \<and>
   c_stateMap (handleDisconnect 8 sample_disc ''0#'' sample_corr) = c_stateMap sample_corr"
  by (rule disconnect_forgets_user [OF sample_corr_reach]) simp

text \<open>A 'd' record with a readable user id and a path names the user of the file: a close under
  file id \<open>f\<close> and no user id is attributed to it. The path itself is never used: an open record
  without a file name is tracked with an empty one, although the source's comment says the
  name may come from the dictionary.\<close>

theorem dict_path_names_user_only:
  assumes "mr_DictId rec \<noteq> 0" and "mr_Info rec = uid @ newline # path" and "newline \<notin> set uid"
    and "collector_parseUserInfo uid = Some u"
    and "sm_room (BuildDictKey s (mr_DictId rec)) (c_dictMap c)"
    and "t \<le> now + sm_ttl (c_dictMap c)"
    and "for_Lfn r = []" and "fh_FileId (for_Header r) = mr_DictId rec"
  shows "user_of_file t (mr_DictId rec) s (handleDictIDRecord now rec s PacketTypeDictID c) = Some u \<and>
    open_filename t r s (handleDictIDRecord now rec s PacketTypeDictID c) = []"
proof -
  let ?k = "BuildDictKey s (mr_DictId rec)"
  have "splitn2 newline (mr_Info rec) = [uid, path]"
    unfolding assms(2) using assms(3) by (rule splitn2_append)
  then have "c_dictMap (handleDictIDRecord now rec s PacketTypeDictID c) =
      sm_put now (BuildDictIDKey s (mr_DictId rec)) (VUserInfo u)
        (sm_put now ?k (VPath \<lparr>pi_Path = path, pi_UserInfo = u\<rparr>) (c_dictMap c))"
    using assms(4) by (simp add: handleDictIDRecord_def handle_path_def)
  then have "sm_Get t ?k (c_dictMap (handleDictIDRecord now rec s PacketTypeDictID c)) =
      Some (VPath \<lparr>pi_Path = path, pi_UserInfo = u\<rparr>)"
    using assms(5,6) by (simp add: sm_Get_put_other sm_Get_put_same)
  then show ?thesis
    using assms(1,7,8) by (simp add: user_of_file_def open_filename_def)
qed

lemma dict_path_names_user_only_witness:
  "user_of_file 20 (mr_DictId \<lparr>mr_Header = zero_Header, mr_DictId = 5, mr_Info = ''a.1:2@h'' @ newline # ''/f''\<rparr>)
     ''0#'' (handleDictIDRecord 10 \<lparr>mr_Header = zero_Header, mr_DictId = 5, mr_Info = ''a.1:2@h'' @ newline # ''/f''\<rparr>
        ''0#'' PacketTypeDictID sample_corr) = collector_parseUserInfo ''a.1:2@h'' \<and>
   open_filename 20 (sample_open_rec\<lparr>for_Lfn := []\<rparr>) ''0#''
     (handleDictIDRecord 10 \<lparr>mr_Header = zero_Header, mr_DictId = 5, mr_Info = ''a.1:2@h'' @ newline # ''/f''\<rparr>
        ''0#'' PacketTypeDictID sample_corr) = []"
proof -
  have p: "collector_parseUserInfo ''a.1:2@h'' =
      Some \<lparr>ui_Protocol = [], ui_Username = ''a'', ui_Pid = fst (atoi ''1''), ui_Sid = fst (atoi ''2''), ui_Host = ''h''\<rparr>"
    by (simp add: collector_parseUserInfo_def splitn2_def before_def after_def)
  show ?thesis
    unfolding p
    by (rule dict_path_names_user_only [where path = "''/f''" and uid = "''a.1:2@h''"])
      (simp_all add: p sm_room_New sample_open_rec_def sample_file_header_def)
qed

subsection \<open>Averages\<close>

text \<open>The averages of a record are the truncated quotients of the byte counts by the operation
  counts, exact in 64 bits: with a positive operation count and a byte count that is not
  negative, average times count is at most the bytes and misses them by less than the count;
  with no operations the average is 0.\<close>

theorem average_quotient:
  "(sint n \<le> 0 \<longrightarrow> average x n = 0) \<and>
   (0 < sint n \<and> 0 \<le> sint x \<longrightarrow>
      sint (average x n) * sint n \<le> sint x \<and> sint x < (sint (average x n) + 1) * sint n)"
proof (intro conjI impI)
  assume pos: "0 < sint n \<and> 0 \<le> sint x"
  have "sint x < 2 ^ 63" using sint_lt [of x] by simp
  moreover have "sint x div sint n \<le> sint x"
    using pos by (cases "sint x = 0") (auto intro: int_div_le_self)
  moreover have "0 \<le> sint x div sint n" using pos by (simp add: pos_imp_zdiv_nonneg_iff)
  ultimately have "sint (word_of_int (sint x div sint n) :: int64) = sint x div sint n"
    by (simp add: signed_of_int signed_take_bit_int_eq_self)
  moreover have "sint x sdiv sint n = sint x div sint n"
    using pos by (cases "sint x = 0") (simp_all add: signed_divide_int_def sgn_if)
  ultimately have avg: "sint (average x n) = sint x div sint n" using pos by (simp add: average_def)
  show "sint (average x n) * sint n \<le> sint x"
    unfolding avg using pos by (simp add: minus_mod_eq_div_mult [symmetric])
  have "sint x div sint n * sint n + sint x mod sint n = sint x" by (rule div_mult_mod_eq)
  moreover have "sint x mod sint n < sint n" using pos by simp
  ultimately show "sint x < (sint (average x n) + 1) * sint n"
    unfolding avg distrib_right by linarith
qed (simp add: average_def)

lemma average_quotient_witness:
  "sint (average 100 3) * sint (3 :: int32) \<le> sint (100 :: int64) \<and>
   sint (100 :: int64) < (sint (average 100 3) + 1) * sint (3 :: int32)"
  using average_quotient [of 3 100] by simp

end
