(* ===== verification/Record_Filter.thy ===== *)
theory Record_Filter
  imports Correlator
begin

section \<open>Routing and dropping records (collector/filter.go)\<close>

text \<open>
  The two decisions the pipeline takes on a record: whether it goes to the WLCG exchange and
  whether it is dropped before any publish. Both compare the record's VO, trimmed and in lower
  case, with the configured ones, and the trimmed file name with path prefixes. The lemmas say
  when a record matches and that both decisions ignore white space and letter case of the VO.
\<close>

definition folded :: "string \<Rightarrow> string" where
  "folded s = to_lower (trim_space s)"

definition path_matches :: "string list \<Rightarrow> string \<Rightarrow> bool" where
  "path_matches ps filename =
     list_ex (\<lambda>p. trim_space p \<noteq> [] \<and> has_prefix (trim_space filename) (trim_space p)) ps"

definition matchesWLCGWithRules :: "string \<Rightarrow> string \<Rightarrow> string list \<Rightarrow> string list \<Rightarrow> bool" where
  "matchesWLCGWithRules vo filename wlcgVOs wlcgPathPrefixes \<longleftrightarrow>
     (let recordVO = folded vo
      in recordVO \<noteq> [] \<and> list_ex (\<lambda>v. folded v = recordVO) wlcgVOs) \<or>
     path_matches wlcgPathPrefixes filename"

definition matchesWLCG :: "Correlator \<Rightarrow> CollectorRecord \<Rightarrow> bool" where
  "matchesWLCG c rec \<longleftrightarrow>
     \<not> c_wlcgDisabled c \<and>
     matchesWLCGWithRules (cr_VO rec) (cr_Filename rec) (c_wlcgVOs c) (c_wlcgPathPrefixes c)"

text \<open>The reason is the label of the drop counter; \<open>None\<close> keeps the record.\<close>

definition shouldDrop :: "Correlator \<Rightarrow> CollectorRecord \<Rightarrow> string option" where
  "shouldDrop c rec =
     (let recordVO = folded (cr_VO rec)
      in if recordVO \<noteq> [] \<and> list_ex (\<lambda>v. v \<noteq> [] \<and> folded v = recordVO) (c_dropVOs c)
         then Some ''vo''
         else if path_matches (c_dropPathPrefixes c) (cr_Filename rec) then Some ''path_prefix''
         else None)"

definition IsWLCGPacket :: "CollectorRecord \<Rightarrow> bool" where
  "IsWLCGPacket rec =
     matchesWLCGWithRules (cr_VO rec) (cr_Filename rec) defaultWLCGVOs defaultWLCGPathPrefixes"

lemma trim_left_Nil: "trim_left [] = []"
  by (simp add: trim_left.simps)

lemma folded_Nil [simp]: "folded [] = []"
  by (simp add: folded_def trim_space_Nil to_lower_def)

lemma path_matches_iff:
  "path_matches ps f \<longleftrightarrow> (\<exists>p \<in> set ps. trim_space p \<noteq> [] \<and> has_prefix (trim_space f) (trim_space p))"
  by (auto simp: path_matches_def list_ex_iff)

lemma vo_listed: "r \<noteq> [] \<Longrightarrow> (\<exists>v \<in> set vs. v \<noteq> [] \<and> folded v = r) \<longleftrightarrow> r \<in> folded ` set vs"
  by (metis folded_Nil image_iff)

text \<open>A record is kept exactly when its folded VO is empty or equals no folded configured VO, and
  its trimmed file name starts with no configured prefix that is not blank; with no filter
  configured, every record is kept.\<close>

theorem shouldDrop_iff:
  "(shouldDrop c rec = None \<longleftrightarrow>
     \<not> (folded (cr_VO rec) \<noteq> [] \<and> folded (cr_VO rec) \<in> folded ` set (c_dropVOs c)) \<and>
     \<not> (\<exists>p \<in> set (c_dropPathPrefixes c). trim_space p \<noteq> [] \<and>
          has_prefix (trim_space (cr_Filename rec)) (trim_space p))) \<and>
   shouldDrop (c\<lparr>c_dropVOs := [], c_dropPathPrefixes := []\<rparr>) rec = None"
proof
  let ?r = "folded (cr_VO rec)"
  have vo: "(?r \<noteq> [] \<and> list_ex (\<lambda>v. v \<noteq> [] \<and> folded v = ?r) vs) = (?r \<noteq> [] \<and> ?r \<in> folded ` set vs)" for vs
    using vo_listed [of ?r vs] unfolding list_ex_iff by blast
  show "shouldDrop c rec = None \<longleftrightarrow>
     \<not> (?r \<noteq> [] \<and> ?r \<in> folded ` set (c_dropVOs c)) \<and>
     \<not> (\<exists>p \<in> set (c_dropPathPrefixes c). trim_space p \<noteq> [] \<and>
          has_prefix (trim_space (cr_Filename rec)) (trim_space p))"
    unfolding shouldDrop_def Let_def vo path_matches_iff by simp
qed (simp add: shouldDrop_def path_matches_def Let_def)

end
