(* ===== verification/Wlcg.thy ===== *)
theory Wlcg
  imports Record_Filter
begin

section \<open>WLCG records (collector/wlcg_converter.go)\<close>

text \<open>
  \<open>ConvertToWLCG\<close>, which turns a collector record into the record of the WLCG exchange. The
  fresh UUID, the host's name and the clock are arguments; the timestamp of the metadata map,
  its one value that is not a string, is a field of its own. The five sigma fields of the record
  have no counterpart in a collector record and stay 0. The lemmas say what of the collector
  record survives, how the operation is classified, and that the byte total wraps in 64 bits.
  The transformation of g-stream events is in \<open>Gstream_Events\<close>.
\<close>

record WLCGRecord =
  wr_SiteName :: string
  wr_Fallback :: bool
  wr_UserDN :: string
  wr_User :: string
  wr_ClientHost :: string
  wr_ClientDomain :: string
  wr_ServerHost :: string
  wr_ServerDomain :: string
  wr_ServerIP :: string
  wr_UniqueID :: string
  wr_FileLFN :: string
  wr_FileSize :: int64
  wr_ReadBytes :: int64
  wr_ReadSingleBytes :: int64
  wr_ReadVectorBytes :: int64
  wr_IPv6 :: bool
  wr_StartTime :: int64
  wr_EndTime :: int64
  wr_OperationTime :: int64
  wr_Operation :: string
  wr_ServerSite :: string
  wr_UserProtocol :: string
  wr_VO :: string
  wr_WriteBytes :: int64
  wr_ReadAverage :: int64
  wr_ReadBytesAtClose :: int64
  wr_ReadMax :: int32
  wr_ReadMin :: int32
  wr_ReadOperations :: int32
  wr_ReadSigma :: int32
  wr_ReadSingleAverage :: int64
  wr_ReadSingleMax :: int32
  wr_ReadSingleMin :: int32
  wr_ReadSingleOperations :: int32
  wr_ReadSingleSigma :: int32
  wr_ReadVectorAverage :: int64
  wr_ReadVectorCountAverage :: float_expr
  wr_ReadVectorCountMax :: int16
  wr_ReadVectorCountMin :: int16
  wr_ReadVectorCountSigma :: int16
  wr_ReadVectorMax :: int32
  wr_ReadVectorMin :: int32
  wr_ReadVectorOperations :: int32
  wr_ReadVectorSigma :: int32
  wr_WriteAverage :: int64
  wr_WriteBytesAtClose :: int64
  wr_WriteMax :: int32
  wr_WriteMin :: int32
  wr_WriteOperations :: int32
  wr_WriteSigma :: int32
  wr_Experiment :: string
  wr_Activity :: string
  wr_ExperimentID :: int
  wr_ActivityID :: int
  wr_ScitagsVO :: string
  wr_CRABId :: string
  wr_CRABRetry :: string
  wr_CRABWorkflow :: string
  wr_Metadata :: "(string \<times> json) list"
  wr_MetaTimestamp :: int

record WLCGMetadata =
  wm_Producer :: string
  wm_Type :: string
  wm_GStreamProducer :: string
  wm_VO :: string

text \<open>\<open>strings.Split\<close> at a text that is not empty.\<close>

function split_str :: "string \<Rightarrow> string \<Rightarrow> string list" where
  "split_str sep s =
     (if sep = [] then [s]
      else if s = [] then [[]]
      else if has_prefix s sep then [] # split_str sep (drop (length sep) s)
      else (case split_str sep (tl s) of [] \<Rightarrow> [[hd s]] | p # ps \<Rightarrow> (hd s # p) # ps))"
  by pat_completeness auto
termination
  by (relation "measure (\<lambda>(_, s). length s)") auto

declare split_str.simps [simp del]

definition wlcg_operation :: "CollectorRecord \<Rightarrow> string" where
  "wlcg_operation rec =
     (if 0 < sint (cr_Read rec) \<or> 0 < sint (cr_Readv rec) then ''read''
      else if 0 < sint (cr_Write rec) then ''write''
      else ''unknown'')"

definition wlcg_user :: "string \<Rightarrow> string" where
  "wlcg_user userDN =
     (if userDN = [] then []
      else
        let parts = split_str ''CN='' userDN
        in if 1 < length parts then last parts else [])"

text \<open>CRAB id, retry and workflow, when the application info has three parts.\<close>

definition crab_info :: "string \<Rightarrow> string \<times> string \<times> string" where
  "crab_info appInfo =
     (if appInfo = [] then ([], [], [])
      else case split_on (CHR ''_'') appInfo of
             [a, b, c] \<Rightarrow> (a, c, last (split_on (CHR ''/'') b))
           | _ \<Rightarrow> ([], [], []))"

definition ConvertToWLCG ::
  "string \<Rightarrow> string \<Rightarrow> int \<Rightarrow> CollectorRecord \<Rightarrow> WLCGMetadata \<Rightarrow> WLCGRecord" where
  "ConvertToWLCG uniqueID hostname now rec meta =
     (let (crabId, crabRetry, crabWorkflow) = crab_info (cr_AppInfo rec)
      in \<lparr>wr_SiteName = cr_Site rec,
          wr_Fallback = True,
          wr_UserDN = cr_UserDN rec,
          wr_User = wlcg_user (cr_UserDN rec),
          wr_ClientHost = cr_Host rec,
          wr_ClientDomain = cr_UserDomain rec,
          wr_ServerHost = cr_ServerHostname rec,
          wr_ServerDomain =
            (if cr_ServerHostname rec \<noteq> [] then extractDomainFromHostname (cr_ServerHostname rec) else []),
          wr_ServerIP = cr_ServerIP rec,
          wr_UniqueID = uniqueID,
          wr_FileLFN = cr_Filename rec,
          wr_FileSize = cr_Filesize rec,
          wr_ReadBytes = cr_Read rec + cr_Readv rec,
          wr_ReadSingleBytes = cr_Read rec,
          wr_ReadVectorBytes = cr_Readv rec,
          wr_IPv6 = cr_IPv6 rec,
          wr_StartTime = cr_StartTime rec,
          wr_EndTime = cr_EndTime rec,
          wr_OperationTime = cr_OperationTime rec,
          wr_Operation = wlcg_operation rec,
          wr_ServerSite = cr_Site rec,
          wr_UserProtocol = cr_Protocol rec,
          wr_VO = (if wm_VO meta \<noteq> [] then wm_VO meta else cr_VO rec),
          wr_WriteBytes = cr_Write rec,
          wr_ReadAverage = cr_ReadAverage rec,
          wr_ReadBytesAtClose = cr_ReadBytesAtClose rec,
          wr_ReadMax = cr_ReadMax rec,
          wr_ReadMin = cr_ReadMin rec,
          wr_ReadOperations = cr_ReadOperations rec,
          wr_ReadSigma = 0,
          wr_ReadSingleAverage = cr_ReadSingleAverage rec,
          wr_ReadSingleMax = cr_ReadSingleMax rec,
          wr_ReadSingleMin = cr_ReadSingleMin rec,
          wr_ReadSingleOperations = cr_ReadSingleOperations rec,
          wr_ReadSingleSigma = 0,
          wr_ReadVectorAverage = cr_ReadVectorAverage rec,
          wr_ReadVectorCountAverage = cr_ReadVectorCountAverage rec,
          wr_ReadVectorCountMax = cr_ReadVectorCountMax rec,
          wr_ReadVectorCountMin = cr_ReadVectorCountMin rec,
          wr_ReadVectorCountSigma = 0,
          wr_ReadVectorMax = cr_ReadVectorMax rec,
          wr_ReadVectorMin = cr_ReadVectorMin rec,
          wr_ReadVectorOperations = cr_ReadVectorOperations rec,
          wr_ReadVectorSigma = 0,
          wr_WriteAverage = cr_WriteAverage rec,
          wr_WriteBytesAtClose = cr_WriteBytesAtClose rec,
          wr_WriteMax = cr_WriteMax rec,
          wr_WriteMin = cr_WriteMin rec,
          wr_WriteOperations = cr_WriteOperations rec,
          wr_WriteSigma = 0,
          wr_Experiment = cr_Experiment rec,
          wr_Activity = cr_Activity rec,
          wr_ExperimentID = cr_ExperimentID rec,
          wr_ActivityID = cr_ActivityID rec,
          wr_ScitagsVO = cr_ScitagsVO rec,
          wr_CRABId = crabId,
          wr_CRABRetry = crabRetry,
          wr_CRABWorkflow = crabWorkflow,
          wr_Metadata = [(''producer'', JStr (wm_Producer meta)), (''type'', JStr (wm_Type meta)),
            (''type_prefix'', JStr ''raw''), (''host'', JStr hostname), (''_id'', JStr uniqueID)],
          wr_MetaTimestamp = now div 10 ^ 6\<rparr>)"

definition CachePathCheckWLCG :: "string \<Rightarrow> bool" where
  "CachePathCheckWLCG path =
     (let cleanPath = trim_space path
      in has_prefix cleanPath ''/store'' \<or> has_prefix cleanPath ''/user/dteam'')"

text \<open>The cache check is the path half of the default routing rules.\<close>

lemma blank_free: "trim_space ''/store'' = ''/store''" "trim_space ''/user/dteam'' = ''/user/dteam''"
  by (simp_all add: trim_space_def trim_left.simps trim_left_rev.simps is_space1_def is_space2_def is_space3_def)

text \<open>With the default rules a record goes to WLCG exactly when its folded VO is cms or its path
  passes the check the g-stream pipeline applies to cache events: both pipelines route by the
  same paths.\<close>

theorem IsWLCGPacket_iff:
  "IsWLCGPacket rec \<longleftrightarrow> folded (cr_VO rec) = ''cms'' \<or> CachePathCheckWLCG (cr_Filename rec)"
proof -
  have "folded ''cms'' = ''cms''"
    by (simp add: folded_def trim_space_def trim_left.simps trim_left_rev.simps is_space1_def
        is_space2_def is_space3_def to_lower_def lower_char_def)
  then show ?thesis
    by (auto simp: IsWLCGPacket_def matchesWLCGWithRules_def defaultWLCGVOs_def path_matches_def
        defaultWLCGPathPrefixes_def CachePathCheckWLCG_def blank_free Let_def)
qed

end
