(* ===== verification/Fifo.thy ===== *)
theory Fifo
  imports Main
begin

section \<open>First-in first-out queues\<close>

text \<open>
  The contract the two queues of the program share. A provider names the list its state stands
  for, its two operations and when it accepts; the locale's laws say that an accepted item goes
  to the end of the list and that the front comes out. What follows for a run of operations -
  nothing is lost, repeated or reordered, and what is in comes out - is proved here once, and
  each queue's theory interprets the locale on its own model.
\<close>

datatype 'a fifo_op = Enq 'a | Deq

text \<open>
  A run of operations: the items accepted, the items that came out, and the final state. A
  \<open>Deq\<close> on an empty queue, which blocks its caller in the program, leaves the run as it is.
\<close>

fun fifo_run ::
  "('a \<Rightarrow> 's \<Rightarrow> 's) \<Rightarrow> ('s \<Rightarrow> ('a \<times> 's) option) \<Rightarrow> ('s \<Rightarrow> bool) \<Rightarrow> 'a fifo_op list \<Rightarrow> 's \<Rightarrow>
   'a list \<times> 'a list \<times> 's" where
  "fifo_run put get accepts [] s = ([], [], s)"
| "fifo_run put get accepts (Enq a # ops) s =
     (case fifo_run put get accepts ops (put a s) of
        (ins, outs, s') \<Rightarrow> (if accepts s then a # ins else ins, outs, s'))"
| "fifo_run put get accepts (Deq # ops) s =
     (case get s of
        None \<Rightarrow> fifo_run put get accepts ops s
      | Some (a, s1) \<Rightarrow>
          (case fifo_run put get accepts ops s1 of (ins, outs, s') \<Rightarrow> (ins, a # outs, s')))"

locale fifo =
  fixes contents :: "'s \<Rightarrow> 'a list"
    and put :: "'a \<Rightarrow> 's \<Rightarrow> 's"
    and get :: "'s \<Rightarrow> ('a \<times> 's) option"
    and accepts :: "'s \<Rightarrow> bool"
    and inv :: "'s \<Rightarrow> bool"
  assumes contents_put: "inv s \<Longrightarrow> contents (put a s) = (if accepts s then contents s @ [a] else contents s)"
    and get_none: "inv s \<Longrightarrow> get s = None \<longleftrightarrow> contents s = []"
    and get_some: "inv s \<Longrightarrow> get s = Some (a, s') \<Longrightarrow> contents s = a # contents s'"
    and inv_put: "inv s \<Longrightarrow> inv (put a s)"
    and inv_get: "inv s \<Longrightarrow> get s = Some (a, s') \<Longrightarrow> inv s'"
begin

text \<open>What was in and what was accepted is what came out and what is left, in order.\<close>

lemma run_conserves:
  assumes "inv s" and "fifo_run put get accepts ops s = (ins, outs, s')"
  shows "contents s @ ins = outs @ contents s' \<and> inv s'"
  using assms
proof (induction ops arbitrary: s ins outs s')
  case (Cons x ops)
  show ?case
  proof (cases x)
    case (Enq a)
    obtain i where "fifo_run put get accepts ops (put a s) = (i, outs, s')"
      "ins = (if accepts s then a # i else i)"
      using Cons.prems(2) Enq by (auto split: prod.splits)
    with Cons.IH [of "put a s" i outs s'] Cons.prems(1) show ?thesis
      by (auto simp: contents_put inv_put)
  next
    case Deq
    show ?thesis
    proof (cases "get s")
      case None
      with Cons Deq show ?thesis by auto
    next
      case (Some as)
      obtain a s1 where as: "as = (a, s1)" by (cases as)
      then obtain o1 where "fifo_run put get accepts ops s1 = (ins, o1, s')" "outs = a # o1"
        using Cons.prems(2) Deq Some by (auto split: prod.splits)
      with Cons.IH [of s1 ins o1 s'] Cons.prems(1) Some as show ?thesis
        using get_some [of s a s1] inv_get [of s a s1] by auto
    qed
  qed
qed simp

text \<open>As many dequeues as there are items bring out exactly the contents.\<close>

lemma run_drains:
  assumes "inv s"
  shows "\<exists>s'. fifo_run put get accepts (replicate (length (contents s)) Deq) s = ([], contents s, s') \<and>
    contents s' = []"
  using assms
proof (induction "contents s" arbitrary: s)
  case (Cons a as)
  then obtain b s1 where get: "get s = Some (b, s1)"
    using get_none [of s] by (cases "get s") auto
  with Cons have c: "contents s = b # contents s1" "inv s1" using get_some inv_get by blast+
  with Cons(1) [of s1] Cons(2) obtain s' where
    "fifo_run put get accepts (replicate (length (contents s1)) Deq) s1 = ([], contents s1, s')" "contents s' = []"
    by auto
  with c get show ?case by simp
qed simp

end

end
