(* ===== verification/Enrichment.thy ===== *)
theory Enrichment
  imports Wlcg Fifo
begin

section \<open>The enrichment pipeline (collector/enrichment.go)\<close>

text \<open>
  The bounded queue of pending records, stored in pages, and what a worker does with a request:
  drop filter, DNS enrichment, routing, and the payload of either exchange. Each queue operation
  runs under the queue's lock, so it is one step; a \<open>Dequeue\<close> that would wait is \<open>Blocks\<close>. A
  page is a Go slice: its items and its capacity, which shrink together when the front is
  taken. The queue is interpreted as a \<open>fifo\<close>.
\<close>

subsection \<open>The paged queue\<close>

type_synonym 'r page = "'r list \<times> nat"

record 'r enrichmentWorkQueue =
  q_pages :: "'r page list"
  q_size :: nat
  q_closed :: bool
  q_capacity :: nat
  q_gauge :: nat

abbreviation (input) "defaultEnrichmentQueueMaxSize \<equiv> (1000000 :: nat)"
abbreviation (input) "enrichmentQueuePageSize \<equiv> (4096 :: nat)"

definition newEnrichmentWorkQueue :: "int \<Rightarrow> 'r enrichmentWorkQueue" where
  "newEnrichmentWorkQueue capacity =
     \<lparr>q_pages = [], q_size = 0, q_closed = False,
      q_capacity = (if capacity \<le> 0 then defaultEnrichmentQueueMaxSize else nat capacity), q_gauge = 0\<rparr>"

definition add_page :: "'r enrichmentWorkQueue \<Rightarrow> 'r enrichmentWorkQueue" where
  "add_page q =
     (if q_pages q = [] \<or> length (fst (last (q_pages q))) = snd (last (q_pages q))
      then q\<lparr>q_pages := q_pages q @ [([], min enrichmentQueuePageSize (q_capacity q - q_size q))]\<rparr>
      else q)"

text \<open>Appending within a slice's capacity keeps the capacity.\<close>

definition enqueueLocked :: "'r \<Rightarrow> 'r enrichmentWorkQueue \<Rightarrow> 'r enrichmentWorkQueue" where
  "enqueueLocked req q =
     (let q1 = add_page q; (items, cap) = last (q_pages q1)
      in q1\<lparr>q_pages := butlast (q_pages q1) @ [(items @ [req], cap)], q_size := Suc (q_size q1)\<rparr>)"

definition Enqueue :: "'r \<Rightarrow> 'r enrichmentWorkQueue \<Rightarrow> 'r enrichmentWorkQueue \<times> bool \<times> bool" where
  "Enqueue req q =
     (if q_closed q then (q\<lparr>q_gauge := q_size q\<rparr>, False, True)
      else if q_capacity q \<le> q_size q then (q\<lparr>q_gauge := q_size q\<rparr>, False, False)
      else
        let q1 = enqueueLocked req q
        in (q1\<lparr>q_gauge := q_size q1\<rparr>, True, False))"

datatype 'r dequeue_result = Blocks | Drained | Got 'r

definition Dequeue :: "'r enrichmentWorkQueue \<Rightarrow> 'r enrichmentWorkQueue \<times> 'r dequeue_result" where
  "Dequeue q =
     (if q_size q = 0 \<and> \<not> q_closed q then (q, Blocks)
      else if q_size q = 0 then (q\<lparr>q_gauge := 0\<rparr>, Drained)
      else
        let (items, cap) = hd (q_pages q);
            pages = (if length items = 1 then tl (q_pages q)
                     else (tl items, cap - 1) # tl (q_pages q))
        in (q\<lparr>q_pages := pages, q_size := q_size q - 1, q_gauge := q_size q - 1\<rparr>, Got (hd items)))"

definition Close :: "'r enrichmentWorkQueue \<Rightarrow> 'r enrichmentWorkQueue" where
  "Close q = (if q_closed q then q else q\<lparr>q_closed := True, q_gauge := q_size q\<rparr>)"

subsection \<open>The queue as a list\<close>

definition q_items :: "'r enrichmentWorkQueue \<Rightarrow> 'r list" where
  "q_items q = concat (List.map fst (q_pages q))"

text \<open>Pages are never empty, never exceed their capacity, and only the last has room.\<close>

definition q_ok :: "'r enrichmentWorkQueue \<Rightarrow> bool" where
  "q_ok q \<longleftrightarrow> q_size q = length (q_items q) \<and> q_size q \<le> q_capacity q \<and>
     list_all (\<lambda>(items, cap). items \<noteq> [] \<and> length items \<le> cap \<and> cap \<le> 4096) (q_pages q)"

definition q_accepts :: "'r enrichmentWorkQueue \<Rightarrow> bool" where
  "q_accepts q \<longleftrightarrow> \<not> q_closed q \<and> q_size q < q_capacity q"

definition q_put :: "'r \<Rightarrow> 'r enrichmentWorkQueue \<Rightarrow> 'r enrichmentWorkQueue" where
  "q_put req q = fst (Enqueue req q)"

definition q_get :: "'r enrichmentWorkQueue \<Rightarrow> ('r \<times> 'r enrichmentWorkQueue) option" where
  "q_get q = (case Dequeue q of (q', Got r) \<Rightarrow> Some (r, q') | _ \<Rightarrow> None)"

lemma enqueueLocked_pages:
  assumes "q_ok q" and "q_size q < q_capacity q"
  shows "q_items (enqueueLocked req q) = q_items q @ [req] \<and> q_size (enqueueLocked req q) = Suc (q_size q) \<and>
    q_capacity (enqueueLocked req q) = q_capacity q \<and> q_closed (enqueueLocked req q) = q_closed q \<and>
    list_all (\<lambda>(items, cap). items \<noteq> [] \<and> length items \<le> cap \<and> cap \<le> 4096) (q_pages (enqueueLocked req q))"
proof (cases "q_pages q = [] \<or> length (fst (last (q_pages q))) = snd (last (q_pages q))")
  case True
  with assms show ?thesis
    by (auto simp: enqueueLocked_def add_page_def q_items_def q_ok_def Let_def)
next
  case False
  then obtain ps items cap where ps: "q_pages q = ps @ [(items, cap)]" "length items \<noteq> cap"
    by (metis append_butlast_last_id prod.collapse fst_conv snd_conv)
  with assms show ?thesis
    by (auto simp: enqueueLocked_def add_page_def q_items_def q_ok_def)
qed

lemma q_put_cases:
  assumes "q_ok q"
  shows "q_items (q_put req q) = (if q_accepts q then q_items q @ [req] else q_items q)"
    and "q_ok (q_put req q)"
  using enqueueLocked_pages [OF assms, of req] assms
  by (auto simp: q_put_def Enqueue_def q_accepts_def q_ok_def q_items_def Let_def)

lemma Dequeue_Got:
  assumes "q_ok q" and "Dequeue q = (q', Got r)"
  shows "q_items q = r # q_items q'" and "q_ok q'"
proof -
  have "q_size q \<noteq> 0" using assms(2) by (auto simp: Dequeue_def split: if_splits)
  then obtain items cap ps where ps: "q_pages q = (items, cap) # ps"
    using assms(1) by (cases "q_pages q") (auto simp: q_ok_def q_items_def)
  then obtain a as where items: "items = a # as" "Suc (length as) \<le> cap" "cap \<le> 4096"
    using assms(1) by (cases items) (auto simp: q_ok_def)
  have "r = a" and q': "q' = q\<lparr>q_pages := (if as = [] then ps else (as, cap - 1) # ps),
      q_size := q_size q - 1, q_gauge := q_size q - 1\<rparr>"
    using assms(2) ps items \<open>q_size q \<noteq> 0\<close> by (auto simp: Dequeue_def)
  then show "q_items q = r # q_items q'" "q_ok q'"
    using assms(1) ps items by (auto simp: q_items_def q_ok_def)
qed

interpretation work_queue: fifo q_items q_put q_get q_accepts q_ok
proof unfold_locales
  fix q q' :: "'a enrichmentWorkQueue" and r
  assume ok: "q_ok q"
  then show "q_items (q_put r q) = (if q_accepts q then q_items q @ [r] else q_items q)"
    and "q_ok (q_put r q)"
    by (rule q_put_cases)+
  show "q_get q = None \<longleftrightarrow> q_items q = []"
    using ok by (auto simp: q_get_def Dequeue_def q_ok_def split: prod.splits)
  assume "q_get q = Some (r, q')"
  then have "Dequeue q = (q', Got r)"
    by (auto simp: q_get_def split: prod.splits dequeue_result.splits)
  with ok show "q_items q = r # q_items q'" and "q_ok q'"
    by (auto dest: Dequeue_Got)
qed

subsection \<open>Requests and results\<close>

text \<open>
  A payload is the JSON text of a record in one of two formats; the rendering itself is left to
  \<open>encoding/json\<close>, so the payload is the record rendered. A destination whose channel is nil
  is one without results.
\<close>

datatype payload = RecordJSON CollectorRecord | WLCGJSON WLCGRecord

record EnrichedRecord =
  er_Record :: CollectorRecord
  er_Payload :: payload
  er_Exchange :: string

record EnrichmentDestination =
  ed_Results :: bool
  ed_WLCGExchange :: string

record enrichmentRequest =
  rq_record :: CollectorRecord
  rq_destination :: EnrichmentDestination

text \<open>
  The state of the pipeline: the correlator's, the queue (nil after \<open>Stop\<close>), the drop count, the
  counters of \<open>recordsDropped\<close> and \<open>enrichmentQueueDropped\<close>, whether the context is done, the
  warnings logged, and what has been sent to the results channel.
\<close>

record pipeline =
  pl_corr :: Correlator
  pl_meta :: WLCGMetadata
  pl_queue :: "enrichmentRequest enrichmentWorkQueue option"
  pl_dropCount :: int64
  pl_recordsDropped :: "string \<Rightarrow> nat"
  pl_queueDropped :: nat
  pl_warnings :: nat
  pl_done :: bool
  pl_sent :: "EnrichedRecord list"

definition NeedsEnrichment :: "CollectorRecord \<Rightarrow> bool" where
  "NeedsEnrichment rec \<longleftrightarrow> cr_needsDNSEnrichment rec \<or> cr_needsServerDNS rec"

subsection \<open>DNS enrichment\<close>

definition enrich_user_domain ::
  "(string \<Rightarrow> string list option) \<Rightarrow> int \<Rightarrow> Correlator \<times> CollectorRecord \<Rightarrow> Correlator \<times> CollectorRecord" where
  "enrich_user_domain resolve now cr =
     (let (c, rec) = cr
      in if cr_needsDNSEnrichment rec then
           (let (c1, hostname) = lookupDNSHostname resolve now (cr_enrichmentIP rec) c;
                rec1 = (if hostname \<noteq> [] then rec\<lparr>cr_UserDomain := extractDomainFromHostname hostname\<rparr> else rec)
            in (c1, rec1\<lparr>cr_needsDNSEnrichment := False, cr_enrichmentIP := []\<rparr>))
         else (c, rec))"

definition enrich_server_name ::
  "(string \<Rightarrow> string list option) \<Rightarrow> int \<Rightarrow> Correlator \<times> CollectorRecord \<Rightarrow> Correlator \<times> CollectorRecord" where
  "enrich_server_name resolve now cr =
     (let (c, rec) = cr
      in if cr_needsServerDNS rec then
           (let (c1, hostname) = lookupDNSHostname resolve now (cr_serverEnrichmentIP rec) c;
                rec1 = (if hostname \<noteq> [] then rec\<lparr>cr_ServerHostname := hostname\<rparr> else rec)
            in (c1, rec1\<lparr>cr_needsServerDNS := False, cr_serverEnrichmentIP := []\<rparr>))
         else (c, rec))"

text \<open>The DNS enricher is the only one, registered when DNS enrichment is on.\<close>

definition Enrich ::
  "(string \<Rightarrow> string list option) \<Rightarrow> int \<Rightarrow> Correlator \<times> CollectorRecord \<Rightarrow> Correlator \<times> CollectorRecord" where
  "Enrich resolve now cr = enrich_server_name resolve now (enrich_user_domain resolve now cr)"

definition run_enrichers ::
  "(string \<Rightarrow> string list option) \<Rightarrow> int \<Rightarrow> Correlator \<times> CollectorRecord \<Rightarrow> Correlator \<times> CollectorRecord" where
  "run_enrichers resolve now cr =
     (if c_enableDNSEnrichment (fst cr) then Enrich resolve now cr else cr)"

subsection \<open>One request\<close>

definition buildEnrichedRecord ::
  "string \<Rightarrow> string \<Rightarrow> int \<Rightarrow> Correlator \<Rightarrow> WLCGMetadata \<Rightarrow> CollectorRecord \<Rightarrow> string \<Rightarrow> EnrichedRecord" where
  "buildEnrichedRecord uniqueID hostname now c meta rec wlcgExchange =
     (let isWLCG = matchesWLCG c rec;
          rec1 = (if c_vo c \<noteq> [] then rec\<lparr>cr_VO := c_vo c\<rparr> else rec)
      in if isWLCG
         then \<lparr>er_Record = rec1, er_Payload = WLCGJSON (ConvertToWLCG uniqueID hostname now rec1 meta),
               er_Exchange = wlcgExchange\<rparr>
         else \<lparr>er_Record = rec1, er_Payload = RecordJSON rec1, er_Exchange = []\<rparr>)"

text \<open>
  The final \<open>select\<close> sends the record, or gives up when the context is done; when both are
  possible \<open>give_up\<close> says which one it takes.
\<close>

definition processEnrichmentRequest ::
  "(string \<Rightarrow> string list option) \<Rightarrow> string \<Rightarrow> string \<Rightarrow> int \<Rightarrow> bool \<Rightarrow> enrichmentRequest \<Rightarrow> pipeline \<Rightarrow> pipeline" where
  "processEnrichmentRequest resolve uniqueID hostname now give_up req pl =
     (case shouldDrop (pl_corr pl) (rq_record req) of
        Some reason \<Rightarrow>
          pl\<lparr>pl_recordsDropped := (pl_recordsDropped pl)(reason := Suc (pl_recordsDropped pl reason))\<rparr>
      | None \<Rightarrow>
          (let (c, rec) = run_enrichers resolve now (pl_corr pl, rq_record req);
               enriched = buildEnrichedRecord uniqueID hostname now c (pl_meta pl) rec
                 (ed_WLCGExchange (rq_destination req))
           in if pl_done pl \<and> give_up then pl\<lparr>pl_corr := c\<rparr>
              else pl\<lparr>pl_corr := c, pl_sent := pl_sent pl @ [enriched]\<rparr>))"

function power_loop :: "int \<Rightarrow> bool" where
  "power_loop n = (if n \<le> 1 then True else if n mod 10 \<noteq> 0 then False else power_loop (n div 10))"
  by pat_completeness auto
termination
  by (relation "measure nat") auto

declare power_loop.simps [simp del]

definition IsPowerOfTen :: "int64 \<Rightarrow> bool" where
  "IsPowerOfTen n = (if sint n \<le> 0 then False else power_loop (sint n))"

definition EnqueueForEnrichment ::
  "(string \<Rightarrow> string list option) \<Rightarrow> string \<Rightarrow> string \<Rightarrow> int \<Rightarrow> bool \<Rightarrow> CollectorRecord option \<Rightarrow>
   EnrichmentDestination \<Rightarrow> pipeline \<Rightarrow> pipeline" where
  "EnqueueForEnrichment resolve uniqueID hostname now give_up rec destination pl =
     (case rec of
        None \<Rightarrow> pl
      | Some r \<Rightarrow>
          if \<not> ed_Results destination then pl
          else
            let req = \<lparr>rq_record = r, rq_destination = destination\<rparr>
            in case pl_queue pl of
                 None \<Rightarrow> processEnrichmentRequest resolve uniqueID hostname now give_up req pl
               | Some q \<Rightarrow>
                   (case Enqueue req q of
                      (q', enqueued, wasClosed) \<Rightarrow>
                        let pl1 = pl\<lparr>pl_queue := Some q'\<rparr>
                        in if enqueued \<or> wasClosed then pl1
                           else
                             let n = pl_dropCount pl + 1
                             in pl1\<lparr>pl_queueDropped := Suc (pl_queueDropped pl), pl_dropCount := n,
                                  pl_warnings := (if IsPowerOfTen n then Suc (pl_warnings pl)
                                                  else pl_warnings pl)\<rparr>))"

text \<open>One round of \<open>enrichmentWorker\<close>; \<open>None\<close> is a worker that waits or has ended.\<close>

definition worker_step ::
  "(string \<Rightarrow> string list option) \<Rightarrow> string \<Rightarrow> string \<Rightarrow> int \<Rightarrow> bool \<Rightarrow> pipeline \<Rightarrow> pipeline option" where
  "worker_step resolve uniqueID hostname now give_up pl =
     (case pl_queue pl of
        None \<Rightarrow> None
      | Some q \<Rightarrow>
          (case Dequeue q of
             (q', Got req) \<Rightarrow>
               Some (processEnrichmentRequest resolve uniqueID hostname now give_up req (pl\<lparr>pl_queue := Some q'\<rparr>))
           | _ \<Rightarrow> None))"

text \<open>
  \<open>Stop\<close> up to its wait for the workers: the queue is closed, then the context is cancelled. The
  workers go on until the queue is drained; \<open>drain\<close> is that, one \<open>worker_step\<close> per entry of a
  schedule, which holds the identifier, the clock and the choice of the final \<open>select\<close>.
\<close>

definition Stop_begin :: "pipeline \<Rightarrow> pipeline" where
  "Stop_begin pl = pl\<lparr>pl_queue := map_option Close (pl_queue pl), pl_done := True\<rparr>"

fun drain ::
  "(string \<Rightarrow> string list option) \<Rightarrow> string \<Rightarrow> (string \<times> int \<times> bool) list \<Rightarrow> pipeline \<Rightarrow> pipeline" where
  "drain resolve hostname [] pl = pl"
| "drain resolve hostname ((uniqueID, now, give_up) # schedule) pl =
     (case worker_step resolve uniqueID hostname now give_up pl of
        None \<Rightarrow> pl
      | Some pl' \<Rightarrow> drain resolve hostname schedule pl')"

subsection \<open>What enrichment keeps\<close>

lemma lookupDNS_config [simp]:
  "c_wlcgDisabled (fst (lookupDNSHostname resolve now ip c)) = c_wlcgDisabled c"
  "c_wlcgVOs (fst (lookupDNSHostname resolve now ip c)) = c_wlcgVOs c"
  "c_wlcgPathPrefixes (fst (lookupDNSHostname resolve now ip c)) = c_wlcgPathPrefixes c"
  "c_vo (fst (lookupDNSHostname resolve now ip c)) = c_vo c"
  "c_enableDNSEnrichment (fst (lookupDNSHostname resolve now ip c)) = c_enableDNSEnrichment c"
  by (simp_all add: lookupDNSHostname_def Let_def case_prod_beta)

lemma Enrich_keeps:
  "cr_VO (snd (Enrich resolve now cr)) = cr_VO (snd cr)"
  "cr_Filename (snd (Enrich resolve now cr)) = cr_Filename (snd cr)"
  "\<not> NeedsEnrichment (snd (Enrich resolve now cr))"
  "c_wlcgDisabled (fst (Enrich resolve now cr)) = c_wlcgDisabled (fst cr)"
  "c_wlcgVOs (fst (Enrich resolve now cr)) = c_wlcgVOs (fst cr)"
  "c_wlcgPathPrefixes (fst (Enrich resolve now cr)) = c_wlcgPathPrefixes (fst cr)"
  "c_vo (fst (Enrich resolve now cr)) = c_vo (fst cr)"
  by (simp_all add: Enrich_def enrich_server_name_def enrich_user_domain_def Let_def case_prod_beta
      NeedsEnrichment_def)

lemma run_enrichers_keeps:
  "cr_VO (snd (run_enrichers resolve now cr)) = cr_VO (snd cr)"
  "cr_Filename (snd (run_enrichers resolve now cr)) = cr_Filename (snd cr)"
  "NeedsEnrichment (snd (run_enrichers resolve now cr)) = (\<not> c_enableDNSEnrichment (fst cr) \<and> NeedsEnrichment (snd cr))"
  "matchesWLCG (fst (run_enrichers resolve now cr)) (snd (run_enrichers resolve now cr)) = matchesWLCG (fst cr) (snd cr)"
  "c_vo (fst (run_enrichers resolve now cr)) = c_vo (fst cr)"
  by (simp_all add: run_enrichers_def Enrich_keeps matchesWLCG_def)

lemma power_loop_iff: "0 < n \<Longrightarrow> power_loop n \<longleftrightarrow> (\<exists>k. n = 10 ^ k)"
proof (induction n rule: power_loop.induct)
  case (1 n)
  show ?case
  proof (cases "n = 1")
    case True
    then show ?thesis by (auto simp: power_loop.simps intro: exI [of _ 0])
  next
    case False
    show ?thesis
    proof (cases "n mod 10 = 0")
      case True
      then have n: "n = 10 * (n div 10)" by auto
      then have "power_loop (n div 10) \<longleftrightarrow> (\<exists>k. n div 10 = 10 ^ k)"
        using 1 False True by auto
      moreover have "(\<exists>k. n div 10 = 10 ^ k) \<longleftrightarrow> (\<exists>k. n = 10 ^ k)"
      proof
        assume "\<exists>k. n div 10 = 10 ^ k"
        then obtain k where "n div 10 = 10 ^ k" ..
        then have "n = 10 ^ Suc k" using n by simp
        then show "\<exists>k. n = 10 ^ k" ..
      next
        assume "\<exists>k. n = 10 ^ k"
        then obtain k where "n = 10 ^ k" ..
        with False show "\<exists>k. n div 10 = 10 ^ k" by (cases k) auto
      qed
      ultimately show ?thesis
        using False True 1(2) by (simp add: power_loop.simps [of n])
    next
      case m: False
      have "n \<noteq> 10 ^ k" for k
        using m False by (cases k) auto
      then show ?thesis using False m 1(2) by (simp add: power_loop.simps [of n])
    qed
  qed
qed

lemma q_capacity_keeps:
  "q_capacity (q_put r q) = q_capacity q" "q_get q = Some (r, q') \<Longrightarrow> q_capacity q' = q_capacity q"
  by (auto simp: q_put_def Enqueue_def enqueueLocked_def add_page_def q_get_def Dequeue_def Let_def
      split: prod.splits if_splits dequeue_result.splits)

lemma fifo_run_capacity: "q_capacity (snd (snd (fifo_run q_put q_get q_accepts ops q))) = q_capacity q"
proof (induction ops arbitrary: q)
  case (Cons x ops)
  then show ?case
    by (cases x) (auto simp: case_prod_beta q_capacity_keeps split: option.splits)
qed simp

subsection \<open>Theorems\<close>

text \<open>C27: The paged queue is a bounded first-in first-out queue: through every sequence of enqueues
  and dequeues on a new queue, the accepted requests are exactly those that came out followed
  by those still in the pages, in order, and the number of pending requests never exceeds the
  capacity, whatever the page boundaries.\<close>

theorem work_queue_fifo:
  fixes q :: "'r enrichmentWorkQueue"
  assumes "fifo_run q_put q_get q_accepts ops (newEnrichmentWorkQueue capacity) = (ins, outs, q)"
  shows "ins = outs @ q_items q \<and> q_size q = length (q_items q) \<and>
    int (q_size q) \<le> (if capacity \<le> 0 then 1000000 else capacity)"
proof -
  let ?new = "newEnrichmentWorkQueue capacity :: 'r enrichmentWorkQueue"
  have new: "q_ok ?new" "q_items ?new = []"
    by (simp_all add: q_ok_def newEnrichmentWorkQueue_def q_items_def)
  have "q_capacity q = q_capacity ?new" using fifo_run_capacity assms by (metis snd_conv)
  with work_queue.run_conserves [OF new(1) assms] new(2) show ?thesis
    by (auto simp: q_ok_def newEnrichmentWorkQueue_def)
qed

lemma work_queue_fifo_witness:
  "let q = snd (snd (fifo_run q_put q_get q_accepts [Enq True, Enq False, Deq, Enq True] (newEnrichmentWorkQueue 2)))
   in [True, False, True] = [True] @ q_items q \<and> q_size q = length (q_items q) \<and> int (q_size q) \<le> 2"
proof -
  let ?r = "fifo_run q_put q_get q_accepts [Enq True, Enq False, Deq, Enq True] (newEnrichmentWorkQueue 2)"
  have "?r = ([True, False, True], [True], snd (snd ?r))"
    by (simp add: newEnrichmentWorkQueue_def q_put_def q_get_def q_accepts_def Enqueue_def
        enqueueLocked_def add_page_def Dequeue_def Let_def)
  from work_queue_fifo [OF this] show ?thesis by (simp add: Let_def)
qed

text \<open>C26: A request that the drop filter does not match, processed while the context is live, sends
  exactly one record: to the WLCG exchange when the VO and path reported by the packet match,
  else to the default one, with the configured VO, if any, replacing the packet's only after
  that decision, the file name unchanged, and no enrichment left to do when DNS is on. A request
  the filter matches sends nothing and counts its reason.\<close>

theorem processEnrichmentRequest_outcome:
  fixes req pl resolve uid host now g
  defines "pl' \<equiv> processEnrichmentRequest resolve uid host now g req pl"
  assumes "\<not> pl_done pl"
  shows "case shouldDrop (pl_corr pl) (rq_record req) of
      Some reason \<Rightarrow> pl_sent pl' = pl_sent pl \<and> pl_recordsDropped pl' reason = Suc (pl_recordsDropped pl reason)
    | None \<Rightarrow> \<exists>out. pl_sent pl' = pl_sent pl @ [out] \<and> pl_recordsDropped pl' = pl_recordsDropped pl \<and>
        er_Exchange out = (if matchesWLCG (pl_corr pl) (rq_record req)
                           then ed_WLCGExchange (rq_destination req) else []) \<and>
        cr_VO (er_Record out) = (if c_vo (pl_corr pl) \<noteq> [] then c_vo (pl_corr pl) else cr_VO (rq_record req)) \<and>
        cr_Filename (er_Record out) = cr_Filename (rq_record req) \<and>
        NeedsEnrichment (er_Record out) = (\<not> c_enableDNSEnrichment (pl_corr pl) \<and> NeedsEnrichment (rq_record req))"
proof (cases "shouldDrop (pl_corr pl) (rq_record req)")
  case None
  let ?cr = "(pl_corr pl, rq_record req)" and ?x = "ed_WLCGExchange (rq_destination req)"
  let ?c = "fst (run_enrichers resolve now ?cr)" and ?r = "snd (run_enrichers resolve now ?cr)"
  let ?out = "buildEnrichedRecord uid host now ?c (pl_meta pl) ?r ?x"
  have sent: "pl_sent pl' = pl_sent pl @ [?out] \<and> pl_recordsDropped pl' = pl_recordsDropped pl"
    using None assms(2) by (simp add: pl'_def processEnrichmentRequest_def Let_def case_prod_beta)
  have "er_Exchange ?out = (if matchesWLCG (pl_corr pl) (rq_record req) then ?x else [])"
    "cr_VO (er_Record ?out) = (if c_vo (pl_corr pl) \<noteq> [] then c_vo (pl_corr pl) else cr_VO (rq_record req))"
    "cr_Filename (er_Record ?out) = cr_Filename (rq_record req)"
    "NeedsEnrichment (er_Record ?out) = (\<not> c_enableDNSEnrichment (pl_corr pl) \<and> NeedsEnrichment (rq_record req))"
    using run_enrichers_keeps(3) [of resolve now ?cr]
    by (simp_all add: buildEnrichedRecord_def Let_def NeedsEnrichment_def run_enrichers_keeps)
  with sent None show ?thesis by auto
next
  case (Some reason)
  then show ?thesis by (simp add: pl'_def processEnrichmentRequest_def)
qed

definition sample_pipeline :: pipeline where
  "sample_pipeline = \<lparr>pl_corr = NewCorrelatorWithConfig \<lparr>cc_TTL = 10, cc_MaxEntries = 0,
       cc_EnableDNSEnrichment = True, cc_DNSCacheTTL = 0, cc_Scitags = empty_registry,
       cc_DisableWLCG = False, cc_WLCGVOs = None, cc_WLCGPathPrefixes = None,
       cc_DropPathPrefixes = [], cc_DropVOs = [''x''], cc_VO = ''site''\<rparr>,
     pl_meta = \<lparr>wm_Producer = [], wm_Type = [], wm_GStreamProducer = [], wm_VO = []\<rparr>,
     pl_queue = None, pl_dropCount = 0, pl_recordsDropped = (\<lambda>_. 0), pl_queueDropped = 0,
     pl_warnings = 0, pl_done = False, pl_sent = []\<rparr>"

definition sample_request :: enrichmentRequest where
  "sample_request = \<lparr>rq_record = snd (createStandaloneCloseRecord 5
       (decode_binaryFileCloseRecordHeader []) zero_Packet (pl_corr sample_pipeline)),
     rq_destination = \<lparr>ed_Results = True, ed_WLCGExchange = ''wlcg''\<rparr>\<rparr>"

lemma processEnrichmentRequest_outcome_witness:
  "case shouldDrop (pl_corr sample_pipeline) (rq_record sample_request) of
      Some reason \<Rightarrow>
        pl_sent (processEnrichmentRequest (\<lambda>_. None) ''id'' ''h'' 5 False sample_request sample_pipeline) =
          pl_sent sample_pipeline \<and>
        pl_recordsDropped (processEnrichmentRequest (\<lambda>_. None) ''id'' ''h'' 5 False sample_request sample_pipeline) reason =
          Suc (pl_recordsDropped sample_pipeline reason)
    | None \<Rightarrow> \<exists>out. pl_sent (processEnrichmentRequest (\<lambda>_. None) ''id'' ''h'' 5 False sample_request sample_pipeline) =
          pl_sent sample_pipeline @ [out] \<and>
        pl_recordsDropped (processEnrichmentRequest (\<lambda>_. None) ''id'' ''h'' 5 False sample_request sample_pipeline) =
          pl_recordsDropped sample_pipeline \<and>
        er_Exchange out = (if matchesWLCG (pl_corr sample_pipeline) (rq_record sample_request)
                           then ed_WLCGExchange (rq_destination sample_request) else []) \<and>
        cr_VO (er_Record out) = (if c_vo (pl_corr sample_pipeline) \<noteq> [] then c_vo (pl_corr sample_pipeline)
                                 else cr_VO (rq_record sample_request)) \<and>
        cr_Filename (er_Record out) = cr_Filename (rq_record sample_request) \<and>
        NeedsEnrichment (er_Record out) = (\<not> c_enableDNSEnrichment (pl_corr sample_pipeline) \<and> NeedsEnrichment (rq_record sample_request))"
  by (rule processEnrichmentRequest_outcome) (simp add: sample_pipeline_def)

lemma processEnrichmentRequest_keeps [simp]:
  "pl_queue (processEnrichmentRequest resolve uid host now g req pl) = pl_queue pl"
  "pl_done (processEnrichmentRequest resolve uid host now g req pl) = pl_done pl"
  by (simp_all add: processEnrichmentRequest_def Let_def case_prod_beta split: option.split)

lemma processEnrichmentRequest_gives_up:
  "pl_done pl \<Longrightarrow> pl_sent (processEnrichmentRequest resolve uid host now True req pl) = pl_sent pl"
  by (simp add: processEnrichmentRequest_def Let_def case_prod_beta split: option.split)

lemma drain_gives_up:
  assumes "pl_queue pl = Some q" and "q_ok q" and "q_closed q" and "pl_done pl"
    and "length schedule = q_size q" and "\<forall>(uid, now, g) \<in> set schedule. g"
  shows "pl_sent (drain resolve host schedule pl) = pl_sent pl \<and>
    (\<exists>q'. pl_queue (drain resolve host schedule pl) = Some q' \<and> q_items q' = [])"
  using assms
proof (induction schedule arbitrary: pl q)
  case Nil
  then show ?case by (auto simp: q_ok_def)
next
  case (Cons x schedule)
  obtain uid now where x: "x = (uid, now, True)" using Cons.prems(6) by (cases x) auto
  have "q_size q \<noteq> 0" using Cons.prems(5) by auto
  then obtain q' r where deq: "Dequeue q = (q', Got r)"
    by (cases "Dequeue q") (auto simp: Dequeue_def Let_def case_prod_beta)
  have q': "q_ok q'" "q_items q = r # q_items q'" using Dequeue_Got [OF Cons.prems(2) deq] by auto
  have "q_size q' = length schedule" "q_closed q'"
    using deq Cons.prems(3,5) by (auto simp: Dequeue_def Let_def case_prod_beta split: if_splits)
  with Cons.IH [of "processEnrichmentRequest resolve uid host now True r (pl\<lparr>pl_queue := Some q'\<rparr>)" q']
    Cons.prems(1,4,6) q' deq x show ?case
    by (simp add: worker_step_def processEnrichmentRequest_gives_up)
qed

text \<open>C29: Stopping may lose what is queued. \<open>Stop\<close> closes the queue so that the workers drain it,
  but cancels their context at once: there is a schedule of the workers in which every pending
  request is taken from the queue and not one record is sent, although the results channel
  has room.\<close>

theorem Stop_loses_pending:
  assumes "pl_queue pl = Some q" and "q_ok q"
  shows "\<exists>schedule. length schedule = q_size q \<and>
    pl_sent (drain resolve hostname schedule (Stop_begin pl)) = pl_sent pl \<and>
    (\<exists>q'. pl_queue (drain resolve hostname schedule (Stop_begin pl)) = Some q' \<and> q_items q' = [])"
proof (intro exI conjI)
  let ?s = "replicate (q_size q) ('''' :: string, 0 :: int, True)"
  show "length ?s = q_size q" by simp
  have "q_ok (Close q)" "q_closed (Close q)" "q_size (Close q) = q_size q"
    using assms(2) by (auto simp: Close_def q_ok_def q_items_def)
  with drain_gives_up [of "Stop_begin pl" "Close q" ?s resolve hostname] assms(1)
  show "pl_sent (drain resolve hostname ?s (Stop_begin pl)) = pl_sent pl"
    and "pl_queue (drain resolve hostname ?s (Stop_begin pl)) =
      Some (the (pl_queue (drain resolve hostname ?s (Stop_begin pl))))"
    and "q_items (the (pl_queue (drain resolve hostname ?s (Stop_begin pl)))) = []"
    by (auto simp: Stop_begin_def)
qed

definition sample_stopping :: pipeline where
  "sample_stopping = sample_pipeline\<lparr>pl_queue := Some (q_put sample_request (newEnrichmentWorkQueue 2))\<rparr>"

lemma Stop_loses_pending_witness:
  "\<exists>schedule. length schedule = q_size (q_put sample_request (newEnrichmentWorkQueue 2)) \<and>
    pl_sent (drain (\<lambda>_. None) ''h'' schedule (Stop_begin sample_stopping)) = pl_sent sample_stopping \<and>
    (\<exists>q'. pl_queue (drain (\<lambda>_. None) ''h'' schedule (Stop_begin sample_stopping)) = Some q' \<and> q_items q' = [])"
proof (rule Stop_loses_pending)
  show "pl_queue sample_stopping = Some (q_put sample_request (newEnrichmentWorkQueue 2))"
    by (simp add: sample_stopping_def)
  have "q_ok (newEnrichmentWorkQueue 2 :: enrichmentRequest enrichmentWorkQueue)"
    by (simp add: q_ok_def newEnrichmentWorkQueue_def q_items_def)
  then show "q_ok (q_put sample_request (newEnrichmentWorkQueue 2))" by (rule q_put_cases)
qed

text \<open>\<open>IsPowerOfTen\<close> is true exactly of the powers of ten.\<close>

theorem IsPowerOfTen_iff: "IsPowerOfTen n \<longleftrightarrow> (\<exists>k. sint n = 10 ^ k)"
proof (cases "0 < sint n")
  case True
  then show ?thesis by (simp add: IsPowerOfTen_def power_loop_iff)
next
  case False
  then have "sint n \<noteq> 10 ^ k" for k by (metis zero_less_numeral zero_less_power)
  with False show ?thesis by (simp add: IsPowerOfTen_def)
qed

end
