(* ===== verification/Confirmation_Queue.thy ===== *)
theory Confirmation_Queue
  imports Fifo Paths
begin

section \<open>The confirmation queue (queue.go)\<close>

text \<open>
  The queue between the packet side and the broker: messages stay in memory while there are few
  and move to a disk queue when there are many. The disk queue is the \<open>dque\<close> package, which is
  not part of the repository: its operations are fields of the model's state, and what the
  program relies on (\<open>dque_laws\<close>: a first-in first-out queue that does not fail) is a hypothesis
  inside the invariant. A \<open>Dequeue\<close> that would wait is \<open>Wait\<close>; one that meets a failing disk
  queue ends in the panic of a type assertion on nil. Opening the disk queue with its quarantine
  of corrupt segments is modelled over two operations on the file system.
\<close>

record MessageStruct =
  ms_Message :: string
  ms_Exchange :: string

text \<open>\<open>dq_Enqueue\<close> returns whether it succeeded; a failed \<open>dq_Dequeue\<close> returns no message.\<close>

record 'd dque =
  dq_Enqueue :: "MessageStruct \<Rightarrow> 'd \<Rightarrow> 'd \<times> bool"
  dq_Dequeue :: "'d \<Rightarrow> 'd \<times> MessageStruct option"
  dq_Size :: "'d \<Rightarrow> nat"

record 'd ConfirmationQueue =
  cq_ops :: "'d dque"
  cq_diskQueue :: 'd
  cq_memQueue :: "MessageStruct list"
  cq_usingDisk :: bool

abbreviation (input) "MaxInMemory \<equiv> (100 :: nat)"
abbreviation (input) "LowWaterMark \<equiv> (50 :: nat)"

subsection \<open>Operations\<close>

definition Init :: "'d dque \<Rightarrow> 'd \<Rightarrow> 'd ConfirmationQueue" where
  "Init ops opened =
     \<lparr>cq_ops = ops, cq_diskQueue = opened, cq_memQueue = [], cq_usingDisk = (0 < dq_Size ops opened)\<rparr>"

definition Size :: "'d ConfirmationQueue \<Rightarrow> nat" where
  "Size cq = (if cq_usingDisk cq then dq_Size (cq_ops cq) (cq_diskQueue cq) else length (cq_memQueue cq))"

text \<open>An error of the disk queue is logged and the message is lost.\<close>

definition disk_enqueue :: "MessageStruct \<Rightarrow> 'd ConfirmationQueue \<Rightarrow> 'd ConfirmationQueue" where
  "disk_enqueue msg cq = cq\<lparr>cq_diskQueue := fst (dq_Enqueue (cq_ops cq) msg (cq_diskQueue cq))\<rparr>"

definition EnqueueToExchange :: "string \<Rightarrow> string \<Rightarrow> 'd ConfirmationQueue \<Rightarrow> 'd ConfirmationQueue" where
  "EnqueueToExchange msg exchange cq =
     (let msgStruct = \<lparr>ms_Message = msg, ms_Exchange = exchange\<rparr>
      in if \<not> cq_usingDisk cq \<and> length (cq_memQueue cq) + 1 < MaxInMemory then
           cq\<lparr>cq_memQueue := cq_memQueue cq @ [msgStruct]\<rparr>
         else if \<not> cq_usingDisk cq \<and> MaxInMemory \<le> length (cq_memQueue cq) + 1 then
           (disk_enqueue msgStruct
              (fold disk_enqueue (cq_memQueue cq) (cq\<lparr>cq_memQueue := []\<rparr>)))\<lparr>cq_usingDisk := True\<rparr>
         else disk_enqueue msgStruct cq)"

definition Enqueue_msg :: "string \<Rightarrow> 'd ConfirmationQueue \<Rightarrow> 'd ConfirmationQueue" where
  "Enqueue_msg msg cq = EnqueueToExchange msg [] cq"

datatype cq_result = Wait | Received MessageStruct | Panic

text \<open>
  The transfer back to memory reads until the disk queue reports that it is empty; \<open>fuel\<close> is
  the number of reads, and the disk queue's own size at the start is enough when it is one
  (\<open>dque_laws\<close>). \<open>None\<close> is the panic of a failed read, or fuel that ran out.
\<close>

fun transfer_back ::
  "nat \<Rightarrow> 'd dque \<Rightarrow> 'd \<Rightarrow> MessageStruct list \<Rightarrow> ('d \<times> MessageStruct list) option" where
  "transfer_back 0 ops d mem = (if dq_Size ops d = 0 then Some (d, mem) else None)"
| "transfer_back (Suc fuel) ops d mem =
     (if dq_Size ops d = 0 then Some (d, mem)
      else case dq_Dequeue ops d of
             (d', Some m) \<Rightarrow> transfer_back fuel ops d' (mem @ [m])
           | (d', None) \<Rightarrow> None)"

definition dequeueLocked :: "'d ConfirmationQueue \<Rightarrow> 'd ConfirmationQueue \<times> cq_result" where
  "dequeueLocked cq =
     (let ops = cq_ops cq; d = cq_diskQueue cq
      in if \<not> cq_usingDisk cq then
           (case cq_memQueue cq of
              [] \<Rightarrow> (cq, Wait)
            | m # ms \<Rightarrow> (cq\<lparr>cq_memQueue := ms\<rparr>, Received m))
         else if dq_Size ops d = 0 then (cq, Wait)
         else if LowWaterMark \<le> dq_Size ops d - 1 then
           (case dq_Dequeue ops d of
              (d', Some m) \<Rightarrow> (cq\<lparr>cq_diskQueue := d'\<rparr>, Received m)
            | (d', None) \<Rightarrow> (cq\<lparr>cq_diskQueue := d'\<rparr>, Panic))
         else
           (case transfer_back (dq_Size ops d) ops d (cq_memQueue cq) of
              Some (d', m # ms) \<Rightarrow>
                (cq\<lparr>cq_diskQueue := d', cq_memQueue := ms, cq_usingDisk := False\<rparr>, Received m)
            | _ \<Rightarrow> (cq, Panic)))"

subsection \<open>The hypothesis on dque\<close>

text \<open>
  The documented behaviour of \<open>dque\<close>: \<open>items\<close> is what the directory holds, an enqueue appends,
  a dequeue takes the oldest, and the size is the number of items.
\<close>

definition dque_laws :: "('d \<Rightarrow> MessageStruct list) \<Rightarrow> 'd dque \<Rightarrow> bool" where
  "dque_laws items ops \<longleftrightarrow>
     (\<forall>m d. items (fst (dq_Enqueue ops m d)) = items d @ [m]) \<and>
     (\<forall>d m ms. items d = m # ms \<longrightarrow> snd (dq_Dequeue ops d) = Some m \<and> items (fst (dq_Dequeue ops d)) = ms) \<and>
     (\<forall>d. dq_Size ops d = length (items d))"

definition cq_items :: "('d \<Rightarrow> MessageStruct list) \<Rightarrow> 'd ConfirmationQueue \<Rightarrow> MessageStruct list" where
  "cq_items items cq = (if cq_usingDisk cq then items (cq_diskQueue cq) else cq_memQueue cq)"

text \<open>The messages are all on one side, and memory never holds \<open>MaxInMemory\<close> of them.\<close>

definition cq_ok :: "('d \<Rightarrow> MessageStruct list) \<Rightarrow> 'd ConfirmationQueue \<Rightarrow> bool" where
  "cq_ok items cq \<longleftrightarrow> dque_laws items (cq_ops cq) \<and>
     (if cq_usingDisk cq then cq_memQueue cq = []
      else items (cq_diskQueue cq) = [] \<and> length (cq_memQueue cq) < MaxInMemory)"

definition cq_put :: "MessageStruct \<Rightarrow> 'd ConfirmationQueue \<Rightarrow> 'd ConfirmationQueue" where
  "cq_put m cq = EnqueueToExchange (ms_Message m) (ms_Exchange m) cq"

definition cq_get :: "'d ConfirmationQueue \<Rightarrow> (MessageStruct \<times> 'd ConfirmationQueue) option" where
  "cq_get cq = (case dequeueLocked cq of (cq', Received m) \<Rightarrow> Some (m, cq') | _ \<Rightarrow> None)"

lemma dque_lawsD:
  assumes "dque_laws items ops"
  shows "items (fst (dq_Enqueue ops m d)) = items d @ [m]" and "dq_Size ops d = length (items d)"
    and "items d = m # ms \<Longrightarrow> \<exists>d'. dq_Dequeue ops d = (d', Some m) \<and> items d' = ms"
  using assms unfolding dque_laws_def by (blast, blast, metis prod.collapse)

lemma fold_disk_enqueue:
  "dque_laws items (cq_ops cq) \<Longrightarrow>
     \<exists>d. fold disk_enqueue ms cq = cq\<lparr>cq_diskQueue := d\<rparr> \<and> items d = items (cq_diskQueue cq) @ ms"
proof (induction ms arbitrary: cq)
  case Nil
  then show ?case by (intro exI [of _ "cq_diskQueue cq"]) simp
next
  case (Cons m ms)
  from Cons.IH [of "disk_enqueue m cq"] Cons.prems show ?case
    by (auto simp: disk_enqueue_def dque_lawsD(1))
qed

lemma transfer_back_all:
  "dque_laws items ops \<Longrightarrow> fuel = length (items d) \<Longrightarrow>
     \<exists>d'. transfer_back fuel ops d mem = Some (d', mem @ items d) \<and> items d' = []"
proof (induction fuel arbitrary: d mem)
  case 0
  then show ?case by (simp add: dque_lawsD(2))
next
  case (Suc fuel)
  then obtain m ms where ms: "items d = m # ms" by (cases "items d") auto
  then obtain d' where "dq_Dequeue ops d = (d', Some m)" "items d' = ms"
    using dque_lawsD(3) [OF Suc.prems(1)] by blast
  with Suc.IH [of d' "mem @ [m]"] Suc.prems ms show ?case
    by (auto simp: dque_lawsD(2))
qed

lemma cq_put_ok:
  assumes "cq_ok items cq"
  shows "cq_items items (cq_put m cq) = cq_items items cq @ [m] \<and> cq_ok items (cq_put m cq)"
proof -
  have laws: "dque_laws items (cq_ops cq)" using assms by (simp add: cq_ok_def)
  have m: "\<lparr>ms_Message = ms_Message m, ms_Exchange = ms_Exchange m\<rparr> = m" by simp
  obtain d where d: "fold disk_enqueue (cq_memQueue cq) (cq\<lparr>cq_memQueue := []\<rparr>) = cq\<lparr>cq_memQueue := [], cq_diskQueue := d\<rparr>"
    "items d = items (cq_diskQueue cq) @ cq_memQueue cq"
    using fold_disk_enqueue [of items "cq\<lparr>cq_memQueue := []\<rparr>" "cq_memQueue cq"] laws by auto
  show ?thesis
    using assms d laws
    by (auto simp: cq_put_def EnqueueToExchange_def Let_def m cq_items_def cq_ok_def disk_enqueue_def
        dque_lawsD(1))
qed

lemma dequeueLocked_ok:
  assumes "cq_ok items cq"
  shows "case cq_items items cq of
      [] \<Rightarrow> dequeueLocked cq = (cq, Wait)
    | m # ms \<Rightarrow> \<exists>cq'. dequeueLocked cq = (cq', Received m) \<and> cq_items items cq' = ms \<and> cq_ok items cq'"
proof (cases "cq_usingDisk cq")
  case False
  with assms show ?thesis
    by (auto simp: dequeueLocked_def cq_items_def cq_ok_def split: list.splits)
next
  case True
  have laws: "dque_laws items (cq_ops cq)" and mem: "cq_memQueue cq = []"
    using assms True by (simp_all add: cq_ok_def)
  note size = dque_lawsD(2) [OF laws]
  show ?thesis
  proof (cases "items (cq_diskQueue cq)")
    case Nil
    with True show ?thesis by (simp add: cq_items_def dequeueLocked_def size Let_def)
  next
    case (Cons m ms)
    obtain d' where d': "dq_Dequeue (cq_ops cq) (cq_diskQueue cq) = (d', Some m)" "items d' = ms"
      using dque_lawsD(3) [OF laws Cons] by blast
    obtain d2 where d2: "transfer_back (length (items (cq_diskQueue cq))) (cq_ops cq) (cq_diskQueue cq) []
        = Some (d2, m # ms)" "items d2 = []"
      using transfer_back_all [OF laws refl, of "cq_diskQueue cq" "[]"] Cons by auto
    show ?thesis
      using True Cons d' d2 laws mem
      by (auto simp: cq_items_def dequeueLocked_def size Let_def cq_ok_def)
  qed
qed

interpretation confirmation_queue: fifo "cq_items items" cq_put cq_get "\<lambda>_. True" "cq_ok items" for items
proof unfold_locales
  fix cq cq' :: "'a ConfirmationQueue" and m
  assume ok: "cq_ok items cq"
  then show "cq_items items (cq_put m cq) = (if True then cq_items items cq @ [m] else cq_items items cq)"
    and "cq_ok items (cq_put m cq)"
    using cq_put_ok by auto
  show "cq_get cq = None \<longleftrightarrow> cq_items items cq = []"
    using dequeueLocked_ok [OF ok] by (auto simp: cq_get_def split: list.splits)
  assume "cq_get cq = Some (m, cq')"
  then show "cq_items items cq = m # cq_items items cq'" and "cq_ok items cq'"
    using dequeueLocked_ok [OF ok] by (auto simp: cq_get_def split: list.splits prod.splits cq_result.splits)
qed

subsection \<open>Opening the disk queue\<close>

text \<open>The white space of a regular expression's \<open>\s\<close>.\<close>

definition re_space :: "char \<Rightarrow> bool" where
  "re_space c \<longleftrightarrow> c \<in> {CHR '' '', CHR 0x09, CHR 0x0A, CHR 0x0C, CHR 0x0D}"

text \<open>
  \<open>segment file (\S+\.dque)\s+is corrupted\<close> at the front of a text: white space has to follow
  the group, so the group is the whole run of other characters.
\<close>

definition corrupt_at :: "string \<Rightarrow> string option" where
  "corrupt_at s =
     (if has_prefix s ''segment file '' then
        (let rest = drop 13 s;
             run = takeWhile (\<lambda>c. \<not> re_space c) rest;
             tail = dropWhile (\<lambda>c. \<not> re_space c) rest
         in if 5 < length run \<and> suffix ''.dque'' run \<and> tail \<noteq> [] \<and>
               has_prefix (dropWhile re_space tail) ''is corrupted''
            then Some run else None)
      else None)"

fun find_corrupt :: "string \<Rightarrow> string option" where
  "find_corrupt [] = None"
| "find_corrupt (c # cs) = (case corrupt_at (c # cs) of Some p \<Rightarrow> Some p | None \<Rightarrow> find_corrupt cs)"

definition path_Dir :: "string \<Rightarrow> string" where
  "path_Dir p = path_Clean (if CHR ''/'' \<in> set p then before_last (CHR ''/'') p @ ''/'' else [])"

definition corruptSegmentPath :: "string \<Rightarrow> string \<Rightarrow> string" where
  "corruptSegmentPath errMsg queueDir =
     (case find_corrupt errMsg of
        None \<Rightarrow> []
      | Some m \<Rightarrow>
          (let segment = path_Clean m
           in if path_Dir segment \<noteq> path_Clean queueDir then [] else segment))"

datatype 'd open_result = Opened 'd | GaveUp string | OpenError string | QuarantineFailed string

abbreviation (input) "maxCorruptSegments \<equiv> (10 :: nat)"

text \<open>
  \<open>dque.NewOrOpen\<close> is the argument \<open>new_or_open\<close>, a queue or an error text, and the rename of a
  segment is \<open>quarantine\<close>, which changes the directory \<open>w\<close> or fails. The result also lists the
  segments moved aside.
\<close>

function openQueue_from ::
  "('w \<Rightarrow> 'd + string) \<Rightarrow> (string \<Rightarrow> 'w \<Rightarrow> 'w option) \<Rightarrow> string \<Rightarrow> nat \<Rightarrow> 'w \<Rightarrow> 'd open_result \<times> string list" where
  "openQueue_from new_or_open quarantine queueDir attempt w =
     (case new_or_open w of
        Inl queue \<Rightarrow> (Opened queue, [])
      | Inr err \<Rightarrow>
          if maxCorruptSegments \<le> attempt then (GaveUp err, [])
          else
            let segment = corruptSegmentPath err queueDir
            in if segment = [] then (OpenError err, [])
               else case quarantine segment w of
                      None \<Rightarrow> (QuarantineFailed segment, [])
                    | Some w' \<Rightarrow>
                        (case openQueue_from new_or_open quarantine queueDir (Suc attempt) w' of
                           (r, moved) \<Rightarrow> (r, segment # moved)))"
  by pat_completeness auto
termination
  by (relation "measure (\<lambda>(_, _, _, attempt, _). 10 - attempt)") auto

declare openQueue_from.simps [simp del]

definition openQueue ::
  "('w \<Rightarrow> 'd + string) \<Rightarrow> (string \<Rightarrow> 'w \<Rightarrow> 'w option) \<Rightarrow> string \<Rightarrow> 'w \<Rightarrow> 'd open_result \<times> string list" where
  "openQueue new_or_open quarantine queueDir w = openQueue_from new_or_open quarantine queueDir 0 w"

lemma openQueue_from_moved:
  "length (snd (openQueue_from opn qu dir attempt w)) \<le> 10 - attempt \<and>
   (\<forall>seg \<in> set (snd (openQueue_from opn qu dir attempt w)). path_Dir seg = path_Clean dir)"
proof (induction opn qu dir attempt w rule: openQueue_from.induct)
  case (1 opn qu dir attempt w)
  show ?case
  proof (cases "opn w")
    case (Inl d)
    then show ?thesis by (simp add: openQueue_from.simps)
  next
    case (Inr err)
    let ?seg = "corruptSegmentPath err dir"
    show ?thesis
    proof (cases "10 \<le> attempt \<or> ?seg = [] \<or> qu ?seg w = None")
      case True
      with Inr show ?thesis by (subst openQueue_from.simps, subst openQueue_from.simps) (auto simp: Let_def)
    next
      case False
      then obtain w' where w': "\<not> 10 \<le> attempt" "?seg \<noteq> []" "qu ?seg w = Some w'" by auto
      have "path_Dir ?seg = path_Clean dir"
        using w'(2) by (auto simp: corruptSegmentPath_def Let_def split: option.splits if_splits)
      moreover have "openQueue_from opn qu dir attempt w =
          (case openQueue_from opn qu dir (Suc attempt) w' of (r, moved) \<Rightarrow> (r, ?seg # moved))"
        using Inr w' by (subst openQueue_from.simps) (simp add: Let_def)
      ultimately show ?thesis
        using 1 [OF Inr w'(1) refl w'(2,3)] w'(1) by (auto simp: case_prod_beta)
    qed
  qed
qed

subsection \<open>Theorems\<close>

lemma cq_ok_Init:
  assumes "dque_laws items ops"
  shows "cq_ok items (Init ops opened) \<and> cq_items items (Init ops opened) = items opened"
  using assms by (auto simp: cq_ok_def Init_def cq_items_def dque_lawsD(2))

text \<open>Over a disk queue that keeps its documented laws, the confirmation queue is first-in
  first-out across every sequence of enqueues and dequeues, with the messages found on disk at
  the start in front: nothing is lost, repeated or reordered however often the messages move
  between memory and disk; fewer than 100 messages are ever in memory; no dequeue panics.\<close>

theorem confirmation_queue_fifo:
  assumes "dque_laws items ops"
    and "fifo_run cq_put cq_get (\<lambda>_. True) xs (Init ops opened) = (ins, outs, cq)"
  shows "items opened @ ins = outs @ cq_items items cq \<and>
    length (cq_memQueue cq) < 100 \<and> snd (dequeueLocked cq) \<noteq> Panic"
proof -
  have "cq_ok items (Init ops opened)" "cq_items items (Init ops opened) = items opened"
    using cq_ok_Init [OF assms(1)] by auto
  with confirmation_queue.run_conserves [OF this(1) assms(2)]
  have "items opened @ ins = outs @ cq_items items cq" and ok: "cq_ok items cq" by auto
  moreover have "length (cq_memQueue cq) < 100" using ok by (auto simp: cq_ok_def split: if_splits)
  moreover have "snd (dequeueLocked cq) \<noteq> Panic"
    using dequeueLocked_ok [OF ok] by (auto split: list.splits)
  ultimately show ?thesis by blast
qed

text \<open>A disk queue over a list, which keeps the laws.\<close>

definition list_dque :: "MessageStruct list dque" where
  "list_dque = \<lparr>dq_Enqueue = (\<lambda>m d. (d @ [m], True)),
     dq_Dequeue = (\<lambda>d. case d of [] \<Rightarrow> ([], None) | m # ms \<Rightarrow> (ms, Some m)), dq_Size = length\<rparr>"

definition sample_msg :: "string \<Rightarrow> MessageStruct" where
  "sample_msg s = \<lparr>ms_Message = s, ms_Exchange = []\<rparr>"

lemma confirmation_queue_fifo_witness:
  "[sample_msg ''a''] @ [sample_msg ''b''] = [sample_msg ''a''] @ cq_items id \<lparr>cq_ops = list_dque,
     cq_diskQueue = [], cq_memQueue = [sample_msg ''b''], cq_usingDisk = False\<rparr> \<and>
   length (cq_memQueue \<lparr>cq_ops = list_dque, cq_diskQueue = [], cq_memQueue = [sample_msg ''b''],
     cq_usingDisk = False\<rparr>) < 100 \<and>
   snd (dequeueLocked \<lparr>cq_ops = list_dque, cq_diskQueue = [], cq_memQueue = [sample_msg ''b''],
     cq_usingDisk = False\<rparr>) \<noteq> Panic"
proof -
  have laws: "dque_laws id list_dque" by (simp add: dque_laws_def list_dque_def)
  have run: "fifo_run cq_put cq_get (\<lambda>_. True) [Enq (sample_msg ''b''), Deq] (Init list_dque [sample_msg ''a'']) =
      ([sample_msg ''b''], [sample_msg ''a''], \<lparr>cq_ops = list_dque, cq_diskQueue = [],
        cq_memQueue = [sample_msg ''b''], cq_usingDisk = False\<rparr>)"
    by (simp add: Init_def list_dque_def cq_put_def cq_get_def EnqueueToExchange_def disk_enqueue_def
        dequeueLocked_def sample_msg_def Let_def eval_nat_numeral)
  from confirmation_queue_fifo [OF laws run] show ?thesis by simp
qed

text \<open>Opening the disk queue ends after at most ten segments have been moved aside, and every
  segment it moves lies directly in the queue's directory, whatever path an error text names.\<close>

theorem openQueue_confined:
  "length (snd (openQueue new_or_open quarantine queueDir w)) \<le> 10 \<and>
   list_all (\<lambda>seg. path_Dir seg = path_Clean queueDir) (snd (openQueue new_or_open quarantine queueDir w))"
  using openQueue_from_moved [of new_or_open quarantine queueDir 0 w]
  by (simp add: openQueue_def list_all_iff)

end
