(* ===== verification/Go_Base64.thy ===== *)
theory Go_Base64
  imports Go_Strings
begin

section \<open>base64.StdEncoding\<close>

text \<open>
  The standard alphabet with padding, as the library encodes and decodes it: the decoder skips
  carriage returns and newlines wherever they stand, wants the padding, ignores the bits a short
  last group leaves over, and refuses everything else. The lemma is the round trip.
\<close>

definition b64_char :: "nat \<Rightarrow> char" where
  "b64_char n =
     (if n < 26 then char_of (65 + n) else if n < 52 then char_of (71 + n)
      else if n < 62 then char_of (n - 4) else if n = 62 then CHR ''+'' else CHR ''/'')"

definition b64_val :: "char \<Rightarrow> nat option" where
  "b64_val c =
     (let k = byte_nat c
      in if 65 \<le> k \<and> k \<le> 90 then Some (k - 65)
         else if 97 \<le> k \<and> k \<le> 122 then Some (k - 71)
         else if 48 \<le> k \<and> k \<le> 57 then Some (k + 4)
         else if c = CHR ''+'' then Some 62
         else if c = CHR ''/'' then Some 63
         else None)"

abbreviation (input) "b64_pad \<equiv> CHR ''=''"

fun EncodeToString :: "bytes \<Rightarrow> string" where
  "EncodeToString (a # b # c # rest) =
     (let n = byte_nat a * 65536 + byte_nat b * 256 + byte_nat c
      in b64_char (n div 262144) # b64_char (n div 4096 mod 64) # b64_char (n div 64 mod 64) #
         b64_char (n mod 64) # EncodeToString rest)"
| "EncodeToString [a, b] =
     (let n = byte_nat a * 65536 + byte_nat b * 256
      in [b64_char (n div 262144), b64_char (n div 4096 mod 64), b64_char (n div 64 mod 64), b64_pad])"
| "EncodeToString [a] =
     (let n = byte_nat a * 65536
      in [b64_char (n div 262144), b64_char (n div 4096 mod 64), b64_pad, b64_pad])"
| "EncodeToString [] = []"

text \<open>One group of four, the characters after it, and its value as 24 bits.\<close>

definition b64_byte :: "nat \<Rightarrow> nat \<Rightarrow> char" where
  "b64_byte n shift = char_of (n div 2 ^ shift mod 256)"

fun b64_decode :: "string \<Rightarrow> bytes option" where
  "b64_decode [] = Some []"
| "b64_decode (p # q # r # s # rest) =
     (case (b64_val p, b64_val q) of
        (Some i, Some j) \<Rightarrow>
          (if r = b64_pad then
             (if s = b64_pad \<and> rest = [] then Some [b64_byte (i * 262144 + j * 4096) 16] else None)
           else case b64_val r of
             None \<Rightarrow> None
           | Some k \<Rightarrow>
               (if s = b64_pad then
                  (if rest = [] then
                     (let n = i * 262144 + j * 4096 + k * 64 in Some [b64_byte n 16, b64_byte n 8])
                   else None)
                else case b64_val s of
                  None \<Rightarrow> None
                | Some l \<Rightarrow>
                    (let n = i * 262144 + j * 4096 + k * 64 + l
                     in map_option (\<lambda>bs. b64_byte n 16 # b64_byte n 8 # b64_byte n 0 # bs) (b64_decode rest))))
      | _ \<Rightarrow> None)"
| "b64_decode s = None"

definition DecodeString :: "string \<Rightarrow> bytes option" where
  "DecodeString s = b64_decode (filter (\<lambda>c. c \<noteq> CHR 0x0A \<and> c \<noteq> CHR 0x0D) s)"

lemma b64_val_char: "n < 64 \<Longrightarrow> b64_val (b64_char n) = Some n"
  by (auto simp: b64_val_def b64_char_def Let_def)

lemma b64_char_not_special:
  "n < 64 \<Longrightarrow> b64_char n \<noteq> b64_pad \<and> b64_char n \<noteq> CHR 0x0A \<and> b64_char n \<noteq> CHR 0x0D"
  using b64_val_char [of n] by (auto simp: b64_val_def Let_def)

lemma digits4_sum:
  "n = x * 64 + r \<Longrightarrow> x = y * 64 + s \<Longrightarrow> y = z * 64 + t \<Longrightarrow> z * 262144 + t * 4096 + s * 64 + r = (n :: nat)"
  by simp

lemma digits4: "(n :: nat) div 262144 * 262144 + n div 4096 mod 64 * 4096 + n div 64 mod 64 * 64 + n mod 64 = n"
proof -
  have d: "n div 4096 = n div 64 div 64" "n div 262144 = n div 64 div 64 div 64"
    by (simp_all add: div_mult2_eq [symmetric])
  show ?thesis unfolding d by (rule digits4_sum) (simp_all only: div_mult_mod_eq)
qed

lemma bytes3_less: "a < 256 \<Longrightarrow> b < 256 \<Longrightarrow> c < 256 \<Longrightarrow> a * 65536 + b * 256 + c < (16777216 :: nat)"
  by simp

lemma bytes3:
  assumes "n = byte_nat a * 65536 + byte_nat b * 256 + byte_nat c"
  shows "b64_byte n 16 = a" and "b64_byte n 8 = b" and "b64_byte n 0 = c" and "n div 262144 < 64"
proof -
  have bounds: "byte_nat a < 256" "byte_nat b < 256" "byte_nat c < 256" by simp_all
  have n: "n = byte_nat c + (byte_nat b + byte_nat a * 256) * 256" using assms by simp
  then have n8: "n div 256 = byte_nat b + byte_nat a * 256" "n mod 256 = byte_nat c"
    using bounds by (simp_all only: div_mult_self1 mod_mult_self1 div_less mod_less)
  then have "n div 256 div 256 = byte_nat a" "n div 256 mod 256 = byte_nat b"
    using bounds by simp_all
  moreover have "n div 65536 = n div 256 div 256" by (simp add: div_mult2_eq [symmetric])
  ultimately show "b64_byte n 16 = a" "b64_byte n 8 = b" "b64_byte n 0 = c"
    using bounds n8 by (simp_all add: b64_byte_def)
  have "n < 16777216" unfolding assms by (rule bytes3_less) (rule bounds)+
  then show "n div 262144 < 64" by (simp add: less_mult_imp_div_less)
qed

lemma b64_decode_EncodeToString: "b64_decode (EncodeToString bs) = Some bs"
proof (induction bs rule: EncodeToString.induct)
  case (1 a b c rest)
  let ?n = "byte_nat a * 65536 + byte_nat b * 256 + byte_nat c"
  note n = bytes3 [OF refl, of a b c] and digits = digits4 [of ?n]
  show ?case
    using 1 n digits by (simp add: Let_def b64_val_char b64_char_not_special)
next
  case (2 a b)
  let ?n = "byte_nat a * 65536 + byte_nat b * 256"
  have n: "b64_byte ?n 16 = a" "b64_byte ?n 8 = b" "?n div 262144 < 64"
    using bytes3 [of ?n a b "CHR 0x00"] by simp_all
  have "?n mod 64 = 0" by (simp add: mod_simps)
  with digits4 [of ?n] have "?n div 262144 * 262144 + ?n div 4096 mod 64 * 4096 + ?n div 64 mod 64 * 64 = ?n"
    by simp
  with n show ?case by (simp add: Let_def b64_val_char b64_char_not_special)
next
  case (3 a)
  let ?n = "byte_nat a * 65536"
  have n: "b64_byte ?n 16 = a" "?n div 262144 < 64"
    using bytes3 [of ?n a "CHR 0x00" "CHR 0x00"] by simp_all
  have "?n mod 64 = 0" "?n div 64 mod 64 = 0" by (simp_all add: mod_simps)
  with digits4 [of ?n] have "?n div 262144 * 262144 + ?n div 4096 mod 64 * 4096 = ?n" by simp
  with n show ?case by (simp add: Let_def b64_val_char b64_char_not_special)
qed simp

end
