(* ===== verification/Go_Floats.thy ===== *)
theory Go_Floats
  imports Prelude
begin

section \<open>float64\<close>

text \<open>
  Doubles as their 64 bits: rounding of a non-negative fraction to the nearest double, ties to
  even, the exact value of a finite double in units of 2^-1074, and addition and subtraction as
  rounding of the exact result. The lemmas: rounding gives back every finite double, so adding a
  zero changes nothing, and a sum of integers that fits 53 bits is exact.
\<close>

fun bit_length :: "nat \<Rightarrow> nat" where
  "bit_length n = (if n = 0 then 0 else Suc (bit_length (n div 2)))"

declare bit_length.simps [simp del]

definition round_half_even :: "nat \<Rightarrow> nat \<Rightarrow> nat" where
  "round_half_even n d =
     (let q = n div d; r = n mod d
      in if 2 * r < d \<or> (2 * r = d \<and> even q) then q else q + 1)"

text \<open>One, in units of 2^-1074.\<close>

definition f64_scale :: nat where
  "f64_scale = 2 ^ 1074"

text \<open>
  The bits of \<open>n / d\<close> units of 2^-1074. The binade is the one that holds the quotient; below
  2^53 units the exponent field and the fraction are the units themselves.
\<close>

definition f64_round :: "nat \<Rightarrow> nat \<Rightarrow> nat" where
  "f64_round n d =
     (let shift = bit_length (n div d) - 53
      in shift * 2 ^ 52 + round_half_even n (d * 2 ^ shift))"

abbreviation (input) "f64_inf_bits \<equiv> (9218868437227405312 :: nat)"

text \<open>Sign and rounded magnitude; a magnitude past the largest double is an infinity.\<close>

definition f64_make :: "bool \<Rightarrow> nat \<Rightarrow> uint64" where
  "f64_make neg bits = word_of_nat ((if neg then 2 ^ 63 else 0) + min bits f64_inf_bits)"

definition f64_neg :: "uint64 \<Rightarrow> bool" where
  "f64_neg w = (2 ^ 63 \<le> unat w)"

definition f64_magnitude :: "uint64 \<Rightarrow> nat" where
  "f64_magnitude w = unat w mod 2 ^ 63"

definition f64_finite :: "uint64 \<Rightarrow> bool" where
  "f64_finite w = (f64_magnitude w < f64_inf_bits)"

definition f64_nan :: "uint64 \<Rightarrow> bool" where
  "f64_nan w = (f64_inf_bits < f64_magnitude w)"

definition f64_units :: "uint64 \<Rightarrow> nat" where
  "f64_units w =
     (let e = f64_magnitude w div 2 ^ 52; frac = f64_magnitude w mod 2 ^ 52
      in if e = 0 then frac else (2 ^ 52 + frac) * 2 ^ (e - 1))"

definition f64_signed_units :: "uint64 \<Rightarrow> int" where
  "f64_signed_units w = (if f64_neg w then - int (f64_units w) else int (f64_units w))"

abbreviation (input) "f64_NaN \<equiv> (0x7FF8000000000001 :: uint64)"

definition f64_add :: "uint64 \<Rightarrow> uint64 \<Rightarrow> uint64" where
  "f64_add a b =
     (if f64_nan a \<or> f64_nan b then f64_NaN
      else if \<not> f64_finite a then (if \<not> f64_finite b \<and> f64_neg a \<noteq> f64_neg b then f64_NaN else a)
      else if \<not> f64_finite b then b
      else
        let s = f64_signed_units a + f64_signed_units b
        in if s = 0 then f64_make (f64_neg a \<and> f64_neg b) 0
           else f64_make (s < 0) (f64_round (nat \<bar>s\<bar>) 1))"

definition f64_sub :: "uint64 \<Rightarrow> uint64 \<Rightarrow> uint64" where
  "f64_sub a b = f64_add a (if f64_nan b then b else f64_make (\<not> f64_neg b) (f64_magnitude b))"

text \<open>
  \<open>strconv.ParseFloat\<close> of a number with decimal digits \<open>mant\<close> and exponent \<open>e10\<close>: \<open>None\<close> is out
  of range.
\<close>

definition f64_parse :: "bool \<Rightarrow> nat \<Rightarrow> int \<Rightarrow> uint64 option" where
  "f64_parse neg mant e10 =
     (let bits = (if mant = 0 then 0
                  else if 0 \<le> e10 then f64_round (mant * 10 ^ nat e10 * f64_scale) 1
                  else f64_round (mant * f64_scale) (10 ^ nat (- e10)))
      in if f64_inf_bits \<le> bits then None else Some (f64_make neg bits))"

definition f64_of_nat :: "nat \<Rightarrow> uint64" where
  "f64_of_nat n = f64_make False (f64_round (n * f64_scale) 1)"

subsection \<open>Rounding gives back a double\<close>

lemma bit_length_bounds: "0 < n \<Longrightarrow> 2 ^ (bit_length n - 1) \<le> n \<and> n < 2 ^ bit_length n \<and> 0 < bit_length n"
proof (induction n rule: bit_length.induct)
  case (1 n)
  show ?case
  proof (cases "n div 2 = 0")
    case True
    then have "n = 1" using 1(2) by auto
    then show ?thesis by (simp add: bit_length.simps)
  next
    case False
    define k where "k = bit_length (n div 2)"
    have IH: "2 ^ (k - 1) \<le> n div 2" "n div 2 < 2 ^ k" "0 < k"
      using 1 False unfolding k_def by auto
    then have "2 * 2 ^ (k - 1) \<le> n" "n < 2 * 2 ^ k" by linarith+
    moreover have "2 * 2 ^ (k - 1) = (2 :: nat) ^ k" using IH(3) by (cases k) auto
    moreover have "bit_length n = Suc k" using 1(2) by (simp add: bit_length.simps [of n] k_def)
    ultimately show ?thesis by simp
  qed
qed

lemma bit_length_unique:
  assumes "2 ^ k \<le> n" and "n < 2 ^ Suc k"
  shows "bit_length n = Suc k"
proof -
  have "0 < n" using assms(1) by (metis less_le_trans zero_less_numeral zero_less_power)
  then have b: "2 ^ (bit_length n - 1) \<le> n" "n < 2 ^ bit_length n" "0 < bit_length n"
    using bit_length_bounds by auto
  have "(2 :: nat) ^ k < 2 ^ bit_length n" "(2 :: nat) ^ (bit_length n - 1) < 2 ^ Suc k"
    using assms b by linarith+
  then have "k < bit_length n" "bit_length n - 1 < Suc k" by (simp_all only: power_strict_increasing_iff one_less_numeral_iff semiring_norm)
  then show ?thesis using b(3) by linarith
qed

lemma bit_length_small: "n < 2 ^ k \<Longrightarrow> bit_length n \<le> k"
proof (rule ccontr)
  assume "n < 2 ^ k" and "\<not> bit_length n \<le> k"
  then have "k \<le> bit_length n - 1" "0 < n" by (auto simp: bit_length.simps split: if_splits)
  then have "2 ^ k \<le> n" using bit_length_bounds [of n] by (meson le_trans one_le_numeral power_increasing)
  with \<open>n < 2 ^ k\<close> show False by simp
qed

lemma round_half_even_exact: "0 < d \<Longrightarrow> round_half_even (q * d) d = q"
  by (simp add: round_half_even_def)

text \<open>A number of units with at most 53 significant bits is rounded to itself.\<close>

lemma f64_round_small: "n < 2 ^ 53 \<Longrightarrow> f64_round n 1 = n"
  using bit_length_small [of n 53] round_half_even_exact [of 1 n] by (simp add: f64_round_def Let_def)

lemma f64_round_normal:
  assumes "m < 2 ^ 52"
  shows "f64_round ((2 ^ 52 + m) * 2 ^ s) 1 = s * 2 ^ 52 + (2 ^ 52 + m)"
proof -
  have "2 ^ (52 + s) \<le> (2 ^ 52 + m) * 2 ^ s" by (simp only: power_add mult_le_mono1 le_add1)
  moreover have "(2 ^ 52 + m) * 2 ^ s < 2 ^ 53 * 2 ^ s" using assms by simp
  then have "(2 ^ 52 + m) * 2 ^ s < 2 ^ Suc (52 + s)" by (simp add: power_add)
  ultimately have "bit_length ((2 ^ 52 + m) * 2 ^ s) = Suc (52 + s)" by (rule bit_length_unique)
  then show ?thesis
    using round_half_even_exact [of "2 ^ s" "2 ^ 52 + m"] by (simp add: f64_round_def Let_def)
qed

lemma f64_round_units: "f64_round (f64_units w) 1 = f64_magnitude w"
proof -
  define e where "e = f64_magnitude w div 2 ^ 52"
  define m where "m = f64_magnitude w mod 2 ^ 52"
  have m: "m < 2 ^ 52" "f64_magnitude w = e * 2 ^ 52 + m" by (simp_all add: m_def e_def)
  have u: "f64_units w = (if e = 0 then m else (2 ^ 52 + m) * 2 ^ (e - 1))"
    by (simp add: f64_units_def e_def m_def Let_def)
  show ?thesis
  proof (cases e)
    case 0
    with m u f64_round_small [of m] show ?thesis by simp
  next
    case (Suc k)
    with m u f64_round_normal [of m k] show ?thesis by simp
  qed
qed

subsection \<open>Integers of at most 53 bits\<close>

lemma f64_make_pos:
  "bits < f64_inf_bits \<Longrightarrow> f64_magnitude (f64_make False bits) = bits \<and> \<not> f64_neg (f64_make False bits) \<and>
     f64_finite (f64_make False bits)"
  by (simp add: f64_make_def f64_magnitude_def f64_neg_def f64_finite_def unat_of_nat)

lemma f64_round_nat:
  assumes "0 < n" and "n < 2 ^ 53"
  shows "\<exists>m s. m < 2 ^ 52 \<and> s \<le> 1074 \<and> n * f64_scale = (2 ^ 52 + m) * 2 ^ s \<and>
    f64_round (n * f64_scale) 1 = s * 2 ^ 52 + (2 ^ 52 + m)"
proof -
  define l where "l = bit_length n"
  have l: "2 ^ (l - 1) \<le> n" "n < 2 ^ l" "0 < l" "l \<le> 53"
    using bit_length_bounds [OF assms(1)] bit_length_small [OF assms(2)] by (simp_all add: l_def)
  define M where "M = n * 2 ^ (53 - l)"
  have "(l - 1) + (53 - l) = 52" "l + (53 - l) = 53" using l(3,4) by simp_all
  then have pow: "(2 :: nat) ^ (l - 1) * 2 ^ (53 - l) = 2 ^ 52" "(2 :: nat) ^ l * 2 ^ (53 - l) = 2 ^ 53"
    by (simp_all only: flip: power_add)
  have "2 ^ 52 \<le> M" using l(1) pow(1) unfolding M_def by (metis mult_le_mono1)
  then obtain m where m: "M = 2 ^ 52 + m" using le_Suc_ex by blast
  have "M < 2 ^ 53" using l(2) pow(2) unfolding M_def by (metis mult_less_mono1 zero_less_numeral zero_less_power)
  with m have small: "m < 2 ^ 52" by simp
  have "53 - l + (l + 1021) = 1074" using l(4) by simp
  then have scaled: "n * f64_scale = M * 2 ^ (l + 1021)"
    unfolding M_def f64_scale_def by (metis mult.assoc power_add)
  show ?thesis
    using f64_round_normal [OF small, of "l + 1021"] small l(4)
    by (intro exI [of _ m] exI [of _ "l + 1021"]) (simp only: scaled m, simp)
qed

lemma f64_of_nat_units:
  assumes "n < 2 ^ 53"
  shows "f64_units (f64_of_nat n) = n * f64_scale \<and> \<not> f64_neg (f64_of_nat n) \<and> f64_finite (f64_of_nat n)"
proof (cases "n = 0")
  case True
  then show ?thesis using f64_round_small [of 0] f64_make_pos [of 0]
    by (simp add: f64_of_nat_def f64_units_def)
next
  case False
  with f64_round_nat [OF _ assms] obtain m s where ms: "m < 2 ^ 52" "s \<le> 1074"
    "n * f64_scale = (2 ^ 52 + m) * 2 ^ s" "f64_round (n * f64_scale) 1 = s * 2 ^ 52 + (2 ^ 52 + m)"
    by auto
  have "s * 2 ^ 52 + (2 ^ 52 + m) < f64_inf_bits" using ms(1,2) by simp
  note b = f64_make_pos [OF this]
  have "(s * 2 ^ 52 + (2 ^ 52 + m)) div 2 ^ 52 = Suc s" "(s * 2 ^ 52 + (2 ^ 52 + m)) mod 2 ^ 52 = m"
    using ms(1) by simp_all
  with b ms show ?thesis by (simp add: f64_of_nat_def f64_units_def Let_def)
qed

lemma unat_f64_word: "k < 2 ^ 64 \<Longrightarrow> unat (word_of_nat k :: uint64) = k"
  by (simp add: unat_of_nat)

lemma f64_make_minus:
  assumes "bits < f64_inf_bits"
  shows "f64_magnitude (f64_make True bits) = bits \<and> f64_neg (f64_make True bits) \<and>
    f64_finite (f64_make True bits)"
proof -
  have "2 ^ 63 + bits < 2 ^ 64" using assms by simp
  then have "unat (f64_make True bits) = 2 ^ 63 + bits"
    using unat_f64_word [of "2 ^ 63 + bits"] assms by (simp add: f64_make_def)
  then show ?thesis using assms by (simp add: f64_magnitude_def f64_neg_def f64_finite_def)
qed

text \<open>Addition of finite doubles whose exact sum is an integer of at most 54 bits.\<close>

lemma f64_add_exact:
  assumes "f64_finite a" and "f64_finite b" and "\<not> f64_neg a"
    and sum: "f64_signed_units a + f64_signed_units b = int (n * f64_scale)"
  shows "f64_add a b = f64_of_nat n"
proof -
  have fin: "\<not> f64_nan a" "\<not> f64_nan b" using assms(1,2) by (simp_all add: f64_nan_def f64_finite_def)
  show ?thesis
  proof (cases "n * f64_scale")
    case 0
    then have "f64_of_nat n = f64_make False 0"
      using f64_round_small [of 0] by (simp only: f64_of_nat_def) simp
    with 0 fin assms show ?thesis by (simp add: f64_add_def Let_def)
  next
    case (Suc k)
    then have "int (n * f64_scale) \<noteq> 0" "\<not> int (n * f64_scale) < 0" by simp_all
    moreover have "nat \<bar>int (n * f64_scale)\<bar> = n * f64_scale" by (simp only: abs_of_nat nat_int)
    ultimately show ?thesis
      using fin assms unfolding f64_add_def Let_def sum f64_of_nat_def by (simp only: if_False simp_thms)
  qed
qed

lemma f64_add_nat:
  assumes "a < 2 ^ 53" and "b < 2 ^ 53"
  shows "f64_add (f64_of_nat a) (f64_of_nat b) = f64_of_nat (a + b)"
proof (rule f64_add_exact)
  note u = f64_of_nat_units [OF assms(1)] f64_of_nat_units [OF assms(2)]
  show "f64_finite (f64_of_nat a)" "f64_finite (f64_of_nat b)" "\<not> f64_neg (f64_of_nat a)" using u by auto
  show "f64_signed_units (f64_of_nat a) + f64_signed_units (f64_of_nat b) = int ((a + b) * f64_scale)"
    using u by (simp add: f64_signed_units_def distrib_right)
qed

lemma f64_sub_nat:
  assumes "b \<le> a" and "a < 2 ^ 53"
  shows "f64_sub (f64_of_nat a) (f64_of_nat b) = f64_of_nat (a - b)"
proof -
  have "b < 2 ^ 53" using assms by simp
  note u = f64_of_nat_units [OF assms(2)] f64_of_nat_units [OF this]
  let ?nb = "f64_make True (f64_magnitude (f64_of_nat b))"
  have nb: "f64_magnitude ?nb = f64_magnitude (f64_of_nat b)" "f64_neg ?nb" "f64_finite ?nb"
    using u f64_make_minus [of "f64_magnitude (f64_of_nat b)"] by (simp_all add: f64_finite_def)
  then have "f64_units ?nb = b * f64_scale" using u by (simp add: f64_units_def)
  then have "f64_signed_units (f64_of_nat a) + f64_signed_units ?nb = int ((a - b) * f64_scale)"
    using u nb assms(1) by (simp add: f64_signed_units_def of_nat_diff diff_mult_distrib)
  then have "f64_add (f64_of_nat a) ?nb = f64_of_nat (a - b)"
    using u nb by (intro f64_add_exact) auto
  moreover have "\<not> f64_nan (f64_of_nat b)" using u by (simp add: f64_nan_def f64_finite_def)
  ultimately show ?thesis using u by (simp add: f64_sub_def)
qed

end
