(* ===== verification/Go_Json.thy ===== *)
theory Go_Json
  imports Wire_Types Go_Floats Go_Numbers
begin

section \<open>encoding/json\<close>

text \<open>
  What the program uses of the JSON library. Decoding: the grammar with its white space, string
  escapes, surrogates, replacement of bytes that are not UTF-8, numbers as doubles, the nesting
  limit of 10000, and the rule that the last of two equal keys counts. Encoding: the quoting of a
  string. A decoder runs on fuel, the length of the text being enough (\<open>json_fuel\<close>). The
  lemmas: a quoted ASCII string reads back, and more fuel changes nothing.
\<close>

subsection \<open>UTF-8\<close>

definition utf8_cont :: "char \<Rightarrow> bool" where
  "utf8_cont c \<longleftrightarrow> 128 \<le> byte_nat c \<and> byte_nat c \<le> 191"

text \<open>The length of the rune a text starts with, 0 when its first byte starts no valid rune.\<close>

definition utf8_len :: "string \<Rightarrow> nat" where
  "utf8_len s =
     (case s of
        [] \<Rightarrow> 0
      | a # r \<Rightarrow>
          (let k = byte_nat a; b = byte_nat (r ! 0)
           in if k < 128 then 1
              else if 194 \<le> k \<and> k \<le> 223 then (if 1 \<le> length r \<and> utf8_cont (r ! 0) then 2 else 0)
              else if 224 \<le> k \<and> k \<le> 239 then
                (if 2 \<le> length r \<and> utf8_cont (r ! 0) \<and> utf8_cont (r ! 1) \<and>
                    (k = 224 \<longrightarrow> 160 \<le> b) \<and> (k = 237 \<longrightarrow> b \<le> 159) then 3 else 0)
              else if 240 \<le> k \<and> k \<le> 244 then
                (if 3 \<le> length r \<and> utf8_cont (r ! 0) \<and> utf8_cont (r ! 1) \<and> utf8_cont (r ! 2) \<and>
                    (k = 240 \<longrightarrow> 144 \<le> b) \<and> (k = 244 \<longrightarrow> b \<le> 143) then 4 else 0)
              else 0))"

definition utf8_encode :: "nat \<Rightarrow> string" where
  "utf8_encode n =
     (if n < 128 then [char_of n]
      else if n < 2048 then [char_of (192 + n div 64), char_of (128 + n mod 64)]
      else if n < 65536 then
        [char_of (224 + n div 4096), char_of (128 + n div 64 mod 64), char_of (128 + n mod 64)]
      else [char_of (240 + n div 262144), char_of (128 + n div 4096 mod 64),
            char_of (128 + n div 64 mod 64), char_of (128 + n mod 64)])"

abbreviation (input) "replacement_rune \<equiv> (65533 :: nat)"

subsection \<open>Strings\<close>

text \<open>The four hexadecimal digits of a \<open>\u\<close> escape.\<close>

definition json_u4 :: "string \<Rightarrow> nat option" where
  "json_u4 s = (if 4 \<le> length s \<and> list_all is_hex (take 4 s) then Some (hex_val (take 4 s)) else None)"

text \<open>An escape, after its backslash: the text it stands for and what follows.\<close>

definition json_escape :: "string \<Rightarrow> (string \<times> string) option" where
  "json_escape s =
     (case s of
        [] \<Rightarrow> None
      | c # r \<Rightarrow>
          if c \<in> {CHR 0x22, CHR 0x5C, CHR ''/''} then Some ([c], r)
          else if c = CHR ''b'' then Some ([CHR 0x08], r)
          else if c = CHR ''f'' then Some ([CHR 0x0C], r)
          else if c = CHR ''n'' then Some ([CHR 0x0A], r)
          else if c = CHR ''r'' then Some ([CHR 0x0D], r)
          else if c = CHR ''t'' then Some ([CHR 0x09], r)
          else if c = CHR ''u'' then
            (case json_u4 r of
               None \<Rightarrow> None
             | Some n \<Rightarrow>
                 (let r1 = drop 4 r;
                      low = (if has_prefix r1 [CHR 0x5C, CHR ''u''] then json_u4 (drop 2 r1) else None)
                  in if n < 55296 \<or> 57344 \<le> n then Some (utf8_encode n, r1)
                     else (case low of
                             Some m \<Rightarrow>
                               if n < 56320 \<and> 56320 \<le> m \<and> m < 57344
                               then Some (utf8_encode ((n - 55296) * 1024 + (m - 56320) + 65536), drop 6 r1)
                               else Some (utf8_encode replacement_rune, r1)
                           | None \<Rightarrow> Some (utf8_encode replacement_rune, r1))))
          else None)"

lemma json_escape_shorter: "json_escape s = Some (x, r) \<Longrightarrow> length r < length s"
  by (cases s) (auto simp: json_escape_def Let_def split: if_splits option.splits)

definition prepend :: "string \<Rightarrow> (string \<times> 'a) option \<Rightarrow> (string \<times> 'a) option" where
  "prepend p x = map_option (\<lambda>(s, r). (p @ s, r)) x"

text \<open>The rest of a string after its opening quote.\<close>

function json_string :: "string \<Rightarrow> (string \<times> string) option" where
  "json_string [] = None"
| "json_string (c # r) =
     (if c = CHR 0x22 then Some ([], r)
      else if c = CHR 0x5C then
        (case json_escape r of None \<Rightarrow> None | Some (x, r1) \<Rightarrow> prepend x (json_string r1))
      else if byte_nat c < 32 then None
      else if utf8_len (c # r) = 0 then prepend (utf8_encode replacement_rune) (json_string r)
      else prepend (take (utf8_len (c # r)) (c # r)) (json_string (drop (utf8_len (c # r)) (c # r))))"
  by pat_completeness auto
termination
  by (relation "measure length") (auto dest: json_escape_shorter)

declare json_string.simps(2) [simp del]

text \<open>Quoting, with the HTML characters escaped.\<close>

definition hex_digits :: "nat \<Rightarrow> string" where
  "hex_digits n = [digit_char (n div 16), digit_char (n mod 16)]"

definition quote_ascii :: "char \<Rightarrow> string" where
  "quote_ascii c =
     (if c = CHR 0x22 \<or> c = CHR 0x5C then [CHR 0x5C, c]
      else if c = CHR 0x08 then [CHR 0x5C, CHR ''b'']
      else if c = CHR 0x0C then [CHR 0x5C, CHR ''f'']
      else if c = CHR 0x0A then [CHR 0x5C, CHR ''n'']
      else if c = CHR 0x0D then [CHR 0x5C, CHR ''r'']
      else if c = CHR 0x09 then [CHR 0x5C, CHR ''t'']
      else if byte_nat c < 32 \<or> c = CHR ''<'' \<or> c = CHR ''>'' \<or> c = CHR ''&''
      then [CHR 0x5C] @ ''u00'' @ hex_digits (byte_nat c)
      else [c])"

function quote_body :: "string \<Rightarrow> string" where
  "quote_body [] = []"
| "quote_body (c # r) =
     (if byte_nat c < 128 then quote_ascii c @ quote_body r
      else if utf8_len (c # r) = 0 then [CHR 0x5C] @ ''ufffd'' @ quote_body r
      else if has_prefix (c # r) [CHR 0xE2, CHR 0x80, CHR 0xA8] then
        [CHR 0x5C] @ ''u2028'' @ quote_body (drop 3 (c # r))
      else if has_prefix (c # r) [CHR 0xE2, CHR 0x80, CHR 0xA9] then
        [CHR 0x5C] @ ''u2029'' @ quote_body (drop 3 (c # r))
      else take (utf8_len (c # r)) (c # r) @ quote_body (drop (utf8_len (c # r)) (c # r)))"
  by pat_completeness auto
termination
  by (relation "measure length") auto

declare quote_body.simps(2) [simp del]

definition json_quote :: "string \<Rightarrow> string" where
  "json_quote s = [CHR 0x22] @ quote_body s @ [CHR 0x22]"

subsection \<open>Numbers\<close>

definition json_ws :: "char \<Rightarrow> bool" where
  "json_ws c \<longleftrightarrow> c \<in> {CHR '' '', CHR 0x09, CHR 0x0A, CHR 0x0D}"

abbreviation skip_ws :: "string \<Rightarrow> string" where
  "skip_ws s \<equiv> dropWhile json_ws s"

text \<open>The exponent's value stops growing past 10000, as in \<open>strconv\<close>.\<close>

definition exp_val :: "string \<Rightarrow> nat" where
  "exp_val ds = foldl (\<lambda>e c. if e < 10000 then e * 10 + digit_val c else e) 0 ds"

text \<open>The exponent part, if there is one: its value and the rest; \<open>None\<close> without a digit.\<close>

definition json_exp :: "string \<Rightarrow> (int \<times> string) option" where
  "json_exp s =
     (if s \<noteq> [] \<and> hd s \<in> {CHR ''e'', CHR ''E''} then
        (let r = tl s;
             minus = (r \<noteq> [] \<and> hd r = CHR ''-'');
             r1 = (if r \<noteq> [] \<and> hd r \<in> {CHR ''+'', CHR ''-''} then tl r else r);
             ds = takeWhile is_digit r1
         in if ds = [] then None
            else Some (if minus then - int (exp_val ds) else int (exp_val ds), dropWhile is_digit r1))
      else Some (0, s))"

definition json_frac :: "string \<Rightarrow> (string \<times> string) option" where
  "json_frac s =
     (if s \<noteq> [] \<and> hd s = CHR ''.'' then
        (let ds = takeWhile is_digit (tl s)
         in if ds = [] then None else Some (ds, dropWhile is_digit (tl s)))
      else Some ([], s))"

definition json_intpart :: "string \<Rightarrow> (string \<times> string) option" where
  "json_intpart s =
     (if s = [] then None
      else if hd s = CHR ''0'' then Some (''0'', tl s)
      else if is_digit (hd s) then Some (takeWhile is_digit s, dropWhile is_digit s)
      else None)"

text \<open>\<open>conv\<close> turns sign, digits and decimal exponent into a double, \<open>None\<close> out of range.\<close>

definition json_number ::
  "(bool \<Rightarrow> nat \<Rightarrow> int \<Rightarrow> uint64 option) \<Rightarrow> string \<Rightarrow> (json \<times> string) option" where
  "json_number conv s =
     (let neg = (s \<noteq> [] \<and> hd s = CHR ''-'')
      in case json_intpart (if neg then tl s else s) of
           None \<Rightarrow> None
         | Some (ip, r1) \<Rightarrow>
             (case json_frac r1 of
                None \<Rightarrow> None
              | Some (fp, r2) \<Rightarrow>
                  (case json_exp r2 of
                     None \<Rightarrow> None
                   | Some (e, r3) \<Rightarrow>
                       map_option (\<lambda>w. (JNum w, r3)) (conv neg (dec_val (ip @ fp)) (e - int (length fp))))))"

subsection \<open>Values\<close>

text \<open>A Go map keeps the last value of a key.\<close>

definition json_map :: "(string \<times> json) list \<Rightarrow> json_object" where
  "json_map members = fold (\<lambda>(k, v) m. AList.update k v m) members []"

definition json_literal :: "string \<Rightarrow> json \<Rightarrow> string \<Rightarrow> (json \<times> string) option" where
  "json_literal w v s = (if has_prefix s w then Some (v, drop (length w) s) else None)"

text \<open>A member's key and its colon, and what ends an element: its container, or a comma.\<close>

definition json_key :: "string \<Rightarrow> (string \<times> string) option" where
  "json_key s =
     (if skip_ws s = [] \<or> hd (skip_ws s) \<noteq> CHR 0x22 then None
      else
        case json_string (tl (skip_ws s)) of
          None \<Rightarrow> None
        | Some (k, r) \<Rightarrow>
            if skip_ws r = [] \<or> hd (skip_ws r) \<noteq> CHR '':'' then None else Some (k, tl (skip_ws r)))"

definition json_sep :: "char \<Rightarrow> string \<Rightarrow> (bool \<times> string) option" where
  "json_sep close s =
     (if skip_ws s = [] then None
      else if hd (skip_ws s) = close then Some (True, tl (skip_ws s))
      else if hd (skip_ws s) = CHR '','' then Some (False, tl (skip_ws s))
      else None)"

text \<open>
  The mutually recursive readers of a value, of the members of an object and of the elements of
  an array; \<open>depth\<close> is the nesting still allowed.
\<close>

fun json_value ::
    "(bool \<Rightarrow> nat \<Rightarrow> int \<Rightarrow> uint64 option) \<Rightarrow> nat \<Rightarrow> nat \<Rightarrow> string \<Rightarrow> (json \<times> string) option"
  and json_members ::
    "(bool \<Rightarrow> nat \<Rightarrow> int \<Rightarrow> uint64 option) \<Rightarrow> nat \<Rightarrow> nat \<Rightarrow> string \<Rightarrow> ((string \<times> json) list \<times> string) option"
  and json_elements ::
    "(bool \<Rightarrow> nat \<Rightarrow> int \<Rightarrow> uint64 option) \<Rightarrow> nat \<Rightarrow> nat \<Rightarrow> string \<Rightarrow> (json list \<times> string) option"
where
  "json_value conv 0 depth s = None"
| "json_value conv (Suc fuel) depth s =
     (case skip_ws s of
        [] \<Rightarrow> None
      | c # r \<Rightarrow>
          if c = CHR ''{'' then
            (if depth = 0 then None
             else if skip_ws r \<noteq> [] \<and> hd (skip_ws r) = CHR ''}'' then Some (JObj [], tl (skip_ws r))
             else map_option (\<lambda>(ms, r1). (JObj (json_map ms), r1)) (json_members conv fuel (depth - 1) r))
          else if c = CHR ''['' then
            (if depth = 0 then None
             else if skip_ws r \<noteq> [] \<and> hd (skip_ws r) = CHR '']'' then Some (JArr [], tl (skip_ws r))
             else map_option (\<lambda>(vs, r1). (JArr vs, r1)) (json_elements conv fuel (depth - 1) r))
          else if c = CHR 0x22 then map_option (\<lambda>(x, r1). (JStr x, r1)) (json_string r)
          else if c = CHR ''t'' then json_literal ''true'' (JBool True) (c # r)
          else if c = CHR ''f'' then json_literal ''false'' (JBool False) (c # r)
          else if c = CHR ''n'' then json_literal ''null'' JNull (c # r)
          else json_number conv (c # r))"
| "json_members conv 0 depth s = None"
| "json_members conv (Suc fuel) depth s =
     (case json_key s of
        None \<Rightarrow> None
      | Some (k, r1) \<Rightarrow>
          (case json_value conv fuel depth r1 of
             None \<Rightarrow> None
           | Some (v, r2) \<Rightarrow>
               (case json_sep (CHR ''}'') r2 of
                  None \<Rightarrow> None
                | Some (True, r3) \<Rightarrow> Some ([(k, v)], r3)
                | Some (False, r3) \<Rightarrow>
                    map_option (\<lambda>(ms, r4). ((k, v) # ms, r4)) (json_members conv fuel depth r3))))"
| "json_elements conv 0 depth s = None"
| "json_elements conv (Suc fuel) depth s =
     (case json_value conv fuel depth s of
        None \<Rightarrow> None
      | Some (v, r2) \<Rightarrow>
          (case json_sep (CHR '']'') r2 of
             None \<Rightarrow> None
           | Some (True, r3) \<Rightarrow> Some ([v], r3)
           | Some (False, r3) \<Rightarrow>
               map_option (\<lambda>(vs, r4). (v # vs, r4)) (json_elements conv fuel depth r3)))"

abbreviation (input) "maxNestingDepth \<equiv> (10000 :: nat)"

text \<open>Two calls of fuel are spent per character at most.\<close>

definition json_fuel :: "string \<Rightarrow> nat" where
  "json_fuel s = Suc (Suc (2 * length s))"

text \<open>A whole text as a value, and \<open>json.Unmarshal\<close> into a \<open>map[string]interface{}\<close>.\<close>

definition json_parse :: "(bool \<Rightarrow> nat \<Rightarrow> int \<Rightarrow> uint64 option) \<Rightarrow> string \<Rightarrow> json option" where
  "json_parse conv s =
     (case json_value conv (json_fuel s) maxNestingDepth s of
        Some (v, r) \<Rightarrow> if skip_ws r = [] then Some v else None
      | None \<Rightarrow> None)"

definition Unmarshal_map :: "string \<Rightarrow> json_object option" where
  "Unmarshal_map s =
     (case json_parse f64_parse s of
        Some (JObj m) \<Rightarrow> Some m
      | Some JNull \<Rightarrow> Some []
      | _ \<Rightarrow> None)"

declare json_value.simps [simp del] json_members.simps [simp del] json_elements.simps [simp del]

subsection \<open>A quoted ASCII string reads back\<close>

definition ascii :: "string \<Rightarrow> bool" where
  "ascii s = list_all (\<lambda>c. byte_nat c < 128) s"

lemma prepend_simps [simp]: "prepend p None = None" "prepend p (Some (s, r)) = Some (p @ s, r)"
  by (simp_all add: prepend_def)

lemma hex_digit_char: "d < 16 \<Longrightarrow> is_hex (digit_char d) \<and> hex_digit_val (digit_char d) = d"
  by (auto simp: digit_char_def is_hex_def hex_digit_val_def is_digit_def)

lemma json_u4_hex:
  assumes "k < 256"
  shows "json_u4 (''00'' @ hex_digits k @ t) = Some k"
proof -
  have d: "is_hex (digit_char (k div 16)) \<and> hex_digit_val (digit_char (k div 16)) = k div 16"
    "is_hex (digit_char (k mod 16)) \<and> hex_digit_val (digit_char (k mod 16)) = k mod 16"
    using assms by (intro hex_digit_char; simp add: less_mult_imp_div_less)+
  have four: "take 4 (''00'' @ hex_digits k @ t) = ''00'' @ hex_digits k"
    by (simp add: hex_digits_def)
  have "is_hex (CHR ''0'')" "hex_digit_val (CHR ''0'') = 0"
    by (simp_all add: is_hex_def is_digit_def hex_digit_val_def)
  with d have "list_all is_hex (''00'' @ hex_digits k)" "hex_val (''00'' @ hex_digits k) = k"
    by (simp_all add: hex_digits_def hex_val_def)
  moreover have "4 \<le> length (''00'' @ hex_digits k @ t)" by (simp add: hex_digits_def)
  ultimately show ?thesis unfolding json_u4_def four by (simp only: if_True simp_thms)
qed

lemma json_escape_hex:
  "k < 128 \<Longrightarrow> json_escape (''u00'' @ hex_digits k @ t) = Some ([char_of k], t)"
  using json_u4_hex [of k t] by (simp add: json_escape_def utf8_encode_def hex_digits_def)

lemma json_string_quote_ascii:
  assumes "byte_nat c < 128"
  shows "json_string (quote_ascii c @ t) = prepend [c] (json_string t)"
proof (cases "c = CHR 0x22 \<or> c = CHR 0x5C \<or> c = CHR 0x08 \<or> c = CHR 0x0C \<or> c = CHR 0x0A \<or> c = CHR 0x0D \<or> c = CHR 0x09")
  case True
  then show ?thesis by (auto simp: quote_ascii_def json_string.simps(2) json_escape_def)
next
  case False
  show ?thesis
  proof (cases "byte_nat c < 32 \<or> c = CHR ''<'' \<or> c = CHR ''>'' \<or> c = CHR ''&''")
    case True
    with False have "quote_ascii c = CHR 0x5C # ''u00'' @ hex_digits (byte_nat c)"
      by (auto simp: quote_ascii_def)
    then show ?thesis
      using json_escape_hex [OF assms, of t] by (simp add: json_string.simps(2))
  next
    case plain: False
    with False assms show ?thesis
      by (simp add: quote_ascii_def json_string.simps(2) utf8_len_def)
  qed
qed

lemma json_string_quote_body: "ascii s \<Longrightarrow> json_string (quote_body s @ CHR 0x22 # r) = Some (s, r)"
  by (induction s) (simp_all add: json_string.simps(2) quote_body.simps(2) ascii_def json_string_quote_ascii)

subsection \<open>The fuel is enough\<close>

lemma json_string_shorter: "json_string s = Some (x, r) \<Longrightarrow> length r < length s"
proof (induction s arbitrary: x r rule: json_string.induct)
  case (2 c s)
  show ?case
  proof (cases "c = CHR 0x5C")
    case True
    then obtain y r1 where "json_escape s = Some (y, r1)" "json_string r1 \<noteq> None"
      "\<exists>z. json_string r1 = Some (z, r)"
      using 2(4) by (auto simp: json_string.simps(2) prepend_def split: option.splits)
    with 2(1) [of "(y, r1)" y r1] True json_escape_shorter [of s y r1] show ?thesis by fastforce
  next
    case False
    with 2 show ?thesis
      by (auto simp: json_string.simps(2) prepend_def split: if_splits) 
  qed
qed simp

lemma length_skip_ws: "length (skip_ws s) \<le> length s" by (rule length_dropWhile_le)

lemma skip_ws_Cons: "skip_ws s = c # r \<Longrightarrow> length r < length s"
  using length_skip_ws [of s] by simp

lemma json_number_shorter: "json_number conv s = Some (v, r) \<Longrightarrow> length r < length s"
proof -
  have ip: "json_intpart t = Some (ip, r1) \<Longrightarrow> length r1 < length t" for t ip r1
    by (cases t) (auto simp: json_intpart_def le_imp_less_Suc length_dropWhile_le split: if_splits)
  have fp: "json_frac t = Some (fp, r1) \<Longrightarrow> length r1 \<le> length t" for t fp r1
    by (cases t) (auto simp: json_frac_def le_SucI length_dropWhile_le Let_def split: if_splits)
  have ep: "json_exp t = Some (e, r1) \<Longrightarrow> length r1 \<le> length t" for t e r1
  proof (cases t)
    case (Cons a u)
    have "length (dropWhile is_digit u) \<le> length u" "length (dropWhile is_digit (tl u)) \<le> length u"
      using length_dropWhile_le [of is_digit u] length_dropWhile_le [of is_digit "tl u"] by simp_all
    then show "json_exp t = Some (e, r1) \<Longrightarrow> length r1 \<le> length t"
      using Cons by (auto simp: json_exp_def Let_def split: if_splits)
  qed (simp add: json_exp_def)
  assume "json_number conv s = Some (v, r)"
  define t where "t = (if s \<noteq> [] \<and> hd s = CHR ''-'' then tl s else s)"
  have "length t \<le> length s" by (simp add: t_def)
  obtain i r1 f r2 e where "json_intpart t = Some (i, r1)" "json_frac r1 = Some (f, r2)" "json_exp r2 = Some (e, r)"
    using \<open>json_number conv s = Some (v, r)\<close> unfolding json_number_def Let_def t_def [symmetric]
    by (auto split: option.splits)
  with ip fp ep have "length r < length t" by (meson less_le_trans le_less_trans)
  with \<open>length t \<le> length s\<close> show ?thesis by simp
qed

lemma json_literal_shorter: "w \<noteq> [] \<Longrightarrow> json_literal w v s = Some (x, r) \<Longrightarrow> length r < length s"
  by (cases w; cases s) (auto simp: json_literal_def has_prefix_def split: if_splits)

lemma tl_skip_ws: "skip_ws s \<noteq> [] \<Longrightarrow> length (tl (skip_ws s)) < length s"
  using length_skip_ws [of s] by (cases "skip_ws s") simp_all

lemma json_key_shorter: "json_key s = Some (k, r) \<Longrightarrow> length r < length s"
proof -
  assume key: "json_key s = Some (k, r)"
  then obtain r1 where r1: "json_string (tl (skip_ws s)) = Some (k, r1)"
    unfolding json_key_def by (auto split: option.splits if_splits simp del: dropWhile_eq_Nil_conv)
  with key have ne: "skip_ws s \<noteq> []" "skip_ws r1 \<noteq> []" and r: "r = tl (skip_ws r1)"
    unfolding json_key_def by (auto split: if_splits simp del: dropWhile_eq_Nil_conv)
  show ?thesis
    unfolding r using tl_skip_ws [OF ne(1)] tl_skip_ws [OF ne(2)] json_string_shorter [OF r1] by linarith
qed

lemma json_sep_shorter: "json_sep close s = Some (b, r) \<Longrightarrow> length r < length s"
  using length_skip_ws [of s] unfolding json_sep_def
  by (cases "skip_ws s") (auto split: if_splits simp del: dropWhile_eq_Nil_conv)

lemma json_shorter:
  "json_value conv fuel depth s = Some (v, r) \<Longrightarrow> length r < length s"
  "json_members conv fuel depth s = Some (ms, r) \<Longrightarrow> length r < length s"
  "json_elements conv fuel depth s = Some (vs, r) \<Longrightarrow> length r < length s"
proof (induction conv fuel depth s and conv fuel depth s and conv fuel depth s arbitrary: v r and ms r and vs r
    rule: json_value_json_members_json_elements.induct)
  case (2 conv fuel depth s)
  then obtain c t where t: "skip_ws s = c # t" by (auto simp: json_value.simps split: list.splits)
  have lt: "length t < length s" "length (skip_ws t) - Suc 0 < length s"
    using skip_ws_Cons [OF t] length_skip_ws [of t] by linarith+
  show ?case
    using 2(3) t lt 2(1) [OF t] 2(2) [OF t]
    by (auto simp: json_value.simps split: if_splits
        dest!: json_number_shorter json_literal_shorter [rotated] json_string_shorter)
next
  case (4 conv fuel depth s)
  then obtain k r1 v r2 b r3 where p: "json_key s = Some (k, r1)" "json_value conv fuel depth r1 = Some (v, r2)"
    "json_sep (CHR ''}'') r2 = Some (b, r3)"
    by (auto simp: json_members.simps split: option.splits)
  note lt = json_key_shorter [OF p(1)] 4(1) [OF p(1) refl p(2)] json_sep_shorter [OF p(3)]
  show ?case
    using 4(2) [OF p(1) refl p(2) refl p(3) refl] 4(3) p lt
    by (cases b) (fastforce simp: json_members.simps)+
next
  case (6 conv fuel depth s)
  then obtain v r2 b r3 where p: "json_value conv fuel depth s = Some (v, r2)"
    "json_sep (CHR '']'') r2 = Some (b, r3)"
    by (auto simp: json_elements.simps split: option.splits)
  note lt = 6(1) [OF p(1)] json_sep_shorter [OF p(2)]
  show ?case
    using 6(2) [OF p(1) refl p(2) refl] 6(3) p lt
    by (cases b) (fastforce simp: json_elements.simps)+
qed (simp_all add: json_value.simps json_members.simps json_elements.simps)

lemma json_fuel_enough:
  "2 * length s < fuel \<Longrightarrow> json_value conv (Suc fuel) depth s = json_value conv fuel depth s"
  "2 * length s < fuel \<Longrightarrow> json_members conv (Suc fuel) depth s = json_members conv fuel depth s"
  "2 * length s + 1 < fuel \<Longrightarrow> json_elements conv (Suc fuel) depth s = json_elements conv fuel depth s"
proof (induction conv fuel depth s and conv fuel depth s and conv fuel depth s
    rule: json_value_json_members_json_elements.induct)
  case (2 conv fuel depth s)
  show ?case
  proof (cases "skip_ws s")
    case Nil
    show ?thesis unfolding json_value.simps(2) Nil by simp
  next
    case (Cons c t)
    with 2(3) skip_ws_Cons [OF Cons] have "2 * length t + 1 < fuel" by simp
    with 2(1) [OF Cons] 2(2) [OF Cons] show ?thesis
      by (simp add: json_value.simps(2) [of conv "Suc fuel"] json_value.simps(2) [of conv fuel] Cons)
  qed
next
  case (4 conv fuel depth s)
  note unfold = json_members.simps(2) [of conv "Suc fuel" depth s] json_members.simps(2) [of conv fuel depth s]
  show ?case
  proof (cases "json_key s")
    case None
    then show ?thesis by (simp add: json_members.simps)
  next
    case (Some kr)
    then obtain k r1 where key: "json_key s = Some (k, r1)" by (cases kr) auto
    have v: "json_value conv (Suc fuel) depth r1 = json_value conv fuel depth r1"
      using 4(1) [OF key refl] 4(3) json_key_shorter [OF key] by simp
    have m: "json_members conv (Suc fuel) depth r3 = json_members conv fuel depth r3"
      if "json_value conv fuel depth r1 = Some (v, r2)" "json_sep (CHR ''}'') r2 = Some (False, r3)" for v r2 r3
      using 4(2) [OF key refl that(1) refl that(2) refl] 4(3) json_key_shorter [OF key] json_shorter(1) [OF that(1)]
        json_sep_shorter [OF that(2)] by simp
    show ?thesis unfolding unfold key option.case prod.case v
      using m by (auto split: option.split bool.split)
  qed
next
  case (6 conv fuel depth s)
  note unfold = json_elements.simps(2) [of conv "Suc fuel" depth s] json_elements.simps(2) [of conv fuel depth s]
  have v: "json_value conv (Suc fuel) depth s = json_value conv fuel depth s" using 6(1,3) by simp
  have m: "json_elements conv (Suc fuel) depth r3 = json_elements conv fuel depth r3"
    if "json_value conv fuel depth s = Some (v, r2)" "json_sep (CHR '']'') r2 = Some (False, r3)" for v r2 r3
    using 6(2) [OF that(1) refl that(2) refl] 6(3) json_shorter(1) [OF that(1)] json_sep_shorter [OF that(2)] by simp
  show ?case unfolding unfold v using m by (auto split: option.split bool.split)
qed simp_all

text \<open>The fuel of \<open>json_parse\<close> is enough: no larger amount changes the result.\<close>

lemma json_fuel_stable: "json_value conv (json_fuel s + k) depth s = json_value conv (json_fuel s) depth s"
  by (induction k) (simp_all add: json_fuel_enough json_fuel_def)

end
