(* ===== verification/Udp_Message.thy ===== *)
theory Udp_Message
  imports Go_Base64 Go_Json Net_Addr
begin

section \<open>Packets on the message bus (verify.go, map.go, packageudp.go, input)\<close>

text \<open>
  What the shoveler does with a UDP packet before it is queued, and what the collector does with
  the message at the other end: the header check, the mapping of the sender's address, the JSON
  message with its base64 data, and the decoding of that message. The lemmas: a packaged message
  reads back as the packet and an address whose host is the mapped one.
\<close>

subsection \<open>The header check\<close>

record shoveler_Header =
  sh_Code :: char
  sh_Pseq :: uint8
  sh_Plen :: uint16
  sh_ServerStart :: int32

definition shoveler_header :: "bytes \<Rightarrow> shoveler_Header" where
  "shoveler_header packet =
     \<lparr>sh_Code = packet ! 0, sh_Pseq = be8 (field 1 1 packet), sh_Plen = be16 (field 2 2 packet),
      sh_ServerStart = be32 (field 4 4 packet)\<rparr>"

definition VerifyPacket :: "bytes \<Rightarrow> bool" where
  "VerifyPacket packet =
     (if length packet < 8 then False
      else if 0 < length packet \<and> packet ! 0 = CHR ''<'' then True
      else
        let header = shoveler_header packet
        in length packet = unat (sh_Plen header))"

subsection \<open>Addresses\<close>

record UDPAddr =
  ua_IP :: "uint8 list"
  ua_Port :: int

text \<open>The groups of an IPv6 address and the longest run of at least two zero groups.\<close>

definition v6_group :: "uint8 list \<Rightarrow> nat \<Rightarrow> nat" where
  "v6_group ip i = unat (ip ! (2 * i)) * 256 + unat (ip ! (2 * i + 1))"

definition zero_run :: "nat list \<Rightarrow> nat \<Rightarrow> nat" where
  "zero_run gs i = length (takeWhile (\<lambda>g. g = 0) (drop i gs))"

definition longest_zero_run :: "nat list \<Rightarrow> (nat \<times> nat) option" where
  "longest_zero_run gs =
     fold (\<lambda>i best.
       let l = zero_run gs i
       in if 2 \<le> l \<and> (case best of None \<Rightarrow> True | Some (s, e) \<Rightarrow> e - s < l) then Some (i, i + l) else best)
       [0..<8] None"

definition ipv6_String :: "uint8 list \<Rightarrow> string" where
  "ipv6_String ip =
     (let gs = List.map (v6_group ip) [0..<8]; hex = List.map (fmt_nat 16)
      in case longest_zero_run gs of
           None \<Rightarrow> join '':'' (hex gs)
         | Some (s, e) \<Rightarrow> join '':'' (hex (take s gs)) @ ''::'' @ join '':'' (hex (drop e gs)))"

definition hexString :: "uint8 list \<Rightarrow> string" where
  "hexString ip = concat (List.map (\<lambda>b. hex_digits (unat b)) ip)"

definition IP_String :: "uint8 list \<Rightarrow> string" where
  "IP_String ip =
     (if ip = [] then ''<nil>''
      else if length ip = 4 then ipv4_String ip
      else if length ip \<noteq> 16 then ''?'' @ hexString ip
      else case To4 ip of Some v4 \<Rightarrow> ipv4_String v4 | None \<Rightarrow> ipv6_String ip)"

definition JoinHostPort :: "string \<Rightarrow> string \<Rightarrow> string" where
  "JoinHostPort host port =
     (if CHR '':'' \<in> set host then ''['' @ host @ '']:'' @ port else host @ '':'' @ port)"

text \<open>The two settings \<open>mapIp\<close> reads, the map as an association list.\<close>

record MapConfig =
  mc_IpMapAll :: string
  mc_IpMap :: "(string \<times> string) list"

definition mapIp :: "UDPAddr \<Rightarrow> MapConfig \<Rightarrow> string" where
  "mapIp remote config =
     (if mc_IpMapAll config \<noteq> [] then mc_IpMapAll config
      else if mc_IpMap config = [] then IP_String (ua_IP remote)
      else case map_of (mc_IpMap config) (IP_String (ua_IP remote)) of
             Some ip \<Rightarrow> ip
           | None \<Rightarrow> IP_String (ua_IP remote))"

subsection \<open>Packaging\<close>

record ShovelerMessage =
  msg_Remote :: string
  msg_ShovelerVersion :: string
  msg_Data :: string

definition Marshal_message :: "ShovelerMessage \<Rightarrow> bytes" where
  "Marshal_message msg =
     ''{'' @ json_quote ''remote'' @ '':'' @ json_quote (msg_Remote msg) @ '','' @
     json_quote ''version'' @ '':'' @ json_quote (msg_ShovelerVersion msg) @ '','' @
     json_quote ''data'' @ '':'' @ json_quote (msg_Data msg) @ ''}''"

definition PackageUdp :: "string \<Rightarrow> bytes \<Rightarrow> UDPAddr \<Rightarrow> MapConfig \<Rightarrow> bytes" where
  "PackageUdp version packet remote config =
     Marshal_message
       \<lparr>msg_Remote = JoinHostPort (mapIp remote config) (dec_int (ua_Port remote)),
        msg_ShovelerVersion = version, msg_Data = EncodeToString packet\<rparr>"

subsection \<open>Unpacking\<close>

record RabbitMQMessage =
  rm_Remote :: string
  rm_Version :: string
  rm_Data :: string

text \<open>
  The decoder matches a key with a field without regard to case; the one letter of the field
  names with a fold outside ASCII is s.
\<close>

fun fold_name :: "string \<Rightarrow> string" where
  "fold_name (c # d # s) =
     (if c = CHR 0xC5 \<and> d = CHR 0xBF then CHR ''s'' # fold_name s else lower_char c # fold_name (d # s))"
| "fold_name [c] = [lower_char c]"
| "fold_name [] = []"

text \<open>A member into a field: a string is stored, null leaves the field, anything else is an error.\<close>

definition set_field :: "string \<times> json \<Rightarrow> RabbitMQMessage \<Rightarrow> RabbitMQMessage option" where
  "set_field kv m =
     (let name = fold_name (fst kv)
      in if name \<notin> {''remote'', ''version'', ''data''} then Some m
         else case snd kv of
                JStr v \<Rightarrow>
                  Some (if name = ''remote'' then m\<lparr>rm_Remote := v\<rparr>
                        else if name = ''version'' then m\<lparr>rm_Version := v\<rparr> else m\<lparr>rm_Data := v\<rparr>)
              | JNull \<Rightarrow> Some m
              | _ \<Rightarrow> None)"

fun set_fields :: "(string \<times> json) list \<Rightarrow> RabbitMQMessage \<Rightarrow> RabbitMQMessage option" where
  "set_fields [] m = Some m"
| "set_fields (kv # kvs) m = Option.bind (set_field kv m) (set_fields kvs)"

definition Unmarshal_message :: "bytes \<Rightarrow> RabbitMQMessage option" where
  "Unmarshal_message body =
     (let s = skip_ws body; zero = \<lparr>rm_Remote = [], rm_Version = [], rm_Data = []\<rparr>
      in if s \<noteq> [] \<and> hd s = CHR ''{'' then
           (if skip_ws (tl s) \<noteq> [] \<and> hd (skip_ws (tl s)) = CHR ''}'' then
              (if skip_ws (tl (skip_ws (tl s))) = [] then Some zero else None)
            else case json_members (\<lambda>_ _ _. Some 0) (json_fuel body) (10000 - 1) (tl s) of
                   Some (ms, r) \<Rightarrow> if skip_ws r = [] then set_fields ms zero else None
                 | None \<Rightarrow> None)
         else if json_parse (\<lambda>_ _ _. Some 0) body = Some JNull then Some zero
         else None)"

record PacketWithAddr =
  pa_Data :: bytes
  pa_RemoteAddr :: string

text \<open>The two decoding steps of \<open>processMessage\<close> and of a line of a file.\<close>

definition decode_message :: "bool \<Rightarrow> bytes \<Rightarrow> PacketWithAddr option" where
  "decode_message base64Encoded body =
     (case Unmarshal_message body of
        None \<Rightarrow> None
      | Some m \<Rightarrow>
          if base64Encoded then
            map_option (\<lambda>d. \<lparr>pa_Data = d, pa_RemoteAddr = rm_Remote m\<rparr>) (DecodeString (rm_Data m))
          else Some \<lparr>pa_Data = rm_Data m, pa_RemoteAddr = rm_Remote m\<rparr>)"

subsection \<open>A packaged message reads back\<close>

lemma json_quote_head: "json_quote s @ t = CHR 0x22 # quote_body s @ CHR 0x22 # t"
  by (simp add: json_quote_def)

lemma json_key_quoted: "ascii k \<Longrightarrow> json_key (json_quote k @ CHR '':'' # t) = Some (k, t)"
  by (simp add: json_key_def json_quote_head json_ws_def json_string_quote_body)

lemma json_value_quoted: "ascii v \<Longrightarrow> json_value conv (Suc f) d (json_quote v @ t) = Some (JStr v, t)"
  by (simp add: json_value.simps json_quote_head json_ws_def json_string_quote_body)

lemma json_sep_comma: "json_sep (CHR ''}'') (CHR '','' # t) = Some (False, t)"
  and json_sep_close: "json_sep (CHR ''}'') (CHR ''}'' # t) = Some (True, t)"
  by (simp_all add: json_sep_def json_ws_def)

lemma json_members_more:
  assumes "ascii k" and "ascii v"
  shows "json_members conv (Suc (Suc f)) d (json_quote k @ '':'' @ json_quote v @ '','' @ t) =
    map_option (\<lambda>(ms, r). ((k, JStr v) # ms, r)) (json_members conv (Suc f) d t)"
proof -
  have "json_key (json_quote k @ '':'' @ json_quote v @ '','' @ t) = Some (k, json_quote v @ CHR '','' # t)"
    using json_key_quoted [OF assms(1), of "json_quote v @ CHR '','' # t"] by simp
  then show ?thesis
    by (simp add: json_members.simps(2) [of conv "Suc f"] json_value_quoted [OF assms(2)] json_sep_comma)
qed

lemma json_members_last:
  assumes "ascii k" and "ascii v"
  shows "json_members conv (Suc (Suc f)) d (json_quote k @ '':'' @ json_quote v @ ''}'' @ t) = Some ([(k, JStr v)], t)"
proof -
  have "json_key (json_quote k @ '':'' @ json_quote v @ ''}'' @ t) = Some (k, json_quote v @ CHR ''}'' # t)"
    using json_key_quoted [OF assms(1), of "json_quote v @ CHR ''}'' # t"] by simp
  then show ?thesis
    by (simp add: json_members.simps(2) [of conv "Suc f"] json_value_quoted [OF assms(2)] json_sep_close)
qed

lemma json_members_end:
  "ascii k \<Longrightarrow> ascii v \<Longrightarrow>
     json_members conv (Suc (Suc f)) d (json_quote k @ '':'' @ json_quote v @ ''}'') = Some ([(k, JStr v)], [])"
  using json_members_last [of k v conv f d "[]"] by simp

lemma field_names: "ascii ''remote''" "ascii ''version''" "ascii ''data''"
  "fold_name ''remote'' = ''remote''" "fold_name ''version'' = ''version''" "fold_name ''data'' = ''data''"
  by (simp_all add: ascii_def lower_char_def)

lemma Unmarshal_Marshal_message:
  assumes "ascii (msg_Remote m)" and "ascii (msg_ShovelerVersion m)" and "ascii (msg_Data m)"
  shows "Unmarshal_message (Marshal_message m) =
    Some \<lparr>rm_Remote = msg_Remote m, rm_Version = msg_ShovelerVersion m, rm_Data = msg_Data m\<rparr>"
proof -
  define t where "t = json_quote ''remote'' @ '':'' @ json_quote (msg_Remote m) @ '','' @
     json_quote ''version'' @ '':'' @ json_quote (msg_ShovelerVersion m) @ '','' @
     json_quote ''data'' @ '':'' @ json_quote (msg_Data m) @ ''}''"
  have body: "Marshal_message m = CHR ''{'' # t" by (simp add: Marshal_message_def t_def)
  obtain q where q: "t = CHR 0x22 # q" by (simp add: t_def json_quote_def)
  obtain f where fuel: "json_fuel (Marshal_message m) = Suc (Suc (Suc (Suc f)))"
    by (simp add: json_fuel_def body q)
  have "json_members (\<lambda>_ _ _. Some 0) (json_fuel (Marshal_message m)) (10000 - 1) t =
      Some ([(''remote'', JStr (msg_Remote m)), (''version'', JStr (msg_ShovelerVersion m)),
        (''data'', JStr (msg_Data m))], [])"
    unfolding fuel t_def
    by (simp only: json_members_more [OF field_names(1) assms(1)] json_members_more [OF field_names(2) assms(2)]
        json_members_end [OF field_names(3) assms(3)] option.map prod.case)
  then show ?thesis
    unfolding Unmarshal_message_def body
    by (simp add: json_ws_def q Let_def set_field_def field_names del: fold_name.simps)
qed

lemma b64_char_ascii: "byte_nat (b64_char n) < 128"
  by (auto simp: b64_char_def)

lemma EncodeToString_ascii: "ascii (EncodeToString bs)"
  by (induction bs rule: EncodeToString.induct) (simp_all add: ascii_def Let_def b64_char_ascii)

lemma EncodeToString_no_newline: "c \<in> set (EncodeToString bs) \<Longrightarrow> c \<noteq> CHR 0x0A \<and> c \<noteq> CHR 0x0D"
proof (induction bs rule: EncodeToString.induct)
  case (1 a b c rest)
  then show ?case
    using b64_char_not_special bytes3(4) [OF refl, of a b c] by (auto simp: Let_def)
next
  case (2 a b)
  then show ?case
    using b64_char_not_special bytes3(4) [of "byte_nat a * 65536 + byte_nat b * 256" a b "CHR 0x00"]
    by (auto simp: Let_def)
next
  case (3 a)
  then show ?case
    using b64_char_not_special bytes3(4) [of "byte_nat a * 65536" a "CHR 0x00" "CHR 0x00"]
    by (auto simp: Let_def)
qed simp

lemma DecodeString_EncodeToString: "DecodeString (EncodeToString bs) = Some bs"
proof -
  have "filter (\<lambda>c. c \<noteq> CHR 0x0A \<and> c \<noteq> CHR 0x0D) (EncodeToString bs) = EncodeToString bs"
    by (rule filter_True) (auto dest: EncodeToString_no_newline)
  then show ?thesis by (simp add: DecodeString_def b64_decode_EncodeToString)
qed

lemma decode_PackageUdp:
  assumes "ascii (mapIp remote config)" and "ascii version"
  shows "decode_message True (PackageUdp version packet remote config) =
    Some \<lparr>pa_Data = packet, pa_RemoteAddr = JoinHostPort (mapIp remote config) (dec_int (ua_Port remote))\<rparr>"
proof -
  have "list_all (\<lambda>c. byte_nat c < 128) (dec_int (ua_Port remote))"
    by (auto simp: list_all_iff is_digit_def dest!: dec_int_chars)
  with assms(1) have "ascii (JoinHostPort (mapIp remote config) (dec_int (ua_Port remote)))"
    by (simp add: ascii_def JoinHostPort_def)
  with assms(2) EncodeToString_ascii show ?thesis
    by (simp add: decode_message_def PackageUdp_def Unmarshal_Marshal_message DecodeString_EncodeToString)
qed

lemma extractHost_JoinHostPort:
  assumes "CHR ''['' \<notin> set host" and "CHR '']'' \<notin> set host"
  shows "extractHostFromRemoteAddr (JoinHostPort host (dec_int port)) = host"
proof -
  have port: "CHR '':'' \<notin> set (dec_int port)" "CHR ''['' \<notin> set (dec_int port)" "CHR '']'' \<notin> set (dec_int port)"
    by (auto simp: is_digit_def dest!: dec_int_chars)
  show ?thesis
    using SplitHostPort_plain [OF _ assms port] SplitHostPort_bracketed [OF assms port]
    by (simp add: JoinHostPort_def extractHostFromRemoteAddr_def)
qed

subsection \<open>Theorems\<close>

text \<open>C20: What the shoveler packages, the collector unpacks: for every packet, sender and address
  mapping in ASCII, decoding the message gives back the bytes of the packet, and the address it
  carries names the mapped host, whether that is an IPv4 address, an IPv6 address or a name.\<close>

theorem message_roundtrip:
  assumes "ascii (mapIp remote config)" and "ascii version"
    and "CHR ''['' \<notin> set (mapIp remote config)" and "CHR '']'' \<notin> set (mapIp remote config)"
  shows "\<exists>addr. decode_message True (PackageUdp version packet remote config) =
      Some \<lparr>pa_Data = packet, pa_RemoteAddr = addr\<rparr> \<and>
    extractHostFromRemoteAddr addr = mapIp remote config"
  using decode_PackageUdp [OF assms(1,2)] extractHost_JoinHostPort [OF assms(3,4)] by blast

definition sample_remote :: UDPAddr where
  "sample_remote = \<lparr>ua_IP = [10, 0, 0, 7], ua_Port = 9930\<rparr>"

definition sample_mapping :: MapConfig where
  "sample_mapping = \<lparr>mc_IpMapAll = [], mc_IpMap = [(''10.0.0.7'', ''fd00::7'')]\<rparr>"

lemma mapIp_sample: "mapIp sample_remote sample_mapping = ''fd00::7''"
  by (simp add: mapIp_def sample_remote_def sample_mapping_def IP_String_def ipv4_String_def
      fmt_nat.simps digit_char_def char_of_def bit_0)

lemma message_roundtrip_witness:
  "\<exists>addr. decode_message True (PackageUdp ''1.0'' ''abc'' sample_remote sample_mapping) =
      Some \<lparr>pa_Data = ''abc'', pa_RemoteAddr = addr\<rparr> \<and> extractHostFromRemoteAddr addr = ''fd00::7''"
  using message_roundtrip [of sample_remote sample_mapping "''1.0''" "''abc''"]
  by (simp add: mapIp_sample ascii_def)

end
