(* ===== verification/Rabbit_Reader.thy ===== *)
theory Rabbit_Reader
  imports Udp_Message
begin

section \<open>The RabbitMQ reader (input/rabbitmq_input.go)\<close>

text \<open>
  The \<open>consume\<close> loop of \<open>RabbitMQReader\<close>, one step per case of its \<open>select\<close>: a tick of the
  acknowledgement ticker, a delivery, the stop signal, the end of the delivery channel. What the
  reader does to the outside is written to a log: the packets it forwards and its calls of
  \<open>Ack\<close> and \<open>Nack\<close>, each with the outcome the library reported. Decoding a delivery's body is
  the argument \<open>decode\<close>, \<open>None\<close> on bad JSON or bad base64. What the calls do to the deliveries
  at the broker is AMQP's rule for acknowledgements (\<open>broker_step\<close>), over which the theorems
  are stated: what is acknowledged was decoded, and forwarded too unless the reader was being
  stopped at that moment (\<open>stop_acks_unforwarded\<close>); what cannot be decoded is rejected; and fewer
  than 100 messages are ever in doubt.
\<close>

record Delivery =
  dl_Body :: bytes
  dl_DeliveryTag :: nat

datatype reader_log =
    Delivered nat
  | Forwarded PacketWithAddr
  | AckCall nat bool
  | NackCall nat bool

text \<open>The field \<open>lastAckTime\<close> is written and never read; it has no counterpart here.\<close>

record RabbitMQReader =
  rr_unackedCount :: int
  rr_lastAckDeliveryTag :: nat
  rr_log :: "reader_log list"

text \<open>
  The cases of the \<open>select\<close>. The flags are the outcomes of the calls the case makes: of the ack,
  for a delivery the nack, and, when the reader is being stopped while the packet channel is full,
  whether \<open>processMessage\<close> gives up the packet (\<open>stopping\<close>).
\<close>

datatype consume_event =
    StopSignal bool
  | AckTick bool
  | Message Delivery bool bool bool
  | MessagesClosed

datatype consume_exit = Running | Stopped | ChannelClosed

subsection \<open>Steps\<close>

definition log_add :: "reader_log \<Rightarrow> RabbitMQReader \<Rightarrow> RabbitMQReader" where
  "log_add e r = r\<lparr>rr_log := rr_log r @ [e]\<rparr>"

text \<open>\<open>consume\<close> resets the tracking when it starts.\<close>

definition consume_start :: "RabbitMQReader \<Rightarrow> RabbitMQReader" where
  "consume_start r = r\<lparr>rr_unackedCount := 0, rr_lastAckDeliveryTag := 0\<rparr>"

text \<open>\<open>processMessage\<close>: whether it returns without error.\<close>

definition processMessage ::
  "(bytes \<Rightarrow> PacketWithAddr option) \<Rightarrow> bool \<Rightarrow> Delivery \<Rightarrow> RabbitMQReader \<Rightarrow> RabbitMQReader \<times> bool" where
  "processMessage decode stopping msg r =
     (case decode (dl_Body msg) of
        None \<Rightarrow> (r, False)
      | Some packet \<Rightarrow> if stopping then (r, True) else (log_add (Forwarded packet) r, True))"

text \<open>An ack that resets the count when it succeeds: the ticker's and the batch's.\<close>

definition ack_pending :: "bool \<Rightarrow> RabbitMQReader \<Rightarrow> RabbitMQReader" where
  "ack_pending ok r =
     (let r1 = log_add (AckCall (rr_lastAckDeliveryTag r) ok) r
      in if ok then r1\<lparr>rr_unackedCount := 0\<rparr> else r1)"

definition handle_delivery ::
  "(bytes \<Rightarrow> PacketWithAddr option) \<Rightarrow> Delivery \<Rightarrow> bool \<Rightarrow> bool \<Rightarrow> bool \<Rightarrow> RabbitMQReader \<Rightarrow> RabbitMQReader" where
  "handle_delivery decode msg stopping ack_ok nack_ok r0 =
     (let (r, processed) = processMessage decode stopping msg (log_add (Delivered (dl_DeliveryTag msg)) r0)
      in if \<not> processed then
           (let r1 = (if 0 < rr_unackedCount r \<and> 0 < rr_lastAckDeliveryTag r
                      then (log_add (AckCall (rr_lastAckDeliveryTag r) ack_ok) r)\<lparr>rr_unackedCount := 0\<rparr>
                      else r)
            in (log_add (NackCall (dl_DeliveryTag msg) nack_ok) r1)\<lparr>rr_lastAckDeliveryTag := dl_DeliveryTag msg\<rparr>)
         else
           (let r1 = r\<lparr>rr_unackedCount := rr_unackedCount r + 1, rr_lastAckDeliveryTag := dl_DeliveryTag msg\<rparr>
            in if 100 \<le> rr_unackedCount r1 then ack_pending ack_ok r1 else r1))"

fun consume_step ::
  "(bytes \<Rightarrow> PacketWithAddr option) \<Rightarrow> consume_event \<Rightarrow> RabbitMQReader \<Rightarrow> RabbitMQReader \<times> consume_exit" where
  "consume_step decode (StopSignal ack_ok) r =
     (if 0 < rr_unackedCount r \<and> 0 < rr_lastAckDeliveryTag r
      then log_add (AckCall (rr_lastAckDeliveryTag r) ack_ok) r else r, Stopped)"
| "consume_step decode (AckTick ack_ok) r =
     (if 0 < rr_unackedCount r \<and> 0 < rr_lastAckDeliveryTag r then ack_pending ack_ok r else r, Running)"
| "consume_step decode (Message msg stopping ack_ok nack_ok) r =
     (handle_delivery decode msg stopping ack_ok nack_ok r, Running)"
| "consume_step decode MessagesClosed r = (r, ChannelClosed)"

fun consume_loop ::
  "(bytes \<Rightarrow> PacketWithAddr option) \<Rightarrow> consume_event list \<Rightarrow> RabbitMQReader \<Rightarrow> RabbitMQReader \<times> consume_exit" where
  "consume_loop decode [] r = (r, Running)"
| "consume_loop decode (e # es) r =
     (case consume_step decode e r of
        (r', Running) \<Rightarrow> consume_loop decode es r'
      | (r', exit) \<Rightarrow> (r', exit))"

definition consume ::
  "(bytes \<Rightarrow> PacketWithAddr option) \<Rightarrow> consume_event list \<Rightarrow> RabbitMQReader \<Rightarrow> RabbitMQReader \<times> consume_exit" where
  "consume decode es r = consume_loop decode es (consume_start r)"

subsection \<open>What the calls mean to the broker\<close>

text \<open>
  The deliveries of a channel at the broker. A delivery is outstanding until it is settled; an
  ack with \<open>multiple\<close> settles every outstanding delivery up to its tag, a nack settles its own;
  a call that failed settles nothing.
\<close>

record broker =
  br_outstanding :: "nat list"
  br_acked :: "nat list"
  br_rejected :: "nat list"

fun broker_step :: "reader_log \<Rightarrow> broker \<Rightarrow> broker" where
  "broker_step (Delivered t) b = b\<lparr>br_outstanding := br_outstanding b @ [t]\<rparr>"
| "broker_step (Forwarded p) b = b"
| "broker_step (AckCall t ok) b =
     (if ok then b\<lparr>br_outstanding := filter (\<lambda>u. t < u) (br_outstanding b),
        br_acked := br_acked b @ filter (\<lambda>u. u \<le> t) (br_outstanding b)\<rparr>
      else b)"
| "broker_step (NackCall t ok) b =
     (if ok then b\<lparr>br_outstanding := filter (\<lambda>u. u \<noteq> t) (br_outstanding b),
        br_rejected := br_rejected b @ filter (\<lambda>u. u = t) (br_outstanding b)\<rparr>
      else b)"

definition broker_after :: "reader_log list \<Rightarrow> broker" where
  "broker_after log = fold broker_step log \<lparr>br_outstanding = [], br_acked = [], br_rejected = []\<rparr>"

lemma broker_after_append [simp]: "broker_after (log @ es) = fold broker_step es (broker_after log)"
  by (simp add: broker_after_def)

text \<open>The tags of the deliveries the loop handles, before it leaves: all, those decoded, the rest.\<close>

fun handled :: "consume_event list \<Rightarrow> consume_event list" where
  "handled [] = []"
| "handled (StopSignal ok # es) = []"
| "handled (MessagesClosed # es) = []"
| "handled (e # es) = e # handled es"

fun delivered :: "consume_event list \<Rightarrow> Delivery list" where
  "delivered [] = []"
| "delivered (Message m s a n # es) = m # delivered es"
| "delivered (e # es) = delivered es"

abbreviation tags_of :: "Delivery list \<Rightarrow> nat list" where
  "tags_of ms \<equiv> List.map dl_DeliveryTag ms"

definition good :: "(bytes \<Rightarrow> PacketWithAddr option) \<Rightarrow> Delivery list \<Rightarrow> nat list" where
  "good decode ms = tags_of (filter (\<lambda>m. decode (dl_Body m) \<noteq> None) ms)"

definition bad :: "(bytes \<Rightarrow> PacketWithAddr option) \<Rightarrow> Delivery list \<Rightarrow> nat list" where
  "bad decode ms = tags_of (filter (\<lambda>m. decode (dl_Body m) = None) ms)"

fun nacks_succeed :: "consume_event \<Rightarrow> bool" where
  "nacks_succeed (Message m s a n) = n"
| "nacks_succeed e = True"

fun acks_succeed :: "consume_event \<Rightarrow> bool" where
  "acks_succeed (Message m s a n) = a"
| "acks_succeed (AckTick a) = a"
| "acks_succeed (StopSignal a) = a"
| "acks_succeed MessagesClosed = True"

text \<open>
  The invariant of the loop, after the deliveries \<open>ms\<close>: every outstanding delivery is at most
  the last tag, so an ack settles them all.
\<close>

definition settles :: "(bytes \<Rightarrow> PacketWithAddr option) \<Rightarrow> Delivery list \<Rightarrow> RabbitMQReader \<Rightarrow> bool" where
  "settles decode ms r \<longleftrightarrow>
     (let b = broker_after (rr_log r)
      in br_acked b @ br_outstanding b = good decode ms \<and> br_rejected b = bad decode ms \<and>
         (\<forall>t \<in> set (br_outstanding b). t \<le> rr_lastAckDeliveryTag r))"

definition counted :: "RabbitMQReader \<Rightarrow> bool" where
  "counted r \<longleftrightarrow> rr_unackedCount r = int (length (br_outstanding (broker_after (rr_log r)))) \<and>
     rr_unackedCount r < 100 \<and> (0 < rr_unackedCount r \<longrightarrow> 0 < rr_lastAckDeliveryTag r)"

lemma filter_upto:
  "\<forall>u \<in> set xs. u \<le> (t :: nat) \<Longrightarrow> filter (\<lambda>u. u \<le> t) xs = xs \<and> filter (\<lambda>u. t < u) xs = []"
  by (auto simp: filter_id_conv filter_empty_conv)

lemma filter_below:
  "\<forall>u \<in> set xs. u < (t :: nat) \<Longrightarrow> filter (\<lambda>u. u = t) xs = [] \<and> filter (\<lambda>u. u \<noteq> t) xs = xs"
  by (auto simp: filter_id_conv filter_empty_conv)

lemma settles_ack:
  assumes "settles decode ms r" and "t = rr_lastAckDeliveryTag r"
  shows "settles decode ms (log_add (AckCall t ok) r)"
    and "ok \<Longrightarrow> br_outstanding (broker_after (rr_log (log_add (AckCall t ok) r))) = []"
proof -
  let ?b = "broker_after (rr_log r)"
  have "\<forall>u \<in> set (br_outstanding ?b). u \<le> t"
    using assms by (auto simp: settles_def Let_def)
  from filter_upto [OF this] show "settles decode ms (log_add (AckCall t ok) r)"
    and "ok \<Longrightarrow> br_outstanding (broker_after (rr_log (log_add (AckCall t ok) r))) = []"
    using assms by (auto simp: settles_def Let_def log_add_def)
qed

text \<open>What one delivery does to the broker's deliveries, when its nack succeeds.\<close>

lemma undecoded_delivery:
  fixes r m decode and stopping a :: bool
  assumes "\<forall>u \<in> set (br_outstanding (broker_after (rr_log r))). u \<le> rr_lastAckDeliveryTag r"
    and "rr_lastAckDeliveryTag r < dl_DeliveryTag m" and "decode (dl_Body m) = None"
  defines "b \<equiv> broker_after (rr_log r)" and "r' \<equiv> handle_delivery decode m stopping a True r"
  defines "acks \<equiv> 0 < rr_unackedCount r \<and> 0 < rr_lastAckDeliveryTag r"
  shows "broker_after (rr_log r') =
      (if acks \<and> a then \<lparr>br_outstanding = [], br_acked = br_acked b @ br_outstanding b,
         br_rejected = br_rejected b @ [dl_DeliveryTag m]\<rparr>
       else b\<lparr>br_rejected := br_rejected b @ [dl_DeliveryTag m]\<rparr>)"
    and "rr_unackedCount r' = (if acks then 0 else rr_unackedCount r)"
    and "rr_lastAckDeliveryTag r' = dl_DeliveryTag m"
proof -
  have "\<forall>u \<in> set (br_outstanding b). u < dl_DeliveryTag m" using assms(1,2) by (auto simp: b_def)
  note filters = filter_upto [OF assms(1), folded b_def] filter_below [OF this]
  have r': "r' = (let r1 = log_add (Delivered (dl_DeliveryTag m)) r in
      (log_add (NackCall (dl_DeliveryTag m) True)
        (if acks then (log_add (AckCall (rr_lastAckDeliveryTag r) a) r1)\<lparr>rr_unackedCount := 0\<rparr> else r1))
        \<lparr>rr_lastAckDeliveryTag := dl_DeliveryTag m\<rparr>)"
    using assms(3) by (simp add: r'_def handle_delivery_def processMessage_def log_add_def Let_def acks_def)
  show "rr_unackedCount r' = (if acks then 0 else rr_unackedCount r)"
    "rr_lastAckDeliveryTag r' = dl_DeliveryTag m"
    by (simp_all add: r' log_add_def Let_def)
  show "broker_after (rr_log r') =
      (if acks \<and> a then \<lparr>br_outstanding = [], br_acked = br_acked b @ br_outstanding b,
         br_rejected = br_rejected b @ [dl_DeliveryTag m]\<rparr>
       else b\<lparr>br_rejected := br_rejected b @ [dl_DeliveryTag m]\<rparr>)"
    using assms(2) filters by (simp add: r' log_add_def Let_def b_def [symmetric] not_le)
qed

lemma decoded_delivery:
  fixes r m decode and stopping a :: bool
  assumes "\<forall>u \<in> set (br_outstanding (broker_after (rr_log r))). u \<le> rr_lastAckDeliveryTag r"
    and "rr_lastAckDeliveryTag r < dl_DeliveryTag m" and "decode (dl_Body m) = Some p"
  defines "b \<equiv> broker_after (rr_log r)" and "r' \<equiv> handle_delivery decode m stopping a True r"
  defines "acks \<equiv> 99 \<le> rr_unackedCount r"
  shows "broker_after (rr_log r') =
      (if acks \<and> a then b\<lparr>br_outstanding := [],
         br_acked := br_acked b @ br_outstanding b @ [dl_DeliveryTag m]\<rparr>
       else b\<lparr>br_outstanding := br_outstanding b @ [dl_DeliveryTag m]\<rparr>)"
    and "rr_unackedCount r' = (if acks \<and> a then 0 else rr_unackedCount r + 1)"
    and "rr_lastAckDeliveryTag r' = dl_DeliveryTag m"
proof -
  have "\<forall>u \<in> set (br_outstanding b). u \<le> dl_DeliveryTag m" using assms(1,2) by (auto simp: b_def)
  note filters = filter_upto [OF this]
  let ?r1 = "log_add (Delivered (dl_DeliveryTag m)) r"
  let ?r2 = "(if stopping then ?r1 else log_add (Forwarded p) ?r1)
      \<lparr>rr_unackedCount := rr_unackedCount r + 1, rr_lastAckDeliveryTag := dl_DeliveryTag m\<rparr>"
  have r': "r' = (if acks then ack_pending a ?r2 else ?r2)"
    using assms(3) by (simp add: r'_def handle_delivery_def processMessage_def log_add_def Let_def acks_def)
  have b2: "broker_after (rr_log ?r2) = b\<lparr>br_outstanding := br_outstanding b @ [dl_DeliveryTag m]\<rparr>"
    by (simp add: log_add_def b_def)
  show "rr_unackedCount r' = (if acks \<and> a then 0 else rr_unackedCount r + 1)"
    "rr_lastAckDeliveryTag r' = dl_DeliveryTag m"
    by (simp_all add: r' ack_pending_def log_add_def Let_def)
  show "broker_after (rr_log r') =
      (if acks \<and> a then b\<lparr>br_outstanding := [],
         br_acked := br_acked b @ br_outstanding b @ [dl_DeliveryTag m]\<rparr>
       else b\<lparr>br_outstanding := br_outstanding b @ [dl_DeliveryTag m]\<rparr>)"
    using b2 filters by (simp add: r' ack_pending_def Let_def log_add_def [of "AckCall _ _"])
qed

lemma settles_delivery:
  assumes s: "settles decode ms r" and t: "rr_lastAckDeliveryTag r < dl_DeliveryTag m"
  shows "settles decode (ms @ [m]) (handle_delivery decode m stopping a True r) \<and>
    rr_lastAckDeliveryTag (handle_delivery decode m stopping a True r) = dl_DeliveryTag m \<and>
    (counted r \<longrightarrow> a \<longrightarrow> counted (handle_delivery decode m stopping a True r))"
proof (cases "decode (dl_Body m)")
  case None
  have old: "\<forall>u \<in> set (br_outstanding (broker_after (rr_log r))). u \<le> rr_lastAckDeliveryTag r"
    using s by (auto simp: settles_def Let_def)
  note d = undecoded_delivery [where decode = decode and m = m and r = r and a = a and stopping = stopping, OF old t None]
  show ?thesis
    using s t old None unfolding settles_def counted_def d Let_def by (auto simp: good_def bad_def)
next
  case (Some p)
  have old: "\<forall>u \<in> set (br_outstanding (broker_after (rr_log r))). u \<le> rr_lastAckDeliveryTag r"
    using s by (auto simp: settles_def Let_def)
  note d = decoded_delivery [where decode = decode and m = m and r = r and a = a and stopping = stopping, OF old t Some]
  show ?thesis
    using s t old Some unfolding settles_def counted_def d Let_def by (auto simp: good_def bad_def)
qed

text \<open>One step of the loop that does not leave it.\<close>

lemma consume_step_settles:
  assumes "settles decode ms r" and "nacks_succeed e"
    and "sorted_wrt (<) (rr_lastAckDeliveryTag r # tags_of (delivered (e # es)))"
    and "consume_step decode e r = (r', Running)"
  shows "settles decode (ms @ delivered [e]) r' \<and> handled [e] = [e] \<and>
    sorted_wrt (<) (rr_lastAckDeliveryTag r' # tags_of (delivered es)) \<and>
    (counted r \<longrightarrow> acks_succeed e \<longrightarrow> counted r')"
proof (cases e)
  case (AckTick ok)
  then have "r' = r \<or> r' = ack_pending ok r" using assms(4) by (auto split: if_splits)
  moreover have "settles decode ms (ack_pending ok r)"
    using settles_ack(1) [OF assms(1) refl, of ok] by (cases ok) (simp_all add: ack_pending_def Let_def settles_def)
  moreover have "counted (ack_pending ok r)" if "counted r" and "ok"
    using that settles_ack(2) [OF assms(1) refl, of ok]
    by (simp add: ack_pending_def Let_def counted_def log_add_def del: broker_after_append)
  moreover have "rr_lastAckDeliveryTag (ack_pending ok r) = rr_lastAckDeliveryTag r"
    by (simp add: ack_pending_def log_add_def Let_def)
  ultimately show ?thesis using AckTick assms(1,3) by auto
next
  case (Message m stopping a n)
  with assms(2,3) have n: "n = True" "rr_lastAckDeliveryTag r < dl_DeliveryTag m" by simp_all
  have "r' = handle_delivery decode m stopping a True r" using assms(4) Message n by simp
  with settles_delivery [OF assms(1) n(2), of stopping a] Message assms(3) show ?thesis by simp
qed (use assms(4) in auto)

lemma delivered_append: "delivered (es @ fs) = delivered es @ delivered fs"
  by (induction es rule: delivered.induct) auto

lemma handled_Cons: "handled [e] = [e] \<Longrightarrow> handled (e # es) = e # handled es"
  by (cases e) auto

lemma consume_loop_settles:
  assumes "settles decode ms r" and "list_all nacks_succeed es"
    and "sorted_wrt (<) (rr_lastAckDeliveryTag r # tags_of (delivered es))"
    and "consume_loop decode es r = (r', exit)"
  shows "settles decode (ms @ delivered (handled es)) r' \<and>
    (counted r \<longrightarrow> list_all acks_succeed es \<longrightarrow>
       length (br_outstanding (broker_after (rr_log r'))) < 100 \<and>
       (exit = Stopped \<longrightarrow> br_outstanding (broker_after (rr_log r')) = []))"
  using assms
proof (induction es arbitrary: ms r)
  case Nil
  then show ?case by (auto simp: counted_def)
next
  case (Cons e es)
  obtain r1 x where step: "consume_step decode e r = (r1, x)" by fastforce
  show ?case
  proof (cases x)
    case Running
    with Cons.prems step have "consume_loop decode es r1 = (r', exit)" by simp
    with Cons.IH [of "ms @ delivered [e]" r1] consume_step_settles [OF Cons.prems(1) _ Cons.prems(3)]
      Cons.prems(2) step Running
    have "settles decode ((ms @ delivered [e]) @ delivered (handled es)) r'" "handled [e] = [e]"
      "counted r \<longrightarrow> list_all acks_succeed (e # es) \<longrightarrow>
         length (br_outstanding (broker_after (rr_log r'))) < 100 \<and>
         (exit = Stopped \<longrightarrow> br_outstanding (broker_after (rr_log r')) = [])"
      by auto
    then show ?thesis
      using delivered_append [of "[e]" "handled es"] by (simp add: handled_Cons)
  next
    case Stopped
    then obtain ok where e: "e = StopSignal ok" using step by (cases e) auto
    have "r' = r1" "exit = Stopped" using Cons.prems(4) step Stopped by simp_all
    with step e Cons.prems(1) settles_ack [OF Cons.prems(1) refl, of ok] show ?thesis
      by (auto simp: counted_def)
  next
    case ChannelClosed
    then have "e = MessagesClosed" "r1 = r" using step by (cases e; auto)+
    with Cons.prems step show ?thesis by (auto simp: counted_def)
  qed
qed

subsection \<open>Theorems\<close>

text \<open>C17: Over every run of the consume loop on deliveries with increasing tags whose nacks succeed,
  and whichever of its acks fail, the broker ends with every handled delivery accounted for: those
  that decode are acknowledged or still outstanding, in order, and those that do not are
  rejected, never acknowledged. When the acks succeed too, fewer than 100 deliveries are
  outstanding at any time, and none once the reader has stopped.\<close>

theorem consume_settles:
  assumes "consume decode es r = (r', exit)" and "rr_log r = []" and "list_all nacks_succeed es"
    and "sorted_wrt (<) (0 # tags_of (delivered es))"
  shows "br_acked (broker_after (rr_log r')) @ br_outstanding (broker_after (rr_log r'))
      = good decode (delivered (handled es)) \<and>
    br_rejected (broker_after (rr_log r')) = bad decode (delivered (handled es)) \<and>
    (list_all acks_succeed es \<longrightarrow> length (br_outstanding (broker_after (rr_log r'))) < 100 \<and>
       (exit = Stopped \<longrightarrow> br_outstanding (broker_after (rr_log r')) = []))"
proof -
  have "settles decode [] (consume_start r)" "counted (consume_start r)"
    using assms(2) by (simp_all add: settles_def counted_def consume_start_def broker_after_def good_def bad_def)
  moreover have "sorted_wrt (<) (rr_lastAckDeliveryTag (consume_start r) # tags_of (delivered es))"
    using assms(4) by (simp add: consume_start_def)
  ultimately have "settles decode ([] @ delivered (handled es)) r' \<and>
      (list_all acks_succeed es \<longrightarrow> length (br_outstanding (broker_after (rr_log r'))) < 100 \<and>
       (exit = Stopped \<longrightarrow> br_outstanding (broker_after (rr_log r')) = []))"
    using consume_loop_settles [OF _ assms(3)] assms(1) unfolding consume_def by blast
  then show ?thesis by (simp add: settles_def Let_def)
qed

definition sample_delivery :: "nat \<Rightarrow> bytes \<Rightarrow> Delivery" where
  "sample_delivery t body = \<lparr>dl_Body = body, dl_DeliveryTag = t\<rparr>"

definition sample_decode :: "bytes \<Rightarrow> PacketWithAddr option" where
  "sample_decode body = (if body = [] then None else Some \<lparr>pa_Data = body, pa_RemoteAddr = ''h:1''\<rparr>)"

definition fresh_reader :: RabbitMQReader where
  "fresh_reader = \<lparr>rr_unackedCount = 0, rr_lastAckDeliveryTag = 0, rr_log = []\<rparr>"

lemma consume_settles_witness:
  "let es = [Message (sample_delivery 1 ''a'') False True True, Message (sample_delivery 2 []) False True True,
             Message (sample_delivery 3 ''b'') False True True, StopSignal True];
       b = broker_after (rr_log (fst (consume sample_decode es fresh_reader)))
   in br_acked b @ br_outstanding b = [1, 3] \<and> br_rejected b = [2] \<and> br_outstanding b = []"
proof -
  let ?es = "[Message (sample_delivery 1 ''a'') False True True, Message (sample_delivery 2 []) False True True,
             Message (sample_delivery 3 ''b'') False True True, StopSignal True]"
  have "snd (consume sample_decode ?es fresh_reader) = Stopped"
    by (simp add: consume_def consume_start_def handle_delivery_def processMessage_def Let_def
        case_prod_beta split: option.split)
  then have "consume sample_decode ?es fresh_reader = (fst (consume sample_decode ?es fresh_reader), Stopped)"
    by (metis prod.collapse)
  from consume_settles [OF this] show ?thesis
    by (auto simp: sample_delivery_def sample_decode_def fresh_reader_def good_def bad_def)
qed

text \<open>A message read while the reader is being stopped can be lost: \<open>processMessage\<close> gives up
  the packet without an error, so the message is counted as processed and acknowledged by the
  stop, although it was never forwarded.\<close>

theorem stop_acks_unforwarded:
  assumes "decode (dl_Body m) = Some p" and "0 < dl_DeliveryTag m" and "rr_log r = []"
  shows "br_acked (broker_after (rr_log (fst (consume decode [Message m True a n, StopSignal True] r))))
      = [dl_DeliveryTag m] \<and>
    list_all (\<lambda>e. e \<noteq> Forwarded p) (rr_log (fst (consume decode [Message m True a n, StopSignal True] r)))"
  using assms
  by (simp add: consume_def consume_start_def handle_delivery_def processMessage_def log_add_def
      broker_after_def)

lemma stop_acks_unforwarded_witness:
  "br_acked (broker_after (rr_log (fst (consume sample_decode
      [Message (sample_delivery 1 ''a'') True True True, StopSignal True] fresh_reader)))) = [1] \<and>
   list_all (\<lambda>e. e \<noteq> Forwarded \<lparr>pa_Data = ''a'', pa_RemoteAddr = ''h:1''\<rparr>)
     (rr_log (fst (consume sample_decode
        [Message (sample_delivery 1 ''a'') True True True, StopSignal True] fresh_reader)))"
  using stop_acks_unforwarded [of sample_decode "sample_delivery 1 ''a''" "\<lparr>pa_Data = ''a'', pa_RemoteAddr = ''h:1''\<rparr>"
      fresh_reader True True]
  by (simp add: sample_delivery_def sample_decode_def fresh_reader_def)

end
