(* ===== verification/File_Reader.thy ===== *)
theory File_Reader
  imports Udp_Message
begin

section \<open>Reading packets from a file (input/input.go)\<close>

text \<open>
  The loop of \<open>FileReader\<close>: one iteration is a call of \<open>bufio.Scanner.Scan\<close> on the file as it is at
  that moment, the decoding of the line, and a send that never blocks. The scanner is modelled
  with what matters here: its position, the limit of 10 MB on a line, and the error it keeps
  once it has met the end of the file. The lemmas: every complete line is read once and in
  order, and the end of the file is final.
\<close>

subsection \<open>The scanner\<close>

datatype scan_error = NoError | EOF | ErrTooLong

record Scanner =
  sc_pos :: nat
  sc_err :: scan_error

abbreviation (input) "maxLine \<equiv> (10 * 1024 * 1024 :: nat)"

definition drop_cr :: "string \<Rightarrow> string" where
  "drop_cr line = (if line \<noteq> [] \<and> last line = CHR 0x0D then butlast line else line)"

text \<open>
  \<open>Scan\<close> on a file that holds \<open>content\<close>: the token, if there is one. At the end of the file the
  scanner hands out what is left and keeps the error; from then on it reads nothing.
\<close>

definition Scan :: "string \<Rightarrow> Scanner \<Rightarrow> Scanner \<times> string option" where
  "Scan content sc =
     (if sc_err sc \<noteq> NoError then (sc, None)
      else
        let rest = drop (sc_pos sc) content; line = before newline rest
        in if newline \<in> set rest \<and> length line < maxLine
           then (sc\<lparr>sc_pos := sc_pos sc + length line + 1\<rparr>, Some (drop_cr line))
           else if maxLine \<le> length rest then (sc\<lparr>sc_err := ErrTooLong\<rparr>, None)
           else if rest = [] then (sc\<lparr>sc_err := EOF\<rparr>, None)
           else (sc\<lparr>sc_pos := length content, sc_err := EOF\<rparr>, Some (drop_cr rest)))"

subsection \<open>The read loop\<close>

record FileReader =
  fr_base64Encoded :: bool
  fr_follow :: bool
  fr_scanner :: Scanner
  fr_packets :: "PacketWithAddr list"
  fr_dropped :: nat

definition NewFileReaderWithFollow :: "bool \<Rightarrow> bool \<Rightarrow> FileReader" where
  "NewFileReaderWithFollow base64Encoded follow =
     \<lparr>fr_base64Encoded = base64Encoded, fr_follow = follow,
      fr_scanner = \<lparr>sc_pos = 0, sc_err = NoError\<rparr>, fr_packets = [], fr_dropped = 0\<rparr>"

datatype loop_exit = Continue | Ended

text \<open>
  One iteration that the stop signal does not end. \<open>room\<close> says whether the packet channel, which
  holds 100, takes another packet; without room the packet is dropped.
\<close>

definition read_line :: "string \<Rightarrow> bool \<Rightarrow> FileReader \<Rightarrow> FileReader \<times> loop_exit" where
  "read_line content room f =
     (case Scan content (fr_scanner f) of
        (sc, None) \<Rightarrow>
          (f\<lparr>fr_scanner := sc\<rparr>,
           if sc_err sc = ErrTooLong then Ended else if fr_follow f then Continue else Ended)
      | (sc, Some line) \<Rightarrow>
          (let f1 = f\<lparr>fr_scanner := sc\<rparr>
           in (case decode_message (fr_base64Encoded f) line of
                 None \<Rightarrow> f1
               | Some p \<Rightarrow> if room then f1\<lparr>fr_packets := fr_packets f @ [p]\<rparr>
                            else f1\<lparr>fr_dropped := Suc (fr_dropped f)\<rparr>,
               Continue)))"

fun readLoop :: "(string \<times> bool) list \<Rightarrow> FileReader \<Rightarrow> FileReader \<times> loop_exit" where
  "readLoop [] f = (f, Continue)"
| "readLoop ((content, room) # steps) f =
     (case read_line content room f of
        (f', Continue) \<Rightarrow> readLoop steps f'
      | (f', Ended) \<Rightarrow> (f', Ended))"

lemma Scan_after_error: "sc_err sc \<noteq> NoError \<Longrightarrow> Scan content sc = (sc, None)"
  by (simp add: Scan_def)

lemma readLoop_after_eof:
  "sc_err (fr_scanner f) = EOF \<Longrightarrow> fst (readLoop steps f) = f"
proof (induction steps)
  case (Cons s steps)
  then show ?case
    by (cases s) (auto simp: read_line_def Scan_after_error split: loop_exit.split)
qed simp

definition file_text :: "string list \<Rightarrow> string" where
  "file_text ls = concat (List.map (\<lambda>l. l @ [newline]) ls)"

definition packets_of :: "bool \<Rightarrow> string list \<Rightarrow> PacketWithAddr list" where
  "packets_of base64Encoded ls = List.map_filter (\<lambda>l. decode_message base64Encoded (drop_cr l)) ls"

lemma file_text_simps [simp]:
  "file_text [] = []" "file_text (l # ls) = l @ newline # file_text ls" "file_text (ls @ ms) = file_text ls @ file_text ms"
  by (simp_all add: file_text_def)

lemma packets_of_simps [simp]:
  "packets_of b [] = []"
  "packets_of b (l # ls) = (case decode_message b (drop_cr l) of None \<Rightarrow> packets_of b ls | Some p \<Rightarrow> p # packets_of b ls)"
  by (simp_all add: packets_of_def List.map_filter_def split: option.split)

lemma Scan_line:
  assumes "newline \<notin> set l" and "length l < maxLine"
  shows "Scan (file_text done @ l @ newline # rest) \<lparr>sc_pos = length (file_text done), sc_err = NoError\<rparr> =
    (\<lparr>sc_pos = length (file_text (done @ [l])), sc_err = NoError\<rparr>, Some (drop_cr l))"
  using assms by (simp add: Scan_def before_append Let_def)

lemma readLoop_lines:
  assumes "list_all (\<lambda>l. newline \<notin> set l \<and> length l < maxLine) todo"
    and "fr_scanner f = \<lparr>sc_pos = length (file_text done), sc_err = NoError\<rparr>"
  shows "readLoop (replicate (length todo) (file_text (done @ todo), True) @ steps) f =
    readLoop steps (f\<lparr>fr_scanner := \<lparr>sc_pos = length (file_text (done @ todo)), sc_err = NoError\<rparr>,
      fr_packets := fr_packets f @ packets_of (fr_base64Encoded f) todo\<rparr>)"
  using assms
proof (induction todo arbitrary: "done" f)
  case Nil
  then show ?case by (cases f) simp
next
  case (Cons l todo)
  let ?sc = "\<lparr>sc_pos = length (file_text (done @ [l])), sc_err = NoError\<rparr>"
  let ?f = "(case decode_message (fr_base64Encoded f) (drop_cr l) of
      None \<Rightarrow> f\<lparr>fr_scanner := ?sc\<rparr> | Some p \<Rightarrow> f\<lparr>fr_scanner := ?sc, fr_packets := fr_packets f @ [p]\<rparr>)"
  have "Scan (file_text (done @ l # todo)) (fr_scanner f) = (?sc, Some (drop_cr l))"
    using Scan_line [of l "done" "file_text todo"] Cons.prems by simp
  then have step: "read_line (file_text (done @ l # todo)) True f = (?f, Continue)"
    by (simp add: read_line_def Let_def split: option.split)
  have "fr_scanner ?f = ?sc" "fr_base64Encoded ?f = fr_base64Encoded f" by (simp_all split: option.split)
  with Cons.IH [of ?f "done @ [l]"] Cons.prems(1) step show ?case
    by (simp split: option.split)
qed

subsection \<open>The packets of a file\<close>

text \<open>The lines of a text; a last one need not be terminated.\<close>

fun split_lines :: "string \<Rightarrow> string list" where
  "split_lines [] = []"
| "split_lines (c # cs) =
     (if c = newline then [] # split_lines cs
      else case split_lines cs of [] \<Rightarrow> [[c]] | l # ls \<Rightarrow> (c # l) # ls)"

text \<open>
  What there is to be read from a file: the packets of its lines that decode, up to the first line
  that is too long for the scanner.
\<close>

definition readable_lines :: "string \<Rightarrow> string list" where
  "readable_lines content = takeWhile (\<lambda>l. length l < maxLine) (split_lines content)"

definition file_packets :: "bool \<Rightarrow> string \<Rightarrow> PacketWithAddr list" where
  "file_packets base64Encoded content = packets_of base64Encoded (readable_lines content)"

lemma split_lines_none: "newline \<notin> set s \<Longrightarrow> split_lines s = (if s = [] then [] else [s])"
  by (induction s) auto

lemma split_lines_first: "newline \<notin> set l \<Longrightarrow> split_lines (l @ newline # s) = l # split_lines s"
  by (induction l) auto

lemma split_file_text: "list_all (\<lambda>l. newline \<notin> set l) ls \<Longrightarrow> split_lines (file_text ls @ s) = ls @ split_lines s"
  by (induction ls) (simp_all add: split_lines_first)

lemma split_at_newline: "newline \<in> set s \<Longrightarrow> s = before newline s @ newline # drop (Suc (length (before newline s))) s"
  by (induction s) (auto simp: before_def)

lemma newline_not_before: "newline \<notin> set (before newline s)"
  by (auto simp: before_def dest: set_takeWhileD)

text \<open>A scan yields the next readable line, or, when there is none, an error it keeps.\<close>

definition lines_left :: "string \<Rightarrow> Scanner \<Rightarrow> string list" where
  "lines_left content sc = (if sc_err sc = NoError then readable_lines (drop (sc_pos sc) content) else [])"

lemma Scan_lines_left:
  "case Scan content sc of
     (sc', Some line) \<Rightarrow> (\<exists>l. lines_left content sc = l # lines_left content sc' \<and> line = drop_cr l)
   | (sc', None) \<Rightarrow> lines_left content sc = [] \<and> sc_err sc' \<noteq> NoError"
proof (cases "sc_err sc = NoError")
  case False
  then show ?thesis by (simp add: Scan_def lines_left_def)
next
  case True
  let ?rest = "drop (sc_pos sc) content"
  let ?line = "before newline ?rest"
  show ?thesis
  proof (cases "newline \<in> set ?rest")
    case nl: True
    note split = split_at_newline [OF nl]
    have lines: "split_lines ?rest = ?line # split_lines (drop (sc_pos sc + length ?line + 1) content)"
      using split_lines_first [OF newline_not_before, of ?rest] split by (metis add.commute add_Suc drop_drop Suc_eq_plus1)
    have "length ?line < length ?rest" using arg_cong [OF split, of length] by simp
    with True nl lines show ?thesis
      by (auto simp: Scan_def lines_left_def readable_lines_def Let_def)
  next
    case False
    with True split_lines_none [OF False] show ?thesis
      by (auto simp: Scan_def lines_left_def readable_lines_def Let_def)
  qed
qed

text \<open>A line that is too long hides the rest of the file.\<close>

lemma over_long_line_hides:
  assumes "list_all (\<lambda>l. newline \<notin> set l \<and> length l < maxLine) ls" and "newline \<notin> set l" "maxLine \<le> length l"
  shows "file_packets base64 (file_text ls @ l @ newline # rest) = packets_of base64 ls"
proof -
  have "split_lines (file_text ls @ l @ newline # rest) = ls @ l # split_lines rest"
    using split_file_text [of ls "l @ newline # rest"] split_lines_first [OF assms(2)] assms(1)
    by (simp add: list_all_iff)
  moreover have "takeWhile (\<lambda>l. length l < maxLine) (ls @ l # split_lines rest) = ls"
    using assms(1,3) by (subst takeWhile_append2) (auto simp: list_all_iff)
  ultimately show ?thesis by (simp only: file_packets_def readable_lines_def)
qed

subsection \<open>Theorems\<close>

text \<open>Reading a file of newline-terminated lines to its end delivers exactly the packets of
  the lines that decode, in the order of the file, and then ends; lines that do not decode are
  skipped.\<close>

theorem file_packets_in_order:
  assumes "list_all (\<lambda>l. newline \<notin> set l \<and> length l < 10 * 1024 * 1024) ls"
  shows "\<exists>f. readLoop (replicate (Suc (length ls)) (file_text ls, True)) (NewFileReaderWithFollow base64 False) = (f, Ended) \<and>
    fr_packets f = packets_of base64 ls \<and> fr_dropped f = 0"
proof -
  let ?f = "NewFileReaderWithFollow base64 False"
  have f: "fr_scanner ?f = \<lparr>sc_pos = length (file_text []), sc_err = NoError\<rparr>"
    by (simp add: NewFileReaderWithFollow_def)
  have "replicate (Suc (length ls)) (file_text ls, True) =
      replicate (length ls) (file_text ([] @ ls), True) @ [(file_text ls, True)]"
    by (simp add: replicate_append_same [symmetric])
  with readLoop_lines [OF assms f, of "[(file_text ls, True)]"] show ?thesis
    by (simp add: NewFileReaderWithFollow_def read_line_def Scan_def)
qed

lemma file_packets_in_order_witness:
  "\<exists>f. readLoop (replicate 2 (file_text [''{}''], True)) (NewFileReaderWithFollow True False) = (f, Ended) \<and>
    fr_packets f = packets_of True [''{}''] \<and> fr_dropped f = 0"
  using file_packets_in_order [of "[''{}'']" True] by (simp add: numeral_2_eq_2)

text \<open>Follow mode does not follow: when the reader has met the end of the file once, nothing
  that is appended to the file later is ever read, however long the loop goes on, because the
  scanner keeps the end of the file as its error.\<close>

theorem follow_never_resumes:
  assumes "sc_err (fr_scanner f) = NoError" and "length content \<le> sc_pos (fr_scanner f)" and "fr_follow f"
  shows "snd (read_line content room f) = Continue \<and>
    fr_packets (fst (readLoop steps (fst (read_line content room f)))) = fr_packets f"
proof -
  have "Scan content (fr_scanner f) = ((fr_scanner f)\<lparr>sc_err := EOF\<rparr>, None)"
    using assms(1,2) by (simp add: Scan_def)
  then have step: "read_line content room f = (f\<lparr>fr_scanner := (fr_scanner f)\<lparr>sc_err := EOF\<rparr>\<rparr>, Continue)"
    using assms(3) by (simp add: read_line_def)
  then show ?thesis by (simp add: readLoop_after_eof)
qed

lemma follow_never_resumes_witness:
  "snd (read_line [] True (NewFileReaderWithFollow True True)) = Continue \<and>
   fr_packets (fst (readLoop [(file_text [''{}''], True)] (fst (read_line [] True (NewFileReaderWithFollow True True))))) = []"
  using follow_never_resumes [of "NewFileReaderWithFollow True True" "[]" True "[(file_text [''{}''], True)]"]
  by (simp add: NewFileReaderWithFollow_def)

end
