(* ===== verification/Shoveler.thy ===== *)
theory Shoveler
  imports Udp_Message Confirmation_Queue Parse_Packet
begin

section \<open>The shoveler (cmd/shoveler/main.go)\<close>

text \<open>
  The two loops of the shoveler, one step per packet: read, check, package, queue, and for UDP
  the forwarding of the message to further destinations. A step also tells whether it ends in a
  panic: packaging without an address dereferences a nil pointer, and so does a write to a
  destination whose \<open>Dial\<close> failed. The lemmas compose the step with the confirmation queue.
\<close>

record ShovelConfig =
  vc_Verify :: bool
  vc_Map :: MapConfig
  vc_Version :: string
  vc_destinations :: "bool list"

record 'd ShovelerState =
  ss_queue :: "'d ConfirmationQueue"
  ss_PacketsReceived :: nat
  ss_ValidationsFailed :: nat
  ss_forwarded :: "(nat \<times> bytes) list"

datatype udp_read = ReadFailed | ReadPacket bytes UDPAddr

subsection \<open>UDP\<close>

text \<open>The destinations in order; one that is nil (\<open>False\<close>) panics.\<close>

fun forward :: "bytes \<Rightarrow> nat \<Rightarrow> bool list \<Rightarrow> (nat \<times> bytes) list \<times> bool" where
  "forward msg i [] = ([], False)"
| "forward msg i (dialled # ds) =
     (if dialled then (case forward msg (Suc i) ds of (sent, panic) \<Rightarrow> ((i, msg) # sent, panic))
      else ([], True))"

definition shovel_udp :: "ShovelConfig \<Rightarrow> udp_read \<Rightarrow> 'd ShovelerState \<Rightarrow> 'd ShovelerState \<times> bool" where
  "shovel_udp config r s =
     (case r of
        ReadFailed \<Rightarrow> (s, False)
      | ReadPacket buf remote \<Rightarrow>
          (let s1 = s\<lparr>ss_PacketsReceived := Suc (ss_PacketsReceived s)\<rparr>
           in if vc_Verify config \<and> \<not> VerifyPacket buf
              then (s1\<lparr>ss_ValidationsFailed := Suc (ss_ValidationsFailed s1)\<rparr>, False)
              else
                let msg = PackageUdp (vc_Version config) buf remote (vc_Map config);
                    s2 = s1\<lparr>ss_queue := Enqueue_msg msg (ss_queue s1)\<rparr>;
                    (sent, panic) = forward msg 0 (vc_destinations config)
                in (s2\<lparr>ss_forwarded := ss_forwarded s2 @ sent\<rparr>, panic)))"

fun shovel_udp_loop :: "ShovelConfig \<Rightarrow> udp_read list \<Rightarrow> 'd ShovelerState \<Rightarrow> 'd ShovelerState \<times> bool" where
  "shovel_udp_loop config [] s = (s, False)"
| "shovel_udp_loop config (r # rs) s =
     (case shovel_udp config r s of
        (s', True) \<Rightarrow> (s', True)
      | (s', False) \<Rightarrow> shovel_udp_loop config rs s')"

subsection \<open>Files\<close>

text \<open>\<open>net.ResolveUDPAddr\<close>, which may ask the DNS, is the argument \<open>resolve\<close>.\<close>

definition shovel_file ::
  "(string \<Rightarrow> UDPAddr option) \<Rightarrow> ShovelConfig \<Rightarrow> PacketWithAddr \<Rightarrow> 'd ShovelerState \<Rightarrow> 'd ShovelerState \<times> bool" where
  "shovel_file resolve config pkt s =
     (let s1 = s\<lparr>ss_PacketsReceived := Suc (ss_PacketsReceived s)\<rparr>
      in if vc_Verify config \<and> \<not> VerifyPacket (pa_Data pkt)
         then (s1\<lparr>ss_ValidationsFailed := Suc (ss_ValidationsFailed s1)\<rparr>, False)
         else
           let remoteAddr = (if pa_RemoteAddr pkt \<noteq> [] then resolve (pa_RemoteAddr pkt) else None)
           in case remoteAddr of
                None \<Rightarrow> (s1, True)
              | Some remote \<Rightarrow>
                  (s1\<lparr>ss_queue := Enqueue_msg (PackageUdp (vc_Version config) (pa_Data pkt) remote (vc_Map config))
                        (ss_queue s1)\<rparr>, False))"

fun shovel_file_loop ::
  "(string \<Rightarrow> UDPAddr option) \<Rightarrow> ShovelConfig \<Rightarrow> PacketWithAddr list \<Rightarrow> 'd ShovelerState \<Rightarrow> 'd ShovelerState \<times> bool" where
  "shovel_file_loop resolve config [] s = (s, False)"
| "shovel_file_loop resolve config (p # ps) s =
     (case shovel_file resolve config p s of
        (s', True) \<Rightarrow> (s', True)
      | (s', False) \<Rightarrow> shovel_file_loop resolve config ps s')"

subsection \<open>The queue after a run\<close>

fun received :: "udp_read list \<Rightarrow> (bytes \<times> UDPAddr) list" where
  "received [] = []"
| "received (ReadFailed # rs) = received rs"
| "received (ReadPacket b a # rs) = (b, a) # received rs"

definition passed :: "ShovelConfig \<Rightarrow> udp_read list \<Rightarrow> (bytes \<times> UDPAddr) list" where
  "passed config rs = filter (\<lambda>(b, a). \<not> (vc_Verify config \<and> \<not> VerifyPacket b)) (received rs)"

definition packaged :: "ShovelConfig \<Rightarrow> bytes \<times> UDPAddr \<Rightarrow> MessageStruct" where
  "packaged config ba =
     \<lparr>ms_Message = PackageUdp (vc_Version config) (fst ba) (snd ba) (vc_Map config), ms_Exchange = []\<rparr>"

lemma Enqueue_msg_ok:
  "cq_ok items cq \<Longrightarrow> cq_items items (Enqueue_msg msg cq) = cq_items items cq @ [\<lparr>ms_Message = msg, ms_Exchange = []\<rparr>] \<and>
     cq_ok items (Enqueue_msg msg cq)"
  using cq_put_ok [of items cq "\<lparr>ms_Message = msg, ms_Exchange = []\<rparr>"] by (simp add: cq_put_def Enqueue_msg_def)

lemma forward_dialled: "list_all id ds \<Longrightarrow> snd (forward msg i ds) = False"
  by (induction ds arbitrary: i) (auto simp: case_prod_beta)

lemma shovel_udp_loop_queue:
  assumes "cq_ok items (ss_queue s)" and "list_all id (vc_destinations config)"
    and "shovel_udp_loop config rs s = (s', panic)"
  shows "\<not> panic \<and> cq_ok items (ss_queue s') \<and>
    cq_items items (ss_queue s') = cq_items items (ss_queue s) @ List.map (packaged config) (passed config rs) \<and>
    ss_PacketsReceived s' = ss_PacketsReceived s + length (received rs) \<and>
    ss_ValidationsFailed s' + length (passed config rs) = ss_ValidationsFailed s + length (received rs)"
  using assms
proof (induction rs arbitrary: s)
  case Nil
  then show ?case by (simp add: passed_def)
next
  case (Cons r rs)
  obtain s1 p where step: "shovel_udp config r s = (s1, p)" by fastforce
  have "\<not> p \<and> cq_ok items (ss_queue s1) \<and>
      cq_items items (ss_queue s1) = cq_items items (ss_queue s) @ List.map (packaged config) (passed config [r]) \<and>
      ss_PacketsReceived s1 = ss_PacketsReceived s + length (received [r]) \<and>
      ss_ValidationsFailed s1 + length (passed config [r]) = ss_ValidationsFailed s + length (received [r])"
    using step Cons.prems(1) Enqueue_msg_ok [OF Cons.prems(1)] forward_dialled [OF Cons.prems(2)]
    by (cases r) (auto simp: shovel_udp_def passed_def packaged_def Let_def case_prod_beta split: if_splits)
  moreover have "received (r # rs) = received [r] @ received rs" by (cases r) simp_all
  then have "passed config (r # rs) = passed config [r] @ passed config rs" by (simp add: passed_def)
  moreover note \<open>received (r # rs) = received [r] @ received rs\<close>
  ultimately show ?case using Cons.IH [of s1] Cons.prems(2,3) step by auto
qed

subsection \<open>Theorems\<close>

text \<open>C21: Over every sequence of UDP reads, with every forwarding destination dialled, the shoveler
  never panics and appends to the queue one message per packet that passes the check, in the
  order of arrival and nothing else, whether the queue is in memory or on disk; each packet is
  counted as received and, when it is not queued, as failed.\<close>

theorem shovel_udp_queue:
  assumes "cq_ok items (ss_queue s)" and "list_all id (vc_destinations config)"
    and "shovel_udp_loop config rs s = (s', panic)"
  shows "\<not> panic \<and>
    cq_items items (ss_queue s') = cq_items items (ss_queue s) @ List.map (packaged config) (passed config rs) \<and>
    ss_PacketsReceived s' = ss_PacketsReceived s + length (received rs) \<and>
    ss_ValidationsFailed s' + length (passed config rs) = ss_ValidationsFailed s + length (received rs)"
  using shovel_udp_loop_queue [OF assms] by blast

definition sample_shovel :: ShovelConfig where
  "sample_shovel = \<lparr>vc_Verify = True, vc_Map = sample_mapping, vc_Version = ''1'', vc_destinations = [True]\<rparr>"

definition sample_shoveler :: "MessageStruct list ShovelerState" where
  "sample_shoveler = \<lparr>ss_queue = Init list_dque [], ss_PacketsReceived = 0, ss_ValidationsFailed = 0,
     ss_forwarded = []\<rparr>"

lemma shovel_udp_queue_witness:
  "let s' = fst (shovel_udp_loop sample_shovel [ReadPacket ''<statistics>'' sample_remote, ReadFailed,
       ReadPacket ''x'' sample_remote] sample_shoveler)
   in cq_items id (ss_queue s') = [packaged sample_shovel (''<statistics>'', sample_remote)] \<and>
      ss_PacketsReceived s' = 2 \<and> ss_ValidationsFailed s' = 1"
proof -
  let ?rs = "[ReadPacket ''<statistics>'' sample_remote, ReadFailed, ReadPacket ''x'' sample_remote]"
  let ?r = "shovel_udp_loop sample_shovel ?rs sample_shoveler"
  have "dque_laws id list_dque" by (simp add: dque_laws_def list_dque_def)
  then have ok: "cq_ok id (ss_queue sample_shoveler)" "cq_items id (ss_queue sample_shoveler) = []"
    by (simp_all add: sample_shoveler_def cq_ok_Init)
  have "list_all id (vc_destinations sample_shovel)" by (simp add: sample_shovel_def)
  from shovel_udp_queue [OF ok(1) this, of ?rs "fst ?r" "snd ?r"] ok(2)
  show ?thesis
    by (simp add: passed_def sample_shovel_def VerifyPacket_def sample_shoveler_def Let_def)
qed

text \<open>A packet read from a file without an address, or with one that does not resolve, ends the
  shoveler: packaging it dereferences a nil pointer, so neither this packet nor any after it is
  queued.\<close>

theorem shovel_file_without_address:
  assumes "pa_RemoteAddr p = [] \<or> resolve (pa_RemoteAddr p) = None"
    and "vc_Verify config \<longrightarrow> VerifyPacket (pa_Data p)"
  shows "snd (shovel_file_loop resolve config (p # ps) s) \<and>
    ss_queue (fst (shovel_file_loop resolve config (p # ps) s)) = ss_queue s"
  using assms by (auto simp: shovel_file_def Let_def)

lemma shovel_file_without_address_witness:
  "snd (shovel_file_loop (\<lambda>_. None) sample_shovel [\<lparr>pa_Data = ''<statistics>'', pa_RemoteAddr = []\<rparr>] sample_shoveler) \<and>
   ss_queue (fst (shovel_file_loop (\<lambda>_. None) sample_shovel [\<lparr>pa_Data = ''<statistics>'', pa_RemoteAddr = []\<rparr>]
     sample_shoveler)) = ss_queue sample_shoveler"
  by (rule shovel_file_without_address) (simp_all add: VerifyPacket_def)

text \<open>The shoveler's check lets through every packet of at least eight bytes that the collector's
  parser accepts.\<close>

theorem parsed_packets_verify:
  assumes "\<not> isl (ParsePacket u b)" and "8 \<le> length b"
  shows "VerifyPacket b"
proof -
  have ne: "b \<noteq> []" using assms(2) by auto
  have "hd b = CHR ''<'' \<or> unat (hdr_Plen (decode_binaryHeader b)) = length b"
    using assms by (auto simp: ParsePacket_def Let_def split: if_splits)
  then show ?thesis
    using assms(2) ne by (auto simp: VerifyPacket_def shoveler_header_def decode_binaryHeader_def hd_conv_nth Let_def)
qed

lemma parsed_packets_verify_witness: "VerifyPacket ''<statistics>''"
  by (rule parsed_packets_verify [of "\<lambda>_. None"]) (simp_all add: ParsePacket_def)

end
