(* ===== verification/Go_Url.thy ===== *)
theory Go_Url
  imports Go_Numbers Go_Strings
begin

section \<open>net/url\<close>

text \<open>
  The path of \<open>url.Parse\<close>, \<open>None\<close> when the library reports an error. The whole reading of a URL
  is here because every part of it can fail: scheme, query, authority with its user information,
  host and port, the path, and the fragment. The lemma is what the collector relies on: the path of
  \<open>scheme://host/path\<close>.
\<close>

definition is_letter :: "char \<Rightarrow> bool" where
  "is_letter c \<longleftrightarrow> (65 \<le> byte_nat c \<and> byte_nat c \<le> 90) \<or> (97 \<le> byte_nat c \<and> byte_nat c \<le> 122)"

definition is_ctl :: "char \<Rightarrow> bool" where
  "is_ctl c \<longleftrightarrow> byte_nat c < 32 \<or> byte_nat c = 127"

definition unreserved :: "char \<Rightarrow> bool" where
  "unreserved c \<longleftrightarrow> is_letter c \<or> is_digit c \<or> c \<in> set ''-_.~''"

subsection \<open>Unescaping\<close>

definition hex_pair :: "char \<Rightarrow> char \<Rightarrow> char" where
  "hex_pair a b = char_of (16 * hex_digit_val a + hex_digit_val b)"

text \<open>\<open>pct\<close> admits an escape by its two digits, \<open>plain\<close> a character that is not escaped.\<close>

function unescape :: "(char \<Rightarrow> char \<Rightarrow> bool) \<Rightarrow> (char \<Rightarrow> bool) \<Rightarrow> string \<Rightarrow> string option" where
  "unescape pct plain s =
     (if s = [] then Some []
      else if hd s = CHR ''%'' then
        (if 2 < length s \<and> is_hex (s ! 1) \<and> is_hex (s ! 2) \<and> pct (s ! 1) (s ! 2)
         then map_option (\<lambda>t. hex_pair (s ! 1) (s ! 2) # t) (unescape pct plain (drop 3 s))
         else None)
      else if plain (hd s) then map_option (\<lambda>t. hd s # t) (unescape pct plain (tl s))
      else None)"
  by pat_completeness auto
termination
  by (relation "measure (\<lambda>(_, _, s). length s)") auto

declare unescape.simps [simp del]

text \<open>Characters a host may hold as they are; bytes outside ASCII pass.\<close>

definition host_char :: "char \<Rightarrow> bool" where
  "host_char c \<longleftrightarrow> 128 \<le> byte_nat c \<or> unreserved c \<or>
     c \<in> set ''!$&()*+,;=:[]<>'' \<or> c = CHR 0x27 \<or> c = CHR 0x22"

definition host_pct :: "char \<Rightarrow> char \<Rightarrow> bool" where
  "host_pct a b \<longleftrightarrow> 8 \<le> hex_digit_val a \<or> (a = CHR ''2'' \<and> b = CHR ''5'')"

definition zone_pct :: "char \<Rightarrow> char \<Rightarrow> bool" where
  "zone_pct a b \<longleftrightarrow> (a = CHR ''2'' \<and> b = CHR ''5'') \<or> hex_pair a b = CHR '' '' \<or>
     (host_char (hex_pair a b) \<and> byte_nat (hex_pair a b) < 128)"

abbreviation (input) "unescape_any \<equiv> unescape (\<lambda>_ _. True) (\<lambda>_. True)"

subsection \<open>The authority\<close>

definition validOptionalPort :: "string \<Rightarrow> bool" where
  "validOptionalPort port \<longleftrightarrow> port = [] \<or> (hd port = CHR '':'' \<and> list_all is_digit (tl port))"

definition validUserinfo :: "string \<Rightarrow> bool" where
  "validUserinfo s \<longleftrightarrow> list_all (\<lambda>c. unreserved c \<or> c \<in> set '':!$&()*+,;=%@'' \<or> c = CHR 0x27) s"

text \<open>The text before the first \<open>%25\<close>, if it occurs.\<close>

fun before_zone :: "string \<Rightarrow> string option" where
  "before_zone [] = None"
| "before_zone (c # s) =
     (if has_prefix (c # s) ''%25'' then Some [] else map_option (\<lambda>t. c # t) (before_zone s))"

definition parseHost_ok :: "string \<Rightarrow> bool" where
  "parseHost_ok host =
     (if has_prefix host ''['' then
        (if CHR '']'' \<notin> set host then False
         else
           let inside = before_last (CHR '']'') host; colonPort = after_last (CHR '']'') host
           in validOptionalPort colonPort \<and>
              (case before_zone inside of
                 Some h1 \<Rightarrow>
                   unescape host_pct host_char h1 \<noteq> None \<and>
                   unescape zone_pct host_char (drop (length h1) inside) \<noteq> None \<and>
                   unescape host_pct host_char ('']'' @ colonPort) \<noteq> None
               | None \<Rightarrow> unescape host_pct host_char host \<noteq> None))
      else
        (CHR '':'' \<in> set host \<longrightarrow> validOptionalPort (CHR '':'' # after_last (CHR '':'') host)) \<and>
        unescape host_pct host_char host \<noteq> None)"

definition parseAuthority_ok :: "string \<Rightarrow> bool" where
  "parseAuthority_ok authority =
     (if CHR ''@'' \<notin> set authority then parseHost_ok authority
      else
        let userinfo = before_last (CHR ''@'') authority
        in parseHost_ok (after_last (CHR ''@'') authority) \<and> validUserinfo userinfo \<and>
           unescape_any userinfo \<noteq> None)"

subsection \<open>The URL\<close>

text \<open>The scheme and the rest, \<open>None\<close> when a colon comes first.\<close>

definition scheme_char :: "char \<Rightarrow> bool" where
  "scheme_char c \<longleftrightarrow> is_letter c \<or> is_digit c \<or> c \<in> set ''+-.''"

definition getScheme :: "string \<Rightarrow> (string \<times> string) option" where
  "getScheme s =
     (let p = takeWhile scheme_char s; rest = dropWhile scheme_char s
      in if rest = [] \<or> hd rest \<noteq> CHR '':'' then Some ([], s)
         else if p = [] then None
         else if \<not> is_letter (hd p) then Some ([], s)
         else Some (p, tl rest))"

definition url_body_path :: "string \<Rightarrow> string option" where
  "url_body_path s =
     (if list_ex is_ctl s then None
      else if s = ''*'' then Some ''*''
      else case getScheme s of
             None \<Rightarrow> None
           | Some (scheme, r) \<Rightarrow>
               (let rest = before (CHR ''?'') r
                in if \<not> has_prefix rest ''/'' \<and> scheme \<noteq> [] then Some []
                   else if \<not> has_prefix rest ''/'' \<and> CHR '':'' \<in> set (before (CHR ''/'') rest) then None
                   else if (scheme \<noteq> [] \<or> \<not> has_prefix rest ''///'') \<and> has_prefix rest ''//'' then
                     (let authority = before (CHR ''/'') (drop 2 rest)
                      in if parseAuthority_ok authority
                         then unescape_any (drop (length authority) (drop 2 rest)) else None)
                   else unescape_any rest))"

definition url_path :: "string \<Rightarrow> string option" where
  "url_path rawURL =
     (case url_body_path (before (CHR ''#'') rawURL) of
        None \<Rightarrow> None
      | Some path \<Rightarrow>
          if CHR ''#'' \<in> set rawURL \<and> unescape_any (after (CHR ''#'') rawURL) = None then None else Some path)"

lemma unescape_plain:
  "list_all (\<lambda>c. c \<noteq> CHR ''%'' \<and> plain c) s \<Longrightarrow> unescape pct plain s = Some s"
  by (induction s) (simp_all add: unescape.simps)

lemma takeWhile_append_stop: "list_all P xs \<Longrightarrow> \<not> P y \<Longrightarrow> takeWhile P (xs @ y # ys) = xs"
  by (induction xs) auto

lemma dropWhile_append_stop: "list_all P xs \<Longrightarrow> \<not> P y \<Longrightarrow> dropWhile P (xs @ y # ys) = y # ys"
  by (induction xs) auto

definition plain_path :: "string \<Rightarrow> bool" where
  "plain_path p \<longleftrightarrow> list_all (\<lambda>c. \<not> is_ctl c \<and> c \<notin> set ''%?#'') p"

lemma before_none: "c \<notin> set s \<Longrightarrow> before c s = s"
  by (auto simp: before_def takeWhile_eq_all_conv)

lemma before_slash: "CHR ''/'' \<notin> set h \<Longrightarrow> before (CHR ''/'') (h @ CHR ''/'' # p) = h"
  by (rule before_append)

text \<open>The path of \<open>scheme://host/path\<close> when nothing in it is escaped.\<close>

lemma url_path_plain:
  assumes "scheme \<noteq> []" and "list_all is_letter scheme" and "list_all unreserved host" and "plain_path p"
  shows "url_path (scheme @ ''://'' @ host @ ''/'' @ p) = Some (''/'' @ p)"
proof -
  let ?url = "scheme @ ''://'' @ host @ ''/'' @ p" and ?auth = "host @ ''/'' @ p"
  have chars: "list_all (\<lambda>c. \<not> is_ctl c \<and> c \<notin> set ''%?#'') ?url"
    using assms(2-4) by (auto simp: plain_path_def list_all_iff is_ctl_def is_letter_def unreserved_def is_digit_def)
  then have no: "CHR ''#'' \<notin> set ?url" "CHR ''?'' \<notin> set ?url" "\<not> list_ex is_ctl ?url"
    by (auto simp: list_all_iff list_ex_iff)
  have sc: "list_all scheme_char scheme" "\<not> scheme_char (CHR '':'')"
    using assms(2) by (auto simp: list_all_iff scheme_char_def is_letter_def is_digit_def)
  have "getScheme ?url = Some (scheme, ''//'' @ ?auth)"
    using assms(1,2) takeWhile_append_stop [OF sc, of "''//'' @ ?auth"] dropWhile_append_stop [OF sc, of "''//'' @ ?auth"]
    by (cases scheme) (simp_all add: getScheme_def Let_def)
  moreover have "before (CHR ''?'') (''//'' @ ?auth) = ''//'' @ ?auth"
    using no(2) by (intro before_none) auto
  moreover have slash: "CHR ''/'' \<notin> set host"
    using assms(3) by (auto simp: list_all_iff unreserved_def is_letter_def is_digit_def)
  then have "before (CHR ''/'') ?auth = host" using before_slash [of host p] by simp
  moreover have "parseAuthority_ok host"
  proof -
    have "CHR ''@'' \<notin> set host" "CHR '':'' \<notin> set host" "\<not> has_prefix host ''[''"
      using assms(3) by (auto simp: list_all_iff unreserved_def is_letter_def is_digit_def has_prefix_def prefix_def)
    moreover have "unescape host_pct host_char host = Some host"
      using assms(3) by (intro unescape_plain) (auto simp: list_all_iff host_char_def unreserved_def is_letter_def is_digit_def)
    ultimately show ?thesis by (simp add: parseAuthority_ok_def parseHost_ok_def)
  qed
  moreover have "unescape_any (''/'' @ p) = Some (''/'' @ p)"
    using assms(4) by (intro unescape_plain) (auto simp: list_all_iff plain_path_def)
  moreover have "?url \<noteq> ''*''" by simp
  moreover have "before (CHR ''#'') ?url = ?url" using no(1) by (rule before_none)
  ultimately show ?thesis
    using no assms(1) by (simp add: url_path_def url_body_path_def Let_def has_prefix_def)
qed

end
