(* ===== verification/Gstream_Events.thy ===== *)
theory Gstream_Events
  imports Wlcg Go_Floats Go_Url
begin

section \<open>g-stream events (collector/wlcg_converter.go)\<close>

text \<open>
  The rewriting of a g-stream event on its way out: the readable names of cache and transfer
  events, the byte counts derived from others in double arithmetic, the test whether a transfer
  touches a WLCG path, and the metadata block. An event is a Go map, as an association list with
  distinct keys. The lemmas say what a rename does to a lookup and what the derived counts are.
\<close>

subsection \<open>Renaming\<close>

definition renameField :: "string \<Rightarrow> string \<Rightarrow> json_object \<Rightarrow> json_object" where
  "renameField from to m =
     (case map_of m from of
        None \<Rightarrow> m
      | Some v \<Rightarrow> AList.delete from (AList.update to v m))"

definition renameFields :: "(string \<times> string) list \<Rightarrow> json_object \<Rightarrow> json_object" where
  "renameFields rs m = fold (\<lambda>(from, to). renameField from to) rs m"

definition toFloat64 :: "json option \<Rightarrow> uint64" where
  "toFloat64 v = (case v of Some (JNum w) \<Rightarrow> w | _ \<Rightarrow> 0)"

definition cache_names :: "(string \<times> string) list" where
  "cache_names =
     [(''lfn'', ''file_path''), (''blk_size'', ''block_size''), (''n_blks'', ''numbers_blocks''),
      (''n_blks_done'', ''numbers_blocks_done''), (''access_cnt'', ''access_count''),
      (''attach_t'', ''attach_time''), (''detach_t'', ''detach_time''), (''b_hit'', ''bytes_hit_cache''),
      (''b_miss'', ''bytes_miss_cache''), (''b_bypass'', ''bytes_bypass_cache''),
      (''b_todisk'', ''bytes_to_disk''), (''b_prefetch'', ''bytes_by_prefetch''),
      (''n_cks_errs'', ''numbers_checksum_errors'')]"

definition TransformCacheEvent :: "json_object \<Rightarrow> json_object" where
  "TransformCacheEvent event =
     (let out = renameFields cache_names event;
          todisk = toFloat64 (map_of out ''bytes_to_disk'');
          bypass = toFloat64 (map_of out ''bytes_bypass_cache'');
          prefetch = toFloat64 (map_of out ''bytes_by_prefetch'');
          out1 = AList.update ''bytes_read_by_remote'' (JNum (f64_add todisk bypass)) out
      in AList.update ''bytes_explicit_remote_read'' (JNum (f64_sub (f64_add todisk bypass) prefetch)) out1)"

definition tpc_names :: "(string \<times> string) list" where
  "tpc_names = [(''TPC'', ''tpc_protocol''), (''Client'', ''client''), (''Src'', ''source''),
     (''Dst'', ''destination''), (''Size'', ''size'')]"

definition xeq_names :: "(string \<times> string) list" where
  "xeq_names = [(''Beg'', ''begin_transfer''), (''End'', ''end_transfer''), (''IPv'', ''ip_version''),
     (''RC'', ''return_code''), (''Strm'', ''used_streams''), (''Type'', ''flow_direction'')]"

definition TransformTPCEvent :: "json_object \<Rightarrow> json_object" where
  "TransformTPCEvent event =
     (let out = renameFields tpc_names event
      in case map_of out ''Xeq'' of
           None \<Rightarrow> out
         | Some xeqRaw \<Rightarrow>
             AList.delete ''Xeq''
               (case xeqRaw of
                  JObj xeqMap \<Rightarrow> AList.update ''xeq'' (JObj (renameFields xeq_names xeqMap)) out
                | _ \<Rightarrow> out))"

subsection \<open>Routing tests and metadata\<close>

definition TPCPathCheckWLCG :: "string \<Rightarrow> bool" where
  "TPCPathCheckWLCG urlStr =
     (case url_path urlStr of
        None \<Rightarrow> False
      | Some p \<Rightarrow>
          (let path = dropWhile (\<lambda>c. c = CHR ''/'') p
           in has_prefix path ''store'' \<or> has_prefix path ''user/dteam''))"

record GStreamMetadata =
  gm_Producer :: string
  gm_Type :: string
  gm_Timestamp :: int
  gm_TypePrefix :: string
  gm_Host :: string
  gm_ID :: string

text \<open>The event with its \<open>metadata\<close> entry beside it, since that is a struct, not a JSON value.\<close>

type_synonym wlcg_event = "json_object \<times> GStreamMetadata"

definition ConvertGStreamToWLCG ::
  "string \<Rightarrow> string \<Rightarrow> int \<Rightarrow> json_object \<Rightarrow> bool \<Rightarrow> WLCGMetadata \<Rightarrow> wlcg_event" where
  "ConvertGStreamToWLCG uniqueID hostname now event isTPC meta =
     (let eventCopy = AList.delete ''metadata'' event
      in (if wm_VO meta \<noteq> [] then AList.update ''vo'' (JStr (wm_VO meta)) eventCopy else eventCopy,
          \<lparr>gm_Producer = wm_GStreamProducer meta, gm_Type = (if isTPC then ''tpc'' else ''metric''),
           gm_Timestamp = now div 10 ^ 6, gm_TypePrefix = ''raw'', gm_Host = hostname, gm_ID = uniqueID\<rparr>))"

subsection \<open>Lookups after renaming\<close>

lemma map_of_renameField:
  assumes "from \<noteq> to"
  shows "map_of (renameField from to m) k =
    (if k = from then None
     else if k = to \<and> map_of m from \<noteq> None then map_of m from else map_of m k)"
  using assms by (auto simp: renameField_def delete_conv' update_conv' split: option.split)

lemma renameFields_Cons: "renameFields ((a, b) # rs) m = renameFields rs (renameField a b m)"
  by (simp add: renameFields_def)

text \<open>
  A list of renames whose old and new names are all different acts on each name alone.
\<close>

definition clean_renames :: "(string \<times> string) list \<Rightarrow> bool" where
  "clean_renames rs \<longleftrightarrow> distinct (List.map fst rs @ List.map snd rs)"

lemma renameFields_other:
  "k \<notin> fst ` set rs \<Longrightarrow> k \<notin> snd ` set rs \<Longrightarrow> clean_renames rs \<Longrightarrow> map_of (renameFields rs m) k = map_of m k"
proof (induction rs arbitrary: m)
  case (Cons r rs)
  obtain a b where r: "r = (a, b)" by (cases r)
  with Cons.prems have "a \<noteq> b" "clean_renames rs" by (auto simp: clean_renames_def)
  with Cons r show ?case by (auto simp: renameFields_Cons map_of_renameField)
qed (simp add: renameFields_def)

lemma renameFields_old:
  "k \<in> fst ` set rs \<Longrightarrow> clean_renames rs \<Longrightarrow> map_of (renameFields rs m) k = None"
proof (induction rs arbitrary: m)
  case (Cons r rs)
  obtain a b where r: "r = (a, b)" by (cases r)
  with Cons.prems have c: "a \<noteq> b" "clean_renames rs" "a \<notin> fst ` set rs" "a \<notin> snd ` set rs"
    by (auto simp: clean_renames_def)
  show ?case
  proof (cases "k = a")
    case True
    with r c renameFields_other [of a rs "renameField a b m"] show ?thesis
      by (simp add: renameFields_Cons map_of_renameField)
  next
    case False
    with Cons r c show ?thesis by (simp add: renameFields_Cons)
  qed
qed simp

lemma renameFields_new:
  "(a, b) \<in> set rs \<Longrightarrow> clean_renames rs \<Longrightarrow>
     map_of (renameFields rs m) b = (case map_of m a of None \<Rightarrow> map_of m b | Some v \<Rightarrow> Some v)"
proof (induction rs arbitrary: m)
  case (Cons r rs)
  obtain x y where r: "r = (x, y)" by (cases r)
  with Cons.prems have c: "x \<noteq> y" "clean_renames rs" "x \<notin> fst ` set rs" "x \<notin> snd ` set rs"
    "y \<notin> fst ` set rs" "y \<notin> snd ` set rs" by (auto simp: clean_renames_def)
  show ?case
  proof (cases "(a, b) = (x, y)")
    case True
    with r c renameFields_other [of y rs "renameField x y m"] show ?thesis
      by (simp add: renameFields_Cons map_of_renameField split: option.split)
  next
    case False
    with Cons.prems r have ab: "(a, b) \<in> set rs" by auto
    then have "a \<noteq> x" "b \<noteq> y" "a \<noteq> y" "b \<noteq> x"
      using c by force+
    with Cons.IH [OF ab c(2), of "renameField x y m"] r c show ?thesis
      by (simp add: renameFields_Cons map_of_renameField split: option.split)
  qed
qed simp

lemma clean_names: "clean_renames cache_names" "clean_renames tpc_names" "clean_renames xeq_names"
  by (simp_all add: clean_renames_def cache_names_def tpc_names_def xeq_names_def)

text \<open>What \<open>TransformCacheEvent\<close> leaves under a key that it does not compute.\<close>

lemma map_of_TransformCacheEvent:
  "k \<noteq> ''bytes_read_by_remote'' \<Longrightarrow> k \<noteq> ''bytes_explicit_remote_read'' \<Longrightarrow>
     map_of (TransformCacheEvent event) k = map_of (renameFields cache_names event) k"
  by (simp add: TransformCacheEvent_def Let_def update_conv')

subsection \<open>Theorems\<close>

text \<open>A cache event whose byte counts are integers below 2^53 in sum gets exact derived counts:
  the bytes read from the remote side are those written to disk plus those bypassed, and the
  explicitly read ones are that less the prefetched. Every raw name is gone, every renamed value
  is under its new name, and all other entries are unchanged.\<close>

theorem cache_event_bytes:
  assumes "map_of event ''b_todisk'' = Some (JNum (f64_of_nat a))"
    and "map_of event ''b_bypass'' = Some (JNum (f64_of_nat b))"
    and "map_of event ''b_prefetch'' = Some (JNum (f64_of_nat p))"
    and "p \<le> a + b" and "a + b < 2 ^ 53"
  shows "map_of (TransformCacheEvent event) ''bytes_read_by_remote'' = Some (JNum (f64_of_nat (a + b))) \<and>
    map_of (TransformCacheEvent event) ''bytes_explicit_remote_read'' = Some (JNum (f64_of_nat (a + b - p))) \<and>
    (\<forall>(raw, name) \<in> set cache_names. map_of (TransformCacheEvent event) raw = None \<and>
       map_of (TransformCacheEvent event) name = (case map_of event raw of None \<Rightarrow> map_of event name | Some v \<Rightarrow> Some v)) \<and>
    (\<forall>k. k \<notin> fst ` set cache_names \<union> snd ` set cache_names \<union> {''bytes_read_by_remote'', ''bytes_explicit_remote_read''}
       \<longrightarrow> map_of (TransformCacheEvent event) k = map_of event k)"
proof (intro conjI ballI allI impI)
  let ?out = "renameFields cache_names event"
  have "map_of ?out ''bytes_to_disk'' = Some (JNum (f64_of_nat a))"
    "map_of ?out ''bytes_bypass_cache'' = Some (JNum (f64_of_nat b))"
    "map_of ?out ''bytes_by_prefetch'' = Some (JNum (f64_of_nat p))"
    using assms(1-3) renameFields_new [OF _ clean_names(1), of "''b_todisk''" "''bytes_to_disk''" event]
      renameFields_new [OF _ clean_names(1), of "''b_bypass''" "''bytes_bypass_cache''" event]
      renameFields_new [OF _ clean_names(1), of "''b_prefetch''" "''bytes_by_prefetch''" event]
    by (simp_all add: cache_names_def)
  moreover have "f64_add (f64_of_nat a) (f64_of_nat b) = f64_of_nat (a + b)"
    using assms(5) by (intro f64_add_nat) simp_all
  moreover have "f64_sub (f64_of_nat (a + b)) (f64_of_nat p) = f64_of_nat (a + b - p)"
    using assms(4,5) by (rule f64_sub_nat)
  ultimately show "map_of (TransformCacheEvent event) ''bytes_read_by_remote'' = Some (JNum (f64_of_nat (a + b)))"
    and "map_of (TransformCacheEvent event) ''bytes_explicit_remote_read'' = Some (JNum (f64_of_nat (a + b - p)))"
    by (simp_all add: TransformCacheEvent_def Let_def update_conv' toFloat64_def)
next
  fix x assume x: "x \<in> set cache_names"
  obtain raw name where rn: "x = (raw, name)" by (cases x)
  have "raw \<noteq> ''bytes_read_by_remote'' \<and> raw \<noteq> ''bytes_explicit_remote_read'' \<and>
      name \<noteq> ''bytes_read_by_remote'' \<and> name \<noteq> ''bytes_explicit_remote_read''"
    using x rn by (auto simp: cache_names_def)
  moreover have "raw \<in> fst ` set cache_names" using x rn by force
  ultimately show "case x of (raw, name) \<Rightarrow> map_of (TransformCacheEvent event) raw = None \<and>
      map_of (TransformCacheEvent event) name = (case map_of event raw of None \<Rightarrow> map_of event name | Some v \<Rightarrow> Some v)"
    using x rn renameFields_old [OF _ clean_names(1)] renameFields_new [OF _ clean_names(1)]
    by (simp add: map_of_TransformCacheEvent)
next
  fix k
  assume "k \<notin> fst ` set cache_names \<union> snd ` set cache_names \<union>
    {''bytes_read_by_remote'', ''bytes_explicit_remote_read''}"
  then show "map_of (TransformCacheEvent event) k = map_of event k"
    using renameFields_other [OF _ _ clean_names(1)] by (simp add: map_of_TransformCacheEvent)
qed

lemma cache_event_bytes_witness:
  "map_of (TransformCacheEvent [(''b_todisk'', JNum (f64_of_nat 5)), (''b_bypass'', JNum (f64_of_nat 7)),
     (''b_prefetch'', JNum (f64_of_nat 2))]) ''bytes_explicit_remote_read'' = Some (JNum (f64_of_nat 10))"
  using cache_event_bytes [of "[(''b_todisk'', JNum (f64_of_nat 5)), (''b_bypass'', JNum (f64_of_nat 7)),
     (''b_prefetch'', JNum (f64_of_nat 2))]" 5 7 2]
  by simp

text \<open>A transfer URL \<open>scheme://host/path\<close> without escapes is a WLCG one exactly when its path,
  leading slashes aside, starts with \<open>store\<close> or \<open>user/dteam\<close>: the host and the scheme play no
  part, and \<open>/storefront\<close> counts as well.\<close>

theorem TPCPathCheckWLCG_plain:
  assumes "scheme \<noteq> []" and "list_all is_letter scheme" and "list_all unreserved host" and "plain_path p"
  shows "TPCPathCheckWLCG (scheme @ ''://'' @ host @ ''/'' @ p) \<longleftrightarrow>
    prefix ''store'' (dropWhile (\<lambda>c. c = CHR ''/'') p) \<or> prefix ''user/dteam'' (dropWhile (\<lambda>c. c = CHR ''/'') p)"
  using url_path_plain [OF assms] by (simp add: TPCPathCheckWLCG_def has_prefix_def Let_def)

lemma TPCPathCheckWLCG_plain_witness:
  "TPCPathCheckWLCG (''root'' @ ''://'' @ ''eos.cern.ch'' @ ''/'' @ ''/storefront/x'') = True"
  using TPCPathCheckWLCG_plain [of "''root''" "''eos.cern.ch''" "''/storefront/x''"]
  by (simp add: is_letter_def unreserved_def is_digit_def plain_path_def is_ctl_def)

end
