(* ===== verification/Output_Connectors.thy ===== *)
theory Output_Connectors
  imports Confirmation_Queue
begin

section \<open>Output connectors (connectors, filewriter.go)\<close>

text \<open>
  Where the collector writes: the confirmation queue, a file of one record per line, or several
  of them. A file's writes can fail; the outcomes of the two writes of a line come from the
  environment (\<open>file_outcome\<close>). The lemmas: a queue never fails, an error of one connector does
  not keep the data from the others, and with no write error a file holds one line per record.
\<close>

record FileConnector =
  fc_content :: bytes
  fc_open :: bool

datatype 'd connector = QueueConn "'d ConfirmationQueue" | FileConn FileConnector

text \<open>Whether the write of the data and the write of the newline succeed.\<close>

type_synonym file_outcome = "bool \<times> bool"

definition FileConnector_WriteToExchange ::
  "file_outcome \<Rightarrow> bytes \<Rightarrow> string \<Rightarrow> FileConnector \<Rightarrow> FileConnector \<times> bool" where
  "FileConnector_WriteToExchange outcome data exchange fc =
     (if \<not> fst outcome then (fc, True)
      else
        let fc1 = fc\<lparr>fc_content := fc_content fc @ data\<rparr>
        in if \<not> snd outcome then (fc1, True) else (fc1\<lparr>fc_content := fc_content fc1 @ [newline]\<rparr>, False))"

definition QueueConnector_WriteToExchange ::
  "bytes \<Rightarrow> string \<Rightarrow> 'd ConfirmationQueue \<Rightarrow> 'd ConfirmationQueue \<times> bool" where
  "QueueConnector_WriteToExchange data exchange q = (EnqueueToExchange data exchange q, False)"

definition connector_WriteToExchange ::
  "file_outcome \<Rightarrow> bytes \<Rightarrow> string \<Rightarrow> 'd connector \<Rightarrow> 'd connector \<times> bool" where
  "connector_WriteToExchange outcome data exchange c =
     (case c of
        QueueConn q \<Rightarrow> (case QueueConnector_WriteToExchange data exchange q of (q', e) \<Rightarrow> (QueueConn q', e))
      | FileConn fc \<Rightarrow> (case FileConnector_WriteToExchange outcome data exchange fc of (fc', e) \<Rightarrow> (FileConn fc', e)))"

text \<open>Every connector is written; the result is whether any of them failed.\<close>

fun Multi_WriteToExchange ::
  "(nat \<Rightarrow> file_outcome) \<Rightarrow> bytes \<Rightarrow> string \<Rightarrow> 'd connector list \<Rightarrow> 'd connector list \<times> bool" where
  "Multi_WriteToExchange outcome data exchange [] = ([], False)"
| "Multi_WriteToExchange outcome data exchange (c # cs) =
     (let (c', e) = connector_WriteToExchange (outcome 0) data exchange c;
          (cs', lastErr) = Multi_WriteToExchange (\<lambda>i. outcome (Suc i)) data exchange cs
      in (c' # cs', e \<or> lastErr))"

definition Multi_Write ::
  "(nat \<Rightarrow> file_outcome) \<Rightarrow> bytes \<Rightarrow> 'd connector list \<Rightarrow> 'd connector list \<times> bool" where
  "Multi_Write outcome data cs = Multi_WriteToExchange outcome data [] cs"

definition FileConnector_Write ::
  "file_outcome \<Rightarrow> bytes \<Rightarrow> FileConnector \<Rightarrow> FileConnector \<times> bool" where
  "FileConnector_Write outcome data fc = FileConnector_WriteToExchange outcome data [] fc"

definition QueueConnector_Write :: "bytes \<Rightarrow> 'd ConfirmationQueue \<Rightarrow> 'd ConfirmationQueue \<times> bool" where
  "QueueConnector_Write data q = (Enqueue_msg data q, False)"

text \<open>
  Closing; \<open>ok\<close> is whether the file or the queue's disk side reports success. Every connector is
  closed, whatever the others report.
\<close>

definition FileConnector_Close :: "bool \<Rightarrow> FileConnector \<Rightarrow> FileConnector \<times> bool" where
  "FileConnector_Close ok fc = (fc\<lparr>fc_open := False\<rparr>, \<not> ok)"

definition connector_Close :: "bool \<Rightarrow> 'd connector \<Rightarrow> 'd connector \<times> bool" where
  "connector_Close ok c =
     (case c of
        QueueConn q \<Rightarrow> (c, \<not> ok)
      | FileConn fc \<Rightarrow> (case FileConnector_Close ok fc of (fc', e) \<Rightarrow> (FileConn fc', e)))"

fun Multi_Close :: "(nat \<Rightarrow> bool) \<Rightarrow> 'd connector list \<Rightarrow> 'd connector list \<times> bool" where
  "Multi_Close ok [] = ([], False)"
| "Multi_Close ok (c # cs) =
     (let (c', e) = connector_Close (ok 0) c;
          (cs', lastErr) = Multi_Close (\<lambda>i. ok (Suc i)) cs
      in (c' # cs', e \<or> lastErr))"

text \<open>The plain file writer of \<open>filewriter.go\<close>.\<close>

definition FileWriter_Write :: "file_outcome \<Rightarrow> bytes \<Rightarrow> FileConnector \<Rightarrow> FileConnector \<times> bool" where
  "FileWriter_Write outcome data fw =
     (if \<not> fst outcome then (fw, True)
      else (fw\<lparr>fc_content := fc_content fw @ data @ (if snd outcome then [newline] else [])\<rparr>, \<not> snd outcome))"

definition NewFileWriter :: "(string \<Rightarrow> bytes option) \<Rightarrow> string \<Rightarrow> FileConnector option" where
  "NewFileWriter open_append path =
     (case open_append path of None \<Rightarrow> None | Some content \<Rightarrow> Some \<lparr>fc_content = content, fc_open = True\<rparr>)"

definition FileWriter_Close :: "bool \<Rightarrow> FileConnector \<Rightarrow> FileConnector \<times> bool" where
  "FileWriter_Close ok fw = (fw\<lparr>fc_open := False\<rparr>, \<not> ok)"

text \<open>Syncing changes no state of the program; the result is whether there was an error.\<close>

definition FileWriter_Sync :: "bool \<Rightarrow> FileConnector \<Rightarrow> bool" where
  "FileWriter_Sync ok fw \<longleftrightarrow> \<not> ok"

definition FileConnector_Sync :: "bool \<Rightarrow> FileConnector \<Rightarrow> bool" where
  "FileConnector_Sync ok fc \<longleftrightarrow> \<not> ok"

definition connector_Sync :: "bool \<Rightarrow> 'd connector \<Rightarrow> bool" where
  "connector_Sync ok c = (case c of QueueConn q \<Rightarrow> False | FileConn fc \<Rightarrow> FileConnector_Sync ok fc)"

fun Multi_Sync :: "(nat \<Rightarrow> bool) \<Rightarrow> 'd connector list \<Rightarrow> bool" where
  "Multi_Sync ok [] = False"
| "Multi_Sync ok (c # cs) = (connector_Sync (ok 0) c \<or> Multi_Sync (\<lambda>i. ok (Suc i)) cs)"

lemma FileWriter_is_connector: "FileWriter_Write = FileConnector_Write"
  by (intro ext) (auto simp: FileWriter_Write_def FileConnector_Write_def FileConnector_WriteToExchange_def Let_def)

lemma FileWriter_close_is_connector: "FileWriter_Close = FileConnector_Close" "FileWriter_Sync = FileConnector_Sync"
  by (auto simp: FileWriter_Close_def FileConnector_Close_def FileWriter_Sync_def FileConnector_Sync_def fun_eq_iff)

text \<open>Syncing several connectors fails exactly when syncing some file fails.\<close>

lemma Multi_Sync_error:
  "Multi_Sync ok cs \<longleftrightarrow> (\<exists>i < length cs. (\<exists>fc. cs ! i = FileConn fc) \<and> \<not> ok i)"
proof (induction cs arbitrary: ok)
  case (Cons c cs)
  have "(\<exists>i < length (c # cs). P i) \<longleftrightarrow> P 0 \<or> (\<exists>i < length cs. P (Suc i))" for P
    by (simp add: Ex_less_Suc2)
  with Cons show ?case by (cases c) (simp_all add: connector_Sync_def FileConnector_Sync_def)
qed simp

lemma QueueConnector_Write_default: "QueueConnector_Write data q = QueueConnector_WriteToExchange data [] q"
  by (simp add: QueueConnector_Write_def QueueConnector_WriteToExchange_def Enqueue_msg_def)

subsection \<open>What a write reaches\<close>

lemma Multi_WriteToExchange_nth:
  "i < length cs \<Longrightarrow>
     length (fst (Multi_WriteToExchange outcome data exchange cs)) = length cs \<and>
     fst (Multi_WriteToExchange outcome data exchange cs) ! i =
       fst (connector_WriteToExchange (outcome i) data exchange (cs ! i))"
proof (induction cs arbitrary: i outcome)
  case (Cons c cs)
  have len: "length (fst (Multi_WriteToExchange outcome data exchange cs)) = length cs" for outcome
    by (induction cs arbitrary: outcome) (simp_all add: Let_def case_prod_beta)
  show ?case
  proof (cases i)
    case 0
    then show ?thesis by (simp add: Let_def case_prod_beta len)
  next
    case (Suc j)
    with Cons.IH [of j "\<lambda>i. outcome (Suc i)"] Cons.prems show ?thesis
      by (simp add: Let_def case_prod_beta)
  qed
qed simp

lemma Multi_WriteToExchange_error:
  "snd (Multi_WriteToExchange outcome data exchange cs) \<longleftrightarrow>
     (\<exists>i < length cs. snd (connector_WriteToExchange (outcome i) data exchange (cs ! i)))"
proof (induction cs arbitrary: outcome)
  case (Cons c cs)
  have "(\<exists>i < length (c # cs). P i) \<longleftrightarrow> P 0 \<or> (\<exists>i < length cs. P (Suc i))" for P
    by (simp add: Ex_less_Suc2)
  with Cons show ?case by (simp add: Let_def case_prod_beta)
qed simp

text \<open>A write to several connectors reaches every one of them, whichever of the others fail:
  each queue gets the message at its end, for its exchange, and a file whose writes succeed gets
  one more line; the write reports an error exactly when some file's write failed.\<close>

theorem multi_write_reaches_all:
  assumes "i < length cs"
  shows "(case cs ! i of
      QueueConn q \<Rightarrow> fst (Multi_WriteToExchange outcome data exchange cs) ! i = QueueConn (EnqueueToExchange data exchange q)
    | FileConn fc \<Rightarrow> outcome i = (True, True) \<longrightarrow>
        fst (Multi_WriteToExchange outcome data exchange cs) ! i =
          FileConn (fc\<lparr>fc_content := fc_content fc @ data @ [newline]\<rparr>)) \<and>
    (snd (Multi_WriteToExchange outcome data exchange cs) \<longleftrightarrow>
      (\<exists>j < length cs. (\<exists>fc. cs ! j = FileConn fc) \<and> outcome j \<noteq> (True, True)))"
proof -
  have "snd (connector_WriteToExchange o' data exchange c) \<longleftrightarrow> (\<exists>fc. c = FileConn fc) \<and> o' \<noteq> (True, True)"
    for o' and c :: "'a connector"
    by (cases c; cases o') (simp_all add: connector_WriteToExchange_def QueueConnector_WriteToExchange_def
        FileConnector_WriteToExchange_def Let_def)
  moreover have "case cs ! i of
      QueueConn q \<Rightarrow> fst (connector_WriteToExchange (outcome i) data exchange (cs ! i)) = QueueConn (EnqueueToExchange data exchange q)
    | FileConn fc \<Rightarrow> outcome i = (True, True) \<longrightarrow>
        fst (connector_WriteToExchange (outcome i) data exchange (cs ! i)) =
          FileConn (fc\<lparr>fc_content := fc_content fc @ data @ [newline]\<rparr>)"
    by (auto simp: connector_WriteToExchange_def QueueConnector_WriteToExchange_def
        FileConnector_WriteToExchange_def Let_def split: connector.split)
  ultimately show ?thesis
    using Multi_WriteToExchange_nth [OF assms, of outcome data exchange]
    by (simp add: Multi_WriteToExchange_error split: connector.splits)
qed

lemma multi_write_reaches_all_witness:
  "let cs = [FileConn \<lparr>fc_content = [], fc_open = True\<rparr>, QueueConn (Init list_dque [])];
       r = Multi_WriteToExchange (\<lambda>_. (False, False)) ''data'' ''ex'' cs
   in fst r ! 1 = QueueConn (EnqueueToExchange ''data'' ''ex'' (Init list_dque [])) \<and> snd r"
proof -
  let ?cs = "[FileConn \<lparr>fc_content = [], fc_open = True\<rparr>, QueueConn (Init list_dque [])]"
  have "1 < length ?cs" by simp
  from multi_write_reaches_all [OF this, of "\<lambda>_. (False, False)" "''data''" "''ex''"]
  show ?thesis by (simp add: Ex_less_Suc2 Let_def)
qed

end
