(* ===== verification/Config.thy ===== *)
theory Config
  imports Go_Strings
begin

section \<open>The configuration (config.go)\<close>

text \<open>
  Reading the configuration into the struct the programs run on: the defaults, the repairs of
  values that are not positive, the choice of the message queue, and the panics. The values come
  from the viper library, which is an argument: what its getters find for a key in the file or
  the environment, \<open>None\<close> when neither sets it; a getter then answers with the default the code
  has set for the key. Parsing a URL is the argument \<open>parse\<close>. The lemmas: the settings the
  pipelines divide or wait by are positive, the routing lists are never nil, and the errors.
\<close>

subsection \<open>The library's side\<close>

text \<open>
  A Go slice is \<open>None\<close> when it is nil. The getter of slices answers nil for a list that is set
  and empty. \<open>vp_Map\<close> is what \<open>GetStringMapString\<close> answers for the one key it is used on.
\<close>

record viper =
  vp_String :: "string \<Rightarrow> string option"
  vp_Int :: "string \<Rightarrow> int option"
  vp_Bool :: "string \<Rightarrow> bool option"
  vp_Slice :: "string \<Rightarrow> string list option"
  vp_Map :: "(string \<times> string) list"

definition GetString :: "viper \<Rightarrow> string \<Rightarrow> string \<Rightarrow> string" where
  "GetString v key dflt = (case vp_String v key of Some s \<Rightarrow> s | None \<Rightarrow> dflt)"

definition GetInt :: "viper \<Rightarrow> string \<Rightarrow> int \<Rightarrow> int" where
  "GetInt v key dflt = (case vp_Int v key of Some n \<Rightarrow> n | None \<Rightarrow> dflt)"

definition GetBool :: "viper \<Rightarrow> string \<Rightarrow> bool \<Rightarrow> bool" where
  "GetBool v key dflt = (case vp_Bool v key of Some b \<Rightarrow> b | None \<Rightarrow> dflt)"

definition GetStringSlice :: "viper \<Rightarrow> string \<Rightarrow> string list option \<Rightarrow> string list option" where
  "GetStringSlice v key dflt =
     (case vp_Slice v key of None \<Rightarrow> dflt | Some xs \<Rightarrow> if xs = [] then None else Some xs)"

text \<open>A URL as far as the program looks into it: its user information and the rest.\<close>

record URL =
  url_User :: "(string \<times> string) option"
  url_Rest :: string

subsection \<open>The struct\<close>

record WLCGConfig =
  wl_Enabled :: bool
  wl_VOs :: "string list option"
  wl_PathPrefixes :: "string list option"
  wl_Producer :: string
  wl_Type :: string
  wl_GStreamProducer :: string
  wl_VO :: string

record ScitagsConfig =
  sc_Source :: string
  sc_RefreshInterval :: int

record FilterConfig =
  fl_DropPathPrefixes :: "string list option"
  fl_DropVOs :: "string list option"

record InputConfig =
  in_Type :: string
  in_Host :: string
  in_Port :: int
  in_BufferSize :: int
  in_BrokerURL :: string
  in_Topic :: string
  in_Queue :: string
  in_Subscription :: string
  in_Base64Encoded :: bool
  in_Path :: string
  in_Follow :: bool

record StateConfig =
  st_EntryTTL :: int
  st_MaxEntries :: int
  st_EnableDNSEnrichment :: bool
  st_DNSCacheTTL :: int
  st_DNSTimeout :: int
  st_EnrichmentWorkers :: int
  st_EnrichmentQueueSize :: int
  st_GStreamWorkers :: int
  st_GStreamQueueSize :: int

record OutputConfig =
  ou_Type :: string
  ou_Path :: string

record Config =
  cfg_Input :: InputConfig
  cfg_State :: StateConfig
  cfg_Output :: OutputConfig
  cfg_WLCG :: WLCGConfig
  cfg_Scitags :: ScitagsConfig
  cfg_Mode :: string
  cfg_MQ :: string
  cfg_AmqpURL :: "URL option"
  cfg_AmqpExchange :: string
  cfg_AmqpExchangeCache :: string
  cfg_AmqpExchangeTCP :: string
  cfg_AmqpExchangeTPC :: string
  cfg_AmqpExchangeWLCG :: string
  cfg_AmqpExchangeWLCGCache :: string
  cfg_AmqpExchangeWLCGTPC :: string
  cfg_AmqpToken :: string
  cfg_AmqpPublishWorkers :: int
  cfg_ListenPort :: int
  cfg_ListenIp :: string
  cfg_DestUdp :: "string list option"
  cfg_Debug :: bool
  cfg_Verify :: bool
  cfg_StompUser :: string
  cfg_StompPassword :: string
  cfg_StompURL :: "URL option"
  cfg_StompTopic :: string
  cfg_Metrics :: bool
  cfg_MetricsPort :: int
  cfg_Profile :: bool
  cfg_ProfilePort :: int
  cfg_StompCert :: string
  cfg_StompCertKey :: string
  cfg_QueueDir :: string
  cfg_IpMapAll :: string
  cfg_IpMap :: "(string \<times> string) list"
  cfg_Filter :: FilterConfig
  cfg_VO :: string

text \<open>The zero values, which the programs start from.\<close>

definition zero_WLCGConfig :: WLCGConfig where
  "zero_WLCGConfig =
     \<lparr>wl_Enabled = False, wl_VOs = None, wl_PathPrefixes = None, wl_Producer = [],
      wl_Type = [], wl_GStreamProducer = [], wl_VO = []\<rparr>"

definition zero_ScitagsConfig :: ScitagsConfig where
  "zero_ScitagsConfig =
     \<lparr>sc_Source = [], sc_RefreshInterval = 0\<rparr>"

definition zero_FilterConfig :: FilterConfig where
  "zero_FilterConfig =
     \<lparr>fl_DropPathPrefixes = None, fl_DropVOs = None\<rparr>"

definition zero_InputConfig :: InputConfig where
  "zero_InputConfig =
     \<lparr>in_Type = [], in_Host = [], in_Port = 0, in_BufferSize = 0, in_BrokerURL = [],
      in_Topic = [], in_Queue = [], in_Subscription = [], in_Base64Encoded = False, in_Path = [],
      in_Follow = False\<rparr>"

definition zero_StateConfig :: StateConfig where
  "zero_StateConfig =
     \<lparr>st_EntryTTL = 0, st_MaxEntries = 0, st_EnableDNSEnrichment = False, st_DNSCacheTTL = 0,
      st_DNSTimeout = 0, st_EnrichmentWorkers = 0, st_EnrichmentQueueSize = 0,
      st_GStreamWorkers = 0, st_GStreamQueueSize = 0\<rparr>"

definition zero_OutputConfig :: OutputConfig where
  "zero_OutputConfig =
     \<lparr>ou_Type = [], ou_Path = []\<rparr>"

definition zero_Config :: Config where
  "zero_Config =
     \<lparr>cfg_Input = zero_InputConfig, cfg_State = zero_StateConfig,
      cfg_Output = zero_OutputConfig, cfg_WLCG = zero_WLCGConfig, cfg_Scitags = zero_ScitagsConfig,
      cfg_Mode = [], cfg_MQ = [], cfg_AmqpURL = None, cfg_AmqpExchange = [],
      cfg_AmqpExchangeCache = [], cfg_AmqpExchangeTCP = [], cfg_AmqpExchangeTPC = [],
      cfg_AmqpExchangeWLCG = [], cfg_AmqpExchangeWLCGCache = [], cfg_AmqpExchangeWLCGTPC = [],
      cfg_AmqpToken = [], cfg_AmqpPublishWorkers = 0, cfg_ListenPort = 0, cfg_ListenIp = [],
      cfg_DestUdp = None, cfg_Debug = False, cfg_Verify = False, cfg_StompUser = [],
      cfg_StompPassword = [], cfg_StompURL = None, cfg_StompTopic = [], cfg_Metrics = False,
      cfg_MetricsPort = 0, cfg_Profile = False, cfg_ProfilePort = 0, cfg_StompCert = [],
      cfg_StompCertKey = [], cfg_QueueDir = [], cfg_IpMapAll = [], cfg_IpMap = [],
      cfg_Filter = zero_FilterConfig, cfg_VO = []\<rparr>"

subsection \<open>Reading it\<close>

definition mode_of :: "string \<Rightarrow> string" where
  "mode_of envPrefix =
     (if envPrefix = ''SHOVELER'' then ''shoveler''
      else if envPrefix = ''COLLECTOR'' then ''collector'' else ''unknown'')"

definition read_input :: "viper \<Rightarrow> InputConfig" where
  "read_input v =
     (let topic = GetString v ''input.topic'' []; queue = GetString v ''input.queue'' []
      in \<lparr>in_Type = GetString v ''input.type'' ''udp'', in_Host = GetString v ''input.host'' [],
          in_Port = GetInt v ''input.port'' 0, in_BufferSize = GetInt v ''input.buffer_size'' 65536,
          in_BrokerURL = GetString v ''input.broker_url'' [],
          in_Topic = (if queue \<noteq> [] \<and> topic = [] then queue else topic), in_Queue = queue,
          in_Subscription = GetString v ''input.subscription'' [],
          in_Base64Encoded = GetBool v ''input.base64_encoded'' True,
          in_Path = GetString v ''input.path'' [], in_Follow = GetBool v ''input.follow'' False\<rparr>)"

text \<open>A setting read with its default, and replaced by the default when it is not positive.\<close>

definition positive_setting :: "viper \<Rightarrow> string \<Rightarrow> int \<Rightarrow> int" where
  "positive_setting v key dflt = (let n = GetInt v key dflt in if n \<le> 0 then dflt else n)"

definition read_state :: "viper \<Rightarrow> StateConfig" where
  "read_state v =
     \<lparr>st_EntryTTL = GetInt v ''state.entry_ttl'' 300, st_MaxEntries = GetInt v ''state.max_entries'' 0,
      st_EnableDNSEnrichment = GetBool v ''state.enable_dns_enrichment'' False,
      st_DNSCacheTTL = positive_setting v ''state.dns_cache_ttl'' 3600,
      st_DNSTimeout = positive_setting v ''state.dns_timeout'' 2,
      st_EnrichmentWorkers = positive_setting v ''state.enrichment_workers'' 5,
      st_EnrichmentQueueSize = positive_setting v ''state.enrichment_queue_size'' 1000000,
      st_GStreamWorkers = positive_setting v ''state.gstream_workers'' 4,
      st_GStreamQueueSize = positive_setting v ''state.gstream_queue_size'' 20000\<rparr>"

datatype config_error = BadAmqpURL | BadStompURL | UnknownMQ

definition read_amqp :: "(string \<Rightarrow> URL option) \<Rightarrow> viper \<Rightarrow> Config \<Rightarrow> config_error + Config" where
  "read_amqp parse v c =
     (case parse (GetString v ''amqp.url'' []) of
        None \<Rightarrow> Inl BadAmqpURL
      | Some url \<Rightarrow>
          Inr (c\<lparr>cfg_AmqpURL := Some url,
            cfg_AmqpExchange := GetString v ''amqp.exchange'' ''shoveled-xrd'',
            cfg_AmqpExchangeCache := GetString v ''amqp.exchange_cache'' ''xrd-cache-events'',
            cfg_AmqpExchangeTCP := GetString v ''amqp.exchange_tcp'' ''xrd-tcp-events'',
            cfg_AmqpExchangeTPC := GetString v ''amqp.exchange_tpc'' ''xrd-tpc-events'',
            cfg_AmqpExchangeWLCG := GetString v ''amqp.exchange_wlcg'' ''xrd-wlcg-events'',
            cfg_AmqpExchangeWLCGCache := GetString v ''amqp.exchange_wlcg_cache'' ''xrd-wlcg-cache-events'',
            cfg_AmqpExchangeWLCGTPC := GetString v ''amqp.exchange_wlcg_tpc'' ''xrd-wlcg-tpc-events'',
            cfg_AmqpToken := GetString v ''amqp.token_location'' ''/etc/xrootd-monitoring-shoveler/token'',
            cfg_AmqpPublishWorkers := GetInt v ''amqp.publish_workers'' 10\<rparr>))"

definition read_stomp :: "(string \<Rightarrow> URL option) \<Rightarrow> viper \<Rightarrow> Config \<Rightarrow> config_error + Config" where
  "read_stomp parse v c =
     (case parse (GetString v ''stomp.url'' []) of
        None \<Rightarrow> Inl BadStompURL
      | Some url \<Rightarrow>
          Inr (c\<lparr>cfg_StompUser := GetString v ''stomp.user'' [],
            cfg_StompPassword := GetString v ''stomp.password'' [], cfg_StompURL := Some url,
            cfg_StompTopic := GetString v ''stomp.topic'' ''xrootd.shoveler'',
            cfg_StompCert := GetString v ''stomp.cert'' [],
            cfg_StompCertKey := GetString v ''stomp.certkey'' []\<rparr>))"

definition read_mq :: "(string \<Rightarrow> URL option) \<Rightarrow> viper \<Rightarrow> Config \<Rightarrow> config_error + Config" where
  "read_mq parse v c =
     (let mq = GetString v ''mq'' ''amqp''; c1 = c\<lparr>cfg_MQ := mq\<rparr>
      in if mq = ''amqp'' then read_amqp parse v c1
         else if mq = ''stomp'' then read_stomp parse v c1
         else Inl UnknownMQ)"

definition read_wlcg :: "viper \<Rightarrow> WLCGConfig" where
  "read_wlcg v =
     \<lparr>wl_Enabled = GetBool v ''wlcg.enabled'' True,
      wl_VOs = (case GetStringSlice v ''wlcg.vos'' (Some [''cms'']) of None \<Rightarrow> Some [] | Some xs \<Rightarrow> Some xs),
      wl_PathPrefixes =
        (case GetStringSlice v ''wlcg.path_prefixes'' (Some [''/store'', ''/user/dteam'']) of
           None \<Rightarrow> Some [] | Some xs \<Rightarrow> Some xs),
      wl_Producer = GetString v ''wlcg.producer'' ''cms'', wl_Type = GetString v ''wlcg.type'' ''aaa-ng'',
      wl_GStreamProducer = GetString v ''wlcg.gstream_producer'' ''cms-xrootd-cache'',
      wl_VO = trim_space (GetString v ''wlcg.vo'' [])\<rparr>"

text \<open>The settings read after the message queue's.\<close>

definition read_rest :: "viper \<Rightarrow> Config \<Rightarrow> Config" where
  "read_rest v c =
     c\<lparr>cfg_ListenPort := GetInt v ''listen.port'' 9993, cfg_ListenIp := GetString v ''listen.ip'' [],
       cfg_DestUdp := GetStringSlice v ''outputs.destinations'' None,
       cfg_Debug := GetBool v ''debug'' False, cfg_Verify := GetBool v ''verify'' True,
       cfg_Metrics := GetBool v ''metrics.enable'' True, cfg_MetricsPort := GetInt v ''metrics.port'' 8000,
       cfg_Profile := GetBool v ''profile.enable'' False, cfg_ProfilePort := GetInt v ''profile.port'' 3030,
       cfg_WLCG := read_wlcg v,
       cfg_Scitags := \<lparr>sc_Source = GetString v ''scitags.source'' [],
         sc_RefreshInterval = GetInt v ''scitags.refresh_interval'' 3600\<rparr>,
       cfg_QueueDir := GetString v ''queue_directory'' ''/var/spool/xrootd-monitoring-shoveler/queue'',
       cfg_IpMapAll := GetString v ''map.all'' [], cfg_IpMap := vp_Map v,
       cfg_VO := trim_space (GetString v ''vo'' []),
       cfg_Filter := \<lparr>fl_DropPathPrefixes = GetStringSlice v ''filter.drop_path_prefixes'' None,
         fl_DropVOs = GetStringSlice v ''filter.drop_vos'' None\<rparr>\<rparr>"

definition ReadConfigWithPathAndPrefix ::
  "(string \<Rightarrow> URL option) \<Rightarrow> viper \<Rightarrow> string \<Rightarrow> Config \<Rightarrow> config_error + Config" where
  "ReadConfigWithPathAndPrefix parse v envPrefix c =
     (let c1 = c\<lparr>cfg_Mode := mode_of envPrefix, cfg_Input := read_input v, cfg_State := read_state v,
            cfg_Output := \<lparr>ou_Type = GetString v ''output.type'' ''mq'', ou_Path = GetString v ''output.path'' []\<rparr>\<rparr>
      in case read_mq parse v c1 of
           Inl e \<Rightarrow> Inl e
         | Inr c2 \<Rightarrow> Inr (read_rest v c2))"

definition ReadConfig :: "(string \<Rightarrow> URL option) \<Rightarrow> viper \<Rightarrow> Config \<Rightarrow> config_error + Config" where
  "ReadConfig parse v c = ReadConfigWithPathAndPrefix parse v ''SHOVELER'' c"

subsection \<open>What reading gives\<close>

lemma positive_setting_pos: "0 < dflt \<Longrightarrow> 0 < positive_setting v key dflt"
  by (simp add: positive_setting_def Let_def)

lemma read_state_positive:
  "0 < st_DNSCacheTTL (read_state v)" "0 < st_DNSTimeout (read_state v)"
  "0 < st_EnrichmentWorkers (read_state v)" "0 < st_EnrichmentQueueSize (read_state v)"
  "0 < st_GStreamWorkers (read_state v)" "0 < st_GStreamQueueSize (read_state v)"
  by (simp_all add: read_state_def positive_setting_pos)

text \<open>The message queue's settings do not touch what was read before them.\<close>

lemma read_mq_keeps:
  assumes "read_mq parse v c = Inr c'"
  shows "cfg_Mode c' = cfg_Mode c" "cfg_Input c' = cfg_Input c" "cfg_State c' = cfg_State c"
    "cfg_Output c' = cfg_Output c" "cfg_MQ c' = GetString v ''mq'' ''amqp''"
    "cfg_MQ c' = ''amqp'' \<or> cfg_MQ c' = ''stomp''"
    "cfg_MQ c' = ''amqp'' \<Longrightarrow> cfg_AmqpURL c' \<noteq> None"
    "cfg_MQ c' = ''stomp'' \<Longrightarrow> cfg_StompURL c' \<noteq> None"
  using assms
  by (auto simp: read_mq_def read_amqp_def read_stomp_def Let_def split: if_splits option.splits)

lemma ReadConfig_Inr:
  assumes "ReadConfigWithPathAndPrefix parse v envPrefix c = Inr c'"
  obtains c2 where "read_mq parse v (c\<lparr>cfg_Mode := mode_of envPrefix, cfg_Input := read_input v,
      cfg_State := read_state v,
      cfg_Output := \<lparr>ou_Type = GetString v ''output.type'' ''mq'', ou_Path = GetString v ''output.path'' []\<rparr>\<rparr>) = Inr c2"
    and "c' = read_rest v c2"
  using assms by (auto simp: ReadConfigWithPathAndPrefix_def Let_def split: sum.splits)

lemma ReadConfig_fields:
  assumes "ReadConfigWithPathAndPrefix parse v envPrefix c = Inr c'"
  shows "cfg_Mode c' = mode_of envPrefix" "cfg_Input c' = read_input v" "cfg_State c' = read_state v"
    "cfg_WLCG c' = read_wlcg v" "cfg_VO c' = trim_space (GetString v ''vo'' [])"
    "cfg_Filter c' = \<lparr>fl_DropPathPrefixes = GetStringSlice v ''filter.drop_path_prefixes'' None,
       fl_DropVOs = GetStringSlice v ''filter.drop_vos'' None\<rparr>"
    "cfg_MQ c' = ''amqp'' \<or> cfg_MQ c' = ''stomp''"
    "cfg_MQ c' = ''amqp'' \<Longrightarrow> cfg_AmqpURL c' \<noteq> None"
    "cfg_MQ c' = ''stomp'' \<Longrightarrow> cfg_StompURL c' \<noteq> None"
  using assms
  by (auto elim!: ReadConfig_Inr dest: read_mq_keeps simp: read_rest_def)

text \<open>A configuration that is read is one the pipelines can run on, whatever the file and the
  environment say: the cache and lookup times and the sizes of the worker pools and queues are
  positive, the routing lists are set, the message queue is one of the two known ones and its URL
  has parsed, and a queue name stands in for a missing topic.\<close>

theorem ReadConfig_usable:
  assumes "ReadConfigWithPathAndPrefix parse v envPrefix c = Inr c'"
  shows "0 < st_DNSCacheTTL (cfg_State c') \<and> 0 < st_DNSTimeout (cfg_State c') \<and>
    0 < st_EnrichmentWorkers (cfg_State c') \<and> 0 < st_EnrichmentQueueSize (cfg_State c') \<and>
    0 < st_GStreamWorkers (cfg_State c') \<and> 0 < st_GStreamQueueSize (cfg_State c') \<and>
    wl_VOs (cfg_WLCG c') \<noteq> None \<and> wl_PathPrefixes (cfg_WLCG c') \<noteq> None \<and>
    (if cfg_MQ c' = ''amqp'' then cfg_AmqpURL c' \<noteq> None else cfg_MQ c' = ''stomp'' \<and> cfg_StompURL c' \<noteq> None) \<and>
    (in_Topic (cfg_Input c') = [] \<longleftrightarrow> in_Queue (cfg_Input c') = [] \<and> GetString v ''input.topic'' [] = [])"
  using ReadConfig_fields [OF assms]
  by (auto simp: read_state_positive read_wlcg_def read_input_def Let_def split: option.split)

definition sample_viper :: viper where
  "sample_viper = \<lparr>vp_String = [''input.queue'' \<mapsto> ''monitoring''],
     vp_Int = [''state.dns_timeout'' \<mapsto> -4, ''state.gstream_workers'' \<mapsto> 0],
     vp_Bool = Map.empty, vp_Slice = [''wlcg.vos'' \<mapsto> []], vp_Map = []\<rparr>"

definition sample_url :: "string \<Rightarrow> URL option" where
  "sample_url s = Some \<lparr>url_User = None, url_Rest = s\<rparr>"

definition sample_config :: Config where
  "sample_config = projr (ReadConfigWithPathAndPrefix sample_url sample_viper ''COLLECTOR'' zero_Config)"

lemma sample_config_read:
  "ReadConfigWithPathAndPrefix sample_url sample_viper ''COLLECTOR'' zero_Config = Inr sample_config"
  by (simp add: sample_config_def ReadConfigWithPathAndPrefix_def read_mq_def read_amqp_def sample_url_def
      sample_viper_def GetString_def Let_def)

lemma ReadConfig_usable_witness:
  "0 < st_DNSTimeout (cfg_State sample_config) \<and> 0 < st_GStreamWorkers (cfg_State sample_config) \<and>
   wl_VOs (cfg_WLCG sample_config) \<noteq> None \<and> in_Topic (cfg_Input sample_config) \<noteq> []"
proof -
  have "in_Queue (cfg_Input sample_config) = ''monitoring''"
    using ReadConfig_fields(2) [OF sample_config_read]
    by (simp add: read_input_def Let_def GetString_def sample_viper_def)
  with ReadConfig_usable [OF sample_config_read] show ?thesis by simp
qed

text \<open>Reading the configuration panics in exactly three cases: the message queue is neither AMQP
  nor STOMP, or the URL of the chosen one does not parse. Nothing else in the file or the
  environment makes it fail.\<close>

theorem ReadConfig_panics_iff:
  "ReadConfigWithPathAndPrefix parse v envPrefix c = Inl e \<longleftrightarrow>
     (case e of
        BadAmqpURL \<Rightarrow> GetString v ''mq'' ''amqp'' = ''amqp'' \<and> parse (GetString v ''amqp.url'' []) = None
      | BadStompURL \<Rightarrow> GetString v ''mq'' ''amqp'' = ''stomp'' \<and> parse (GetString v ''stomp.url'' []) = None
      | UnknownMQ \<Rightarrow> GetString v ''mq'' ''amqp'' \<notin> {''amqp'', ''stomp''})"
  by (cases e)
    (auto simp: ReadConfigWithPathAndPrefix_def read_mq_def read_amqp_def read_stomp_def Let_def
      split: option.splits sum.splits)

end
