(* ===== verification/Scitags_Source.thy ===== *)
theory Scitags_Source
  imports Scitags
begin

section \<open>Where the SciTags registry comes from (collector/scitags.go)\<close>

text \<open>
  Fetching the registry's document from a file or a URL, loading it, and the refresh loop that
  fetches a URL again at every tick. Reading a file and the HTTP exchange are arguments: the
  contents of a path, and for a URL the status of the response and its body, \<open>None\<close> for an error.
  The lemmas: whatever the fetches give, the registry is the one of the last good document.
\<close>

definition isURL :: "string \<Rightarrow> bool" where
  "isURL src \<longleftrightarrow> has_prefix src ''http://'' \<or> has_prefix src ''https://''"

type_synonym http_get = "string \<Rightarrow> (nat \<times> bytes option) option"

definition fetchScitagsSource :: "(string \<Rightarrow> bytes option) \<Rightarrow> http_get \<Rightarrow> string \<Rightarrow> bytes option" where
  "fetchScitagsSource read_file get src =
     (if \<not> isURL src then read_file src
      else case get src of
             None \<Rightarrow> None
           | Some (status, body) \<Rightarrow> if status \<noteq> 200 then None else map_option (take (8 * 2 ^ 20)) body)"

datatype source_error = FetchFailed | LoadFailed scitags_error

definition LoadSource ::
  "(bytes \<Rightarrow> scitagsDoc option) \<Rightarrow> bytes option \<Rightarrow> ScitagsRegistry \<Rightarrow> ScitagsRegistry \<times> source_error option" where
  "LoadSource unmarshal fetched r =
     (case fetched of
        None \<Rightarrow> (r, Some FetchFailed)
      | Some data \<Rightarrow> (case Load unmarshal data r of (r', e) \<Rightarrow> (r', map_option LoadFailed e)))"

text \<open>The registry the collector starts with: the embedded document, then the configured source.\<close>

definition buildScitagsRegistry ::
  "(bytes \<Rightarrow> scitagsDoc option) \<Rightarrow> bytes \<Rightarrow> (string \<Rightarrow> bytes option) \<Rightarrow> string \<Rightarrow> ScitagsRegistry" where
  "buildScitagsRegistry unmarshal embedded fetch src =
     (let registry = NewScitagsRegistry unmarshal embedded
      in if src = [] then registry else fst (LoadSource unmarshal (fetch src) registry))"

text \<open>The refresh loop runs for a URL with a positive interval; each tick has what its fetch gave.
  The second component counts \<open>scitagsRegistryReloadFailures\<close>.\<close>

definition refreshes :: "string \<Rightarrow> int \<Rightarrow> bool" where
  "refreshes src interval \<longleftrightarrow> \<not> (src = [] \<or> \<not> isURL src \<or> interval \<le> 0)"

fun refresh_loop ::
  "(bytes \<Rightarrow> scitagsDoc option) \<Rightarrow> bytes option list \<Rightarrow> ScitagsRegistry \<times> nat \<Rightarrow> ScitagsRegistry \<times> nat" where
  "refresh_loop unmarshal [] rn = rn"
| "refresh_loop unmarshal (fetched # ticks) (r, n) =
     (case LoadSource unmarshal fetched r of
        (r', None) \<Rightarrow> refresh_loop unmarshal ticks (r', n)
      | (r', Some e) \<Rightarrow> refresh_loop unmarshal ticks (r', Suc n))"

definition StartRefresh ::
  "(bytes \<Rightarrow> scitagsDoc option) \<Rightarrow> string \<Rightarrow> int \<Rightarrow> bytes option list \<Rightarrow> ScitagsRegistry \<Rightarrow> ScitagsRegistry \<times> nat" where
  "StartRefresh unmarshal src interval ticks r =
     (if refreshes src interval then refresh_loop unmarshal ticks (r, 0) else (r, 0))"

subsection \<open>The last good document\<close>

definition good_document :: "(bytes \<Rightarrow> scitagsDoc option) \<Rightarrow> bytes option \<Rightarrow> bool" where
  "good_document unmarshal fetched \<longleftrightarrow>
     (case Option.bind fetched unmarshal of Some doc \<Rightarrow> sd_Experiments doc \<noteq> [] | None \<Rightarrow> False)"

definition registry_of :: "(bytes \<Rightarrow> scitagsDoc option) \<Rightarrow> bytes option \<Rightarrow> ScitagsRegistry" where
  "registry_of unmarshal fetched = fst (LoadSource unmarshal fetched empty_registry)"

text \<open>A load replaces the whole registry or leaves it alone.\<close>

lemma LoadSource_cases:
  "LoadSource unmarshal fetched r =
     (if good_document unmarshal fetched then (registry_of unmarshal fetched, None)
      else (r, snd (LoadSource unmarshal fetched r))) \<and>
   (snd (LoadSource unmarshal fetched r) = None \<longleftrightarrow> good_document unmarshal fetched)"
  by (auto simp: LoadSource_def Load_def good_document_def registry_of_def empty_registry_def
      case_prod_beta split: option.split)

lemma LoadSource_good:
  "good_document unmarshal fetched \<Longrightarrow> LoadSource unmarshal fetched r = (registry_of unmarshal fetched, None)"
  using LoadSource_cases [of unmarshal fetched r] by simp

lemma LoadSource_bad:
  "\<not> good_document unmarshal fetched \<Longrightarrow> \<exists>e. LoadSource unmarshal fetched r = (r, Some e)"
  using LoadSource_cases [of unmarshal fetched r] by (metis not_None_eq prod.collapse fst_conv)

text \<open>However the fetches of the refresh loop turn out - unreachable servers, other statuses than
  200, bodies that do not parse or list no experiment - the registry in use is always the one of
  the last good document, or the one the loop started from when there was none, and the failure
  counter counts the others.\<close>

theorem refresh_serves_last_good:
  "refresh_loop unmarshal ticks (r, n) =
     (case filter (good_document unmarshal) ticks of
        [] \<Rightarrow> r
      | goods \<Rightarrow> registry_of unmarshal (last goods),
      n + length (filter (\<lambda>t. \<not> good_document unmarshal t) ticks))"
proof (induction ticks arbitrary: r n)
  case (Cons t ticks)
  show ?case
  proof (cases "good_document unmarshal t")
    case True
    then show ?thesis by (simp add: Cons.IH LoadSource_good split: list.split)
  next
    case False
    then obtain e where "LoadSource unmarshal t r = (r, Some e)" using LoadSource_bad by blast
    with False show ?thesis by (simp add: Cons.IH)
  qed
qed simp

end
