(* ===== verification/Collector_Main.thy ===== *)
theory Collector_Main
  imports Enrichment Gstream_Events Output_Connectors Udp_Message Parse_Packet Config Scitags_Source
begin

section \<open>The collector pipeline (cmd/collector/main.go)\<close>

text \<open>
  How the parts run together: a packet is parsed and counted, goes to the g-stream queue or
  through the correlator, whose records go to the enrichment queue; g-stream workers rewrite
  and emit events; enrichment workers fill the results channel; the publisher takes results and
  writes them to the output. Each is one step on the state \<open>Collector\<close>. Rendering a value as JSON
  is the argument \<open>render\<close>, \<open>None\<close> when the library reports an error; clock, resolver, identifiers
  and the outcomes of file writes are arguments too.
\<close>

subsection \<open>State\<close>

datatype metric =
    PacketsReceived
  | ParseErrors
  | PacketsParsedOK
  | PacketsByType string
  | GStreamPacketsEnqueued
  | GStreamQueueDropped
  | RecordsEmitted
  | RecordsEmittedByServer string

datatype out_value =
    Payload payload
  | EventJSON json_object
  | WLCGEventJSON wlcg_event

text \<open>
  \<open>co_gstream\<close> is the g-stream channel, \<open>None\<close> for nil; \<open>co_published\<close> counts the results the
  publisher has taken from the channel whose history is \<open>pl_sent\<close>. A latency is kept as the
  seconds that are observed.
\<close>

record 'd Collector =
  co_pl :: pipeline
  co_gstream :: "Packet list option"
  co_gstreamCap :: nat
  co_gstreamDropCount :: int64
  co_gstreamSize :: nat
  co_metrics :: "metric \<Rightarrow> nat"
  co_latencies :: "int64 list"
  co_warnings :: nat
  co_errors :: nat
  co_published :: nat
  co_output :: "'d connector list"

definition tally :: "metric \<Rightarrow> 'd Collector \<Rightarrow> 'd Collector" where
  "tally m co = co\<lparr>co_metrics := (co_metrics co)(m := Suc (co_metrics co m))\<rparr>"

definition log_error :: "'d Collector \<Rightarrow> 'd Collector" where
  "log_error co = co\<lparr>co_errors := Suc (co_errors co)\<rparr>"

subsection \<open>Publishing\<close>

definition emitEnrichedRecord ::
  "(out_value \<Rightarrow> bytes) \<Rightarrow> (nat \<Rightarrow> file_outcome) \<Rightarrow> EnrichedRecord \<Rightarrow> 'd Collector \<Rightarrow> 'd Collector" where
  "emitEnrichedRecord render outcome msg co =
     (let data = render (Payload (er_Payload msg));
          (out, err) = (if er_Exchange msg = [] then Multi_Write outcome data (co_output co)
                        else Multi_WriteToExchange outcome data (er_Exchange msg) (co_output co));
          co1 = co\<lparr>co_output := out\<rparr>
      in if err then log_error co1 else co1)"

definition publishEnrichedRecord ::
  "(out_value \<Rightarrow> bytes) \<Rightarrow> (nat \<Rightarrow> file_outcome) \<Rightarrow> EnrichedRecord \<Rightarrow> 'd Collector \<Rightarrow> 'd Collector" where
  "publishEnrichedRecord render outcome msg co =
     (let rec = er_Record msg;
          serverIP = (if cr_ServerIP rec = [] then ''unknown'' else cr_ServerIP rec);
          co1 = tally (RecordsEmittedByServer serverIP) (tally RecordsEmitted co);
          co2 = (if 0 < sint (cr_StartTime rec) \<and> 0 < sint (cr_EndTime rec)
                 then co1\<lparr>co_latencies := co_latencies co1 @ [cr_EndTime rec - cr_StartTime rec]\<rparr> else co1)
      in emitEnrichedRecord render outcome msg co2)"

text \<open>One round of the publisher; \<open>None\<close> when the channel is empty.\<close>

definition publisher_step ::
  "(out_value \<Rightarrow> bytes) \<Rightarrow> (nat \<Rightarrow> file_outcome) \<Rightarrow> 'd Collector \<Rightarrow> 'd Collector option" where
  "publisher_step render outcome co =
     (if co_published co < length (pl_sent (co_pl co)) then
        Some (publishEnrichedRecord render outcome (pl_sent (co_pl co) ! co_published co)
          (co\<lparr>co_published := Suc (co_published co)\<rparr>))
      else None)"

subsection \<open>g-stream events\<close>

definition buildWLCGMetadata :: "Config \<Rightarrow> WLCGMetadata" where
  "buildWLCGMetadata config =
     \<lparr>wm_Producer = wl_Producer (cfg_WLCG config), wm_Type = wl_Type (cfg_WLCG config),
      wm_GStreamProducer = wl_GStreamProducer (cfg_WLCG config), wm_VO = wl_VO (cfg_WLCG config)\<rparr>"

definition event_string :: "string \<Rightarrow> json_object \<Rightarrow> string option" where
  "event_string k event = (case map_of event k of Some (JStr s) \<Rightarrow> Some s | _ \<Rightarrow> None)"

text \<open>The event rewritten, its exchange, whether it is to be converted, and whether the type is unknown.\<close>

definition gstream_route ::
  "Config \<Rightarrow> char \<Rightarrow> json_object \<Rightarrow> json_object \<times> string \<times> bool \<times> bool" where
  "gstream_route config streamType event =
     (let (event1, exchange, needsWLCG, unknown) =
        (if streamType = CHR ''C'' then
           (let event1 = TransformCacheEvent event
            in case event_string ''file_path'' event1 of
                 Some filePath \<Rightarrow>
                   (if CachePathCheckWLCG filePath
                    then (event1, cfg_AmqpExchangeWLCGCache config, True, False)
                    else (event1, cfg_AmqpExchangeCache config, False, False))
               | None \<Rightarrow> (event1, cfg_AmqpExchangeCache config, False, False))
         else if streamType = CHR ''T'' then (event, cfg_AmqpExchangeTCP config, False, False)
         else if streamType = CHR ''P'' then
           (let event1 = TransformTPCEvent event;
                source = (case event_string ''source'' event1 of Some s \<Rightarrow> s | None \<Rightarrow> []);
                destination = (case event_string ''destination'' event1 of Some s \<Rightarrow> s | None \<Rightarrow> [])
            in if TPCPathCheckWLCG source \<or> TPCPathCheckWLCG destination
               then (event1, cfg_AmqpExchangeWLCGTPC config, True, False)
               else (event1, cfg_AmqpExchangeTPC config, False, False))
         else (event, cfg_AmqpExchange config, False, True))
      in if \<not> wl_Enabled (cfg_WLCG config) then
           (event1,
            if streamType = CHR ''C'' then cfg_AmqpExchangeCache config
            else if streamType = CHR ''P'' then cfg_AmqpExchangeTPC config else exchange,
            False, unknown)
         else (event1, exchange, needsWLCG, unknown))"

definition emitGStreamEvent ::
  "(out_value \<Rightarrow> bytes option) \<Rightarrow> (nat \<Rightarrow> file_outcome) \<Rightarrow> string \<Rightarrow> string \<Rightarrow> int \<Rightarrow> Config \<Rightarrow>
   char \<Rightarrow> json_object \<Rightarrow> 'd Collector \<Rightarrow> 'd Collector" where
  "emitGStreamEvent marshal outcome uniqueID hostname now config streamType event co =
     (let (event1, exchange, needsWLCG, unknown) = gstream_route config streamType event;
          co1 = (if unknown then co\<lparr>co_warnings := Suc (co_warnings co)\<rparr> else co);
          eventJSON = marshal
            (if needsWLCG
             then WLCGEventJSON (ConvertGStreamToWLCG uniqueID hostname now event1 (streamType = CHR ''P'')
                    (buildWLCGMetadata config))
             else EventJSON event1)
      in case eventJSON of
           None \<Rightarrow> log_error co1
         | Some data \<Rightarrow>
             (let (out, err) = Multi_WriteToExchange outcome data exchange (co_output co1);
                  co2 = co1\<lparr>co_output := out\<rparr>
              in if err then log_error co2 else co2))"

text \<open>
  One packet of a g-stream worker: \<open>None\<close> when the channel is empty. The events are emitted in
  order, each with its own identifier and outcomes from \<open>env\<close>.
\<close>

fun emit_events ::
  "(out_value \<Rightarrow> bytes option) \<Rightarrow> (nat \<Rightarrow> (nat \<Rightarrow> file_outcome) \<times> string) \<Rightarrow> string \<Rightarrow> int \<Rightarrow> Config \<Rightarrow>
   char \<Rightarrow> json_object list \<Rightarrow> 'd Collector \<Rightarrow> 'd Collector" where
  "emit_events marshal env hostname now config streamType [] co = co"
| "emit_events marshal env hostname now config streamType (e # es) co =
     emit_events marshal (\<lambda>i. env (Suc i)) hostname now config streamType es
       (emitGStreamEvent marshal (fst (env 0)) (snd (env 0)) hostname now config streamType e co)"

definition gstream_worker_step ::
  "(string \<Rightarrow> string list option) \<Rightarrow> (out_value \<Rightarrow> bytes option) \<Rightarrow> (nat \<Rightarrow> (nat \<Rightarrow> file_outcome) \<times> string) \<Rightarrow>
   string \<Rightarrow> int \<Rightarrow> Config \<Rightarrow> 'd Collector \<Rightarrow> 'd Collector option" where
  "gstream_worker_step resolve marshal env hostname now config co =
     (case co_gstream co of
        Some (packet # packets) \<Rightarrow>
          (let co1 = co\<lparr>co_gstream := Some packets, co_gstreamSize := length packets\<rparr>;
               (c, events, streamType) = ProcessGStreamPacket resolve now packet (pl_corr (co_pl co1));
               co2 = co1\<lparr>co_pl := (co_pl co1)\<lparr>pl_corr := c\<rparr>\<rparr>
           in Some (emit_events marshal env hostname now config streamType events co2))
      | _ \<Rightarrow> None)"

subsection \<open>Packets\<close>

definition packetTypeLabel :: "Packet \<Rightarrow> string" where
  "packetTypeLabel packet = (if pkt_IsXML packet then ''xml'' else PacketTypeName (pkt_PacketType packet))"

fun enqueue_records ::
  "EnrichmentDestination \<Rightarrow> (CollectorRecord \<Rightarrow> EnrichmentDestination \<Rightarrow> pipeline \<Rightarrow> pipeline) \<Rightarrow>
   CollectorRecord list \<Rightarrow> pipeline \<Rightarrow> pipeline" where
  "enqueue_records dest enq [] pl = pl"
| "enqueue_records dest enq (r # rs) pl = enqueue_records dest enq rs (enq r dest pl)"

text \<open>
  \<open>env\<close> holds the resolver, the identifier, the host name and the choice that
  \<open>EnqueueForEnrichment\<close> needs when there is no queue.
\<close>

type_synonym enrich_env = "(string \<Rightarrow> string list option) \<times> string \<times> string \<times> bool"

definition enqueue_one ::
  "enrich_env \<Rightarrow> int \<Rightarrow> CollectorRecord \<Rightarrow> EnrichmentDestination \<Rightarrow> pipeline \<Rightarrow> pipeline" where
  "enqueue_one env now rec dest pl =
     (case env of (resolve, uniqueID, hostname, give_up) \<Rightarrow>
        EnqueueForEnrichment resolve uniqueID hostname now give_up (Some rec) dest pl)"

definition handleParsedPacket ::
  "enrich_env \<Rightarrow> int \<Rightarrow> EnrichmentDestination \<Rightarrow> Packet \<Rightarrow> 'd Collector \<Rightarrow> 'd Collector" where
  "handleParsedPacket env now dest packet co =
     (if pkt_GStreamRecord packet \<noteq> None then
        (case co_gstream co of
           None \<Rightarrow> co\<lparr>co_warnings := Suc (co_warnings co)\<rparr>
         | Some packets \<Rightarrow>
             if length packets < co_gstreamCap co then
               (tally GStreamPacketsEnqueued co)
                 \<lparr>co_gstream := Some (packets @ [packet]), co_gstreamSize := Suc (length packets)\<rparr>
             else
               (let n = co_gstreamDropCount co + 1
                in (tally GStreamQueueDropped co)
                     \<lparr>co_gstreamDropCount := n,
                      co_warnings := (if IsPowerOfTen n then Suc (co_warnings co) else co_warnings co)\<rparr>))
      else
        (case ProcessPacket now packet (pl_corr (co_pl co)) of
           (c, records, err) \<Rightarrow>
             (let pl = (co_pl co)\<lparr>pl_corr := c\<rparr>
              in if err \<noteq> None then log_error (co\<lparr>co_pl := pl\<rparr>)
                 else co\<lparr>co_pl := enqueue_records dest (enqueue_one env now) records pl\<rparr>)))"

definition process_one ::
  "enrich_env \<Rightarrow> int \<Rightarrow> EnrichmentDestination \<Rightarrow> PacketWithAddr \<Rightarrow> 'd Collector \<Rightarrow> 'd Collector" where
  "process_one env now dest pkt co =
     (let co1 = tally PacketsReceived co
      in case ParsePacket Unmarshal_map (pa_Data pkt) of
           Inl e \<Rightarrow> tally ParseErrors co1
         | Inr packet \<Rightarrow>
             handleParsedPacket env now dest (packet\<lparr>pkt_RemoteAddr := pa_RemoteAddr pkt\<rparr>)
               (tally (PacketsByType (packetTypeLabel packet)) (tally PacketsParsedOK co1)))"

fun processPackets ::
  "enrich_env \<Rightarrow> EnrichmentDestination \<Rightarrow> (int \<times> PacketWithAddr) list \<Rightarrow> 'd Collector \<Rightarrow> 'd Collector" where
  "processPackets env dest [] co = co"
| "processPackets env dest ((now, pkt) # pkts) co = processPackets env dest pkts (process_one env now dest pkt co)"

subsection \<open>Start and stop\<close>

text \<open>
  A duration is 64-bit nanoseconds, so the product may wrap. A slice that is nil and one that is
  empty drop nothing alike.
\<close>

definition seconds :: "int \<Rightarrow> int" where
  "seconds n = sint (word_of_int (n * 10 ^ 9) :: int64)"

definition slice_items :: "'a list option \<Rightarrow> 'a list" where
  "slice_items xs = (case xs of None \<Rightarrow> [] | Some ys \<Rightarrow> ys)"

definition buildCorrelatorConfig :: "ScitagsRegistry \<Rightarrow> Config \<Rightarrow> CorrelatorConfig" where
  "buildCorrelatorConfig registry config =
     \<lparr>cc_TTL = seconds (st_EntryTTL (cfg_State config)), cc_MaxEntries = st_MaxEntries (cfg_State config),
      cc_EnableDNSEnrichment = st_EnableDNSEnrichment (cfg_State config),
      cc_DNSCacheTTL = seconds (st_DNSCacheTTL (cfg_State config)), cc_Scitags = registry,
      cc_DisableWLCG = (\<not> wl_Enabled (cfg_WLCG config)), cc_WLCGVOs = wl_VOs (cfg_WLCG config),
      cc_WLCGPathPrefixes = wl_PathPrefixes (cfg_WLCG config),
      cc_DropPathPrefixes = slice_items (fl_DropPathPrefixes (cfg_Filter config)),
      cc_DropVOs = slice_items (fl_DropVOs (cfg_Filter config)), cc_VO = cfg_VO config\<rparr>"

definition gstream_queue_size :: "Config \<Rightarrow> nat" where
  "gstream_queue_size config =
     (if st_GStreamQueueSize (cfg_State config) \<le> 0 then 20000 else nat (st_GStreamQueueSize (cfg_State config)))"

definition new_pipeline :: "ScitagsRegistry \<Rightarrow> Config \<Rightarrow> pipeline" where
  "new_pipeline registry config =
     \<lparr>pl_corr = NewCorrelatorWithConfig (buildCorrelatorConfig registry config),
      pl_meta = buildWLCGMetadata config,
      pl_queue = Some (newEnrichmentWorkQueue (st_EnrichmentQueueSize (cfg_State config))),
      pl_dropCount = 0, pl_recordsDropped = (\<lambda>_. 0), pl_queueDropped = 0, pl_warnings = 0, pl_done = False,
      pl_sent = []\<rparr>"

text \<open>
  The state \<open>runCollectorModeUDP\<close> and its two siblings set up. Every state map starts a janitor
  whose ticker panics on an interval that is not positive; the interval is a tenth of the TTL.
\<close>

definition start_collector :: "ScitagsRegistry \<Rightarrow> Config \<Rightarrow> 'd connector list \<Rightarrow> 'd Collector option" where
  "start_collector registry config output =
     (if cc_TTL (buildCorrelatorConfig registry config) sdiv 10 \<le> 0 then None
      else Some
        \<lparr>co_pl = new_pipeline registry config, co_gstream = Some [], co_gstreamCap = gstream_queue_size config,
         co_gstreamDropCount = 0, co_gstreamSize = 0, co_metrics = (\<lambda>_. 0), co_latencies = [], co_warnings = 0,
         co_errors = 0, co_published = 0, co_output = output\<rparr>)"

definition enrichment_destination :: "Config \<Rightarrow> EnrichmentDestination" where
  "enrichment_destination config = \<lparr>ed_Results = True, ed_WLCGExchange = cfg_AmqpExchangeWLCG config\<rparr>"

end
