(* ===== verification/Collector_Run.thy ===== *)
theory Collector_Run
  imports Collector_Main Correlator_Frame
begin

section \<open>Runs of the collector\<close>

text \<open>
  The goroutines of the collector as steps that may interleave in any order, each atomic: the
  packet loop takes a packet, an enrichment worker a request, a g-stream worker a packet, the
  publisher a result, a janitor sweeps a map. \<open>collects\<close> is a run with the packets it took. The lemmas: what every run
  keeps, and where every record a close gave rise to is at any time. The end of a run is the
  deferred shutdown, whose two loops are shown to end with nothing left.
\<close>

subsection \<open>What the output steps keep\<close>

lemma emitEnrichedRecord_keeps [simp]:
  "co_pl (emitEnrichedRecord render outcome msg co) = co_pl co"
  "co_gstream (emitEnrichedRecord render outcome msg co) = co_gstream co"
  "co_gstreamCap (emitEnrichedRecord render outcome msg co) = co_gstreamCap co"
  "co_metrics (emitEnrichedRecord render outcome msg co) = co_metrics co"
  "co_published (emitEnrichedRecord render outcome msg co) = co_published co"
  by (simp_all add: emitEnrichedRecord_def log_error_def Let_def case_prod_beta)

lemma publishEnrichedRecord_keeps [simp]:
  "co_pl (publishEnrichedRecord render outcome msg co) = co_pl co"
  "co_gstream (publishEnrichedRecord render outcome msg co) = co_gstream co"
  "co_gstreamCap (publishEnrichedRecord render outcome msg co) = co_gstreamCap co"
  "co_published (publishEnrichedRecord render outcome msg co) = co_published co"
  "co_metrics (publishEnrichedRecord render outcome msg co) RecordsEmitted = Suc (co_metrics co RecordsEmitted)"
  by (simp_all add: publishEnrichedRecord_def tally_def Let_def)

lemma publishEnrichedRecord_metrics [simp]:
  "co_metrics (publishEnrichedRecord render outcome msg co) PacketsReceived = co_metrics co PacketsReceived"
  "co_metrics (publishEnrichedRecord render outcome msg co) ParseErrors = co_metrics co ParseErrors"
  "co_metrics (publishEnrichedRecord render outcome msg co) PacketsParsedOK = co_metrics co PacketsParsedOK"
  by (simp_all add: publishEnrichedRecord_def tally_def Let_def)

lemma emitGStreamEvent_keeps [simp]:
  "co_pl (emitGStreamEvent marshal outcome uid host now config ty event co) = co_pl co"
  "co_gstream (emitGStreamEvent marshal outcome uid host now config ty event co) = co_gstream co"
  "co_gstreamCap (emitGStreamEvent marshal outcome uid host now config ty event co) = co_gstreamCap co"
  "co_metrics (emitGStreamEvent marshal outcome uid host now config ty event co) = co_metrics co"
  "co_published (emitGStreamEvent marshal outcome uid host now config ty event co) = co_published co"
  by (simp_all add: emitGStreamEvent_def log_error_def Let_def case_prod_beta split: option.split)

lemma emit_events_keeps [simp]:
  "co_pl (emit_events marshal env host now config ty es co) = co_pl co"
  "co_gstream (emit_events marshal env host now config ty es co) = co_gstream co"
  "co_gstreamCap (emit_events marshal env host now config ty es co) = co_gstreamCap co"
  "co_metrics (emit_events marshal env host now config ty es co) = co_metrics co"
  "co_published (emit_events marshal env host now config ty es co) = co_published co"
  by (induction es arbitrary: env co) simp_all

lemma publisher_step_Some:
  assumes "publisher_step render outcome co = Some co'"
  shows "co_published co < length (pl_sent (co_pl co))" and "co_published co' = Suc (co_published co)"
    and "co_pl co' = co_pl co" and "co_gstream co' = co_gstream co" and "co_gstreamCap co' = co_gstreamCap co"
    and "co_metrics co' RecordsEmitted = Suc (co_metrics co RecordsEmitted)"
    and "co_metrics co' PacketsReceived = co_metrics co PacketsReceived"
    and "co_metrics co' ParseErrors = co_metrics co ParseErrors"
    and "co_metrics co' PacketsParsedOK = co_metrics co PacketsParsedOK"
  using assms by (auto simp: publisher_step_def split: if_splits)

lemma gstream_worker_step_Some:
  assumes "gstream_worker_step resolve marshal env host now config co = Some co'"
  shows "\<exists>p ps c. co_gstream co = Some (p # ps) \<and> co_gstream co' = Some ps \<and>
      c = fst (ProcessGStreamPacket resolve now p (pl_corr (co_pl co))) \<and>
      co_pl co' = (co_pl co)\<lparr>pl_corr := c\<rparr>"
    and "co_gstreamCap co' = co_gstreamCap co" and "co_metrics co' = co_metrics co"
    and "co_published co' = co_published co"
  using assms by (auto simp: gstream_worker_step_def Let_def case_prod_beta split: option.splits list.splits)

subsection \<open>The deferred shutdown\<close>

text \<open>
  The g-stream workers empty their closed channel, the correlator stops (its workers' schedule as
  in \<open>drain\<close>), and the publisher empties the results.
\<close>

function finish_gstream ::
  "(string \<Rightarrow> string list option) \<Rightarrow> (out_value \<Rightarrow> bytes option) \<Rightarrow>
   (nat \<Rightarrow> (nat \<Rightarrow> (nat \<Rightarrow> file_outcome) \<times> string) \<times> int) \<Rightarrow> string \<Rightarrow> Config \<Rightarrow> 'd Collector \<Rightarrow> 'd Collector" where
  "finish_gstream resolve marshal envs hostname config co =
     (case gstream_worker_step resolve marshal (fst (envs 0)) hostname (snd (envs 0)) config co of
        None \<Rightarrow> co
      | Some co' \<Rightarrow> finish_gstream resolve marshal (\<lambda>i. envs (Suc i)) hostname config co')"
  by pat_completeness auto
termination
proof (relation "measure (\<lambda>(_, _, _, _, _, co). case co_gstream co of None \<Rightarrow> 0 | Some ps \<Rightarrow> length ps)")
  fix resolve marshal hostname config and envs :: "nat \<Rightarrow> (nat \<Rightarrow> (nat \<Rightarrow> file_outcome) \<times> string) \<times> int"
    and co co' :: "'d Collector"
  assume "gstream_worker_step resolve marshal (fst (envs 0)) hostname (snd (envs 0)) config co = Some co'"
  from gstream_worker_step_Some(1) [OF this]
  show "((resolve, marshal, \<lambda>i. envs (Suc i), hostname, config, co'), resolve, marshal, envs, hostname, config, co)
      \<in> measure (\<lambda>(_, _, _, _, _, co). case co_gstream co of None \<Rightarrow> 0 | Some ps \<Rightarrow> length ps)"
    by auto
qed simp

declare finish_gstream.simps [simp del]

function finish_publishing ::
  "(out_value \<Rightarrow> bytes) \<Rightarrow> (nat \<Rightarrow> nat \<Rightarrow> file_outcome) \<Rightarrow> 'd Collector \<Rightarrow> 'd Collector" where
  "finish_publishing render outcomes co =
     (case publisher_step render (outcomes 0) co of
        None \<Rightarrow> co
      | Some co' \<Rightarrow> finish_publishing render (\<lambda>i. outcomes (Suc i)) co')"
  by pat_completeness auto
termination
proof (relation "measure (\<lambda>(_, _, co). length (pl_sent (co_pl co)) - co_published co)")
  fix render and outcomes :: "nat \<Rightarrow> nat \<Rightarrow> file_outcome" and co co' :: "'d Collector"
  assume "publisher_step render (outcomes 0) co = Some co'"
  note step = publisher_step_Some(1-3) [OF this]
  show "((render, \<lambda>i. outcomes (Suc i), co'), render, outcomes, co)
      \<in> measure (\<lambda>(_, _, co). length (pl_sent (co_pl co)) - co_published co)"
    using step by simp
qed simp

declare finish_publishing.simps [simp del]

definition shutdown ::
  "(string \<Rightarrow> string list option) \<Rightarrow> (out_value \<Rightarrow> bytes option) \<Rightarrow> (out_value \<Rightarrow> bytes) \<Rightarrow>
   (nat \<Rightarrow> (nat \<Rightarrow> (nat \<Rightarrow> file_outcome) \<times> string) \<times> int) \<Rightarrow> (nat \<Rightarrow> nat \<Rightarrow> file_outcome) \<Rightarrow>
   (string \<times> int \<times> bool) list \<Rightarrow> string \<Rightarrow> Config \<Rightarrow> 'd Collector \<Rightarrow> 'd Collector" where
  "shutdown resolve marshal render envs outcomes schedule hostname config co =
     (let co1 = (finish_gstream resolve marshal envs hostname config co)\<lparr>co_gstreamSize := 0\<rparr>;
          pl = drain resolve hostname schedule (Stop_begin (co_pl co1))
      in finish_publishing render outcomes (co1\<lparr>co_pl := pl\<lparr>pl_queue := None\<rparr>\<rparr>))"

lemma finish_gstream_empties:
  "co_gstream co \<noteq> None \<Longrightarrow> co_gstream (finish_gstream resolve marshal envs hostname config co) = Some []"
proof (induction resolve marshal envs hostname config co rule: finish_gstream.induct)
  case (1 resolve marshal envs hostname config co)
  show ?case
  proof (cases "gstream_worker_step resolve marshal (fst (envs 0)) hostname (snd (envs 0)) config co")
    case None
    with 1(2) show ?thesis
      by (subst finish_gstream.simps)
        (auto simp: gstream_worker_step_def Let_def case_prod_beta split: list.splits)
  next
    case (Some co')
    with 1(1) [OF Some] show ?thesis
      by (subst finish_gstream.simps) (auto dest: gstream_worker_step_Some(1))
  qed
qed

lemma finish_gstream_keeps:
  "co_published (finish_gstream resolve marshal envs hostname config co) = co_published co \<and>
   co_metrics (finish_gstream resolve marshal envs hostname config co) = co_metrics co \<and>
   pl_sent (co_pl (finish_gstream resolve marshal envs hostname config co)) = pl_sent (co_pl co)"
proof (induction resolve marshal envs hostname config co rule: finish_gstream.induct)
  case (1 resolve marshal envs hostname config co)
  show ?case
  proof (cases "gstream_worker_step resolve marshal (fst (envs 0)) hostname (snd (envs 0)) config co")
    case None
    then show ?thesis by (simp add: finish_gstream.simps [of resolve marshal envs hostname config co])
  next
    case (Some co')
    from 1 [OF Some] gstream_worker_step_Some [OF Some] show ?thesis
      by (auto simp: finish_gstream.simps [of resolve marshal envs hostname config co] Some)
  qed
qed

lemma drain_sent: "length (pl_sent pl) \<le> length (pl_sent (drain resolve hostname schedule pl))"
proof (induction schedule arbitrary: pl)
  case (Cons x schedule)
  obtain uid now g where x: "x = (uid, now, g)" by (cases x)
  have "length (pl_sent pl) \<le> length (pl_sent pl')"
    if "worker_step resolve uid hostname now g pl = Some pl'" for pl'
    using that by (auto simp: worker_step_def processEnrichmentRequest_def Let_def case_prod_beta
        split: option.splits prod.splits dequeue_result.splits)
  with Cons x show ?case by (auto split: option.split intro: order_trans)
qed simp

lemma finish_publishing_all:
  fixes co :: "'d Collector" and render outcomes
  assumes "co_published co \<le> length (pl_sent (co_pl co))"
  defines "co' \<equiv> finish_publishing render outcomes co"
  shows "co_published co' = length (pl_sent (co_pl co)) \<and> co_pl co' = co_pl co \<and> co_gstream co' = co_gstream co \<and>
    co_metrics co' RecordsEmitted + co_published co = co_metrics co RecordsEmitted + co_published co'"
  using assms(1) unfolding co'_def
proof (induction render outcomes co rule: finish_publishing.induct)
  case (1 render outcomes co)
  show ?case
  proof (cases "publisher_step render (outcomes 0) co")
    case None
    with 1(2) show ?thesis
      by (simp add: finish_publishing.simps [of render outcomes co] publisher_step_def split: if_splits)
  next
    case (Some co')
    have unfold: "finish_publishing render outcomes co = finish_publishing render (\<lambda>i. outcomes (Suc i)) co'"
      by (subst finish_publishing.simps) (simp add: Some)
    note step = publisher_step_Some [OF Some]
    have "co_published co' \<le> length (pl_sent (co_pl co'))" using step(1-3) by simp
    from 1(1) [OF Some this] step show ?thesis by (simp add: unfold)
  qed
qed

subsection \<open>Runs\<close>

inductive collects ::
  "Config \<Rightarrow> 'd Collector \<Rightarrow> PacketWithAddr list \<Rightarrow> 'd Collector \<Rightarrow> bool"
  for config :: Config and co0 :: "'d Collector" where
  start: "collects config co0 [] co0"
| packet: "collects config co0 pkts co \<Longrightarrow>
    collects config co0 (pkts @ [pkt]) (process_one env now (enrichment_destination config) pkt co)"
| enrich: "collects config co0 pkts co \<Longrightarrow> worker_step resolve uid hostname now give_up (co_pl co) = Some pl \<Longrightarrow>
    collects config co0 pkts (co\<lparr>co_pl := pl\<rparr>)"
| gstream: "collects config co0 pkts co \<Longrightarrow>
    gstream_worker_step resolve marshal genv hostname now config co = Some co' \<Longrightarrow> collects config co0 pkts co'"
| publish: "collects config co0 pkts co \<Longrightarrow> publisher_step render outcome co = Some co' \<Longrightarrow>
    collects config co0 pkts co'"
| janitor: "collects config co0 pkts co \<Longrightarrow>
    collects config co0 pkts (co\<lparr>co_pl := (co_pl co)\<lparr>pl_corr := sweep_map now m (pl_corr (co_pl co))\<rparr>\<rparr>)"

inductive_simps collects_none: "collects config co0 [] co0"

text \<open>
  A record that the correlator has handed to the pipeline is accounted for while it waits in the
  queue, when it was dropped because the queue was full, when the filter dropped it, or when it
  was sent to the results. The drop filter has two reasons.
\<close>

definition queued :: "pipeline \<Rightarrow> nat" where
  "queued pl = (case pl_queue pl of None \<Rightarrow> 0 | Some q \<Rightarrow> q_size q)"

definition accounted :: "pipeline \<Rightarrow> nat" where
  "accounted pl = queued pl + pl_queueDropped pl + pl_recordsDropped pl ''vo'' +
     pl_recordsDropped pl ''path_prefix'' + length (pl_sent pl)"

definition pl_ok :: "pipeline \<Rightarrow> bool" where
  "pl_ok pl \<longleftrightarrow> \<not> pl_done pl \<and> corr_ok (pl_corr pl) \<and>
     (\<exists>q. pl_queue pl = Some q \<and> q_ok q \<and> \<not> q_closed q)"

text \<open>The close records of a packet that parses.\<close>

definition closes_of :: "PacketWithAddr \<Rightarrow> nat" where
  "closes_of pkt =
     (case ParsePacket Unmarshal_map (pa_Data pkt) of
        Inl e \<Rightarrow> 0
      | Inr p \<Rightarrow> length (filter is_close (pkt_FileRecords p)))"

subsection \<open>Every record is accounted for\<close>

lemma shouldDrop_reasons: "shouldDrop c r = Some reason \<Longrightarrow> reason = ''vo'' \<or> reason = ''path_prefix''"
  by (auto simp: shouldDrop_def Let_def split: if_splits)

lemma corr_ok_lookupDNS: "corr_ok c \<Longrightarrow> corr_ok (fst (lookupDNSHostname resolve now ip c))"
  by (auto simp: lookupDNSHostname_def Let_def corr_ok_def dns_typed_def intro!: typed_map_put split: prod.splits)

lemma corr_ok_run_enrichers: "corr_ok (fst cr) \<Longrightarrow> corr_ok (fst (run_enrichers resolve now cr))"
  by (auto simp: run_enrichers_def Enrich_def enrich_server_name_def enrich_user_domain_def Let_def
      case_prod_beta corr_ok_lookupDNS)

lemma processEnrichmentRequest_accounted:
  assumes "\<not> pl_done pl" and "corr_ok (pl_corr pl)"
  shows "accounted (processEnrichmentRequest resolve uid host now g req pl) = Suc (accounted pl) \<and>
    corr_ok (pl_corr (processEnrichmentRequest resolve uid host now g req pl))"
proof (cases "shouldDrop (pl_corr pl) (rq_record req)")
  case None
  with assms show ?thesis
    by (simp add: processEnrichmentRequest_def Let_def case_prod_beta accounted_def queued_def corr_ok_run_enrichers)
next
  case (Some reason)
  with assms shouldDrop_reasons [OF Some] show ?thesis
    by (auto simp: processEnrichmentRequest_def accounted_def queued_def)
qed

lemma worker_step_accounted:
  assumes "pl_ok pl" and "worker_step resolve uid host now g pl = Some pl'"
  shows "pl_ok pl' \<and> accounted pl' = accounted pl"
proof -
  obtain q q' req where q: "pl_queue pl = Some q" "q_ok q" "\<not> q_closed q" "Dequeue q = (q', Got req)"
    and pl': "pl' = processEnrichmentRequest resolve uid host now g req (pl\<lparr>pl_queue := Some q'\<rparr>)"
    using assms by (auto simp: worker_step_def pl_ok_def split: prod.splits dequeue_result.splits)
  have q': "q_ok q'" "q_size q = Suc (q_size q')"
    using Dequeue_Got [OF q(2,4)] q(2) by (simp_all add: q_ok_def)
  have "q_closed q' = q_closed q"
    using q(4) by (auto simp: Dequeue_def Let_def split: if_splits prod.splits)
  with q(3) have closed: "\<not> q_closed q'" by simp
  have "\<not> pl_done (pl\<lparr>pl_queue := Some q'\<rparr>)" "corr_ok (pl_corr (pl\<lparr>pl_queue := Some q'\<rparr>))"
    using assms(1) by (simp_all add: pl_ok_def)
  from processEnrichmentRequest_accounted [OF this] q q' closed assms(1) show ?thesis
    by (simp add: pl' pl_ok_def accounted_def queued_def)
qed

lemma enqueue_one_accounted:
  assumes "pl_ok pl" and "ed_Results dest"
  shows "pl_ok (enqueue_one env now r dest pl) \<and> accounted (enqueue_one env now r dest pl) = Suc (accounted pl) \<and>
    pl_corr (enqueue_one env now r dest pl) = pl_corr pl \<and> pl_sent (enqueue_one env now r dest pl) = pl_sent pl"
proof -
  obtain q where q: "pl_queue pl = Some q" "q_ok q" "\<not> q_closed q" using assms(1) by (auto simp: pl_ok_def)
  let ?req = "\<lparr>rq_record = r, rq_destination = dest\<rparr>"
  show ?thesis
  proof (cases "q_capacity q \<le> q_size q")
    case True
    with q assms show ?thesis
      by (simp add: enqueue_one_def EnqueueForEnrichment_def Enqueue_def case_prod_beta Let_def pl_ok_def q_ok_def
          q_items_def accounted_def queued_def)
  next
    case False
    then have room: "q_size q < q_capacity q" by simp
    from enqueueLocked_pages [OF q(2) room, of ?req] q room assms show ?thesis
      by (simp add: enqueue_one_def EnqueueForEnrichment_def Enqueue_def case_prod_beta Let_def pl_ok_def q_ok_def
          q_items_def accounted_def queued_def)
  qed
qed

lemma enqueue_records_accounted:
  assumes "pl_ok pl" and "ed_Results dest"
  shows "pl_ok (enqueue_records dest (enqueue_one env now) rs pl) \<and>
    accounted (enqueue_records dest (enqueue_one env now) rs pl) = accounted pl + length rs \<and>
    pl_sent (enqueue_records dest (enqueue_one env now) rs pl) = pl_sent pl"
  using assms(1)
proof (induction rs arbitrary: pl)
  case (Cons r rs)
  note one = enqueue_one_accounted [OF Cons.prems assms(2), of env now r]
  from Cons.IH [of "enqueue_one env now r dest pl"] one show ?case by simp
qed simp

lemma ParsePacket_files:
  assumes "ParsePacket u b = Inr p" and "pkt_FileRecords p \<noteq> []"
  shows "file_packet p" and "pkt_GStreamRecord p = None"
proof -
  have "hd b \<noteq> CHR ''<''" using assms by (auto simp: ParsePacket_def zero_Packet_def split: if_splits)
  then have body: "parse_body u (decode_binaryHeader b) b
      (zero_Packet\<lparr>pkt_Header := decode_binaryHeader b, pkt_PacketType := hdr_Code (decode_binaryHeader b),
        pkt_RawData := b\<rparr>) = Inr p"
    using assms(1) by (auto simp: ParsePacket_def Let_def split: if_splits)
  note parts = parse_body_parts [OF body]
  have code: "hdr_Code (decode_binaryHeader b) = PacketTypeFStat"
    using parts(1) assms(2) by (simp add: zero_Packet_def)
  have "pkt_IsXML p = False" using parse_body_keeps [OF body] by (simp add: zero_Packet_def)
  moreover have "pkt_ServerInfo p = None"
    using parts(5) code by (cases "pkt_ServerInfo p") (simp_all add: zero_Packet_def)
  ultimately show "file_packet p" "pkt_GStreamRecord p = None"
    using parts(2-4) code by (simp_all add: file_packet_def zero_Packet_def)
qed

lemma handleParsedPacket_accounted:
  assumes "pl_ok (co_pl co)" and "ed_Results dest"
    and "pkt_FileRecords p \<noteq> [] \<Longrightarrow> file_packet p \<and> pkt_GStreamRecord p = None"
  shows "pl_ok (co_pl (handleParsedPacket env now dest p co)) \<and>
    accounted (co_pl (handleParsedPacket env now dest p co)) =
      accounted (co_pl co) + length (filter is_close (pkt_FileRecords p)) \<and>
    pl_sent (co_pl (handleParsedPacket env now dest p co)) = pl_sent (co_pl co)"
proof (cases "pkt_GStreamRecord p = None")
  case False
  with assms(3) have "pkt_FileRecords p = []" by auto
  with False assms(1) show ?thesis
    by (auto simp: handleParsedPacket_def tally_def Let_def split: option.split)
next
  case True
  obtain c records err where pp: "ProcessPacket now p (pl_corr (co_pl co)) = (c, records, err)"
    by (metis prod.collapse)
  have ok: "corr_ok (pl_corr (co_pl co))" using assms(1) by (simp add: pl_ok_def)
  then have c: "corr_ok c" "err = None"
    using ProcessPacket_ok [OF ok, of now p] pp by simp_all
  have "length records = length (filter is_close (pkt_FileRecords p))"
  proof (cases "pkt_FileRecords p = []")
    case True
    then show ?thesis
      using pp by (auto simp: ProcessPacket_def Let_def split: if_splits option.splits)
  next
    case False
    with assms(3) have "file_packet p" by simp
    from process_records_ok [of "count (PacketsPerServer (packet_server_ip p) (PacketTypeName (pkt_PacketType p)))
        (pl_corr (co_pl co))" now "packet_server_ip p" p "getServerID p" "pkt_FileRecords p" "[]"] ok pp
    show ?thesis by (simp add: ProcessPacket_file_packet [OF \<open>file_packet p\<close>])
  qed
  moreover have "pl_ok ((co_pl co)\<lparr>pl_corr := c\<rparr>)" "accounted ((co_pl co)\<lparr>pl_corr := c\<rparr>) = accounted (co_pl co)"
    using assms(1) c(1) by (simp_all add: pl_ok_def accounted_def queued_def)
  ultimately show ?thesis
    using enqueue_records_accounted [of "(co_pl co)\<lparr>pl_corr := c\<rparr>" dest env now records] assms(2) True c(2) pp
    by (simp add: handleParsedPacket_def Let_def)
qed

lemma handleParsedPacket_metrics [simp]:
  "co_metrics (handleParsedPacket env now dest p co) PacketsReceived = co_metrics co PacketsReceived"
  "co_metrics (handleParsedPacket env now dest p co) ParseErrors = co_metrics co ParseErrors"
  "co_metrics (handleParsedPacket env now dest p co) PacketsParsedOK = co_metrics co PacketsParsedOK"
  "co_metrics (handleParsedPacket env now dest p co) RecordsEmitted = co_metrics co RecordsEmitted"
  "co_published (handleParsedPacket env now dest p co) = co_published co"
  "co_gstreamCap (handleParsedPacket env now dest p co) = co_gstreamCap co"
  by (auto simp: handleParsedPacket_def tally_def log_error_def Let_def case_prod_beta split: option.split)

lemma handleParsedPacket_gstream:
  "co_gstream co = Some ps \<Longrightarrow> length ps \<le> co_gstreamCap co \<Longrightarrow>
     \<exists>ps'. co_gstream (handleParsedPacket env now dest p co) = Some ps' \<and> length ps' \<le> co_gstreamCap co"
  by (auto simp: handleParsedPacket_def tally_def log_error_def Let_def case_prod_beta split: option.split)

text \<open>What holds after every run.\<close>

definition run_inv :: "PacketWithAddr list \<Rightarrow> 'd Collector \<Rightarrow> bool" where
  "run_inv pkts co \<longleftrightarrow>
     pl_ok (co_pl co) \<and> accounted (co_pl co) = sum_list (List.map closes_of pkts) \<and>
     co_metrics co PacketsReceived = length pkts \<and>
     co_metrics co PacketsReceived = co_metrics co ParseErrors + co_metrics co PacketsParsedOK \<and>
     co_metrics co RecordsEmitted = co_published co \<and> co_published co \<le> length (pl_sent (co_pl co)) \<and>
     (\<exists>ps. co_gstream co = Some ps \<and> length ps \<le> co_gstreamCap co)"

lemma process_one_inv:
  assumes "run_inv pkts co" and "ed_Results dest"
  shows "run_inv (pkts @ [pkt]) (process_one env now dest pkt co)"
proof (cases "ParsePacket Unmarshal_map (pa_Data pkt)")
  case (Inl e)
  with assms show ?thesis by (simp add: run_inv_def process_one_def tally_def Let_def closes_of_def)
next
  case (Inr p)
  let ?p = "p\<lparr>pkt_RemoteAddr := pa_RemoteAddr pkt\<rparr>"
  let ?co = "tally (PacketsByType (packetTypeLabel p)) (tally PacketsParsedOK (tally PacketsReceived co))"
  have files: "pkt_FileRecords ?p \<noteq> [] \<Longrightarrow> file_packet ?p \<and> pkt_GStreamRecord ?p = None"
    using ParsePacket_files [OF Inr] by (simp add: file_packet_def)
  have "pl_ok (co_pl ?co)" using assms(1) by (simp add: run_inv_def tally_def)
  note acc = handleParsedPacket_accounted [OF this assms(2) files, of env now]
  obtain ps where "co_gstream ?co = Some ps" "length ps \<le> co_gstreamCap ?co"
    using assms(1) by (auto simp: run_inv_def tally_def)
  from handleParsedPacket_gstream [OF this, of env now dest ?p] obtain ps' where
    ps': "co_gstream (handleParsedPacket env now dest ?p ?co) = Some ps'" "length ps' \<le> co_gstreamCap ?co"
    by blast
  have co: "process_one env now dest pkt co = handleParsedPacket env now dest ?p ?co"
    using Inr by (simp add: process_one_def Let_def)
  have "closes_of pkt = length (filter is_close (pkt_FileRecords ?p))" using Inr by (simp add: closes_of_def)
  with acc ps' assms(1) show ?thesis by (simp add: co run_inv_def tally_def)
qed

lemma collects_inv: "collects config co0 pkts co \<Longrightarrow> run_inv [] co0 \<Longrightarrow> run_inv pkts co"
proof (induction rule: collects.induct)
  case (packet pkts co pkt env now)
  then show ?case using process_one_inv [of pkts co "enrichment_destination config"]
    by (simp add: enrichment_destination_def)
next
  case (enrich pkts co resolve uid hostname now give_up pl)
  then have "pl_ok (co_pl co)" by (simp add: run_inv_def)
  from worker_step_accounted [OF this enrich.hyps(2)] have acc: "pl_ok pl" "accounted pl = accounted (co_pl co)"
    by simp_all
  have "length (pl_sent (co_pl co)) \<le> length (pl_sent pl)"
    using enrich.hyps(2)
    by (auto simp: worker_step_def processEnrichmentRequest_def Let_def case_prod_beta
        split: option.splits prod.splits dequeue_result.splits)
  with acc enrich show ?case by (auto simp: run_inv_def)
next
  case (gstream pkts co resolve marshal genv hostname now co')
  note step = gstream_worker_step_Some [OF gstream.hyps(2)]
  from step(1) obtain p ps c where ps: "co_gstream co = Some (p # ps)" "co_gstream co' = Some ps"
    "c = fst (ProcessGStreamPacket resolve now p (pl_corr (co_pl co)))" "co_pl co' = (co_pl co)\<lparr>pl_corr := c\<rparr>"
    by blast
  have inv: "run_inv pkts co" using gstream by simp
  then have "corr_ok c" using ps(3) corr_ok_ProcessGStreamPacket by (simp add: run_inv_def pl_ok_def)
  with inv step(2-4) ps show ?case
    by (simp add: run_inv_def pl_ok_def accounted_def queued_def)
next
  case (publish pkts co render outcome co')
  with publisher_step_Some [OF publish.hyps(2)] show ?case by (simp add: run_inv_def)
next
  case (janitor pkts co now m)
  then have inv: "run_inv pkts co" by simp
  then have "corr_ok (sweep_map now m (pl_corr (co_pl co)))" by (simp add: run_inv_def pl_ok_def corr_ok_sweep)
  with inv show ?case by (simp add: run_inv_def pl_ok_def accounted_def queued_def)
qed simp

lemma start_collector_inv: "start_collector registry config output = Some co \<Longrightarrow> run_inv [] co"
  by (auto simp: start_collector_def run_inv_def new_pipeline_def pl_ok_def accounted_def queued_def corr_ok_New
      q_ok_def q_items_def newEnrichmentWorkQueue_def split: if_splits)

subsection \<open>Theorems\<close>

text \<open>C5: No record is lost without a trace. However the goroutines interleave, at every moment of
  a run the close records in the packets taken so far are exactly as many as the collector
  records that wait in the enrichment queue, were dropped because it was full, were dropped by
  the filter under one of its two reasons, or were sent to the publisher; the publisher is never
  ahead of them, its counter says how many it has taken, and every packet counts as parsed or as
  an error.\<close>

theorem records_accounted:
  assumes "start_collector registry config output = Some co0" and "collects config co0 pkts co"
  shows "sum_list (List.map closes_of pkts) =
      (case pl_queue (co_pl co) of None \<Rightarrow> 0 | Some q \<Rightarrow> q_size q) + pl_queueDropped (co_pl co) +
      pl_recordsDropped (co_pl co) ''vo'' + pl_recordsDropped (co_pl co) ''path_prefix'' + length (pl_sent (co_pl co)) \<and>
    co_metrics co RecordsEmitted = co_published co \<and> co_published co \<le> length (pl_sent (co_pl co)) \<and>
    length pkts = co_metrics co ParseErrors + co_metrics co PacketsParsedOK"
  using collects_inv [OF assms(2) start_collector_inv [OF assms(1)]]
  by (simp add: run_inv_def accounted_def queued_def)

definition sample_start :: "MessageStruct list Collector" where
  "sample_start = the (start_collector empty_registry sample_config [QueueConn (Init list_dque [])])"

lemma sample_start: "start_collector empty_registry sample_config [QueueConn (Init list_dque [])] = Some sample_start"
proof -
  have "st_EntryTTL (cfg_State sample_config) = 300"
    using ReadConfig_fields(3) [OF sample_config_read]
    by (simp add: read_state_def GetInt_def sample_viper_def)
  then show ?thesis
    by (simp add: sample_start_def start_collector_def buildCorrelatorConfig_def seconds_def)
qed

definition sample_env :: enrich_env where
  "sample_env = ((\<lambda>_. None), [], [], False)"

definition sample_run :: "MessageStruct list Collector" where
  "sample_run = process_one sample_env 5 (enrichment_destination sample_config)
     \<lparr>pa_Data = [], pa_RemoteAddr = []\<rparr> sample_start"

lemma sample_run: "collects sample_config sample_start [\<lparr>pa_Data = [], pa_RemoteAddr = []\<rparr>] sample_run"
  using collects.packet [OF collects.start, of sample_config sample_start "\<lparr>pa_Data = [], pa_RemoteAddr = []\<rparr>"]
  by (simp add: sample_run_def)

lemma records_accounted_witness:
  "length (pl_sent (co_pl sample_run)) = 0 \<and> co_metrics sample_run ParseErrors + co_metrics sample_run PacketsParsedOK = 1"
  using records_accounted [OF sample_start sample_run] by (simp add: closes_of_def ParsePacket_def)

lemma shutdown_all:
  fixes co :: "'d Collector" and resolve marshal render envs outcomes schedule hostname
  assumes "start_collector registry config output = Some co0" and "collects config co0 pkts co"
  defines "co' \<equiv> shutdown resolve marshal render envs outcomes schedule hostname config co"
  shows "co_gstream co' = Some [] \<and> co_published co' = length (pl_sent (co_pl co')) \<and>
    co_metrics co' RecordsEmitted = length (pl_sent (co_pl co')) \<and>
    length (pl_sent (co_pl co)) \<le> length (pl_sent (co_pl co'))"
proof -
  let ?co1 = "(finish_gstream resolve marshal envs hostname config co)\<lparr>co_gstreamSize := 0\<rparr>"
  let ?pl = "drain resolve hostname schedule (Stop_begin (co_pl ?co1))"
  let ?co2 = "?co1\<lparr>co_pl := ?pl\<lparr>pl_queue := None\<rparr>\<rparr>"
  have inv: "run_inv pkts co" by (rule collects_inv [OF assms(2) start_collector_inv [OF assms(1)]])
  have "co_gstream co \<noteq> None" using inv by (auto simp: run_inv_def)
  then have "co_gstream ?co1 = Some []" by (simp add: finish_gstream_empties)
  moreover have "co_published ?co1 = co_published co" "co_metrics ?co1 RecordsEmitted = co_published co"
    "pl_sent (co_pl ?co1) = pl_sent (co_pl co)"
    using inv by (simp_all add: finish_gstream_keeps run_inv_def)
  moreover have sent: "length (pl_sent (co_pl ?co1)) \<le> length (pl_sent ?pl)"
    using drain_sent [of "Stop_begin (co_pl ?co1)" resolve hostname schedule] by (simp add: Stop_begin_def)
  moreover have "co_published ?co2 \<le> length (pl_sent (co_pl ?co2))"
    using sent inv calculation(2,4) by (simp add: run_inv_def)
  from finish_publishing_all [OF this, of render outcomes] calculation
  show ?thesis by (simp add: co'_def shutdown_def Let_def)
qed

text \<open>The shutdown that ends a run finishes its work: its two loops end, no g-stream packet is left
  in the channel, every record that was sent to the results is published, also those the workers
  still sent while they stopped, and nothing already sent is lost.\<close>

theorem shutdown_publishes_all:
  fixes co :: "'d Collector" and resolve marshal render envs outcomes schedule hostname
  assumes "start_collector registry config output = Some co0" and "collects config co0 pkts co"
  defines "co' \<equiv> shutdown resolve marshal render envs outcomes schedule hostname config co"
  shows "co_gstream co' = Some [] \<and> co_published co' = length (pl_sent (co_pl co')) \<and>
    co_metrics co' RecordsEmitted = length (pl_sent (co_pl co')) \<and>
    length (pl_sent (co_pl co)) \<le> length (pl_sent (co_pl co'))"
  unfolding co'_def by (rule shutdown_all [OF assms(1,2)])

lemma shutdown_publishes_all_witness:
  "let co' = shutdown (\<lambda>_. None) (\<lambda>_. None) (\<lambda>_. []) (\<lambda>_. (\<lambda>_. (\<lambda>_. (True, True), []), 0)) (\<lambda>_ _. (True, True)) [] []
      sample_config sample_run
   in co_gstream co' = Some [] \<and> co_published co' = length (pl_sent (co_pl co'))"
  using shutdown_publishes_all [OF sample_start sample_run] by (simp add: Let_def)

end
