(* ===== verification/Collector_Config.thy ===== *)
theory Collector_Config
  imports Collector_Run
begin

section \<open>What the configuration does to the collector\<close>

text \<open>
  Lemmas that compose reading the configuration (\<open>Config\<close>), setting the collector up
  (\<open>Collector_Main\<close>) and its routing decisions: where a g-stream event goes in terms of the raw
  event, which routing rules are in force, and a setting that is accepted and cannot run.
\<close>

lemma cache_lfn:
  assumes "map_of event ''lfn'' = Some (JStr path)"
  shows "event_string ''file_path'' (TransformCacheEvent event) = Some path"
proof -
  have "(''lfn'', ''file_path'') \<in> set cache_names" by (simp add: cache_names_def)
  from renameFields_new [OF this clean_names(1), of event] assms show ?thesis
    by (simp add: event_string_def map_of_TransformCacheEvent)
qed

lemma tpc_source_destination:
  assumes "map_of event ''Src'' = Some (JStr src)" and "map_of event ''Dst'' = Some (JStr dst)"
  shows "event_string ''source'' (TransformTPCEvent event) = Some src"
    and "event_string ''destination'' (TransformTPCEvent event) = Some dst"
proof -
  have mem: "(''Src'', ''source'') \<in> set tpc_names" "(''Dst'', ''destination'') \<in> set tpc_names"
    by (simp_all add: tpc_names_def)
  have other: "map_of (TransformTPCEvent event) k = map_of (renameFields tpc_names event) k"
    if "k \<noteq> ''Xeq''" "k \<noteq> ''xeq''" for k
    using that by (auto simp: TransformTPCEvent_def Let_def update_conv' delete_conv' split: option.split json.split)
  show "event_string ''source'' (TransformTPCEvent event) = Some src"
    "event_string ''destination'' (TransformTPCEvent event) = Some dst"
    using renameFields_new [OF mem(1) clean_names(2), of event] renameFields_new [OF mem(2) clean_names(2), of event] assms
    by (simp_all add: event_string_def other)
qed

text \<open>Where a g-stream event goes, in terms of the raw event: a cache event to the WLCG cache
  exchange when its \<open>lfn\<close> is a WLCG path, a transfer to the WLCG transfer exchange when either
  end is, both only with WLCG enabled, and then it is converted; otherwise each type goes to its
  own exchange in its native form, and an unknown type to the default one.\<close>

theorem gstream_event_routing:
  fixes ty path src dst config
  assumes "ty = CHR ''C'' \<Longrightarrow> map_of event ''lfn'' = Some (JStr path)"
    and "ty = CHR ''P'' \<Longrightarrow> map_of event ''Src'' = Some (JStr src) \<and> map_of event ''Dst'' = Some (JStr dst)"
  defines "convert \<equiv> wl_Enabled (cfg_WLCG config) \<and>
      (if ty = CHR ''C'' then CachePathCheckWLCG path
       else ty = CHR ''P'' \<and> (TPCPathCheckWLCG src \<or> TPCPathCheckWLCG dst))"
  shows "snd (gstream_route config ty event) =
    (if ty = CHR ''C'' then if convert then cfg_AmqpExchangeWLCGCache config else cfg_AmqpExchangeCache config
     else if ty = CHR ''P'' then if convert then cfg_AmqpExchangeWLCGTPC config else cfg_AmqpExchangeTPC config
     else if ty = CHR ''T'' then cfg_AmqpExchangeTCP config
     else cfg_AmqpExchange config,
     convert, ty \<notin> {CHR ''C'', CHR ''T'', CHR ''P''})"
  using assms(1,2) by (simp add: gstream_route_def convert_def Let_def cache_lfn tpc_source_destination)

definition sample_cache_event :: json_object where
  "sample_cache_event = [(''lfn'', JStr ''/store/mc/f.root''), (''b_hit'', JNum 0)]"

lemma gstream_event_routing_witness:
  "snd (gstream_route sample_config CHR ''C'' sample_cache_event) = (''xrd-wlcg-cache-events'', True, False)"
proof -
  have "wl_Enabled (cfg_WLCG sample_config)"
    using ReadConfig_fields(4) [OF sample_config_read] by (simp add: read_wlcg_def GetBool_def sample_viper_def)
  moreover have "cfg_AmqpExchangeWLCGCache sample_config = ''xrd-wlcg-cache-events''"
    by (simp add: sample_config_def ReadConfigWithPathAndPrefix_def read_mq_def read_amqp_def sample_url_def
      sample_viper_def GetString_def Let_def read_rest_def)
  moreover have "CachePathCheckWLCG ''/store/mc/f.root''"
    by code_simp
  ultimately show ?thesis
  using gstream_event_routing [of "CHR ''C''" sample_cache_event "''/store/mc/f.root''" "[]" "[]" sample_config]
  by (simp add: sample_cache_event_def)
qed

text \<open>C30: The routing rules in force are those of the configuration: the correlator never puts its
  own defaults back, so a list set to be empty turns its half of the rule off, one that is not
  set has the documented default, and the master switch turns both off.\<close>

theorem configured_routing:
  assumes "ReadConfigWithPathAndPrefix parse v envPrefix c = Inr config"
    and "start_collector registry config output = Some co"
  shows "matchesWLCG (pl_corr (co_pl co)) rec \<longleftrightarrow>
    GetBool v ''wlcg.enabled'' True \<and>
    matchesWLCGWithRules (cr_VO rec) (cr_Filename rec)
      (case vp_Slice v ''wlcg.vos'' of None \<Rightarrow> [''cms''] | Some vos \<Rightarrow> vos)
      (case vp_Slice v ''wlcg.path_prefixes'' of None \<Rightarrow> [''/store'', ''/user/dteam''] | Some ps \<Rightarrow> ps)"
proof -
  have "co_pl co = new_pipeline registry config" using assms(2) by (auto simp: start_collector_def split: if_splits)
  then show ?thesis
    using ReadConfig_fields(4) [OF assms(1)]
    by (auto simp: new_pipeline_def buildCorrelatorConfig_def NewCorrelatorWithConfig_def Let_def matchesWLCG_def
        read_wlcg_def GetStringSlice_def split: option.split)
qed

definition sample_vo_record :: "string \<Rightarrow> string \<Rightarrow> CollectorRecord" where
  "sample_vo_record vo path = (rq_record sample_request)\<lparr>cr_VO := vo, cr_Filename := path\<rparr>"

lemma path_matches_other: "\<not> path_matches [''/store'', ''/user/dteam''] ''/other''"
  by code_simp

lemma configured_routing_witness:
  "\<not> matchesWLCG (pl_corr (co_pl sample_start)) (sample_vo_record ''CMS'' ''/other'')"
  using configured_routing [OF sample_config_read sample_start, of "sample_vo_record ''CMS'' ''/other''"]
  by (simp add: sample_viper_def sample_vo_record_def matchesWLCGWithRules_def path_matches_other)

text \<open>A TTL of zero or less is accepted by the configuration, which checks every other time, and
  the collector then panics at start, because the janitors' tickers get an interval that is not
  positive.\<close>

theorem entry_ttl_unchecked:
  assumes "GetString v ''mq'' ''amqp'' = ''amqp''" and "parse (GetString v ''amqp.url'' []) \<noteq> None"
    and "vp_Int v ''state.entry_ttl'' = Some ttl" and "ttl \<le> 0" and "- 9000000000 \<le> ttl"
  shows "\<exists>config. ReadConfigWithPathAndPrefix parse v ''COLLECTOR'' c = Inr config \<and>
    start_collector registry config output = None"
proof -
  obtain url where url: "parse (GetString v ''amqp.url'' []) = Some url" using assms(2) by blast
  obtain config where config: "ReadConfigWithPathAndPrefix parse v ''COLLECTOR'' c = Inr config"
    using assms(1) url by (simp add: ReadConfigWithPathAndPrefix_def read_mq_def read_amqp_def Let_def)
  have "st_EntryTTL (cfg_State config) = ttl"
    using ReadConfig_fields(3) [OF config] assms(3) by (simp add: read_state_def GetInt_def)
  moreover have "seconds ttl = ttl * 10 ^ 9"
    unfolding seconds_def using assms(4,5)
    by (subst sint_sbintrunc') (simp add: signed_take_bit_int_eq_self)
  moreover have "ttl * 10 ^ 9 sdiv 10 \<le> 0" using assms(4) by (cases "ttl = 0") (simp_all add: signed_divide_int_def pos_imp_zdiv_nonneg_iff)
  ultimately have "start_collector registry config output = None"
    by (simp add: start_collector_def buildCorrelatorConfig_def)
  with config show ?thesis by blast
qed

lemma entry_ttl_unchecked_witness:
  "\<exists>config. ReadConfigWithPathAndPrefix sample_url (sample_viper\<lparr>vp_Int := [''state.entry_ttl'' \<mapsto> 0]\<rparr>) ''COLLECTOR'' zero_Config =
      Inr config \<and> start_collector empty_registry config ([] :: unit connector list) = None"
  by (rule entry_ttl_unchecked [where ttl = 0]) (simp_all add: GetString_def sample_viper_def sample_url_def)

end
