(* ===== verification/Amqp_Session.thy ===== *)
theory Amqp_Session
  imports Config
begin

section \<open>The AMQP session (amqp.go)\<close>

text \<open>
  One connection to the broker, kept up by a goroutine of its own: \<open>handleReconnect\<close> dials until it
  succeeds, \<open>handleReInit\<close> opens a channel and waits for something to break. The goroutine is a
  state machine over its waiting points (\<open>session_phase\<close>); what the library and the clock do are
  the events. \<open>Push\<close> and \<open>Close\<close> run on the worker's side. The lemmas: whoever finds the session
  ready finds a channel to publish on, and a session closed while it is not ready is never
  released.
\<close>

datatype session_phase =
    Dialing
  | DialBackoff
  | Initializing
  | InitBackoff
  | Established
  | Ended

record Session =
  se_url :: URL
  se_connection :: bool
  se_channel :: bool
  se_done :: bool
  se_isReady :: bool
  se_phase :: session_phase
  se_reconnects :: nat

text \<open>\<open>New\<close> starts the goroutine; \<open>se_reconnects\<close> is the session's share of the counter
  \<open>RabbitmqReconnects\<close>.\<close>

definition New :: "URL \<Rightarrow> Session" where
  "New url = \<lparr>se_url = url, se_connection = False, se_channel = False, se_done = False, se_isReady = False,
     se_phase = Dialing, se_reconnects = 0\<rparr>"

datatype session_event =
    Dialed bool
  | TimerFired
  | DoneSeen
  | ChannelOpened bool
  | ConnectionClosed
  | ChannelClosed

text \<open>The dial and what follows it in \<open>handleReconnect\<close>; \<open>handleReInit\<close> first clears \<open>isReady\<close>.\<close>

definition session_dialed :: "bool \<Rightarrow> Session \<Rightarrow> Session" where
  "session_dialed ok s =
     (let s1 = s\<lparr>se_reconnects := Suc (se_reconnects s)\<rparr>
      in if ok then s1\<lparr>se_connection := True, se_isReady := False, se_phase := Initializing\<rparr>
         else s1\<lparr>se_phase := DialBackoff\<rparr>)"

text \<open>\<open>init\<close>, whose two calls of the library succeed or not.\<close>

definition session_init :: "bool \<Rightarrow> Session \<Rightarrow> Session" where
  "session_init ok s =
     (if ok then s\<lparr>se_channel := True, se_isReady := True, se_phase := Established\<rparr>
      else s\<lparr>se_phase := InitBackoff\<rparr>)"

text \<open>One step of the goroutine; \<open>None\<close> when the event is not one it waits for.\<close>

fun session_step :: "session_event \<Rightarrow> Session \<Rightarrow> Session option" where
  "session_step (Dialed ok) s = (if se_phase s = Dialing then Some (session_dialed ok s) else None)"
| "session_step TimerFired s =
     (if se_phase s = DialBackoff then Some (s\<lparr>se_isReady := False, se_phase := Dialing\<rparr>)
      else if se_phase s = InitBackoff then Some (s\<lparr>se_isReady := False, se_phase := Initializing\<rparr>)
      else None)"
| "session_step DoneSeen s =
     (if se_done s \<and> se_phase s \<in> {DialBackoff, InitBackoff, Established} then Some (s\<lparr>se_phase := Ended\<rparr>)
      else None)"
| "session_step (ChannelOpened ok) s = (if se_phase s = Initializing then Some (session_init ok s) else None)"
| "session_step ConnectionClosed s =
     (if se_phase s = Established then Some (s\<lparr>se_isReady := False, se_phase := Dialing\<rparr>) else None)"
| "session_step ChannelClosed s =
     (if se_phase s = Established then Some (s\<lparr>se_isReady := False, se_phase := Initializing\<rparr>) else None)"

subsection \<open>Publishing and closing\<close>

datatype push_error = NotConnected | NotReady | Shutdown | PublishFailed

text \<open>\<open>UnsafePush\<close>; \<open>accepted\<close> is whether the library's \<open>Publish\<close> reports success. A publish without
  a channel would dereference nil, which is the outcome \<open>None\<close>.\<close>

definition UnsafePush :: "bool \<Rightarrow> Session \<Rightarrow> (push_error + unit) option" where
  "UnsafePush accepted s =
     (if \<not> se_isReady s then Some (Inl NotConnected)
      else if \<not> se_channel s then None
      else Some (if accepted then Inr () else Inl PublishFailed))"

text \<open>
  \<open>Push\<close>: the check at its entry, then attempts until one succeeds. An attempt sees the session as
  it is then; the outcome \<open>None\<close> is a \<open>Push\<close> still in its loop after the attempts given.
\<close>

fun push_attempts :: "(Session \<times> bool) list \<Rightarrow> (push_error + unit) option" where
  "push_attempts [] = None"
| "push_attempts ((s, accepted) # attempts) =
     (if UnsafePush accepted s = Some (Inr ()) then Some (Inr ())
      else if se_done s then Some (Inl Shutdown)
      else push_attempts attempts)"

definition Push :: "Session \<Rightarrow> (Session \<times> bool) list \<Rightarrow> (push_error + unit) option" where
  "Push s attempts = (if \<not> se_isReady s then Some (Inl NotReady) else push_attempts attempts)"

text \<open>\<open>Close\<close>, with the library's answers to the two closings; the result is whether it failed.\<close>

definition Close_session :: "bool \<Rightarrow> bool \<Rightarrow> Session \<Rightarrow> Session \<times> bool" where
  "Close_session channel_ok connection_ok s =
     (if \<not> se_isReady s then (s, True)
      else
        let s1 = s\<lparr>se_done := True\<rparr>
        in if \<not> channel_ok then (s1, True)
           else if \<not> connection_ok then (s1, True)
           else (s1\<lparr>se_isReady := False\<rparr>, False))"

subsection \<open>The life of a session\<close>

text \<open>The states a session can be in: its goroutine's steps, and a close by its worker.\<close>

inductive session_reach :: "URL \<Rightarrow> Session \<Rightarrow> bool" for url where
  new: "session_reach url (New url)"
| step: "session_reach url s \<Longrightarrow> session_step e s = Some s' \<Longrightarrow> session_reach url s'"
| close: "session_reach url s \<Longrightarrow> session_reach url (fst (Close_session ch conn s))"

definition session_ok :: "Session \<Rightarrow> bool" where
  "session_ok s \<longleftrightarrow>
     (se_isReady s \<longrightarrow> se_connection s \<and> se_channel s \<and> se_phase s \<in> {Established, Ended}) \<and>
     (se_phase s = Ended \<longrightarrow> se_done s) \<and>
     (se_phase s \<in> {Initializing, InitBackoff, Established} \<longrightarrow> se_connection s)"

lemma session_ok_New: "session_ok (New url)"
  by (simp add: session_ok_def New_def)

lemma session_ok_step: "session_ok s \<Longrightarrow> session_step e s = Some s' \<Longrightarrow> session_ok s'"
  by (cases e) (auto simp: session_ok_def session_dialed_def session_init_def Let_def split: if_splits)

lemma session_ok_close: "session_ok s \<Longrightarrow> session_ok (fst (Close_session ch conn s))"
  by (auto simp: session_ok_def Close_session_def Let_def)

lemma session_reach_ok: "session_reach url s \<Longrightarrow> session_ok s"
  by (induction rule: session_reach.induct) (auto intro: session_ok_New session_ok_step session_ok_close)

text \<open>Publishing is safe: in every state a session can reach, however often its connection and
  channel broke, an attempt to publish never runs without a channel, and it succeeds exactly
  when the session is ready and the broker's library accepts the message.\<close>

theorem publish_has_channel:
  assumes "session_reach url s"
  shows "UnsafePush accepted s \<noteq> None \<and> (UnsafePush accepted s = Some (Inr ()) \<longleftrightarrow> se_isReady s \<and> accepted)"
  using session_reach_ok [OF assms] by (auto simp: UnsafePush_def session_ok_def)

definition sample_broker :: URL where
  "sample_broker = \<lparr>url_User = None, url_Rest = ''amqp://broker''\<rparr>"

lemma publish_has_channel_witness:
  "UnsafePush True (session_init True (session_dialed True (New sample_broker))) = Some (Inr ())"
proof -
  have "session_reach sample_broker (session_dialed True (New sample_broker))"
    by (rule session_reach.step [OF session_reach.new, of "Dialed True"]) (simp add: New_def)
  then have "session_reach sample_broker (session_init True (session_dialed True (New sample_broker)))"
    by (rule session_reach.step [of _ _ "ChannelOpened True"]) (simp add: session_dialed_def Let_def)
  from publish_has_channel [OF this, of True] show ?thesis
    by (simp add: session_init_def)
qed

text \<open>The goroutine on its own: a run of its steps.\<close>

fun session_run :: "session_event list \<Rightarrow> Session \<Rightarrow> Session option" where
  "session_run [] s = Some s"
| "session_run (e # es) s = (case session_step e s of None \<Rightarrow> None | Some s' \<Rightarrow> session_run es s')"

lemma session_run_done: "session_run es s = Some s' \<Longrightarrow> se_done s' = se_done s"
proof (induction es arbitrary: s)
  case (Cons e es)
  have "se_done s1 = se_done s" if "session_step e s = Some s1" for s1
    using that by (cases e) (auto simp: session_dialed_def session_init_def Let_def split: if_splits)
  with Cons show ?case by (auto split: option.splits)
qed simp

text \<open>Closing a session that is not ready does not close it: it reports an error and signals
  nobody, so whatever happens afterwards the reconnecting goroutine of that session never ends,
  and it connects again as soon as the broker lets it.\<close>

theorem close_unready_leaks:
  assumes "session_reach url s" and "\<not> se_isReady s" and "\<not> se_done s"
    and "session_run es (fst (Close_session ch conn s)) = Some s'"
  shows "snd (Close_session ch conn s) \<and> se_phase s' \<noteq> Ended"
proof -
  have close: "Close_session ch conn s = (s, True)" using assms(2) by (simp add: Close_session_def)
  have reach: "session_reach url s \<Longrightarrow> session_run es s = Some s' \<Longrightarrow> session_reach url s'" for es s
    by (induction es arbitrary: s) (auto split: option.splits intro: session_reach.step)
  have "session_ok s'" using reach assms(1,4) close session_reach_ok by auto
  moreover have "\<not> se_done s'" using session_run_done assms(3,4) close by auto
  ultimately show ?thesis using close by (auto simp: session_ok_def)
qed

lemma close_unready_leaks_witness:
  "snd (Close_session True True (New sample_broker)) \<and>
   se_phase (the (session_run [Dialed False, TimerFired, Dialed True, ChannelOpened True]
     (fst (Close_session True True (New sample_broker))))) \<noteq> Ended"
  by (rule close_unready_leaks [OF session_reach.new,
      where es = "[Dialed False, TimerFired, Dialed True, ChannelOpened True]"])
    (simp_all add: New_def Close_session_def session_dialed_def session_init_def Let_def)

end
