(* ===== verification/Amqp_Pool.thy ===== *)
theory Amqp_Pool
  imports Amqp_Session Confirmation_Queue "HOL-Library.Multiset"
begin

section \<open>The AMQP worker pool (amqp.go)\<close>

text \<open>
  The goroutines that move messages from the confirmation queue to the AMQP library: the feeder, the
  publishing workers with their sessions, the watcher of the token file, which restarts the
  workers with new credentials, and \<open>StartAMQP\<close> itself, which stops the pool when its context
  is done. Each goroutine is a state machine over the points where it waits or reads what another
  may change, and \<open>pool_apply\<close> is one step of one of them. A context is a number; cancelling puts
  it into a set. A message counts as published when the library's \<open>Publish\<close> accepts it, which is
  all the code waits for; whether the broker ever gets it is another matter (\<open>Amqp_Wire\<close>). The
  lemmas: on the way to the library no message is lost or doubled and a single worker keeps the
  order as long as no context is cancelled; and what a change of the token file can do to the pool.
\<close>

subsection \<open>State\<close>

datatype worker_state =
    Selecting
  | Publishing MessageStruct
  | Pushing MessageStruct
  | BackingOff MessageStruct
  | Exited

record PublishWorker =
  wk_id :: nat
  wk_ctx :: nat
  wk_session :: Session
  wk_state :: worker_state

datatype feeder_state = Checking | Dequeueing | Sending MessageStruct nat | FeederDone

datatype main_state = AwaitDone nat | StopCancel | StopWorkers nat | StopFeeder | MainDone

datatype watcher_state = Watching | RestartWaiting URL | WatcherDone

text \<open>
  \<open>wp_workers\<close> holds every worker ever started; those of the pool's list are the ones of the
  current context \<open>wp_ctx\<close>. \<open>wp_published\<close> records the messages for which the library's
  \<open>Publish\<close> returned no error, \<open>wp_lost\<close> those that were taken from the queue and given up; neither
  has a counterpart in the code. After a panic or a fatal error the process is gone.
\<close>

record 'd WorkerPool =
  wp_amqpURL :: URL
  wp_queue :: "'d ConfirmationQueue"
  wp_ctx :: nat
  wp_cancelled :: "nat set"
  wp_workers :: "PublishWorker list"
  wp_channel :: "MessageStruct list"
  wp_closed :: bool
  wp_feeder :: feeder_state
  wp_main :: main_state
  wp_watcher :: watcher_state
  wp_tokenAge :: int
  wp_published :: "MessageStruct list"
  wp_lost :: "MessageStruct list"
  wp_dead :: bool

abbreviation (input) "messagesQueueCap \<equiv> (1000 :: nat)"

subsection \<open>Start\<close>

definition worker_count :: "Config \<Rightarrow> nat" where
  "worker_count config =
     (if cfg_Mode config = ''shoveler'' then 1 else nat (cfg_AmqpPublishWorkers config))"

definition new_workers :: "Config \<Rightarrow> URL \<Rightarrow> nat \<Rightarrow> PublishWorker list" where
  "new_workers config url ctx =
     List.map (\<lambda>i. \<lparr>wk_id = i, wk_ctx = ctx, wk_session = New url, wk_state = Selecting\<rparr>)
       [0..<worker_count config]"

definition readToken :: "string option \<Rightarrow> string option" where
  "readToken contents = map_option trim_space contents"

definition with_token :: "string \<Rightarrow> URL \<Rightarrow> URL" where
  "with_token token url = url\<lparr>url_User := Some (''shoveler'', token)\<rparr>"

text \<open>\<open>None\<close> is a fatal error. The token file's time and contents are \<open>stat\<close> and \<open>contents\<close>.\<close>

definition StartAMQP ::
  "Config \<Rightarrow> int option \<Rightarrow> string option \<Rightarrow> 'd ConfirmationQueue \<Rightarrow> 'd WorkerPool option" where
  "StartAMQP config stat contents queue =
     (case cfg_AmqpURL config of
        None \<Rightarrow> None
      | Some url \<Rightarrow>
          (let pool = \<lambda>url age watcher.
             \<lparr>wp_amqpURL = url, wp_queue = queue, wp_ctx = 0, wp_cancelled = {},
              wp_workers = new_workers config url 0, wp_channel = [], wp_closed = False,
              wp_feeder = Checking, wp_main = AwaitDone 0, wp_watcher = watcher, wp_tokenAge = age,
              wp_published = [], wp_lost = [], wp_dead = False\<rparr>
           in if url_User url = None then
                (case (stat, readToken contents) of
                   (Some age, Some token) \<Rightarrow> Some (pool (with_token token url) age Watching)
                 | _ \<Rightarrow> None)
              else Some (pool url 0 WatcherDone)))"

subsection \<open>The feeder\<close>

text \<open>
  \<open>feedMessages\<close>. The first select reads the pool's context of the moment; the second waits on
  the context it read when it was entered. \<open>send\<close> is which of its cases is taken.
\<close>

definition feeder_step :: "bool \<Rightarrow> 'd WorkerPool \<Rightarrow> 'd WorkerPool option" where
  "feeder_step send p =
     (case wp_feeder p of
        Checking \<Rightarrow>
          Some (p\<lparr>wp_feeder := (if wp_ctx p \<in> wp_cancelled p then FeederDone else Dequeueing)\<rparr>)
      | Dequeueing \<Rightarrow>
          (case dequeueLocked (wp_queue p) of
             (q, Received m) \<Rightarrow> Some (p\<lparr>wp_queue := q, wp_feeder := Sending m (wp_ctx p)\<rparr>)
           | (q, Wait) \<Rightarrow> None
           | (q, Panic) \<Rightarrow> Some (p\<lparr>wp_dead := True\<rparr>))
      | Sending m ctx \<Rightarrow>
          (if send then
             (if wp_closed p then Some (p\<lparr>wp_dead := True\<rparr>)
              else if length (wp_channel p) < messagesQueueCap
              then Some (p\<lparr>wp_channel := wp_channel p @ [m], wp_feeder := Checking\<rparr>)
              else None)
           else if ctx \<in> wp_cancelled p then Some (p\<lparr>wp_lost := wp_lost p @ [m], wp_feeder := FeederDone\<rparr>)
           else None)
      | FeederDone \<Rightarrow> None)"

subsection \<open>A worker\<close>

datatype worker_event =
    CtxDone
  | TakeMessage
  | Proceed
  | PushAttempt bool
  | SessionEvent session_event

definition put_worker :: "nat \<Rightarrow> PublishWorker \<Rightarrow> 'd WorkerPool \<Rightarrow> 'd WorkerPool" where
  "put_worker i w p = p\<lparr>wp_workers := (wp_workers p)[i := w]\<rparr>"

text \<open>
  \<open>run\<close> and \<open>publishMessage\<close>. A closed channel delivers nil once it is empty, and the worker
  dereferences it. A push that is not ready at its entry fails at once; one that has begun only
  ends when the library accepts an attempt or the session is closed. No confirmation of the broker
  is awaited: the message is forgotten once it is accepted.
\<close>

definition worker_at :: "nat \<Rightarrow> worker_event \<Rightarrow> PublishWorker \<Rightarrow> 'd WorkerPool \<Rightarrow> 'd WorkerPool option" where
  "worker_at i e w p =
     (let done = wk_ctx w \<in> wp_cancelled p;
          goto = \<lambda>st. put_worker i (w\<lparr>wk_state := st\<rparr>)
      in case (wk_state w, e) of
           (Selecting, CtxDone) \<Rightarrow>
             if done then Some (put_worker i
               (w\<lparr>wk_state := Exited, wk_session := fst (Close_session True True (wk_session w))\<rparr>) p)
             else None
         | (Selecting, TakeMessage) \<Rightarrow>
             (case wp_channel p of
                m # ms \<Rightarrow> Some (goto (Publishing m) (p\<lparr>wp_channel := ms\<rparr>))
              | [] \<Rightarrow> if wp_closed p then Some (p\<lparr>wp_dead := True\<rparr>) else None)
         | (Publishing m, Proceed) \<Rightarrow>
             if done then Some (goto Selecting (p\<lparr>wp_lost := wp_lost p @ [m]\<rparr>))
             else Some (goto (if se_isReady (wk_session w) then Pushing m else BackingOff m) p)
         | (Pushing m, PushAttempt accepted) \<Rightarrow>
             (case UnsafePush accepted (wk_session w) of
                None \<Rightarrow> Some (p\<lparr>wp_dead := True\<rparr>)
              | Some (Inr _) \<Rightarrow> Some (goto Selecting (p\<lparr>wp_published := wp_published p @ [m]\<rparr>))
              | Some (Inl _) \<Rightarrow> if se_done (wk_session w) then Some (goto (BackingOff m) p) else Some p)
         | (BackingOff m, CtxDone) \<Rightarrow>
             if done then Some (goto Selecting (p\<lparr>wp_lost := wp_lost p @ [m]\<rparr>)) else None
         | (BackingOff m, Proceed) \<Rightarrow> Some (goto (Publishing m) p)
         | (_, SessionEvent se) \<Rightarrow>
             map_option (\<lambda>s. put_worker i (w\<lparr>wk_session := s\<rparr>) p) (session_step se (wk_session w))
         | _ \<Rightarrow> None)"

definition pool_worker_step :: "nat \<Rightarrow> worker_event \<Rightarrow> 'd WorkerPool \<Rightarrow> 'd WorkerPool option" where
  "pool_worker_step i e p =
     (if i < length (wp_workers p) then worker_at i e (wp_workers p ! i) p else None)"

text \<open>What the library is given for a message: the exchange \<open>publishMessage\<close> chooses, and the body.\<close>

definition addressed :: "Config \<Rightarrow> MessageStruct \<Rightarrow> string \<times> string" where
  "addressed config m =
     (if ms_Exchange m \<noteq> [] then ms_Exchange m else cfg_AmqpExchange config, ms_Message m)"

subsection \<open>Stop and restart\<close>

definition workers_exited :: "nat \<Rightarrow> 'd WorkerPool \<Rightarrow> bool" where
  "workers_exited ctx p \<longleftrightarrow> list_all (\<lambda>w. wk_ctx w = ctx \<longrightarrow> wk_state w = Exited) (wp_workers p)"

definition cancel :: "'d WorkerPool \<Rightarrow> 'd WorkerPool" where
  "cancel p = p\<lparr>wp_cancelled := insert (wp_ctx p) (wp_cancelled p)\<rparr>"

text \<open>
  \<open>StartAMQP\<close> after the start: it waits on the context it was started with, and \<open>Stop\<close> then
  cancels the current one, waits for the current workers and for the feeder, and closes the
  channel.
\<close>

definition main_step :: "'d WorkerPool \<Rightarrow> 'd WorkerPool option" where
  "main_step p =
     (case wp_main p of
        AwaitDone ctx \<Rightarrow> if ctx \<in> wp_cancelled p then Some (p\<lparr>wp_main := StopCancel\<rparr>) else None
      | StopCancel \<Rightarrow> Some ((cancel p)\<lparr>wp_main := StopWorkers (wp_ctx p)\<rparr>)
      | StopWorkers ctx \<Rightarrow> if workers_exited ctx p then Some (p\<lparr>wp_main := StopFeeder\<rparr>) else None
      | StopFeeder \<Rightarrow>
          if wp_feeder p = FeederDone then Some (p\<lparr>wp_closed := True, wp_main := MainDone\<rparr>) else None
      | MainDone \<Rightarrow> None)"

text \<open>\<open>Restart\<close> once the old workers have ended: a new context and new workers; the feeder is not
  started again.\<close>

definition restart_workers :: "Config \<Rightarrow> URL \<Rightarrow> 'd WorkerPool \<Rightarrow> 'd WorkerPool" where
  "restart_workers config url p =
     p\<lparr>wp_amqpURL := url, wp_ctx := Suc (wp_ctx p),
       wp_workers := wp_workers p @ new_workers config url (Suc (wp_ctx p)), wp_watcher := Watching\<rparr>"

datatype watch_event = WatchDone | Tick "int option" "string option" | WorkersGone

definition watcher_step :: "Config \<Rightarrow> watch_event \<Rightarrow> 'd WorkerPool \<Rightarrow> 'd WorkerPool option" where
  "watcher_step config e p =
     (case (wp_watcher p, e) of
        (Watching, WatchDone) \<Rightarrow>
          if wp_ctx p \<in> wp_cancelled p then Some (p\<lparr>wp_watcher := WatcherDone\<rparr>) else None
      | (Watching, Tick stat contents) \<Rightarrow>
          (case stat of
             None \<Rightarrow> Some (p\<lparr>wp_dead := True\<rparr>)
           | Some age \<Rightarrow>
               if wp_tokenAge p < age then
                 (case readToken contents of
                    None \<Rightarrow> Some (p\<lparr>wp_tokenAge := age, wp_dead := True\<rparr>)
                  | Some token \<Rightarrow>
                      Some (cancel (p\<lparr>wp_tokenAge := age,
                        wp_watcher := RestartWaiting (with_token token (wp_amqpURL p))\<rparr>)))
               else Some p)
      | (RestartWaiting url, WorkersGone) \<Rightarrow>
          if workers_exited (wp_ctx p) p then Some (restart_workers config url p) else None
      | _ \<Rightarrow> None)"

subsection \<open>Runs\<close>

datatype pool_event =
    Enqueued MessageStruct
  | Feed bool
  | Work nat worker_event
  | MainStep
  | Watch watch_event

definition pool_apply :: "Config \<Rightarrow> pool_event \<Rightarrow> 'd WorkerPool \<Rightarrow> 'd WorkerPool option" where
  "pool_apply config e p =
     (if wp_dead p then None
      else case e of
             Enqueued m \<Rightarrow> Some (p\<lparr>wp_queue := cq_put m (wp_queue p)\<rparr>)
           | Feed send \<Rightarrow> feeder_step send p
           | Work i we \<Rightarrow> pool_worker_step i we p
           | MainStep \<Rightarrow> main_step p
           | Watch we \<Rightarrow> watcher_step config we p)"

fun pool_run :: "Config \<Rightarrow> pool_event list \<Rightarrow> 'd WorkerPool \<Rightarrow> 'd WorkerPool option" where
  "pool_run config [] p = Some p"
| "pool_run config (e # es) p = (case pool_apply config e p of None \<Rightarrow> None | Some p' \<Rightarrow> pool_run config es p')"

fun enqueued :: "pool_event list \<Rightarrow> MessageStruct list" where
  "enqueued [] = []"
| "enqueued (Enqueued m # es) = m # enqueued es"
| "enqueued (e # es) = enqueued es"

subsection \<open>No message is lost or doubled\<close>

fun held_by :: "worker_state \<Rightarrow> MessageStruct list" where
  "held_by (Publishing m) = [m]"
| "held_by (Pushing m) = [m]"
| "held_by (BackingOff m) = [m]"
| "held_by st = []"

fun fed :: "feeder_state \<Rightarrow> MessageStruct list" where
  "fed (Sending m ctx) = [m]"
| "fed st = []"

definition held :: "'d WorkerPool \<Rightarrow> MessageStruct list" where
  "held p = concat (List.map (\<lambda>w. held_by (wk_state w)) (wp_workers p))"

text \<open>Where the messages are: published, given up, with a worker, in the channel, with the feeder,
  in the queue.\<close>

definition whereabouts :: "('d \<Rightarrow> MessageStruct list) \<Rightarrow> 'd WorkerPool \<Rightarrow> MessageStruct multiset" where
  "whereabouts items p =
     mset (wp_published p) + mset (wp_lost p) + mset (held p) + mset (wp_channel p) +
     mset (fed (wp_feeder p)) + mset (cq_items items (wp_queue p))"

lemma mset_concat_update:
  "i < length ws \<Longrightarrow> mset (concat (List.map f (ws[i := w]))) + mset (f (ws ! i)) = mset (concat (List.map f ws)) + mset (f w)"
proof (induction ws arbitrary: i)
  case (Cons x ws)
  then show ?case by (cases i) (auto simp: ac_simps)
qed simp

lemma held_put_worker:
  "i < length (wp_workers p) \<Longrightarrow>
     mset (held (put_worker i w p)) + mset (held_by (wk_state (wp_workers p ! i))) =
     mset (held p) + mset (held_by (wk_state w))"
  using mset_concat_update [of i "wp_workers p" "\<lambda>w. held_by (wk_state w)" w] by (simp add: held_def put_worker_def)

lemma put_worker_fields [simp]:
  "wp_published (put_worker i w p) = wp_published p" "wp_lost (put_worker i w p) = wp_lost p"
  "wp_channel (put_worker i w p) = wp_channel p" "wp_feeder (put_worker i w p) = wp_feeder p"
  "wp_queue (put_worker i w p) = wp_queue p" "wp_dead (put_worker i w p) = wp_dead p"
  "wp_ctx (put_worker i w p) = wp_ctx p" "wp_cancelled (put_worker i w p) = wp_cancelled p"
  "wp_main (put_worker i w p) = wp_main p" "wp_watcher (put_worker i w p) = wp_watcher p"
  "wp_closed (put_worker i w p) = wp_closed p" "wp_workers (put_worker i w p) = (wp_workers p)[i := w]"
  by (simp_all add: put_worker_def)

lemma held_new_workers: "concat (List.map (\<lambda>w. held_by (wk_state w)) (new_workers config url ctx)) = []"
  by (simp add: new_workers_def)

lemma put_worker_same: "i < length (wp_workers p) \<Longrightarrow> p = put_worker i (wp_workers p ! i) p"
  by (simp add: put_worker_def)

text \<open>What a worker's step does to the messages.\<close>

lemma worker_moves:
  assumes "pool_worker_step i e p = Some p'" and "\<not> wp_dead p'"
  defines "w \<equiv> wp_workers p ! i"
  obtains (keep) w' where "i < length (wp_workers p)" "p' = put_worker i w' p"
      "held_by (wk_state w') = held_by (wk_state w)" "wk_ctx w' = wk_ctx w"
    | (take) m ms w' where "i < length (wp_workers p)" "wp_channel p = m # ms"
      "p' = put_worker i w' (p\<lparr>wp_channel := ms\<rparr>)" "held_by (wk_state w) = []" "held_by (wk_state w') = [m]"
      "wk_ctx w' = wk_ctx w"
    | (publish) m w' where "i < length (wp_workers p)" "p' = put_worker i w' (p\<lparr>wp_published := wp_published p @ [m]\<rparr>)"
      "held_by (wk_state w) = [m]" "held_by (wk_state w') = []" "wk_ctx w' = wk_ctx w" "wk_state w = Pushing m"
    | (give_up) m w' where "i < length (wp_workers p)" "p' = put_worker i w' (p\<lparr>wp_lost := wp_lost p @ [m]\<rparr>)"
      "held_by (wk_state w) = [m]" "held_by (wk_state w') = []" "wk_ctx w' = wk_ctx w" "wk_ctx w \<in> wp_cancelled p"
proof -
  have i: "i < length (wp_workers p)" and step: "worker_at i e w p = Some p'"
    using assms(1) by (auto simp: pool_worker_step_def w_def split: if_splits)
  have p: "p = put_worker i w p" using put_worker_same [OF i] by (simp add: w_def)
  show thesis
  proof (cases "\<exists>se. e = SessionEvent se")
    case True
    then obtain s where "p' = put_worker i (w\<lparr>wk_session := s\<rparr>) p"
      using step by (auto simp: worker_at_def Let_def split: worker_state.splits)
    with i show thesis by (intro keep [of "w\<lparr>wk_session := s\<rparr>"]) simp_all
  next
    case False
    show thesis
    proof (cases "wk_state w")
      case Selecting
      with False step i assms(2) show thesis
        by (cases e)
          (auto simp: worker_at_def Let_def split: if_splits list.splits intro: keep take)
    next
      case (Publishing m)
      with False step i assms(2) show thesis
        by (cases e) (auto simp: worker_at_def Let_def split: if_splits intro: keep give_up)
    next
      case (Pushing m)
      with False step i assms(2) p show thesis
        by (cases e) (auto simp: worker_at_def Let_def split: if_splits option.splits sum.splits intro: keep publish)
    next
      case (BackingOff m)
      with False step i assms(2) show thesis
        by (cases e) (auto simp: worker_at_def Let_def split: if_splits intro: keep give_up)
    next
      case Exited
      with False step show thesis by (cases e) (auto simp: worker_at_def)
    qed
  qed
qed

lemma whereabouts_worker:
  assumes "pool_worker_step i e p = Some p'" and "\<not> wp_dead p'"
  shows "whereabouts items p' = whereabouts items p \<and> wp_queue p' = wp_queue p"
  using assms
proof (cases rule: worker_moves)
  case (keep w')
  with held_put_worker [of i p w'] show ?thesis by (simp add: whereabouts_def)
next
  case (take m ms w')
  let ?q = "p\<lparr>wp_channel := ms\<rparr>"
  have "held ?q = held p" by (simp add: held_def)
  with take held_put_worker [of i ?q w'] show ?thesis by (simp add: whereabouts_def)
next
  case (publish m w')
  let ?q = "p\<lparr>wp_published := wp_published p @ [m]\<rparr>"
  have "held ?q = held p" by (simp add: held_def)
  with publish held_put_worker [of i ?q w'] show ?thesis by (simp add: whereabouts_def)
next
  case (give_up m w')
  let ?q = "p\<lparr>wp_lost := wp_lost p @ [m]\<rparr>"
  have "held ?q = held p" by (simp add: held_def)
  with give_up held_put_worker [of i ?q w'] show ?thesis by (simp add: whereabouts_def)
qed

lemma whereabouts_feeder:
  assumes "feeder_step send p = Some p'" and "\<not> wp_dead p'" and "cq_ok items (wp_queue p)"
  shows "whereabouts items p' = whereabouts items p \<and> cq_ok items (wp_queue p')"
proof -
  have held: "held (p\<lparr>wp_queue := q, wp_feeder := f\<rparr>) = held p" "held (p\<lparr>wp_feeder := f\<rparr>) = held p"
    "held (p\<lparr>wp_channel := c, wp_feeder := f\<rparr>) = held p" "held (p\<lparr>wp_lost := c, wp_feeder := f\<rparr>) = held p"
    for q f c by (simp_all add: held_def)
  show ?thesis
  proof (cases "wp_feeder p")
    case Dequeueing
    with assms dequeueLocked_ok [OF assms(3)] held show ?thesis
      by (auto simp: feeder_step_def whereabouts_def split: prod.splits cq_result.splits list.splits)
  qed (use assms held in \<open>auto simp: feeder_step_def whereabouts_def split: if_splits\<close>)
qed

lemma whereabouts_control:
  "main_step p = Some p' \<Longrightarrow> whereabouts items p' = whereabouts items p \<and> wp_queue p' = wp_queue p"
  "watcher_step config e p = Some p' \<Longrightarrow> whereabouts items p' = whereabouts items p \<and> wp_queue p' = wp_queue p"
  by (auto simp: main_step_def watcher_step_def whereabouts_def held_def cancel_def restart_workers_def
      held_new_workers split: main_state.splits watcher_state.splits watch_event.splits option.splits if_splits)

lemma whereabouts_apply:
  assumes "pool_apply config e p = Some p'" and "\<not> wp_dead p'" and "cq_ok items (wp_queue p)"
  shows "whereabouts items p' = whereabouts items p + mset (enqueued [e]) \<and> cq_ok items (wp_queue p')"
proof (cases e)
  case (Enqueued m)
  with assms cq_put_ok [OF assms(3), of m] show ?thesis
    by (auto simp: pool_apply_def whereabouts_def held_def split: if_splits)
next
  case (Feed send)
  with assms whereabouts_feeder [of send p p' items] show ?thesis by (simp add: pool_apply_def split: if_splits)
next
  case (Work i we)
  with assms whereabouts_worker [of i we p p' items] show ?thesis by (simp add: pool_apply_def split: if_splits)
next
  case MainStep
  with assms whereabouts_control(1) [of p p' items] show ?thesis by (simp add: pool_apply_def split: if_splits)
next
  case (Watch we)
  with assms whereabouts_control(2) [of config we p p' items] show ?thesis by (simp add: pool_apply_def split: if_splits)
qed

lemma enqueued_Cons: "enqueued (e # es) = enqueued [e] @ enqueued es"
  by (cases e) simp_all

lemma dead_is_final: "pool_run config es p = Some p' \<Longrightarrow> wp_dead p \<Longrightarrow> p' = p"
  by (cases es) (simp_all add: pool_apply_def)

lemma whereabouts_run:
  "pool_run config es p = Some p' \<Longrightarrow> \<not> wp_dead p' \<Longrightarrow> cq_ok items (wp_queue p) \<Longrightarrow>
     whereabouts items p' = whereabouts items p + mset (enqueued es) \<and> cq_ok items (wp_queue p')"
proof (induction es arbitrary: p)
  case (Cons e es)
  then obtain q where q: "pool_apply config e p = Some q" "pool_run config es q = Some p'"
    by (auto split: option.splits)
  have "\<not> wp_dead q" using dead_is_final [OF q(2)] Cons.prems(2) by auto
  from whereabouts_apply [OF q(1) this Cons.prems(3)] Cons.IH [OF q(2) Cons.prems(2)]
  show ?case by (simp add: enqueued_Cons [of e es] ac_simps)
qed simp

subsection \<open>One worker keeps the order\<close>

text \<open>A pool whose credentials are in the URL: nothing ever cancels its context.\<close>

definition in_order :: "('d \<Rightarrow> MessageStruct list) \<Rightarrow> 'd WorkerPool \<Rightarrow> MessageStruct list" where
  "in_order items p =
     wp_published p @ held p @ wp_channel p @ fed (wp_feeder p) @ cq_items items (wp_queue p)"

definition steady :: "('d \<Rightarrow> MessageStruct list) \<Rightarrow> 'd WorkerPool \<Rightarrow> bool" where
  "steady items p \<longleftrightarrow>
     \<not> wp_dead p \<and> wp_cancelled p = {} \<and> wp_watcher p = WatcherDone \<and> wp_main p = AwaitDone 0 \<and>
     \<not> wp_closed p \<and> wp_lost p = [] \<and> cq_ok items (wp_queue p) \<and>
     list_all (\<lambda>w. session_ok (wk_session w)) (wp_workers p)"

lemma worker_keeps_sessions:
  assumes "pool_worker_step i e p = Some p'" and "list_all (\<lambda>w. session_ok (wk_session w)) (wp_workers p)"
    and "\<not> wp_dead p" and "\<not> wp_closed p"
  shows "list_all (\<lambda>w. session_ok (wk_session w)) (wp_workers p') \<and> \<not> wp_dead p'"
proof -
  have i: "i < length (wp_workers p)" and step: "worker_at i e (wp_workers p ! i) p = Some p'"
    using assms(1) by (auto simp: pool_worker_step_def split: if_splits)
  have ok: "session_ok (wk_session (wp_workers p ! i))" using assms(2) i by (simp add: list_all_length)
  have put: "list_all (\<lambda>w. session_ok (wk_session w)) (wp_workers (put_worker i w q))"
    if "session_ok (wk_session w)" "wp_workers q = wp_workers p" for w and q :: "'a WorkerPool"
    using assms(2) that by (auto simp: list_all_iff dest!: set_update_subset_insert [THEN subsetD])
  have push: "UnsafePush accepted (wk_session (wp_workers p ! i)) = None \<longleftrightarrow> False" for accepted
    using ok by (auto simp: UnsafePush_def session_ok_def)
  show ?thesis
    using step assms(2-4) put ok session_ok_step [OF ok] session_ok_close [OF ok]
    by (cases "wk_state (wp_workers p ! i)"; cases e)
      (auto simp: worker_at_def Let_def push split: if_splits list.splits option.splits sum.splits)
qed

lemma in_order_worker:
  assumes "pool_worker_step i e p = Some p'" and "\<not> wp_dead p'" and "length (wp_workers p) = 1"
    and "wp_cancelled p = {}"
  shows "in_order items p' = in_order items p \<and> length (wp_workers p') = 1 \<and> wp_lost p' = wp_lost p"
proof -
  obtain w where w: "wp_workers p = [w]" using assms(3) by (auto simp: length_Suc_conv)
  show ?thesis
    using assms(1,2)
  proof (cases rule: worker_moves)
    case (keep w')
    then show ?thesis using w by (simp add: in_order_def held_def)
  next
    case (take m ms w')
    then show ?thesis using w by (simp add: in_order_def held_def)
  next
    case (publish m w')
    then show ?thesis using w by (simp add: in_order_def held_def)
  next
    case (give_up m w')
    then show ?thesis using assms(4) by simp
  qed
qed

lemma worker_step_control:
  assumes "pool_worker_step i e p = Some p'"
  shows "wp_cancelled p' = wp_cancelled p" "wp_watcher p' = wp_watcher p" "wp_main p' = wp_main p"
    "wp_closed p' = wp_closed p" "wp_queue p' = wp_queue p" "wp_ctx p' = wp_ctx p"
    "length (wp_workers p') = length (wp_workers p)" "wp_feeder p' = wp_feeder p"
proof -
  have "worker_at i e (wp_workers p ! i) p = Some p'"
    using assms by (auto simp: pool_worker_step_def split: if_splits)
  then show "wp_cancelled p' = wp_cancelled p" "wp_watcher p' = wp_watcher p" "wp_main p' = wp_main p"
    "wp_closed p' = wp_closed p" "wp_queue p' = wp_queue p" "wp_ctx p' = wp_ctx p"
    "length (wp_workers p') = length (wp_workers p)" "wp_feeder p' = wp_feeder p"
    by (cases "wk_state (wp_workers p ! i)"; cases e;
      auto simp: worker_at_def Let_def split: if_splits list.splits option.splits sum.splits)+
qed

lemma steady_apply:
  assumes "pool_apply config e p = Some p'" and "steady items p" and "length (wp_workers p) = 1"
  shows "steady items p' \<and> length (wp_workers p') = 1 \<and> in_order items p' = in_order items p @ enqueued [e]"
proof (cases e)
  case (Enqueued m)
  with assms cq_put_ok [of items "wp_queue p" m] show ?thesis
    by (auto simp: pool_apply_def steady_def in_order_def held_def split: if_splits)
next
  case (Feed send)
  have step: "feeder_step send p = Some p'" using assms(1) Feed by (simp add: pool_apply_def split: if_splits)
  have "cq_ok items (wp_queue p)" using assms(2) by (simp add: steady_def)
  from dequeueLocked_ok [OF this] step assms(2,3) Feed show ?thesis
    by (cases "wp_feeder p")
      (auto simp: feeder_step_def steady_def in_order_def held_def split: if_splits prod.splits cq_result.splits list.splits)
next
  case (Work i we)
  then have step: "pool_worker_step i we p = Some p'" using assms(1) by (simp add: pool_apply_def split: if_splits)
  have "list_all (\<lambda>w. session_ok (wk_session w)) (wp_workers p') \<and> \<not> wp_dead p'"
    using worker_keeps_sessions [OF step] assms(2) by (simp add: steady_def)
  with in_order_worker [OF step _ assms(3)] worker_step_control [OF step] assms(2) Work show ?thesis
    by (simp add: steady_def)
next
  case MainStep
  with assms(1,2) show ?thesis by (simp add: pool_apply_def steady_def main_step_def split: if_splits)
next
  case (Watch we)
  with assms(1,2) show ?thesis by (simp add: pool_apply_def steady_def watcher_step_def split: if_splits)
qed

lemma steady_run:
  "pool_run config es p = Some p' \<Longrightarrow> steady items p \<Longrightarrow> length (wp_workers p) = 1 \<Longrightarrow>
     steady items p' \<and> in_order items p' = in_order items p @ enqueued es"
proof (induction es arbitrary: p)
  case (Cons e es)
  then obtain q where q: "pool_apply config e p = Some q" "pool_run config es q = Some p'"
    by (auto split: option.splits)
  from steady_apply [OF q(1) Cons.prems(2,3)] Cons.IH [OF q(2)] show ?case
    by (simp add: enqueued_Cons [of e es])
qed simp

lemma StartAMQP_Some:
  assumes "StartAMQP config stat contents queue = Some p"
  shows "wp_workers p = new_workers config (wp_amqpURL p) 0" "wp_queue p = queue" "wp_cancelled p = {}"
    "wp_channel p = []" "wp_closed p = False" "wp_feeder p = Checking" "wp_main p = AwaitDone 0"
    "wp_published p = []" "wp_lost p = []" "wp_dead p = False" "wp_ctx p = 0"
    "wp_watcher p = (if url_User (the (cfg_AmqpURL config)) = None then Watching else WatcherDone)"
    "held p = []"
  using assms
  by (auto simp: StartAMQP_def Let_def held_def new_workers_def split: option.splits if_splits)

lemma new_workers_ok: "list_all (\<lambda>w. session_ok (wk_session w)) (new_workers config url ctx)"
  by (simp add: new_workers_def list_all_iff session_ok_New)

subsection \<open>Theorems\<close>

text \<open>C13: The pool neither loses nor doubles a message behind anyone's back: in every mode, with any
  number of workers, any breaking of connections, restarts and stops, and in any interleaving,
  what was in the queue at the start and was put into it since is exactly what has been
  published, what is on its way, and what a goroutine gave up because its context was done.\<close>

theorem pool_conserves:
  assumes "StartAMQP config stat contents queue = Some p" and "cq_ok items queue"
    and "pool_run config es p = Some p'" and "\<not> wp_dead p'"
  shows "mset (wp_published p') + mset (wp_lost p') + mset (held p') + mset (wp_channel p') +
      mset (fed (wp_feeder p')) + mset (cq_items items (wp_queue p')) =
    mset (cq_items items queue) + mset (enqueued es)"
proof -
  note start = StartAMQP_Some [OF assms(1)]
  have "whereabouts items p = mset (cq_items items queue)" by (simp add: whereabouts_def start)
  with whereabouts_run [OF assms(3,4), of items] assms(2) show ?thesis
    by (simp add: start(2) whereabouts_def)
qed

lemma shoveler_pool_order:
  assumes "StartAMQP config stat contents queue = Some p" and "cq_ok items queue"
    and "cfg_Mode config = ''shoveler''" and "url_User (the (cfg_AmqpURL config)) \<noteq> None"
    and "pool_run config es p = Some p'"
  shows "steady items p' \<and> in_order items p' = cq_items items queue @ enqueued es"
proof -
  note start = StartAMQP_Some [OF assms(1)]
  have "steady items p" using start assms(2,4) new_workers_ok by (simp add: steady_def)
  moreover have "length (wp_workers p) = 1" using start(1) assms(3) by (simp add: new_workers_def worker_count_def)
  ultimately have "steady items p' \<and> in_order items p' = in_order items p @ enqueued es"
    using steady_run assms(5) by blast
  moreover have "in_order items p = cq_items items queue" by (simp add: in_order_def start)
  ultimately show ?thesis by simp
qed

definition sample_amqp :: "string option \<Rightarrow> Config" where
  "sample_amqp password = zero_Config\<lparr>cfg_Mode := ''shoveler'',
     cfg_AmqpURL := Some \<lparr>url_User = map_option (Pair ''u'') password, url_Rest = ''amqp://broker''\<rparr>\<rparr>"

definition sample_pool :: "string option \<Rightarrow> MessageStruct list WorkerPool" where
  "sample_pool password = the (StartAMQP (sample_amqp password) (Some 1) (Some ''token'') (Init list_dque []))"

lemma sample_pool: "StartAMQP (sample_amqp password) (Some 1) (Some ''token'') (Init list_dque []) = Some (sample_pool password)"
  by (cases password) (simp_all add: sample_pool_def StartAMQP_def sample_amqp_def readToken_def Let_def)

definition sample_pool_events :: "pool_event list" where
  "sample_pool_events =
     [Enqueued (sample_msg ''a''), Work 0 (SessionEvent (Dialed True)), Feed True, Feed True, Feed True,
      Work 0 (SessionEvent (ChannelOpened True)), Work 0 TakeMessage, Work 0 Proceed, Work 0 (PushAttempt True)]"

lemma cq_ok_list: "cq_ok id (Init list_dque [])"
  using cq_ok_Init [of id list_dque "[]"] by (simp add: dque_laws_def list_dque_def)

definition sample_pool_after :: "MessageStruct list WorkerPool" where
  "sample_pool_after = the (pool_run (sample_amqp (Some ''p'')) sample_pool_events (sample_pool (Some ''p'')))"

lemma sample_pool_run:
  "pool_run (sample_amqp (Some ''p'')) sample_pool_events (sample_pool (Some ''p'')) = Some sample_pool_after"
  "\<not> wp_dead sample_pool_after"
  "wp_published sample_pool_after = [sample_msg ''a'']"
proof -
  have "pool_run (sample_amqp (Some ''p'')) sample_pool_events (sample_pool (Some ''p'')) \<noteq> None"
    by code_simp
  then show "pool_run (sample_amqp (Some ''p'')) sample_pool_events (sample_pool (Some ''p'')) = Some sample_pool_after"
    by (auto simp: sample_pool_after_def)
  show "\<not> wp_dead sample_pool_after" by code_simp
  show "wp_published sample_pool_after = [sample_msg ''a'']" by code_simp
qed

lemma pool_conserves_witness:
  "mset (wp_published sample_pool_after) + mset (wp_lost sample_pool_after) + mset (held sample_pool_after) +
     mset (wp_channel sample_pool_after) + mset (fed (wp_feeder sample_pool_after)) +
     mset (cq_items id (wp_queue sample_pool_after)) =
   mset (cq_items id (Init list_dque [])) + mset (enqueued sample_pool_events)"
  by (rule pool_conserves [OF sample_pool cq_ok_list sample_pool_run(1,2)])

subsection \<open>What a new token does\<close>

text \<open>A pool in which nothing is left that could publish.\<close>

definition halted :: "'d WorkerPool \<Rightarrow> bool" where
  "halted p \<longleftrightarrow> list_all (\<lambda>w. wk_state w = Exited) (wp_workers p) \<and> wp_feeder p = FeederDone \<and>
     wp_main p = MainDone \<and> wp_watcher p = WatcherDone \<and> \<not> wp_dead p"

lemma halted_apply:
  assumes "pool_apply config e p = Some p'" and "halted p"
  shows "halted p' \<and> wp_published p' = wp_published p"
proof (cases e)
  case (Work i we)
  then have i: "i < length (wp_workers p)" and step: "worker_at i we (wp_workers p ! i) p = Some p'"
    using assms(1) by (auto simp: pool_apply_def pool_worker_step_def split: if_splits)
  have "wk_state (wp_workers p ! i) = Exited" using assms(2) i by (simp add: halted_def list_all_length)
  with step obtain s where "p' = put_worker i ((wp_workers p ! i)\<lparr>wk_session := s\<rparr>) p"
    by (cases we) (auto simp: worker_at_def Let_def)
  with assms(2) \<open>wk_state (wp_workers p ! i) = Exited\<close> show ?thesis
    by (auto simp: halted_def list_all_iff dest!: set_update_subset_insert [THEN subsetD])
qed (use assms in \<open>auto simp: pool_apply_def halted_def feeder_step_def main_step_def watcher_step_def
    split: if_splits\<close>)

lemma halted_run:
  "pool_run config es p = Some p' \<Longrightarrow> halted p \<Longrightarrow> wp_published p' = wp_published p \<and> \<not> wp_dead p'"
proof (induction es arbitrary: p)
  case (Cons e es)
  then obtain q where "pool_apply config e p = Some q" "pool_run config es q = Some p'"
    by (auto split: option.splits)
  with Cons.IH [of q] Cons.prems(2) halted_apply [of config e p q] show ?case by simp
qed (simp add: halted_def)

text \<open>The schedules: after the tick that finds a new token and the end of the only worker, either
  \<open>StartAMQP\<close> gets to its \<open>Stop\<close> after the restart, or before it.\<close>

definition stop_after_restart :: "int \<Rightarrow> string \<Rightarrow> pool_event list" where
  "stop_after_restart age token =
     [Watch (Tick (Some age) (Some token)), Work 0 CtxDone, MainStep, Watch WorkersGone, MainStep, Work 1 CtxDone,
      MainStep, Feed True, MainStep, Watch WatchDone]"

definition stop_before_restart :: "int \<Rightarrow> string \<Rightarrow> pool_event list" where
  "stop_before_restart age token =
     [Watch (Tick (Some age) (Some token)), Work 0 CtxDone, Feed True, MainStep, MainStep, MainStep, MainStep,
      Watch WorkersGone, Work 1 TakeMessage]"

text \<open>A renewed token can end all publishing. When the token file of a running pool gets a newer
  time, there is an order of the goroutines' steps after which every worker, the feeder and the
  watcher have ended without any error and nothing in the queue will ever be published, whatever
  happens next; and there is another one in which a worker of the new generation reads the
  closed channel and the process panics. Restarting cancels the context \<open>C15: StartAMQP\<close> waits on,
  and nothing starts the feeder again.\<close>

theorem new_token_ends_publishing:
  assumes "StartAMQP config (Some age) (Some contents) queue = Some p"
    and "cfg_Mode config = ''shoveler''" and "url_User (the (cfg_AmqpURL config)) = None" and "age < age'"
  shows "(\<exists>p'. pool_run config (stop_after_restart age' token) p = Some p' \<and>
      (\<nexists>es p''. pool_run config es p' = Some p'' \<and> wp_published p'' \<noteq> [])) \<and>
    (\<exists>p'. pool_run config (stop_before_restart age' token) p = Some p' \<and> wp_dead p')"
proof (intro conjI)
  obtain url where p: "p = \<lparr>wp_amqpURL = url, wp_queue = queue, wp_ctx = 0, wp_cancelled = {},
      wp_workers = [\<lparr>wk_id = 0, wk_ctx = 0, wk_session = New url, wk_state = Selecting\<rparr>],
      wp_channel = [], wp_closed = False, wp_feeder = Checking, wp_main = AwaitDone 0, wp_watcher = Watching,
      wp_tokenAge = age, wp_published = [], wp_lost = [], wp_dead = False\<rparr>"
    using assms(1-3)
    by (auto simp: StartAMQP_def Let_def new_workers_def worker_count_def split: option.splits if_splits)
  note steps = pool_apply_def watcher_step_def main_step_def feeder_step_def pool_worker_step_def worker_at_def
    cancel_def workers_exited_def restart_workers_def new_workers_def worker_count_def put_worker_def readToken_def
    Close_session_def New_def Let_def
  have "\<exists>p'. pool_run config (stop_after_restart age' token) p = Some p' \<and> halted p' \<and> wp_published p' = []"
    using assms(2,4) by (simp add: p stop_after_restart_def steps halted_def)
  then show "\<exists>p'. pool_run config (stop_after_restart age' token) p = Some p' \<and>
      (\<nexists>es p''. pool_run config es p' = Some p'' \<and> wp_published p'' \<noteq> [])"
    using halted_run by metis
  show "\<exists>p'. pool_run config (stop_before_restart age' token) p = Some p' \<and> wp_dead p'"
    using assms(2,4) by (simp add: p stop_before_restart_def steps)
qed

lemma new_token_ends_publishing_witness:
  "(\<exists>p'. pool_run (sample_amqp None) (stop_after_restart 2 ''new'') (sample_pool None) = Some p' \<and>
      (\<nexists>es p''. pool_run (sample_amqp None) es p' = Some p'' \<and> wp_published p'' \<noteq> [])) \<and>
    (\<exists>p'. pool_run (sample_amqp None) (stop_before_restart 2 ''new'') (sample_pool None) = Some p' \<and> wp_dead p')"
  by (rule new_token_ends_publishing [OF sample_pool]) (simp_all add: sample_amqp_def)

text \<open>A worker in the loop of a push on a session that is not ready, while the watcher waits for the
  workers to end.\<close>

definition stuck :: "nat \<Rightarrow> MessageStruct \<Rightarrow> 'd WorkerPool \<Rightarrow> bool" where
  "stuck i m p \<longleftrightarrow> i < length (wp_workers p) \<and> wk_ctx (wp_workers p ! i) = wp_ctx p \<and>
     wk_state (wp_workers p ! i) = Pushing m \<and> \<not> se_done (wk_session (wp_workers p ! i)) \<and>
     \<not> se_isReady (wk_session (wp_workers p ! i)) \<and>
     se_phase (wk_session (wp_workers p ! i)) \<in> {Dialing, DialBackoff} \<and>
     (\<exists>url. wp_watcher p = RestartWaiting url)"

lemma stuck_apply:
  assumes "pool_apply config e p = Some p'" and "stuck i m p" and "e \<noteq> Work i (SessionEvent (Dialed True))"
  shows "stuck i m p'"
proof (cases e)
  case (Work j we)
  then have j: "j < length (wp_workers p)" and step: "worker_at j we (wp_workers p ! j) p = Some p'"
    and pstep: "pool_worker_step j we p = Some p'"
    using assms(1) by (auto simp: pool_apply_def pool_worker_step_def split: if_splits)
  note control = worker_step_control [OF pstep]
  have other: "wp_workers p' ! i = wp_workers p ! i" if "j \<noteq> i"
    using step that
    by (cases "wk_state (wp_workers p ! j)"; cases we)
      (auto simp: worker_at_def Let_def put_worker_def split: if_splits list.splits option.splits sum.splits)
  show ?thesis
  proof (cases "j = i")
    case False
    with other assms(2) control show ?thesis by (simp add: stuck_def)
  next
    case True
    with step assms(2,3) Work show ?thesis
      by (cases we)
        (auto simp: stuck_def worker_at_def Let_def UnsafePush_def put_worker_def session_dialed_def
          split: if_splits elim!: session_step.elims)
  qed
qed (use assms in \<open>auto simp: pool_apply_def stuck_def feeder_step_def main_step_def watcher_step_def cancel_def
    workers_exited_def list_all_length split: if_splits feeder_state.splits prod.splits cq_result.splits
    main_state.splits watch_event.splits\<close>)

text \<open>C16: A renewed token can also wait for ever: when it arrives while a worker is in the middle of a
  push whose connection is gone, the restart waits for that worker, the worker waits for its
  session, and the session goes on dialling with the old credentials. Unless the broker accepts
  those, the pool never gets to use the new ones, whatever else happens.\<close>

theorem new_token_waits_for_old:
  assumes "stuck i m p" and "pool_run config es p = Some p'"
    and "Work i (SessionEvent (Dialed True)) \<notin> set es"
  shows "(\<exists>url. wp_watcher p' = RestartWaiting url) \<and> wk_state (wp_workers p' ! i) = Pushing m"
proof -
  have "stuck i m p'"
    using assms
  proof (induction es arbitrary: p)
    case (Cons e es)
    then obtain q where "pool_apply config e p = Some q" "pool_run config es q = Some p'"
      by (auto split: option.splits)
    with Cons.IH [of q] Cons.prems(1,3) stuck_apply [of config e p q i m] show ?case by auto
  qed simp
  then show ?thesis by (simp add: stuck_def)
qed

definition sample_stuck_events :: "pool_event list" where
  "sample_stuck_events =
     [Enqueued (sample_msg ''a''), Work 0 (SessionEvent (Dialed True)), Work 0 (SessionEvent (ChannelOpened True)),
      Feed True, Feed True, Feed True, Work 0 TakeMessage, Work 0 Proceed, Work 0 (SessionEvent ConnectionClosed),
      Watch (Tick (Some 2) (Some ''new''))]"

definition sample_stuck :: "MessageStruct list WorkerPool" where
  "sample_stuck = the (pool_run (sample_amqp None) sample_stuck_events (sample_pool None))"

definition sample_stuck_later :: "MessageStruct list WorkerPool" where
  "sample_stuck_later = the (pool_run (sample_amqp None) [Work 0 (SessionEvent (Dialed False)), MainStep, MainStep] sample_stuck)"

lemma sample_stuck_phase: "wk_state (wp_workers sample_stuck ! 0) = Pushing (sample_msg ''a'')"
  "se_phase (wk_session (wp_workers sample_stuck ! 0)) = Dialing"
  "length (wp_workers sample_stuck) = 1" "wk_ctx (wp_workers sample_stuck ! 0) = wp_ctx sample_stuck"
  "\<not> se_done (wk_session (wp_workers sample_stuck ! 0))" "\<not> se_isReady (wk_session (wp_workers sample_stuck ! 0))"
  "wp_watcher sample_stuck = RestartWaiting \<lparr>url_User = Some (''shoveler'', ''new''), url_Rest = ''amqp://broker''\<rparr>"
  by code_simp+

lemma new_token_waits_for_old_witness:
  "(\<exists>url. wp_watcher sample_stuck_later = RestartWaiting url) \<and>
   wk_state (wp_workers sample_stuck_later ! 0) = Pushing (sample_msg ''a'')"
proof (rule new_token_waits_for_old)
  show "stuck 0 (sample_msg ''a'') sample_stuck"
    using sample_stuck_phase by (simp add: stuck_def)
  have "pool_run (sample_amqp None) [Work 0 (SessionEvent (Dialed False)), MainStep, MainStep] sample_stuck \<noteq> None"
    by code_simp
  then show "pool_run (sample_amqp None) [Work 0 (SessionEvent (Dialed False)), MainStep, MainStep] sample_stuck =
      Some sample_stuck_later"
    by (auto simp: sample_stuck_later_def)
qed simp

end
