(* ===== verification/Xrootd_Metrics.thy ===== *)
theory Xrootd_Metrics
  imports Go_Json Paths "HOL-Library.Monad_Syntax"
begin

unbundle bit_operations_syntax

section \<open>The monitoring package (metrics/xrootd_metrics.go)\<close>

text \<open>
  A second consumer of monitoring packets: it listens on a local port and turns f-stream and
  summary packets into Prometheus counters. The packet is a slice of one receive buffer, and a
  Go slice expression is bounded by the capacity of the buffer, not by the bytes received: the
  model keeps the whole buffer and the length received apart. Offsets are 32-bit and the bytes
  left 16-bit words with their wrap-around, a record's size is a signed 16-bit word, so the loop
  over the records need not end: \<open>fstream_loop\<close> is \<open>None\<close> when it does not. \<open>ttlcache\<close> and
  \<open>encoding/xml\<close> are not part of the repository: the operations of the caches are a record and
  the XML reader a function, both arguments. A counter is the list of the amounts added to it;
  adding a negative amount panics, as Prometheus documents. The amounts are the integers the
  source computes, before their conversion to \<open>float64\<close>: up to \<open>2^53\<close> the conversion is exact,
  beyond it the code rounds each amount and each sum, which is not modelled.
\<close>

subsection \<open>Data\<close>

type_synonym UserId = uint32
type_synonym FileId = uint32

record UserRecord =
  ur_AuthenticationProtocol :: string
  ur_DN :: string
  ur_Role :: string
  ur_Org :: string

record FileRecord =
  fr_UserId :: UserId
  fr_Path :: string
  fr_ReadOps :: uint32
  fr_ReadvOps :: uint32
  fr_WriteOps :: uint32
  fr_ReadvSegs :: uint64
  fr_ReadBytes :: uint64
  fr_ReadvBytes :: uint64
  fr_WriteBytes :: uint64

record XrdXrootdMonFileHdr =
  fh_RecType :: uint8
  fh_RecFlag :: uint8
  fh_RecSize :: int16
  fh_FileId :: uint32
  fh_UserId :: uint32
  fh_NRecs0 :: int16
  fh_NRecs1 :: int16

record SummaryStat =
  ss_Id :: string
  ss_LinkConnections :: int64
  ss_LinkInBytes :: int64
  ss_LinkOutBytes :: int64
  ss_Threads :: int64
  ss_ThreadsIdle :: int64

definition no_user :: UserRecord where
  "no_user = \<lparr>ur_AuthenticationProtocol = [], ur_DN = [], ur_Role = [], ur_Org = []\<rparr>"

definition new_file :: "UserId \<Rightarrow> string \<Rightarrow> FileRecord" where
  "new_file userid path = \<lparr>fr_UserId = userid, fr_Path = path, fr_ReadOps = 0, fr_ReadvOps = 0,
     fr_WriteOps = 0, fr_ReadvSegs = 0, fr_ReadBytes = 0, fr_ReadvBytes = 0, fr_WriteBytes = 0\<rparr>"

text \<open>The counters, each with the values of its labels.\<close>

record Labels =
  lb_path :: string
  lb_ap :: string
  lb_dn :: string
  lb_role :: string
  lb_org :: string

datatype counter =
    TransferReadvSegs Labels
  | TransferOps Labels string
  | TransferBytes Labels string
  | Connections
  | BytesXfer string

datatype sid_error = SID_NoNewline | SID_NoColon | SID_NotANumber

datatype mon_error =
    PacketTooSmall
  | OpenTooSmall
  | FstreamTooSmall
  | FirstEntryTooSmall uint16
  | FileHeaderTooSmall
  | BadSID sid_error
  | BadXML

text \<open>The operations of a cache whose entries live for the default time after they were set
  or read; the first argument of the reads and writes is the time.\<close>

record ('k, 'v, 'c) ttlcache =
  ch_Get :: "int \<Rightarrow> 'k \<Rightarrow> 'c \<Rightarrow> 'v option \<times> 'c"
  ch_Set :: "int \<Rightarrow> 'k \<Rightarrow> 'v \<Rightarrow> 'c \<Rightarrow> 'c"
  ch_Delete :: "'k \<Rightarrow> 'c \<Rightarrow> 'c"

record ('s, 't) Monitoring =
  mn_sessions :: 's
  mn_transfers :: 't
  mn_monitorPaths :: "string list list"
  mn_lastStats :: SummaryStat
  mn_added :: "(counter \<times> int) list"
  mn_threads :: "(string \<times> int) list"
  mn_received :: nat
  mn_buf :: bytes

text \<open>What a step that may panic gives.\<close>

datatype 'a ran = Panicked | Ran 'a

subsection \<open>Helpers\<close>

fun match_prefix :: "nat \<Rightarrow> nat \<Rightarrow> string list \<Rightarrow> string list \<Rightarrow> nat" where
  "match_prefix idx maxlen segments [] = maxlen"
| "match_prefix idx maxlen [] (s # ss) = maxlen"
| "match_prefix idx maxlen (g # gs) (s # ss) =
     (if g \<noteq> s \<and> s \<noteq> ''*'' then maxlen
      else match_prefix (Suc idx) (if maxlen < idx then idx else maxlen) gs ss)"

definition prefix_length :: "string list list \<Rightarrow> string list \<Rightarrow> nat" where
  "prefix_length monitorPaths segments =
     fold (\<lambda>pathList maxlen. if length segments < length pathList then maxlen
                             else match_prefix 0 maxlen segments pathList) monitorPaths 0"

definition ComputePrefix :: "string list list \<Rightarrow> string \<Rightarrow> string" where
  "ComputePrefix monitorPaths inputPath =
     (if monitorPaths = [] then ''/''
      else let segments = split_on (CHR ''/'') (path_Clean inputPath);
               maxlen = prefix_length monitorPaths segments
           in if maxlen = 0 then ''/''
              else path_Clean (concat (List.map (\<lambda>seg. ''/'' @ seg) (take maxlen (tl segments)))))"

text \<open>\<open>string(info[1])\<close> converts one byte, as a code point, and not the second piece.\<close>

definition GetSIDRest :: "bytes \<Rightarrow> sid_error + UserId \<times> string" where
  "GetSIDRest info =
     (case splitn2 newline info of
        [first, rest] \<Rightarrow>
          (let sidInfo = split_on (CHR '':'') first
           in if length sidInfo = 1 then Inl SID_NoColon
              else let (sid, ok) = atoi (hd (splitn2 (CHR ''@'') (last sidInfo)))
                   in if ok then Inr (word_of_int sid, utf8_encode (byte_nat (info ! 1)))
                      else Inl SID_NotANumber)
      | _ \<Rightarrow> Inl SID_NoNewline)"

definition ParseFileHeader :: "bytes \<Rightarrow> mon_error + XrdXrootdMonFileHdr" where
  "ParseFileHeader packet =
     (if length packet < 8 then Inl FileHeaderTooSmall
      else Inr \<lparr>fh_RecType = be8 (field 0 1 packet), fh_RecFlag = be8 (field 1 1 packet),
                fh_RecSize = be16 (field 2 2 packet), fh_FileId = be32 (field 4 4 packet),
                fh_UserId = be32 (field 4 4 packet), fh_NRecs0 = be16 (field 4 2 packet),
                fh_NRecs1 = be16 (field 6 2 packet)\<rparr>)"

definition NullTermToString :: "bytes \<Rightarrow> string" where
  "NullTermToString bs = (if nul \<in> set bs then before nul bs else [])"

text \<open>\<open>packet[lo:hi]\<close> with 32-bit bounds; \<open>None\<close> is the panic of a bound out of range.\<close>

definition slice32 :: "uint32 \<Rightarrow> uint32 \<Rightarrow> bytes \<Rightarrow> bytes option" where
  "slice32 lo hi buf =
     (if lo \<le> hi \<and> unat hi \<le> length buf then Some (field (unat lo) (unat hi - unat lo) buf) else None)"

definition get32 :: "bytes \<Rightarrow> uint32 \<Rightarrow> uint32 option" where
  "get32 buf at = map_option be32 (slice32 at (at + 4) buf)"

definition get64 :: "bytes \<Rightarrow> uint32 \<Rightarrow> uint64 option" where
  "get64 buf at = map_option be64 (slice32 at (at + 8) buf)"

definition Add :: "counter \<Rightarrow> int \<Rightarrow> ('s, 't) Monitoring \<Rightarrow> ('s, 't) Monitoring option" where
  "Add c v mn = (if v < 0 then None else Some (mn\<lparr>mn_added := mn_added mn @ [(c, v)]\<rparr>))"

subsection \<open>The records of an f-stream packet\<close>

type_synonym ('s, 't) cache_pair = "(UserId, UserRecord, 's) ttlcache \<times> (FileId, FileRecord, 't) ttlcache"

definition session_labels :: "FileRecord \<Rightarrow> UserRecord option \<Rightarrow> Labels" where
  "session_labels xfer user =
     (case user of
        None \<Rightarrow> \<lparr>lb_path = fr_Path xfer, lb_ap = [], lb_dn = [], lb_role = [], lb_org = []\<rparr>
      | Some u \<Rightarrow> \<lparr>lb_path = fr_Path xfer, lb_ap = ur_AuthenticationProtocol u, lb_dn = ur_DN u,
                  lb_role = ur_Role u, lb_org = ur_Org u\<rparr>)"

text \<open>The open transfer a close record finds, its labels and the amounts already seen; the
  transfer and the session of its user are removed.\<close>

definition close_transfer ::
  "('s, 't) cache_pair \<Rightarrow> int \<Rightarrow> FileId \<Rightarrow> ('s, 't) Monitoring \<Rightarrow>
     (Labels \<times> FileRecord) \<times> ('s, 't) Monitoring" where
  "close_transfer caches now fileId mn =
     (let (xferRecord, tr) = ch_Get (snd caches) now fileId (mn_transfers mn);
          mn = mn\<lparr>mn_transfers := ch_Delete (snd caches) fileId tr\<rparr>
      in case xferRecord of
           None \<Rightarrow> ((\<lparr>lb_path = ''/'', lb_ap = [], lb_dn = [], lb_role = [], lb_org = []\<rparr>,
                    new_file 0 []), mn)
         | Some xfer \<Rightarrow>
             (let (userRecord, se) = ch_Get (fst caches) now (fr_UserId xfer) (mn_sessions mn)
              in ((session_labels xfer userRecord, xfer),
                  mn\<lparr>mn_sessions := ch_Delete (fst caches) (fr_UserId xfer) se\<rparr>)))"

definition close_ops ::
  "bytes \<Rightarrow> uint32 \<Rightarrow> Labels \<Rightarrow> FileRecord \<Rightarrow> ('s, 't) Monitoring \<Rightarrow> ('s, 't) Monitoring option" where
  "close_ops buf offset labels old mn =
     do { let ops = offset + 32;
          segs \<leftarrow> get64 buf (ops + 16);
          mn \<leftarrow> Add (TransferReadvSegs labels) (sint (segs - fr_ReadvSegs old)) mn;
          reads \<leftarrow> get32 buf ops;
          mn \<leftarrow> Add (TransferOps labels ''read'') (sint (reads - fr_ReadOps old)) mn;
          readvs \<leftarrow> get32 buf (ops + 4);
          mn \<leftarrow> Add (TransferOps labels ''readv'') (sint (readvs - fr_ReadvOps old)) mn;
          writes \<leftarrow> get32 buf (ops + 8);
          Add (TransferOps labels ''write'') (sint (writes - fr_WriteOps old)) mn }"

definition close_bytes ::
  "bytes \<Rightarrow> uint32 \<Rightarrow> Labels \<Rightarrow> FileRecord \<Rightarrow> ('s, 't) Monitoring \<Rightarrow> ('s, 't) Monitoring option" where
  "close_bytes buf offset labels old mn =
     do { let xfr = offset + 8;
          reads \<leftarrow> get64 buf xfr;
          mn \<leftarrow> Add (TransferBytes labels ''read'') (sint (reads - fr_ReadBytes old)) mn;
          readvs \<leftarrow> get64 buf (xfr + 8);
          mn \<leftarrow> Add (TransferBytes labels ''readv'') (sint (readvs - fr_ReadvBytes old)) mn;
          writes \<leftarrow> get64 buf (xfr + 16);
          Add (TransferBytes labels ''write'') (sint (writes - fr_WriteBytes old)) mn }"

definition handle_close where
  "handle_close caches now buf offset hdr mn =
     (case close_transfer caches now (fh_FileId hdr) mn of
        ((labels, old), mn) \<Rightarrow>
          do { mn \<leftarrow> (if fh_RecFlag hdr AND 0x02 = 0x02 then close_ops buf offset labels old mn
                     else Some mn);
               close_bytes buf offset labels old mn })"

text \<open>The path of an open record is computed into a variable of the inner block and lost.\<close>

definition handle_open where
  "handle_open caches now buf offset hdr mn =
     do { _ \<leftarrow> (if fh_RecFlag hdr AND 0x01 = 0x01 then
                 let lfnSize = scast (fh_RecSize hdr - 20)
                 in map_option (\<lambda>lfn. ComputePrefix (mn_monitorPaths mn) (NullTermToString lfn))
                      (slice32 (offset + 20) (offset + lfnSize + 20) buf)
               else Some []);
          userid \<leftarrow> get32 buf (offset + 16);
          Some (mn\<lparr>mn_transfers :=
                  ch_Set (snd caches) now (fh_FileId hdr) (new_file userid []) (mn_transfers mn)\<rparr>) }"

definition handle_xfr where
  "handle_xfr caches now buf offset hdr mn =
     (let (item, tr) = ch_Get (snd caches) now (fh_FileId hdr) (mn_transfers mn)
      in do { readBytes \<leftarrow> get64 buf (offset + 8);
              readvBytes \<leftarrow> get64 buf (offset + 16);
              writeBytes \<leftarrow> get64 buf (offset + 24);
              let record = (case item of None \<Rightarrow> new_file 0 [] | Some r \<Rightarrow> r);
              Some (mn\<lparr>mn_transfers :=
                ch_Set (snd caches) now (fh_FileId hdr)
                  (record\<lparr>fr_ReadBytes := readBytes, fr_ReadvBytes := readvBytes,
                          fr_WriteBytes := writeBytes\<rparr>) tr\<rparr>) })"

definition handle_disc where
  "handle_disc caches hdr mn =
     mn\<lparr>mn_sessions := ch_Delete (fst caches) (fh_UserId hdr) (mn_sessions mn)\<rparr>"

definition handle_record ::
  "('s, 't) cache_pair \<Rightarrow> int \<Rightarrow> bytes \<Rightarrow> uint32 \<Rightarrow> XrdXrootdMonFileHdr \<Rightarrow>
     ('s, 't) Monitoring \<Rightarrow> ('s, 't) Monitoring option" where
  "handle_record caches now buf offset hdr mn =
     (if fh_RecType hdr = 0 then handle_close caches now buf offset hdr mn
      else if fh_RecType hdr = 1 then handle_open caches now buf offset hdr mn
      else if fh_RecType hdr = 2 then Some mn
      else if fh_RecType hdr = 3 then handle_xfr caches now buf offset hdr mn
      else if fh_RecType hdr = 4 then Some (handle_disc caches hdr mn)
      else Some mn)"

text \<open>\<open>None\<close>: the loop never ends. The size of a record is sign-extended to 32 bits.\<close>

partial_function (option) fstream_loop ::
  "('s, 't) cache_pair \<Rightarrow> int \<Rightarrow> bytes \<Rightarrow> uint16 \<Rightarrow> uint32 \<Rightarrow> ('s, 't) Monitoring \<Rightarrow>
     (mon_error option \<times> ('s, 't) Monitoring) ran option" where
  "fstream_loop caches now buf bytesRemain offset mn =
     (if bytesRemain = 0 then Some (Ran (None, mn))
      else case slice32 offset (offset + 8) buf of
             None \<Rightarrow> Some Panicked
           | Some hd8 \<Rightarrow>
               (case ParseFileHeader hd8 of
                  Inl e \<Rightarrow> Some (Ran (Some e, mn))
                | Inr hdr \<Rightarrow>
                    (case handle_record caches now buf offset hdr mn of
                       None \<Rightarrow> Some Panicked
                     | Some mn' \<Rightarrow>
                         fstream_loop caches now buf (bytesRemain - fh_RecSize hdr)
                           (offset + scast (fh_RecSize hdr)) mn')))"

definition HandleFstream where
  "HandleFstream caches now plen buf hdrPlen mn =
     (if plen < 8 + 24 then Some (Ran (Some FstreamTooSmall, mn))
      else let firstHeaderSize = be16 (field 10 2 buf)
           in if firstHeaderSize < 24 then Some (Ran (Some (FirstEntryTooSmall firstHeaderSize), mn))
              else let offset = ucast (firstHeaderSize + 8) :: uint32
                   in fstream_loop caches now buf (hdrPlen - ucast offset) offset mn)"

subsection \<open>The other packets\<close>

definition HandleDict where
  "HandleDict caches now plen buf mn =
     (if plen < 12 then (Some OpenTooSmall, mn)
      else case GetSIDRest (field 12 (plen - 12) buf) of
             Inl e \<Rightarrow> (Some (BadSID e), mn)
           | Inr (userid, rest) \<Rightarrow>
               (None, mn\<lparr>mn_transfers :=
                        ch_Set (snd caches) now (be32 (field 8 4 buf))
                          (new_file userid (ComputePrefix (mn_monitorPaths mn) rest)) (mn_transfers mn)\<rparr>))"

definition user_field :: "string \<Rightarrow> UserRecord \<Rightarrow> UserRecord" where
  "user_field pair record =
     (case splitn2 (CHR ''='') pair of
        [k, v] \<Rightarrow>
          if k = ''n'' then record\<lparr>ur_DN := v\<rparr>
          else if k = ''p'' then record\<lparr>ur_AuthenticationProtocol := v\<rparr>
          else if k = ''o'' then record\<lparr>ur_Org := v\<rparr>
          else if k = ''r'' then record\<lparr>ur_Role := v\<rparr>
          else record
      | _ \<Rightarrow> record)"

definition HandleUser where
  "HandleUser caches now buf hdrPlen mn =
     (let infoSize = ucast (hdrPlen - 12) :: uint32
      in case slice32 12 (12 + infoSize) buf of
           None \<Rightarrow> Panicked
         | Some info \<Rightarrow>
             (case GetSIDRest info of
                Inl e \<Rightarrow> Ran (Some (BadSID e), mn)
              | Inr (userid, auth) \<Rightarrow>
                  Ran (None, mn\<lparr>mn_sessions :=
                        ch_Set (fst caches) now userid
                          (fold user_field (split_on (CHR ''&'') auth) no_user) (mn_sessions mn)\<rparr>)))"

subsection \<open>Summary packets\<close>

text \<open>The growth since the last summary; a smaller value means that the server was restarted.\<close>

definition incBy :: "int64 \<Rightarrow> int64 \<Rightarrow> int" where
  "incBy new prev = (if new <s prev then sint new else sint (new - prev))"

definition link_stat :: "SummaryStat \<Rightarrow> ('s, 't) Monitoring \<Rightarrow> ('s, 't) Monitoring option" where
  "link_stat stat mn =
     do { mn \<leftarrow> Add Connections (incBy (ss_LinkConnections stat) (ss_LinkConnections (mn_lastStats mn))) mn;
          let mn = mn\<lparr>mn_lastStats := (mn_lastStats mn)\<lparr>ss_LinkConnections := ss_LinkConnections stat\<rparr>\<rparr>;
          mn \<leftarrow> Add (BytesXfer ''rx'') (incBy (ss_LinkInBytes stat) (ss_LinkInBytes (mn_lastStats mn))) mn;
          let mn = mn\<lparr>mn_lastStats := (mn_lastStats mn)\<lparr>ss_LinkInBytes := ss_LinkInBytes stat\<rparr>\<rparr>;
          mn \<leftarrow> Add (BytesXfer ''tx'') (incBy (ss_LinkOutBytes stat) (ss_LinkOutBytes (mn_lastStats mn))) mn;
          Some (mn\<lparr>mn_lastStats := (mn_lastStats mn)\<lparr>ss_LinkOutBytes := ss_LinkOutBytes stat\<rparr>\<rparr>) }"

definition sched_stat :: "SummaryStat \<Rightarrow> ('s, 't) Monitoring \<Rightarrow> ('s, 't) Monitoring" where
  "sched_stat stat mn =
     mn\<lparr>mn_threads := mn_threads mn @
          [(''idle'', sint (ss_ThreadsIdle stat)), (''running'', sint (ss_Threads stat - ss_ThreadsIdle stat))]\<rparr>"

definition summary_stat :: "SummaryStat \<Rightarrow> ('s, 't) Monitoring \<Rightarrow> ('s, 't) Monitoring option" where
  "summary_stat stat mn =
     (if ss_Id stat = ''link'' then link_stat stat mn
      else if ss_Id stat = ''sched'' then Some (sched_stat stat mn)
      else Some mn)"

fun summary_stats :: "SummaryStat list \<Rightarrow> ('s, 't) Monitoring \<Rightarrow> ('s, 't) Monitoring option" where
  "summary_stats [] mn = Some mn"
| "summary_stats (s # ss) mn = Option.bind (summary_stat s mn) (summary_stats ss)"

text \<open>\<open>unmarshal\<close> is \<open>xml.Unmarshal\<close> into a \<open>SummaryStatistics\<close>, \<open>None\<close> on an error.\<close>

definition HandleSummaryPacket ::
  "(bytes \<Rightarrow> SummaryStat list option) \<Rightarrow> bytes \<Rightarrow> ('s, 't) Monitoring \<Rightarrow>
     (mon_error option \<times> ('s, 't) Monitoring) ran" where
  "HandleSummaryPacket unmarshal packet mn =
     (case unmarshal packet of
        None \<Rightarrow> Ran (Some BadXML, mn)
      | Some stats \<Rightarrow>
          (case summary_stats stats mn of None \<Rightarrow> Panicked | Some mn' \<Rightarrow> Ran (None, mn')))"

subsection \<open>HandlePacket and the receiving loop\<close>

definition HandlePacket ::
  "('s, 't) cache_pair \<Rightarrow> (bytes \<Rightarrow> SummaryStat list option) \<Rightarrow> int \<Rightarrow> nat \<Rightarrow> bytes \<Rightarrow>
     ('s, 't) Monitoring \<Rightarrow> (mon_error option \<times> ('s, 't) Monitoring) ran option" where
  "HandlePacket caches unmarshal now plen buf mn =
     (if 0 < plen \<and> hd buf = CHR ''<'' then Some (HandleSummaryPacket unmarshal (take plen buf) mn)
      else if plen < 8 then Some (Ran (Some PacketTooSmall, mn))
      else let code = hd buf; hdrPlen = be16 (field 2 2 buf)
           in if code = CHR ''d'' then Some (Ran (HandleDict caches now plen buf mn))
              else if code = CHR ''f'' then HandleFstream caches now plen buf hdrPlen mn
              else if code = CHR ''u'' then Some (HandleUser caches now buf hdrPlen mn)
              else Some (Ran (None, mn)))"

definition receive_buffer_size :: nat where
  "receive_buffer_size = 65536"

text \<open>One turn of the receiving goroutine: the datagram overwrites the front of the buffer, an
  error of the handler is logged.\<close>

definition receive_step ::
  "('s, 't) cache_pair \<Rightarrow> (bytes \<Rightarrow> SummaryStat list option) \<Rightarrow> int \<Rightarrow> bytes \<Rightarrow>
     ('s, 't) Monitoring \<Rightarrow> ('s, 't) Monitoring ran option" where
  "receive_step caches unmarshal now datagram mn =
     (let data = take receive_buffer_size datagram;
          buf = data @ drop (length data) (mn_buf mn);
          mn = mn\<lparr>mn_received := mn_received mn + 1, mn_buf := buf\<rparr>
      in map_option (\<lambda>r. case r of Panicked \<Rightarrow> Panicked | Ran (_, mn') \<Rightarrow> Ran mn')
           (HandlePacket caches unmarshal now (length data) buf mn))"

fun receive_all ::
  "('s, 't) cache_pair \<Rightarrow> (bytes \<Rightarrow> SummaryStat list option) \<Rightarrow> (int \<times> bytes) list \<Rightarrow>
     ('s, 't) Monitoring \<Rightarrow> ('s, 't) Monitoring ran option" where
  "receive_all caches unmarshal [] mn = Some (Ran mn)"
| "receive_all caches unmarshal ((now, datagram) # ds) mn =
     (case receive_step caches unmarshal now datagram mn of
        None \<Rightarrow> None
      | Some Panicked \<Rightarrow> Some Panicked
      | Some (Ran mn') \<Rightarrow> receive_all caches unmarshal ds mn')"

text \<open>The package's variables when the program starts.\<close>

definition no_stat :: SummaryStat where
  "no_stat = \<lparr>ss_Id = [], ss_LinkConnections = 0, ss_LinkInBytes = 0, ss_LinkOutBytes = 0,
     ss_Threads = 0, ss_ThreadsIdle = 0\<rparr>"

definition monitoring_init :: "'s \<Rightarrow> 't \<Rightarrow> string list list \<Rightarrow> ('s, 't) Monitoring" where
  "monitoring_init sessions transfers paths =
     \<lparr>mn_sessions = sessions, mn_transfers = transfers, mn_monitorPaths = paths, mn_lastStats = no_stat,
      mn_added = [], mn_threads = [], mn_received = 0, mn_buf = replicate receive_buffer_size nul\<rparr>"

text \<open>\<open>listen\<close> says which ports can be opened, \<open>set_buffer\<close> whether the buffer size can be set.\<close>

datatype configure_error = ListenFailed | NoPort | SetBufferFailed

fun first_port :: "(int \<Rightarrow> bool) \<Rightarrow> int list \<Rightarrow> int option" where
  "first_port listen [] = None"
| "first_port listen (p # ps) = (if listen p then Some p else first_port listen ps)"

definition ConfigureMonitoring :: "(int \<Rightarrow> bool) \<Rightarrow> bool \<Rightarrow> int \<Rightarrow> int \<Rightarrow> configure_error + int" where
  "ConfigureMonitoring listen set_buffer lower higher =
     (case first_port listen [lower..higher - 1] of
        None \<Rightarrow> Inl (if lower < higher then ListenFailed else NoPort)
      | Some port \<Rightarrow> if set_buffer then Inr port else Inl SetBufferFailed)"

end
