(* ===== verification/Metrics_Loop.thy ===== *)
theory Metrics_Loop
  imports Xrootd_Metrics
begin

unbundle bit_operations_syntax

section \<open>The loop over the records of an f-stream packet, and the two ways to bring it down\<close>

subsection \<open>Reading a record where it lies in the packet\<close>

lemma unat_plus_small: "unat a + unat b < 2 ^ 32 \<Longrightarrow> unat (a + b :: uint32) = unat a + unat b"
  by (simp add: unat_word_ariths)

lemma slice32_record:
  assumes "unat off = length pre" "a \<le> b" "unat b \<le> length r" "length pre + length r < 2 ^ 32"
  shows "slice32 (off + a) (off + b) (pre @ r @ post) = Some (field (unat a) (unat b - unat a) r)"
proof -
  have ab: "unat a \<le> unat b" using assms(2) by (simp add: word_le_nat_alt)
  have "unat (off + a) = length pre + unat a" "unat (off + b) = length pre + unat b"
    using assms ab by (simp_all add: unat_plus_small)
  with assms ab show ?thesis
    by (simp add: slice32_def word_le_nat_alt field_def)
qed

lemma get_record:
  assumes "unat off = length pre" "length pre + length r < 2 ^ 32"
  shows "unat a + 4 \<le> length r \<Longrightarrow> get32 (pre @ r @ post) (off + a) = Some (be32 (field (unat a) 4 r))"
    and "unat a + 8 \<le> length r \<Longrightarrow> get64 (pre @ r @ post) (off + a) = Some (be64 (field (unat a) 8 r))"
proof -
  have *: "unat (a + n) = unat a + unat n \<and> a \<le> a + n" if "unat a + unat n \<le> length r" for n
    using that assms(2) by (simp add: unat_plus_small word_le_nat_alt)
  have n: "unat (4 :: uint32) = 4" "unat (8 :: uint32) = 8" by simp_all
  show "unat a + 4 \<le> length r \<Longrightarrow> get32 (pre @ r @ post) (off + a) = Some (be32 (field (unat a) 4 r))"
    using * [of 4] slice32_record [OF assms(1) _ _ assms(2), of a "a + 4" post] n
    by (simp add: get32_def add.assoc)
  show "unat a + 8 \<le> length r \<Longrightarrow> get64 (pre @ r @ post) (off + a) = Some (be64 (field (unat a) 8 r))"
    using * [of 8] slice32_record [OF assms(1) _ _ assms(2), of a "a + 8" post] n
    by (simp add: get64_def add.assoc)
qed

text \<open>The record at the front of a packet of its own.\<close>

definition record_header :: "bytes \<Rightarrow> XrdXrootdMonFileHdr" where
  "record_header r = projr (ParseFileHeader (take 8 r))"

definition record_complete :: "bytes \<Rightarrow> bool" where
  "record_complete r \<longleftrightarrow>
     (let hdr = record_header r
      in 8 \<le> length r \<and> sint (fh_RecSize hdr) = int (length r) \<and>
         (fh_RecType hdr = 0 \<longrightarrow> 32 \<le> length r \<and> (fh_RecFlag hdr AND 0x02 = 0x02 \<longrightarrow> 56 \<le> length r)) \<and>
         (fh_RecType hdr = 1 \<longrightarrow> 20 \<le> length r) \<and>
         (fh_RecType hdr = 3 \<longrightarrow> 32 \<le> length r))"

fun run_records ::
  "('s, 't) cache_pair \<Rightarrow> int \<Rightarrow> bytes list \<Rightarrow> ('s, 't) Monitoring \<Rightarrow>
     (mon_error option \<times> ('s, 't) Monitoring) ran" where
  "run_records caches now [] mn = Ran (None, mn)"
| "run_records caches now (r # rs) mn =
     (case handle_record caches now r 0 (record_header r) mn of
        None \<Rightarrow> Panicked
      | Some mn' \<Rightarrow> run_records caches now rs mn')"

lemma record_complete_length:
  assumes "record_complete r"
  shows "8 \<le> length r" "length r < 2 ^ 15" "sint (fh_RecSize (record_header r)) = int (length r)"
proof -
  show s: "8 \<le> length r" "sint (fh_RecSize (record_header r)) = int (length r)"
    using assms by (simp_all add: record_complete_def Let_def)
  show "length r < 2 ^ 15"
    using s(2) sint_lt [of "fh_RecSize (record_header r)"] by simp
qed

lemma close_ops_here:
  assumes "unat off = length pre" "length pre + length r < 2 ^ 32" "56 \<le> length r"
  shows "close_ops (pre @ r @ post) off l old mn = close_ops r 0 l old mn"
proof -
  have "unat (0 :: uint32) = length ([] :: bytes)" "length ([] :: bytes) + length r < 2 ^ 32"
    using assms(2) by simp_all
  note at = get_record [OF assms(1,2)] and at0 = get_record [OF this, where post = "[]", simplified]
  show ?thesis
    using assms(3) by (simp add: close_ops_def at at0 add.assoc)
qed

lemma close_bytes_here:
  assumes "unat off = length pre" "length pre + length r < 2 ^ 32" "32 \<le> length r"
  shows "close_bytes (pre @ r @ post) off l old mn = close_bytes r 0 l old mn"
proof -
  have "unat (0 :: uint32) = length ([] :: bytes)" "length ([] :: bytes) + length r < 2 ^ 32"
    using assms(2) by simp_all
  note at = get_record [OF assms(1,2)] and at0 = get_record [OF this, where post = "[]", simplified]
  show ?thesis
    using assms(3) by (simp add: close_bytes_def at at0 add.assoc)
qed

text \<open>The size of a complete record, as the 16-bit and the 32-bit word the loop computes with.\<close>

lemma record_size_words:
  assumes r: "record_complete r"
  shows "fh_RecSize (record_header r) = word_of_nat (length r)"
    and "scast (fh_RecSize (record_header r)) = (word_of_nat (length r) :: uint32)"
    and "20 \<le> length r \<Longrightarrow> scast (fh_RecSize (record_header r) - 20) + 20 = (word_of_nat (length r) :: uint32)"
proof -
  let ?size = "fh_RecSize (record_header r)"
  note len = record_complete_length [OF r]
  have sint: "sint (word_of_int k :: int16) = k" if "0 \<le> k" "k < 2 ^ 15" for k
    using that by (simp add: signed_of_int signed_take_bit_int_eq_self)
  have size: "?size = word_of_int (int (length r))" using len(3) by (metis of_int_sint scast_id)
  then show "?size = word_of_nat (length r)" by simp
  have "scast ?size = (word_of_int (sint ?size) :: uint32)" by (rule scast_eq)
  with len(3) show "scast ?size = (word_of_nat (length r) :: uint32)" by simp
  assume l: "20 \<le> length r"
  have "?size - 20 = word_of_int (int (length r) - 20)" using size by simp
  then have "sint (?size - 20) = int (length r) - 20" using sint [of "int (length r) - 20"] l len(2) by simp
  then have "scast (?size - 20) = (word_of_int (int (length r) - 20) :: uint32)" by (simp add: scast_eq)
  then show "scast (?size - 20) + 20 = (word_of_nat (length r) :: uint32)" by simp
qed

lemma handle_record_here:
  assumes r: "record_complete r" and off: "unat off = length pre" "length pre + length r < 2 ^ 32"
  shows "handle_record caches now (pre @ r @ post) off (record_header r) mn =
         handle_record caches now r 0 (record_header r) mn"
proof -
  let ?hdr = "record_header r"
  note len = record_complete_length [OF r]
  have r0: "unat (0 :: uint32) = length ([] :: bytes)" "length ([] :: bytes) + length r < 2 ^ 32"
    using len(2) by simp_all
  note at = get_record [OF off] and at0 = get_record [OF r0, where post = "[]", simplified]
  consider "fh_RecType ?hdr = 0" | "fh_RecType ?hdr = 1" | "fh_RecType ?hdr = 3"
    | "fh_RecType ?hdr \<notin> {0, 1, 3}" by blast
  then show ?thesis
  proof cases
    case 1
    with r have "32 \<le> length r" "fh_RecFlag ?hdr AND 2 = 2 \<Longrightarrow> 56 \<le> length r"
      by (simp_all add: record_complete_def Let_def)
    with 1 show ?thesis
      by (cases "fh_RecFlag ?hdr AND 2 = 2")
        (simp_all add: handle_record_def handle_close_def close_ops_here [OF off] close_bytes_here [OF off])
  next
    case 2
    with r have l: "20 \<le> length r" by (simp add: record_complete_def Let_def)
    let ?stop = "word_of_nat (length r) :: uint32"
    have e: "unat ?stop = length r" "20 \<le> ?stop"
      using l len(2) by (simp_all add: unat_of_nat word_le_nat_alt)
    have "slice32 (off + 20) (off + scast (fh_RecSize ?hdr - 20) + 20) (pre @ r @ post) =
          slice32 20 (scast (fh_RecSize ?hdr - 20) + 20) r"
      using slice32_record [OF off(1) e(2) _ off(2), of post]
        slice32_record [OF r0(1) e(2) _ r0(2), of "[]"] e(1) record_size_words(3) [OF r l]
      by (simp add: add.assoc)
    with 2 l show ?thesis
      by (simp add: handle_record_def handle_open_def at at0 Let_def)
  next
    case 3
    with r have "32 \<le> length r" by (simp add: record_complete_def Let_def)
    with 3 show ?thesis
      by (simp add: handle_record_def handle_xfr_def at at0 split: prod.splits)
  next
    case 4
    then show ?thesis by (simp add: handle_record_def)
  qed
qed

lemma loop_header:
  assumes r: "record_complete r" and off: "unat off = length pre" "length pre + length r < 2 ^ 32"
  shows "slice32 off (off + 8) (pre @ r @ post) = Some (take 8 r)"
    and "ParseFileHeader (take 8 r) = Inr (record_header r)"
proof -
  note len = record_complete_length [OF r]
  show "slice32 off (off + 8) (pre @ r @ post) = Some (take 8 r)"
    using slice32_record [OF off(1) _ _ off(2), of 0 8 post] len by (simp add: field_def)
  show "ParseFileHeader (take 8 r) = Inr (record_header r)"
    using len by (simp add: record_header_def ParseFileHeader_def)
qed

text \<open>The loop ends on records that are complete, having treated each once and in order.\<close>

lemma fstream_loop_records:
  assumes "list_all record_complete rs" and "unat off = length pre"
    and "length pre + length (concat rs) < 2 ^ 16"
  shows "fstream_loop caches now (pre @ concat rs @ post) (word_of_nat (length (concat rs))) off mn =
         Some (run_records caches now rs mn)"
  using assms
proof (induction rs arbitrary: pre off mn)
  case Nil
  then show ?case by (simp add: fstream_loop.simps)
next
  case (Cons r rs)
  then have r: "record_complete r" and rs: "list_all record_complete rs"
    and bound: "length pre + length r + length (concat rs) < 2 ^ 16" by simp_all
  note len = record_complete_length [OF r] and size = record_size_words [OF r]
  let ?left = "word_of_nat (length (concat (r # rs))) :: uint16" and ?post = "concat rs @ post"
  have off: "unat off = length pre" "length pre + length r < 2 ^ 32" using Cons.prems(2) bound by simp_all
  have "unat ?left = length (concat (r # rs))"
    using bound by (simp add: unat_of_nat del: of_nat_add)
  with len(1) have left: "?left \<noteq> 0" by auto
  have next_off: "unat (off + word_of_nat (length r)) = length (pre @ r)"
    using off bound len(2) by (subst unat_plus_small) (simp_all add: unat_of_nat)
  have next_left: "word_of_nat (length r + length (concat rs)) - word_of_nat (length r) =
      (word_of_nat (length (concat rs)) :: uint16)" by simp
  show ?case
  proof (cases "handle_record caches now r 0 (record_header r) mn")
    case None
    with left show ?thesis
      by (subst fstream_loop.simps)
        (simp add: loop_header [OF r off] handle_record_here [OF r off] del: of_nat_add)
  next
    case (Some mn')
    have "fstream_loop caches now ((pre @ r) @ concat rs @ post) (word_of_nat (length (concat rs)))
        (off + word_of_nat (length r)) mn' = Some (run_records caches now rs mn')"
      by (rule Cons.IH [OF rs next_off]) (use bound in simp)
    with Some left show ?thesis
      by (subst fstream_loop.simps)
        (simp add: loop_header [OF r off] handle_record_here [OF r off] size(1) size(2) [unfolded size(1)]
          next_left del: of_nat_add)
  qed
qed

subsection \<open>A whole f-stream packet\<close>

definition fstream_packet :: "char \<Rightarrow> bytes \<Rightarrow> bytes \<Rightarrow> bytes list \<Rightarrow> bytes" where
  "fstream_packet pseq stod tod rs =
     [CHR ''f'', pseq] @ be_bytes 2 (8 + length tod + length (concat rs)) @ stod @ tod @ concat rs"

lemma be16_be_bytes_small: "n < 2 ^ 16 \<Longrightarrow> be16 (be_bytes 2 n) = word_of_nat n"
  by (simp add: be16_def be_nat_be_bytes)

lemma unat_ucast_16_32: "unat (ucast (w :: uint16) :: uint32) = unat w"
  using unsigned_less [of w, where ?'a = nat] by (simp add: unsigned_ucast_eq take_bit_nat_eq_self)

lemma ucast_ucast_16: "ucast (ucast w :: uint32) = (w :: uint16)"
  by (rule bit_word_eqI) (simp add: bit_simps)

lemma ucast_narrow: "ucast (word_of_nat n :: uint32) = (word_of_nat n :: uint16)"
  by transfer (simp add: take_bit_of_nat min_def)

lemma fstream_packet_fields:
  assumes "length stod = 4"
  shows "field 2 2 (fstream_packet pseq stod tod rs @ stale) = be_bytes 2 (8 + length tod + length (concat rs))"
    and "2 \<le> length tod - 2 \<Longrightarrow> field 10 2 (fstream_packet pseq stod tod rs @ stale) = field 2 2 tod"
proof -
  have *: "fstream_packet pseq stod tod rs @ stale = [CHR ''f'', pseq] @
      be_bytes 2 (8 + length tod + length (concat rs)) @ stod @ tod @ concat rs @ stale"
    by (simp add: fstream_packet_def)
  show "field 2 2 (fstream_packet pseq stod tod rs @ stale) = be_bytes 2 (8 + length tod + length (concat rs))"
    unfolding * by (subst field_skip, simp) (simp add: field_def)
  show "2 \<le> length tod - 2 \<Longrightarrow> field 10 2 (fstream_packet pseq stod tod rs @ stale) = field 2 2 tod"
    unfolding * using assms by (subst field_skip, simp, subst field_skip, simp, subst field_skip, simp) (simp add: field_def)
qed

lemma ucast_of_nat16: "n < 2 ^ 16 \<Longrightarrow> ucast (word_of_nat n :: uint16) = (word_of_nat n :: uint32)"
  by (simp add: unsigned_of_nat take_bit_nat_eq_self)

text \<open>C40: An f-stream packet whose records are complete is processed to its end: whatever the
  buffer holds behind it, each record is treated once, in order, from its own bytes.
\<close>

theorem fstream_records_in_order:
  assumes "length stod = 4" and "24 \<le> length tod" and "be16 (field 2 2 tod) = word_of_nat (length tod)"
    and "list_all record_complete rs" and "8 + length tod + length (concat rs) < 2 ^ 16"
  shows "HandlePacket caches unmarshal now (length (fstream_packet pseq stod tod rs))
           (fstream_packet pseq stod tod rs @ stale) mn = Some (run_records caches now rs mn)"
proof -
  let ?total = "8 + length tod + length (concat rs)"
  let ?pre = "[CHR ''f'', pseq] @ be_bytes 2 ?total @ stod @ tod"
  let ?buf = "fstream_packet pseq stod tod rs @ stale"
  have len: "length (fstream_packet pseq stod tod rs) = ?total"
    using assms(1) by (simp add: fstream_packet_def)
  have buf: "?buf = ?pre @ concat rs @ stale" by (simp add: fstream_packet_def)
  have size: "be16 (field 10 2 ?buf) = word_of_nat (length tod)"
    using fstream_packet_fields(2) [OF assms(1)] assms(2,3) by simp
  have plen: "be16 (field 2 2 ?buf) = word_of_nat ?total"
    unfolding fstream_packet_fields(1) [OF assms(1)] by (rule be16_be_bytes_small [OF assms(5)])
  have big: "\<not> (word_of_nat (length tod) :: uint16) < 24"
    using assms(2,5) by (simp add: word_less_nat_alt unat_of_nat)
  have off: "ucast ((word_of_nat (length tod) :: uint16) + 8) = (word_of_nat (length tod + 8) :: uint32)"
    using ucast_of_nat16 [of "length tod + 8"] assms(5) by simp
  have narrow: "ucast (word_of_nat (length tod + 8) :: uint32) = (word_of_nat (length tod + 8) :: uint16)"
    by (rule ucast_narrow)
  have left: "word_of_nat ?total - word_of_nat (length tod + 8) = (word_of_nat (length (concat rs)) :: uint16)"
    by simp
  have "fstream_loop caches now ?buf (word_of_nat (length (concat rs)))
      (word_of_nat (length tod + 8)) mn = Some (run_records caches now rs mn)"
    unfolding buf using assms by (intro fstream_loop_records) (simp_all add: unat_of_nat del: of_nat_add)
  moreover have "hd ?buf = CHR ''f''" by (simp add: fstream_packet_def)
  ultimately show ?thesis
    using assms(2) len size plen big off narrow left
    by (simp add: HandlePacket_def HandleFstream_def Let_def del: of_nat_add)
qed

subsection \<open>Two packets that bring the monitoring down\<close>

lemma fstream_loop_stuck:
  assumes hdr: "slice32 off (off + 8) buf = Some hd8" "ParseFileHeader hd8 = Inr hdr"
    and zero: "fh_RecSize hdr = 0" and kind: "fh_RecType hdr \<notin> {0, 1, 3}" and left: "left \<noteq> 0"
  shows "fstream_loop caches now buf left off mn = None"
proof (rule ccontr)
  assume "fstream_loop caches now buf left off mn \<noteq> None"
  then obtain r where ret: "fstream_loop caches now buf left off mn = Some r" by blast
  let ?P = "\<lambda>(c :: ('a, 'b) cache_pair) (n :: int) b l o' mn (r :: (mon_error option \<times> ('a, 'b) Monitoring) ran).
    b \<noteq> buf \<or> l \<noteq> left \<or> o' \<noteq> off"
  have "?P caches now buf left off mn r"
  proof (rule fstream_loop.raw_induct [where P = ?P, OF _ ret])
    fix loop c n b l o' mn r
    assume IH: "\<And>c n b l o' mn r. loop c n b l o' mn = Some r \<Longrightarrow> ?P c n b l o' mn r"
      and body: "(if l = 0 then Some (Ran (None, mn))
        else case slice32 o' (o' + 8) b of None \<Rightarrow> Some Panicked
          | Some hd8 \<Rightarrow> (case ParseFileHeader hd8 of Inl e \<Rightarrow> Some (Ran (Some e, mn))
              | Inr hdr \<Rightarrow> (case handle_record c n b o' hdr mn of None \<Rightarrow> Some Panicked
                  | Some mn' \<Rightarrow> loop c n b (l - fh_RecSize hdr) (o' + scast (fh_RecSize hdr)) mn'))) = Some r"
    show "?P c n b l o' mn r"
    proof (rule ccontr)
      assume "\<not> ?thesis"
      then have same: "b = buf" "l = left" "o' = off" by simp_all
      have "\<exists>m. handle_record c n buf off hdr mn = Some m" using kind by (simp add: handle_record_def)
      then obtain m where "handle_record c n buf off hdr mn = Some m" ..
      with body hdr zero left same have "loop c n buf left off m = Some r" by simp
      from IH [OF this] show False by simp
    qed
  qed
  then show False by simp
qed

text \<open>
  A cache that behaves as \<open>ttlcache\<close> documents, for the examples: an entry lives for a day after
  it was set or read.
\<close>

definition day_cache :: "('k, 'v, 'k \<Rightarrow> ('v \<times> int) option) ttlcache" where
  "day_cache =
     \<lparr>ch_Get = (\<lambda>t k c. case c k of
          None \<Rightarrow> (None, c)
        | Some (v, t0) \<Rightarrow> if t \<le> t0 + 86400 then (Some v, c(k \<mapsto> (v, t))) else (None, c)),
      ch_Set = (\<lambda>t k v c. c(k \<mapsto> (v, t))), ch_Delete = (\<lambda>k c. c(k := None))\<rparr>"

definition example_tod :: bytes where
  "example_tod = [CHR 0x02, CHR 0x00, CHR 0x00, CHR 0x18] @ replicate 20 nul"

definition example_records :: "bytes list" where
  "example_records =
     [[CHR 0x01, CHR 0x00, CHR 0x00, CHR 0x14] @ be_bytes 4 7 @ be_bytes 8 100 @ be_bytes 4 9,
      [CHR 0x00, CHR 0x00, CHR 0x00, CHR 0x20] @ be_bytes 4 7 @ be_bytes 8 5 @ be_bytes 8 0 @ be_bytes 8 3]"

lemma example_tod_size: "length example_tod = 24" "be16 (field 2 2 example_tod) = word_of_nat 24"
  by (simp_all add: example_tod_def field_def be16_def be_nat_def)

lemma example_records_complete: "list_all record_complete example_records"
  by (simp add: example_records_def record_complete_def record_header_def ParseFileHeader_def
      field_def be16_def be8_def be_nat_def numeral_eq_Suc)

theorem fstream_records_in_order_witness:
  "HandlePacket (day_cache, day_cache) (\<lambda>_. None) 0 84
     (fstream_packet CHR 0x01 (be_bytes 4 1) example_tod example_records @ replicate 20 (CHR ''x''))
     (monitoring_init Map.empty Map.empty []) =
   Some (run_records (day_cache, day_cache) 0 example_records (monitoring_init Map.empty Map.empty []))"
proof -
  have size: "length (concat example_records) = 52" by (simp add: example_records_def)
  then have len: "length (fstream_packet CHR 0x01 (be_bytes 4 1) example_tod example_records) = 84"
    by (simp add: fstream_packet_def example_tod_size)
  show ?thesis
    by (rule fstream_records_in_order [of "be_bytes 4 1" example_tod example_records
          "(day_cache, day_cache)" "\<lambda>_. None" 0 "CHR 0x01" "replicate 20 (CHR ''x'')", unfolded len])
      (simp_all add: size example_tod_size example_records_complete)
qed

text \<open>C38: A record whose size is 0 and that is a time, a disconnect or of an unknown type makes
  \<open>HandlePacket\<close> loop for ever, whatever follows it.
\<close>

theorem zero_size_record_hangs:
  assumes "hd buf = CHR ''f''" and "32 \<le> plen" and "24 \<le> be16 (field 10 2 buf)"
    and "be16 (field 2 2 buf) \<noteq> be16 (field 10 2 buf) + 8"
    and "unat (be16 (field 10 2 buf) + 8) + 8 \<le> length buf"
    and "ParseFileHeader (field (unat (be16 (field 10 2 buf) + 8)) 8 buf) = Inr hdr"
    and "fh_RecSize hdr = 0" and "fh_RecType hdr \<notin> {0, 1, 3}"
  shows "HandlePacket caches unmarshal now plen buf mn = None"
proof -
  let ?size = "be16 (field 10 2 buf) + 8" and ?off = "ucast (be16 (field 10 2 buf) + 8) :: uint32"
  have off: "unat ?off = unat ?size" by (rule unat_ucast_16_32)
  have small: "unat ?size < 2 ^ 16" using unsigned_less [of ?size] by simp
  then have off8: "unat (?off + 8) = unat ?size + 8" using off by (subst unat_plus_small) simp_all
  then have "?off \<le> ?off + 8" using off by (simp add: word_le_nat_alt)
  with off off8 assms(5) have "slice32 ?off (?off + 8) buf = Some (field (unat ?size) 8 buf)"
    by (simp add: slice32_def)
  moreover have "be16 (field 2 2 buf) - ucast ?off \<noteq> 0"
    using assms(4) by (simp add: ucast_ucast_16)
  ultimately have "fstream_loop caches now buf (be16 (field 2 2 buf) - ucast ?off) ?off mn = None"
    using fstream_loop_stuck assms(6-8) by blast
  with assms(1-3) show ?thesis
    by (simp add: HandlePacket_def HandleFstream_def Let_def)
qed

definition stuck_packet :: bytes where
  "stuck_packet = [CHR ''f'', CHR 0x01, CHR 0x00, CHR 0x28] @ replicate 6 nul @ [CHR 0x00, CHR 0x18] @
     replicate 20 nul @ [CHR 0x02] @ replicate 7 nul"

theorem zero_size_record_hangs_witness:
  "HandlePacket (day_cache, day_cache) (\<lambda>_. None) 0 40 stuck_packet
     (monitoring_init Map.empty Map.empty []) = None"
proof -
  define r where "r = [CHR 0x02] @ replicate 7 nul"
  have fields: "field 2 2 stuck_packet = [CHR 0x00, CHR 0x28]" "field 10 2 stuck_packet = [CHR 0x00, CHR 0x18]"
    "field 32 8 stuck_packet = r" "length stuck_packet = 40"
    by (simp_all add: stuck_packet_def field_def r_def)
  have words: "be16 [CHR 0x00, CHR 0x28] = 40" "be16 [CHR 0x00, CHR 0x18] = 24"
    by (simp_all add: be16_def be_nat_def)
  have hdr: "ParseFileHeader r =
      Inr (record_header r)"
    "fh_RecSize (record_header r) = 0"
    "fh_RecType (record_header r) = 2"
    by (simp_all add: r_def record_header_def ParseFileHeader_def field_def be8_def be16_def be_nat_def numeral_eq_Suc)
  have "hd stuck_packet = CHR ''f''" by (simp add: stuck_packet_def)
  then show ?thesis
    by (rule zero_size_record_hangs [where hdr = "record_header r"]) (simp_all add: fields words hdr)
qed

text \<open>A login packet whose header announces a length of 1 to 11 bytes panics: the length of its
  text wraps around and the slice exceeds the receive buffer.
\<close>

theorem short_login_panics:
  assumes "hd buf = CHR ''u''" and "8 \<le> plen" and "length buf \<le> receive_buffer_size"
    and "be16 (field 2 2 buf) \<in> {1..11}"
  shows "HandlePacket caches unmarshal now plen buf mn = Some Panicked"
proof -
  let ?w = "be16 (field 2 2 buf)"
  have w: "1 \<le> unat ?w" "unat ?w \<le> 11" using assms(4) by (simp_all add: word_le_nat_alt)
  have "?w - 12 = - (12 - ?w)" by simp
  have "unat (?w - 12) = 65536 + unat ?w - 12"
    using w by (simp add: unat_sub_if' )
  then have "unat (12 + ucast (?w - 12) :: uint32) = 65536 + unat ?w"
    using w by (subst unat_plus_small) (simp_all add: unat_ucast_16_32)
  then have "slice32 12 (12 + ucast (?w - 12)) buf = None"
    using assms(3) w by (simp add: slice32_def receive_buffer_size_def)
  with assms(1,2) show ?thesis
    by (simp add: HandlePacket_def HandleUser_def Let_def)
qed

theorem short_login_panics_witness:
  "HandlePacket (day_cache, day_cache) (\<lambda>_. None) 0 8
     ([CHR ''u'', CHR 0x01, CHR 0x00, CHR 0x08] @ replicate 65532 nul)
     (monitoring_init Map.empty Map.empty []) = Some Panicked"
proof (rule short_login_panics)
  have "field 2 2 ([CHR ''u'', CHR 0x01, CHR 0x00, CHR 0x08] @ replicate 65532 nul) = [CHR 0x00, CHR 0x08]"
    by (simp add: field_def)
  moreover have "be16 [CHR 0x00, CHR 0x08] \<in> {1..11}" by code_simp
  ultimately show "be16 (field 2 2 ([CHR ''u'', CHR 0x01, CHR 0x00, CHR 0x08] @ replicate 65532 nul)) \<in> {1..11}"
    by simp
qed (simp_all add: receive_buffer_size_def)

end
