(* ===== verification/Metrics_Theorems.thy ===== *)
theory Metrics_Theorems
  imports Metrics_Loop
begin

section \<open>What the monitoring package counts\<close>

subsection \<open>Prefixes and sessions\<close>

text \<open>A rune of one byte: either that ASCII character, or two bytes that are no ASCII.\<close>

lemma rune_cases:
  obtains "utf8_encode (byte_nat c) = [c]" "byte_nat c < 128"
    | a b where "utf8_encode (byte_nat c) = [a, b]" "128 \<le> byte_nat a" "128 \<le> byte_nat b"
proof (cases "byte_nat c < 128")
  case True
  then show ?thesis by (intro that(1)) (simp_all add: utf8_encode_def)
next
  case False
  have c: "byte_nat c < 256" by simp
  then have lt: "byte_nat c < 2048" by linarith
  have small: "n < 256 \<Longrightarrow> 128 \<le> n \<Longrightarrow> 128 \<le> byte_nat (char_of n)" for n :: nat
    by (simp add: of_char_of)
  from False have "utf8_encode (byte_nat c) = [char_of (192 + byte_nat c div 64), char_of (128 + byte_nat c mod 64)]"
    unfolding utf8_encode_def using lt by (simp only: if_True if_False refl)
  moreover have "byte_nat c div 64 < 4" using c by (simp add: less_mult_imp_div_less)
  ultimately show ?thesis
    by (intro that(2) small) auto
qed

lemma path_Clean_no_slash:
  assumes "CHR ''/'' \<notin> set s"
  shows "CHR ''/'' \<notin> set (path_Clean s)"
proof -
  have "clean_parts (has_prefix s ''/'') s = clean_step (has_prefix s ''/'') [] s"
    using assms by (simp add: clean_parts_def split_on_none)
  moreover have "\<not> has_prefix s ''/''" using assms by (auto simp: has_prefix_def prefix_def)
  ultimately show ?thesis
    using assms by (auto simp: path_Clean_def clean_step_def)
qed

lemma prefix_length_single: "prefix_length mp [seg] = 0"
proof -
  have "match_prefix 0 0 [seg] pl = 0" for pl
  proof (cases pl)
    case (Cons p ps)
    then show ?thesis by (cases ps) auto
  qed simp
  then have "fold (\<lambda>pathList maxlen. if length [seg] < length pathList then maxlen
      else match_prefix 0 maxlen [seg] pathList) mp 0 = 0"
    by (induction mp) auto
  then show ?thesis by (simp add: prefix_length_def)
qed

lemma ComputePrefix_no_slash: "CHR ''/'' \<notin> set s \<Longrightarrow> ComputePrefix mp s = ''/''"
  by (simp add: ComputePrefix_def split_on_none path_Clean_no_slash prefix_length_single)

lemma path_Clean_slash: "path_Clean ''/'' = ''/''"
  by code_simp

lemma ComputePrefix_slash: "ComputePrefix mp ''/'' = ''/''"
proof -
  have "split_on (CHR ''/'') ''/'' = [[], []]" by simp
  moreover have "path_Clean (concat (List.map (\<lambda>seg. ''/'' @ seg) (take n [[]]))) = ''/''" if "0 < n" for n
    using that path_Clean_slash by (cases n) auto
  ultimately show ?thesis by (simp add: ComputePrefix_def path_Clean_slash Let_def)
qed

text \<open>A path packet hands \<open>ComputePrefix\<close> a single character, so it never names a path.\<close>

lemma ComputePrefix_rune: "ComputePrefix mp (utf8_encode (byte_nat c)) = ''/''"
proof (cases rule: rune_cases [of c])
  case 1
  then show ?thesis
    by (cases "c = CHR ''/''") (simp_all add: ComputePrefix_slash ComputePrefix_no_slash)
next
  case (2 a b)
  then have "CHR ''/'' \<notin> set [a, b]" by auto
  with 2 show ?thesis by (simp add: ComputePrefix_no_slash)
qed

lemma user_field_short: "length pair \<le> 1 \<or> CHR ''='' \<notin> set pair \<Longrightarrow> user_field pair r = r"
proof (elim disjE)
  assume "length pair \<le> 1"
  then consider "pair = []" | c where "pair = [c]" by (cases pair) auto
  then show ?thesis
    by cases (auto simp: user_field_def splitn2_def before_def after_def)
qed (simp add: user_field_def splitn2_none)

text \<open>A login packet hands the user fields a single character too: the session stays empty.\<close>

lemma user_of_rune:
  "fold user_field (split_on (CHR ''&'') (utf8_encode (byte_nat c))) no_user = no_user"
proof (cases rule: rune_cases [of c])
  case 1
  then show ?thesis by (simp add: user_field_short)
next
  case (2 a b)
  then have "CHR ''&'' \<notin> set [a, b]" "CHR ''='' \<notin> set [a, b]" by auto
  with 2 show ?thesis by (simp add: split_on_none user_field_short del: split_on.simps)
qed

lemma GetSIDRest_rune: "GetSIDRest info = Inr (u, rest) \<Longrightarrow> \<exists>c. rest = utf8_encode (byte_nat c)"
  by (auto simp: GetSIDRest_def Let_def split: list.splits prod.splits if_splits)


subsection \<open>Nothing is ever counted under a path or a user\<close>

text \<open>
  What the cache library promises, as far as this needs it: what is read was set. \<open>items\<close> are
  the values a cache holds.
\<close>

definition cache_holds :: "('k, 'v, 'c) ttlcache \<Rightarrow> ('c \<Rightarrow> 'v set) \<Rightarrow> bool" where
  "cache_holds ops items \<longleftrightarrow>
     (\<forall>t k c. set_option (fst (ch_Get ops t k c)) \<subseteq> items c \<and> items (snd (ch_Get ops t k c)) \<subseteq> items c) \<and>
     (\<forall>t k v c. items (ch_Set ops t k v c) \<subseteq> insert v (items c)) \<and>
     (\<forall>k c. items (ch_Delete ops k c) \<subseteq> items c)"

definition nameless_labels :: "Labels \<Rightarrow> bool" where
  "nameless_labels l \<longleftrightarrow>
     lb_path l \<in> {[], ''/''} \<and> lb_ap l = [] \<and> lb_dn l = [] \<and> lb_role l = [] \<and> lb_org l = []"

fun nameless :: "counter \<Rightarrow> bool" where
  "nameless (TransferReadvSegs l) = nameless_labels l"
| "nameless (TransferOps l _) = nameless_labels l"
| "nameless (TransferBytes l _) = nameless_labels l"
| "nameless Connections = True"
| "nameless (BytesXfer _) = True"

definition anonymous ::
  "('s \<Rightarrow> UserRecord set) \<Rightarrow> ('t \<Rightarrow> FileRecord set) \<Rightarrow> ('s, 't) Monitoring \<Rightarrow> bool" where
  "anonymous users files mn \<longleftrightarrow>
     users (mn_sessions mn) \<subseteq> {no_user} \<and>
     (\<forall>f \<in> files (mn_transfers mn). fr_Path f \<in> {[], ''/''}) \<and>
     (\<forall>(c, v) \<in> set (mn_added mn). nameless c \<and> 0 \<le> v)"

lemma cache_holdsD:
  assumes "cache_holds ops items"
  shows "ch_Get ops t k c = (Some v, c') \<Longrightarrow> v \<in> items c"
    and "ch_Get ops t k c = (x, c') \<Longrightarrow> w \<in> items c' \<Longrightarrow> w \<in> items c"
    and "w \<in> items (ch_Set ops t k v c) \<Longrightarrow> w = v \<or> w \<in> items c"
    and "w \<in> items (ch_Delete ops k c) \<Longrightarrow> w \<in> items c"
proof -
  note law = assms [unfolded cache_holds_def]
  have get: "set_option (fst (ch_Get ops t k c)) \<subseteq> items c" "items (snd (ch_Get ops t k c)) \<subseteq> items c"
    using law by blast+
  show "ch_Get ops t k c = (Some v, c') \<Longrightarrow> v \<in> items c"
    and "ch_Get ops t k c = (x, c') \<Longrightarrow> w \<in> items c' \<Longrightarrow> w \<in> items c"
    using get by (simp, auto)
  show "w \<in> items (ch_Set ops t k v c) \<Longrightarrow> w = v \<or> w \<in> items c"
    and "w \<in> items (ch_Delete ops k c) \<Longrightarrow> w \<in> items c"
    using law by blast+
qed

lemma anonymous_sessions:
  "anonymous users files mn \<Longrightarrow> (\<And>u. u \<in> users se \<Longrightarrow> u = no_user \<or> u \<in> users (mn_sessions mn)) \<Longrightarrow>
     anonymous users files (mn\<lparr>mn_sessions := se\<rparr>)"
  by (auto simp: anonymous_def)

lemma anonymous_transfers:
  "anonymous users files mn \<Longrightarrow>
     (\<And>f. f \<in> files tr \<Longrightarrow> fr_Path f \<in> {[], ''/''} \<or> f \<in> files (mn_transfers mn)) \<Longrightarrow>
     anonymous users files (mn\<lparr>mn_transfers := tr\<rparr>)"
  by (auto simp: anonymous_def)

lemma anonymous_session: "anonymous users files mn \<Longrightarrow> u \<in> users (mn_sessions mn) \<Longrightarrow> u = no_user"
  and anonymous_transfer:
    "anonymous users files mn \<Longrightarrow> f \<in> files (mn_transfers mn) \<Longrightarrow> fr_Path f \<in> {[], ''/''}"
  by (auto simp: anonymous_def)

text \<open>What holds of the state after a step that may panic, rule by rule.\<close>

lemma bind_anonymous:
  "(\<And>y. pred_option (anonymous users files) (f y)) \<Longrightarrow>
     pred_option (anonymous users files) (Option.bind (get64 b i) f)"
  "(\<And>y. pred_option (anonymous users files) (g y)) \<Longrightarrow>
     pred_option (anonymous users files) (Option.bind (get32 b i) g)"
  by (auto simp: pred_option_def bind_eq_Some_conv)

lemma Add_anonymous:
  "anonymous users files mn \<Longrightarrow> nameless c \<Longrightarrow> pred_option (anonymous users files) (Add c v mn)"
  by (auto simp: Add_def anonymous_def)

lemma Add_bind_anonymous:
  "anonymous users files mn \<Longrightarrow> nameless c \<Longrightarrow>
     (\<And>m. anonymous users files m \<Longrightarrow> pred_option (anonymous users files) (f m)) \<Longrightarrow>
     pred_option (anonymous users files) (Option.bind (Add c v mn) f)"
  using Add_anonymous [of users files mn c v] by (cases "Add c v mn") auto

lemma close_ops_anonymous:
  "nameless_labels l \<Longrightarrow> anonymous users files mn \<Longrightarrow>
     pred_option (anonymous users files) (close_ops buf offset l old mn)"
  unfolding close_ops_def Let_def
  by (intro bind_anonymous Add_bind_anonymous Add_anonymous) simp_all

lemma close_bytes_anonymous:
  "nameless_labels l \<Longrightarrow> anonymous users files mn \<Longrightarrow>
     pred_option (anonymous users files) (close_bytes buf offset l old mn)"
  unfolding close_bytes_def Let_def
  by (intro bind_anonymous Add_bind_anonymous Add_anonymous) simp_all

lemma close_transfer_anonymous:
  assumes users: "cache_holds (fst caches) users" and files: "cache_holds (snd caches) files"
    and step: "close_transfer caches now k mn = ((l, old), mn')"
    and inv: "anonymous users files mn"
  shows "nameless_labels l" and "anonymous users files mn'"
proof -
  obtain x tr where get: "ch_Get (snd caches) now k (mn_transfers mn) = (x, tr)"
    by (cases "ch_Get (snd caches) now k (mn_transfers mn)")
  let ?mn = "mn\<lparr>mn_transfers := ch_Delete (snd caches) k tr\<rparr>"
  have inv': "anonymous users files ?mn"
    using inv cache_holdsD(4) [OF files] cache_holdsD(2) [OF files get]
    by (intro anonymous_transfers) blast+
  have "nameless_labels l \<and> anonymous users files mn'"
  proof (cases x)
    case None
    with step get inv' show ?thesis
      by (auto simp add: close_transfer_def nameless_labels_def)
  next
    case (Some xfer)
    obtain u se where user: "ch_Get (fst caches) now (fr_UserId xfer) (mn_sessions mn) = (u, se)"
      by (cases "ch_Get (fst caches) now (fr_UserId xfer) (mn_sessions mn)")
    have "fr_Path xfer \<in> {[], ''/''}"
      using anonymous_transfer [OF inv] cache_holdsD(1) [OF files get [unfolded Some]] by blast
    moreover have "u = None \<or> u = Some no_user"
      using anonymous_session [OF inv] cache_holdsD(1) [OF users] user by (cases u) blast+
    ultimately have "nameless_labels (session_labels xfer u)"
      by (auto simp: session_labels_def nameless_labels_def no_user_def)
    moreover have "anonymous users files
        (?mn\<lparr>mn_sessions := ch_Delete (fst caches) (fr_UserId xfer) se\<rparr>)"
      using cache_holdsD(4) [OF users] cache_holdsD(2) [OF users user]
      by (intro anonymous_sessions inv') auto
    ultimately show ?thesis using step get user Some by (simp add: close_transfer_def) blast
  qed
  then show "nameless_labels l" and "anonymous users files mn'" by simp_all
qed

lemma handle_close_anonymous:
  assumes users: "cache_holds (fst caches) users" and files: "cache_holds (snd caches) files"
    and inv: "anonymous users files mn"
  shows "pred_option (anonymous users files) (handle_close caches now buf offset hdr mn)"
proof -
  obtain l old m where ct: "close_transfer caches now (fh_FileId hdr) mn = ((l, old), m)"
    by (metis surj_pair)
  note l = close_transfer_anonymous [OF users files ct inv]
  let ?ops = "if fh_RecFlag hdr AND 0x02 = 0x02 then close_ops buf offset l old m else Some m"
  have "pred_option (anonymous users files) ?ops"
    using l close_ops_anonymous [OF l] by simp
  then have "pred_option (anonymous users files) (Option.bind ?ops (close_bytes buf offset l old))"
    using close_bytes_anonymous [OF l(1)] by (cases ?ops) simp_all
  with ct show ?thesis by (simp add: handle_close_def)
qed

lemma Set_transfer_anonymous:
  assumes "cache_holds (snd caches) files" "anonymous users files mn" "fr_Path f \<in> {[], ''/''}"
    and "\<And>g. g \<in> files tr \<Longrightarrow> g \<in> files (mn_transfers mn)"
  shows "anonymous users files (mn\<lparr>mn_transfers := ch_Set (snd caches) now k f tr\<rparr>)"
  using assms(3,4) cache_holdsD(3) [OF assms(1)] by (intro anonymous_transfers assms(2)) blast

lemma handle_open_anonymous:
  assumes files: "cache_holds (snd caches) files" and inv: "anonymous users files mn"
  shows "pred_option (anonymous users files) (handle_open caches now buf offset hdr mn)"
  using Set_transfer_anonymous [OF files inv]
  by (auto simp: handle_open_def pred_option_def bind_eq_Some_conv new_file_def)

lemma handle_xfr_anonymous:
  assumes files: "cache_holds (snd caches) files" and inv: "anonymous users files mn"
  shows "pred_option (anonymous users files) (handle_xfr caches now buf offset hdr mn)"
proof -
  obtain x tr where get: "ch_Get (snd caches) now (fh_FileId hdr) (mn_transfers mn) = (x, tr)"
    by (cases "ch_Get (snd caches) now (fh_FileId hdr) (mn_transfers mn)")
  have "fr_Path (case x of None \<Rightarrow> new_file 0 [] | Some r \<Rightarrow> r) \<in> {[], ''/''}"
    using anonymous_transfer [OF inv] cache_holdsD(1) [OF files] get
    by (cases x) (simp add: new_file_def, auto)
  with Set_transfer_anonymous [OF files inv] cache_holdsD(2) [OF files get] get show ?thesis
    unfolding handle_xfr_def by (simp add: Let_def) (intro bind_anonymous, simp)
qed

lemma handle_record_anonymous:
  assumes users: "cache_holds (fst caches) users" and files: "cache_holds (snd caches) files"
    and inv: "anonymous users files mn"
  shows "pred_option (anonymous users files) (handle_record caches now buf offset hdr mn)"
proof -
  have "anonymous users files (handle_disc caches hdr mn)"
    using cache_holdsD(4) [OF users] by (simp add: handle_disc_def) (intro anonymous_sessions inv, blast)
  then show ?thesis
    by (simp add: handle_record_def inv handle_close_anonymous [OF users files inv]
          handle_open_anonymous [OF files inv] handle_xfr_anonymous [OF files inv])
qed

lemma fstream_loop_anonymous:
  assumes users: "cache_holds (fst caches) users" and files: "cache_holds (snd caches) files"
    and ret: "fstream_loop caches now buf left offset mn = Some r"
  shows "anonymous users files mn \<Longrightarrow> r = Ran (e, mn') \<Longrightarrow> anonymous users files mn'"
proof -
  let ?P = "\<lambda>c (n :: int) (b :: bytes) (l :: uint16) (off :: uint32) mn r. c = caches \<longrightarrow>
    anonymous users files mn \<longrightarrow> (\<forall>e mn'. r = Ran (e :: mon_error option, mn') \<longrightarrow> anonymous users files mn')"
  have "?P caches now buf left offset mn r"
  proof (rule fstream_loop.raw_induct [where P = ?P, OF _ ret])
    fix loop c n b l off mn r
    assume IH: "\<And>c n b l off mn r. loop c n b l off mn = Some r \<Longrightarrow> ?P c n b l off mn r"
      and body: "(if l = 0 then Some (Ran (None, mn))
        else case slice32 off (off + 8) b of None \<Rightarrow> Some Panicked
          | Some hd8 \<Rightarrow> (case ParseFileHeader hd8 of Inl e \<Rightarrow> Some (Ran (Some e, mn))
              | Inr hdr \<Rightarrow> (case handle_record c n b off hdr mn of None \<Rightarrow> Some Panicked
                  | Some mn' \<Rightarrow> loop c n b (l - fh_RecSize hdr) (off + scast (fh_RecSize hdr)) mn'))) = Some r"
    show "?P c n b l off mn r"
    proof (intro impI)
      assume c: "c = caches" and inv: "anonymous users files mn"
      note rec = handle_record_anonymous [OF users files inv]
      show "\<forall>e mn'. r = Ran (e, mn') \<longrightarrow> anonymous users files mn'"
      proof (cases "r = Panicked \<or> (\<exists>e. r = Ran (e, mn))")
        case False
        with body obtain hdr m where m: "handle_record c n b off hdr mn = Some m"
          and rest: "loop c n b (l - fh_RecSize hdr) (off + scast (fh_RecSize hdr)) m = Some r"
          by (auto split: if_splits option.splits sum.splits)
        from rec [of n b off hdr] m c have "anonymous users files m" by simp
        with IH [OF rest] c show ?thesis by blast
      qed (use inv in auto)
    qed
  qed
  then show "anonymous users files mn \<Longrightarrow> r = Ran (e, mn') \<Longrightarrow> anonymous users files mn'" by blast
qed

lemma summary_stat_anonymous:
  assumes inv: "anonymous users files mn"
  shows "pred_option (anonymous users files) (summary_stat stat mn)"
proof -
  have keep: "anonymous users files (m\<lparr>mn_lastStats := x\<rparr>)" if "anonymous users files m"
    for m :: "('a, 'b) Monitoring" and x
    using that by (simp add: anonymous_def)
  have "pred_option (anonymous users files) (link_stat stat mn)"
    unfolding link_stat_def Let_def by (intro Add_bind_anonymous inv keep) (simp_all add: keep)
  moreover have "anonymous users files (sched_stat stat mn)"
    using inv by (simp add: sched_stat_def anonymous_def)
  ultimately show ?thesis using inv by (simp add: summary_stat_def)
qed

lemma summary_stats_anonymous:
  "anonymous users files mn \<Longrightarrow> pred_option (anonymous users files) (summary_stats stats mn)"
proof (induction stats arbitrary: mn)
  case (Cons s stats)
  from Cons.prems have "pred_option (anonymous users files) (summary_stat s mn)"
    by (rule summary_stat_anonymous)
  with Cons.IH show ?case by (cases "summary_stat s mn") simp_all
qed simp

lemma HandlePacket_anonymous:
  assumes users: "cache_holds (fst caches) users" and files: "cache_holds (snd caches) files"
    and inv: "anonymous users files mn"
    and ret: "HandlePacket caches unmarshal now plen buf mn = Some (Ran (e, mn'))"
  shows "anonymous users files mn'"
proof -
  have summary: ?thesis if "HandleSummaryPacket unmarshal p mn = Ran (e, mn')" for p
    using that summary_stats_anonymous [OF inv] inv
    by (auto simp: HandleSummaryPacket_def split: option.splits) (metis option.pred_inject(2))
  have dict: ?thesis if "HandleDict caches now plen buf mn = (e, mn')"
    using that inv Set_transfer_anonymous [OF files inv]
    by (auto simp: HandleDict_def new_file_def ComputePrefix_rune
          split: if_splits sum.splits dest!: GetSIDRest_rune)
  have user: ?thesis if "HandleUser caches now buf w mn = Ran (e, mn')" for w
  proof -
    have "anonymous users files (mn\<lparr>mn_sessions := ch_Set (fst caches) now u no_user (mn_sessions mn)\<rparr>)" for u
      using cache_holdsD(3) [OF users] by (intro anonymous_sessions inv) blast
    with that inv show ?thesis
      by (auto simp: HandleUser_def Let_def user_of_rune
            split: option.splits sum.splits dest!: GetSIDRest_rune)
  qed
  have fstream: ?thesis if "HandleFstream caches now plen buf w mn = Some (Ran (e, mn'))" for w
    using that inv fstream_loop_anonymous [OF users files _ inv refl]
    by (auto simp: HandleFstream_def Let_def split: if_splits)
  from ret inv summary dict user fstream show ?thesis
    by (simp add: HandlePacket_def Let_def split: if_splits)
qed

lemma receive_all_anonymous:
  assumes users: "cache_holds (fst caches) users" and files: "cache_holds (snd caches) files"
  shows "anonymous users files mn \<Longrightarrow> receive_all caches unmarshal ds mn = Some (Ran mn') \<Longrightarrow>
    anonymous users files mn'"
proof (induction ds arbitrary: mn)
  case (Cons d ds)
  obtain now datagram where d: "d = (now, datagram)" by (cases d)
  from Cons.prems(2) d obtain m where step: "receive_step caches unmarshal now datagram mn = Some (Ran m)"
    and rest: "receive_all caches unmarshal ds m = Some (Ran mn')"
    by (auto split: option.splits ran.splits)
  have keep: "anonymous users files (mn\<lparr>mn_received := n, mn_buf := b\<rparr>)" for n b
    using Cons.prems(1) by (simp add: anonymous_def)
  from step obtain z n b where
      packet: "HandlePacket caches unmarshal now n b (mn\<lparr>mn_received := mn_received mn + 1, mn_buf := b\<rparr>) = Some z"
      and z: "(case z of Panicked \<Rightarrow> Panicked | Ran (_, mn') \<Rightarrow> Ran mn') = Ran m"
    unfolding receive_step_def Let_def map_option_eq_Some by blast
  from z obtain e where "z = Ran (e, m)" by (cases z) (auto split: prod.splits)
  with packet have "anonymous users files m"
    using HandlePacket_anonymous [OF users files keep] by blast
  with rest show ?case using Cons.IH by blast
qed simp

text \<open>C39: Whatever packets arrive, no counter is ever added to under a path or a user: the path
  label is empty or the root and the labels of the user are empty, for any configured prefixes.
\<close>

theorem labels_never_named:
  assumes "cache_holds users user_items" and "cache_holds files file_items"
    and "user_items sessions = {}" and "file_items transfers = {}"
    and "receive_all (users, files) unmarshal ds (monitoring_init sessions transfers paths) = Some (Ran mn)"
  shows "list_all (\<lambda>(c, v). nameless c \<and> 0 \<le> v) (mn_added mn)"
proof -
  have "anonymous user_items file_items (monitoring_init sessions transfers paths)"
    using assms(3,4) by (simp add: anonymous_def monitoring_init_def)
  from receive_all_anonymous [OF _ _ this assms(5)] assms(1,2) show ?thesis
    by (simp add: anonymous_def list_all_iff)
qed

definition day_items :: "('k \<Rightarrow> ('v \<times> int) option) \<Rightarrow> 'v set" where
  "day_items c = fst ` ran c"

lemma day_cache_holds: "cache_holds day_cache day_items"
  unfolding cache_holds_def day_items_def
  by (auto simp: day_cache_def ran_def split: option.splits if_splits) (force+)?

abbreviation (input) "day_caches \<equiv> (day_cache, day_cache)"

abbreviation example_start ::
  "(UserId \<Rightarrow> (UserRecord \<times> int) option, FileId \<Rightarrow> (FileRecord \<times> int) option) Monitoring" where
  "example_start \<equiv> monitoring_init Map.empty Map.empty []"

abbreviation (input) "example_open \<equiv> hd example_records"

abbreviation (input) "example_close \<equiv> last example_records"

lemma example_values:
  "get32 example_open 16 = Some 9" "get64 example_close 8 = Some 5"
  "get64 example_close 16 = Some 0" "get64 example_close 24 = Some 3"
  by (simp_all add: example_records_def get32_def get64_def slice32_def field_def be32_def be64_def be_nat_def
      del: be_bytes.simps) (code_simp+)?

lemma example_headers:
  "fh_RecType (record_header example_open) = 1" "fh_RecFlag (record_header example_open) = 0"
  "fh_RecType (record_header example_close) = 0" "fh_RecFlag (record_header example_close) = 0"
  by (simp_all add: example_records_def record_header_def ParseFileHeader_def field_def be16_def be8_def
      be_nat_def numeral_eq_Suc)

lemma example_file:
  "fh_FileId (record_header example_open) = 7" "fh_FileId (record_header example_close) = 7"
  by code_simp+

lemma example_records_two: "example_records = [example_open, example_close]"
  by (simp add: example_records_def)

abbreviation (input) "example_labels \<equiv> \<lparr>lb_path = [], lb_ap = [], lb_dn = [], lb_role = [], lb_org = []\<rparr>"

lemma example_run:
  "\<exists>mn'. run_records day_caches 0 example_records (example_start\<lparr>mn_received := n, mn_buf := b\<rparr>) = Ran (None, mn') \<and>
     mn_added mn' = [(TransferBytes example_labels ''read'', 5), (TransferBytes example_labels ''readv'', 0),
                     (TransferBytes example_labels ''write'', 3)]"
  by (subst example_records_two)
    (simp add: example_values example_headers example_file handle_record_def handle_open_def handle_close_def close_transfer_def
      close_bytes_def Add_def monitoring_init_def day_cache_def new_file_def session_labels_def)

lemma example_received:
  "\<exists>mn'. receive_all day_caches (\<lambda>_. None)
       [(0, fstream_packet CHR 0x01 (be_bytes 4 1) example_tod example_records)] example_start = Some (Ran mn') \<and>
     mn_added mn' = [(TransferBytes example_labels ''read'', 5), (TransferBytes example_labels ''readv'', 0),
                     (TransferBytes example_labels ''write'', 3)]"
proof -
  let ?p = "fstream_packet CHR 0x01 (be_bytes 4 1) example_tod example_records"
  let ?b = "?p @ drop 84 (replicate receive_buffer_size nul)"
  have size: "length (concat example_records) = 52" by (simp add: example_records_def)
  then have len: "length ?p = 84" by (simp add: fstream_packet_def example_tod_size)
  obtain mn' where run: "run_records day_caches 0 example_records
        (example_start\<lparr>mn_received := mn_received example_start + 1, mn_buf := ?b\<rparr>) = Ran (None, mn')"
    and added: "mn_added mn' = [(TransferBytes example_labels ''read'', 5), (TransferBytes example_labels ''readv'', 0),
                     (TransferBytes example_labels ''write'', 3)]"
    using example_run by blast
  have "HandlePacket day_caches (\<lambda>_. None) 0 84 ?b
      (example_start\<lparr>mn_received := mn_received example_start + 1, mn_buf := ?b\<rparr>) = Some (Ran (None, mn'))"
    unfolding run [symmetric]
    by (rule fstream_records_in_order [of "be_bytes 4 1" example_tod example_records _ _ _ "CHR 0x01", unfolded len])
      (simp_all add: size example_tod_size example_records_complete)
  moreover have "mn_buf example_start = replicate receive_buffer_size nul" by (simp add: monitoring_init_def)
  moreover have "take receive_buffer_size ?p = ?p" using len by (simp add: receive_buffer_size_def)
  ultimately have "receive_step day_caches (\<lambda>_. None) 0 ?p example_start = Some (Ran mn')"
    unfolding receive_step_def Let_def by (simp only: len) simp
  with added show ?thesis by auto
qed

theorem labels_never_named_witness:
  "\<exists>mn. receive_all day_caches (\<lambda>_. None)
       [(0, fstream_packet CHR 0x01 (be_bytes 4 1) example_tod example_records)] example_start = Some (Ran mn) \<and>
     length (mn_added mn) = 3 \<and> list_all (\<lambda>(c, v). nameless c \<and> 0 \<le> v) (mn_added mn)"
proof -
  obtain mn where run: "receive_all day_caches (\<lambda>_. None)
       [(0, fstream_packet CHR 0x01 (be_bytes 4 1) example_tod example_records)] example_start = Some (Ran mn)"
    and "length (mn_added mn) = 3"
    using example_received by auto
  moreover have "list_all (\<lambda>(c, v). nameless c \<and> 0 \<le> v) (mn_added mn)"
    by (rule labels_never_named [OF day_cache_holds day_cache_holds _ _ run]) (simp_all add: day_items_def)
  ultimately show ?thesis by blast
qed

subsection \<open>What a closed transfer adds\<close>

text \<open>The cache keeps what was set for its time to live.\<close>

definition cache_keeps :: "int \<Rightarrow> ('k, 'v, 'c) ttlcache \<Rightarrow> bool" where
  "cache_keeps ttl ops \<longleftrightarrow>
     (\<forall>t t' k v c. t \<le> t' \<and> t' \<le> t + ttl \<longrightarrow> fst (ch_Get ops t' k (ch_Set ops t k v c)) = Some v)"

lemma cache_keepsD:
  assumes "cache_keeps ttl ops" "t \<le> t'" "t' \<le> t + ttl"
  obtains c' where "ch_Get ops t' k (ch_Set ops t k v c) = (Some v, c')"
  using assms unfolding cache_keeps_def by (metis prod.collapse)

lemma handle_xfr_stores:
  assumes "handle_xfr caches now buf off hdr mn = Some mn'"
    and "ch_Get (snd caches) now (fh_FileId hdr) (mn_transfers mn) = (Some f, tr)"
    and "get64 buf (off + 8) = Some r" "get64 buf (off + 16) = Some v" "get64 buf (off + 24) = Some w"
  shows "mn' = mn\<lparr>mn_transfers := ch_Set (snd caches) now (fh_FileId hdr)
           (f\<lparr>fr_ReadBytes := r, fr_ReadvBytes := v, fr_WriteBytes := w\<rparr>) tr\<rparr>"
  using assms by (simp add: handle_xfr_def)

lemma handle_close_adds:
  assumes "handle_close caches now buf off hdr mn = Some mn'"
    and "ch_Get (snd caches) now (fh_FileId hdr) (mn_transfers mn) = (Some f, tr)"
    and "fh_RecFlag hdr AND 0x02 \<noteq> 0x02"
    and "get64 buf (off + 8) = Some r" "get64 buf (off + 16) = Some v" "get64 buf (off + 24) = Some w"
  shows "\<exists>l. lb_path l = fr_Path f \<and> mn_added mn' = mn_added mn @
           [(TransferBytes l ''read'', sint (r - fr_ReadBytes f)),
            (TransferBytes l ''readv'', sint (v - fr_ReadvBytes f)),
            (TransferBytes l ''write'', sint (w - fr_WriteBytes f))]"
  using assms
  by (auto simp: handle_close_def close_transfer_def close_bytes_def Add_def session_labels_def add.assoc
        split: prod.splits if_splits option.splits)

text \<open>The bytes a transfer report announced are not counted when the file is closed: a close
  adds the difference to the last report, and nothing was added for the report itself.
\<close>

theorem close_counts_since_last_report:
  assumes "cache_keeps ttl (snd caches)"
    and "fh_RecType opn = 1" "fh_RecType xfr = 3" "fh_RecType cls = 0"
    and "fh_FileId xfr = fh_FileId opn" "fh_FileId cls = fh_FileId opn" "fh_RecFlag cls AND 0x02 \<noteq> 0x02"
    and "t1 \<le> t2" "t2 \<le> t1 + ttl" "t2 \<le> t3" "t3 \<le> t2 + ttl"
    and "handle_record caches t1 b1 o1 opn mn = Some mn1"
    and "handle_record caches t2 b2 o2 xfr mn1 = Some mn2"
    and "handle_record caches t3 b3 o3 cls mn2 = Some mn3"
    and "get64 b2 (o2 + 8) = Some r2" "get64 b2 (o2 + 16) = Some v2" "get64 b2 (o2 + 24) = Some w2"
    and "get64 b3 (o3 + 8) = Some r3" "get64 b3 (o3 + 16) = Some v3" "get64 b3 (o3 + 24) = Some w3"
  shows "\<exists>l. lb_path l = [] \<and> mn_added mn3 = mn_added mn @
           [(TransferBytes l ''read'', sint (r3 - r2)), (TransferBytes l ''readv'', sint (v3 - v2)),
            (TransferBytes l ''write'', sint (w3 - w2))]"
proof -
  let ?k = "fh_FileId opn"
  obtain u where mn1: "mn1 = mn\<lparr>mn_transfers := ch_Set (snd caches) t1 ?k (new_file u []) (mn_transfers mn)\<rparr>"
    using assms(2,12) by (auto simp: handle_record_def handle_open_def bind_eq_Some_conv)
  obtain tr where "ch_Get (snd caches) t2 ?k (mn_transfers mn1) = (Some (new_file u []), tr)"
    using cache_keepsD [OF assms(1,8,9), of ?k "new_file u []" "mn_transfers mn"] mn1 by auto
  with assms(3,5,13,15-17) have mn2: "mn2 = mn1\<lparr>mn_transfers := ch_Set (snd caches) t2 ?k
      ((new_file u [])\<lparr>fr_ReadBytes := r2, fr_ReadvBytes := v2, fr_WriteBytes := w2\<rparr>) tr\<rparr>"
    using handle_xfr_stores [of caches t2 b2 o2 xfr mn1 mn2] by (simp add: handle_record_def)
  obtain tr' where "ch_Get (snd caches) t3 ?k (mn_transfers mn2) =
      (Some ((new_file u [])\<lparr>fr_ReadBytes := r2, fr_ReadvBytes := v2, fr_WriteBytes := w2\<rparr>), tr')"
    using cache_keepsD [OF assms(1,10,11), of ?k _ tr] mn2 by auto
  then have get: "ch_Get (snd caches) t3 (fh_FileId cls) (mn_transfers mn2) =
      (Some ((new_file u [])\<lparr>fr_ReadBytes := r2, fr_ReadvBytes := v2, fr_WriteBytes := w2\<rparr>), tr')"
    using assms(6) by simp
  have close: "handle_close caches t3 b3 o3 cls mn2 = Some mn3"
    using assms(4,14) by (simp add: handle_record_def)
  have "mn_added mn2 = mn_added mn" using mn1 mn2 by simp
  with handle_close_adds [OF close get assms(7,18-20)] show ?thesis by (simp add: new_file_def)
qed

definition example_xfr :: bytes where
  "example_xfr = [CHR 0x03, CHR 0x00, CHR 0x00, CHR 0x20] @ be_bytes 4 7 @ be_bytes 8 2 @ be_bytes 8 0 @ be_bytes 8 1"

lemma example_xfr_values:
  "get64 example_xfr 8 = Some 2" "get64 example_xfr 16 = Some 0" "get64 example_xfr 24 = Some 1"
  "fh_RecType (record_header example_xfr) = 3" "fh_FileId (record_header example_xfr) = 7"
  by code_simp+

lemma day_cache_keeps: "cache_keeps 86400 day_cache"
  by (simp add: cache_keeps_def day_cache_def)

theorem close_counts_since_last_report_witness:
  "\<exists>mn1 mn2 mn3 l. handle_record day_caches 0 example_open 0 (record_header example_open) example_start = Some mn1 \<and>
     handle_record day_caches 5 example_xfr 0 (record_header example_xfr) mn1 = Some mn2 \<and>
     handle_record day_caches 9 example_close 0 (record_header example_close) mn2 = Some mn3 \<and>
     mn_added mn3 = [(TransferBytes l ''read'', 3), (TransferBytes l ''readv'', 0), (TransferBytes l ''write'', 2)]"
proof -
  have "\<exists>mn1 mn2 mn3. handle_record day_caches 0 example_open 0 (record_header example_open) example_start = Some mn1 \<and>
     handle_record day_caches 5 example_xfr 0 (record_header example_xfr) mn1 = Some mn2 \<and>
     handle_record day_caches 9 example_close 0 (record_header example_close) mn2 = Some mn3"
    by (simp add: example_values example_headers example_file example_xfr_values handle_record_def
        handle_open_def handle_xfr_def handle_close_def close_transfer_def close_bytes_def Add_def
        monitoring_init_def day_cache_def new_file_def session_labels_def)
  then obtain mn1 mn2 mn3 where steps:
      "handle_record day_caches 0 example_open 0 (record_header example_open) example_start = Some mn1"
      "handle_record day_caches 5 example_xfr 0 (record_header example_xfr) mn1 = Some mn2"
      "handle_record day_caches 9 example_close 0 (record_header example_close) mn2 = Some mn3" by blast
  have start: "mn_added example_start = []" by (simp add: monitoring_init_def)
  have "\<exists>l. lb_path l = [] \<and> mn_added mn3 = mn_added example_start @ [(TransferBytes l ''read'', sint (5 - 2 :: uint64)),
      (TransferBytes l ''readv'', sint (0 - 0 :: uint64)), (TransferBytes l ''write'', sint (3 - 1 :: uint64))]"
    by (rule close_counts_since_last_report [OF _ _ _ _ _ _ _ _ _ _ _ steps, where ttl = 86400])
      (simp_all add: day_cache_keeps example_values example_headers example_file example_xfr_values)
  with start steps show ?thesis by auto
qed

subsection \<open>Summary packets\<close>

text \<open>
  The reference: a counter grows by the difference to the last value, and by the whole value
  when it is smaller, as after a restart of the server.
\<close>

fun growth :: "int \<Rightarrow> int list \<Rightarrow> int" where
  "growth prev [] = 0"
| "growth prev (x # xs) = (if x < prev then x else x - prev) + growth x xs"

lemma growth_sorted: "sorted (prev # xs) \<Longrightarrow> growth prev xs = last (prev # xs) - prev"
  by (induction xs arbitrary: prev) auto

definition counted :: "counter \<Rightarrow> ('s, 't) Monitoring \<Rightarrow> int" where
  "counted c mn = (\<Sum>(c', v) \<leftarrow> mn_added mn. if c' = c then v else 0)"

definition link_sane :: "SummaryStat \<Rightarrow> bool" where
  "link_sane s \<longleftrightarrow> 0 \<le> sint (ss_LinkConnections s) \<and> 0 \<le> sint (ss_LinkInBytes s) \<and> 0 \<le> sint (ss_LinkOutBytes s)"

lemma incBy_growth:
  assumes "0 \<le> sint new" "0 \<le> sint prev"
  shows "incBy new prev = (if sint new < sint prev then sint new else sint new - sint prev)" "0 \<le> incBy new prev"
proof -
  have "sint new < 2 ^ 63" "sint prev < 2 ^ 63" using sint_lt [of new] sint_lt [of prev] by simp_all
  then have "sint (new - prev) = sint new - sint prev" if "sint prev \<le> sint new"
    using that assms by (simp add: sint_word_ariths signed_take_bit_int_eq_self)
  then show "incBy new prev = (if sint new < sint prev then sint new else sint new - sint prev)"
    by (simp add: incBy_def word_sless_alt)
  then show "0 \<le> incBy new prev" using assms by simp
qed

lemma counted_Add:
  "0 \<le> v \<Longrightarrow> Add c v mn = Some (mn\<lparr>mn_added := mn_added mn @ [(c, v)]\<rparr>)"
  "counted c (mn\<lparr>mn_added := mn_added mn @ added\<rparr>) = counted c mn + (\<Sum>(c', v) \<leftarrow> added. if c' = c then v else 0)"
  by (simp_all add: Add_def counted_def)

lemma link_stat_counts:
  assumes "link_sane s" "link_sane (mn_lastStats mn)"
  obtains mn' where "link_stat s mn = Some mn'"
    "ss_LinkConnections (mn_lastStats mn') = ss_LinkConnections s"
    "ss_LinkInBytes (mn_lastStats mn') = ss_LinkInBytes s" "ss_LinkOutBytes (mn_lastStats mn') = ss_LinkOutBytes s"
    "counted Connections mn' = counted Connections mn + incBy (ss_LinkConnections s) (ss_LinkConnections (mn_lastStats mn))"
    "counted (BytesXfer ''rx'') mn' = counted (BytesXfer ''rx'') mn + incBy (ss_LinkInBytes s) (ss_LinkInBytes (mn_lastStats mn))"
    "counted (BytesXfer ''tx'') mn' = counted (BytesXfer ''tx'') mn + incBy (ss_LinkOutBytes s) (ss_LinkOutBytes (mn_lastStats mn))"
proof -
  have "\<not> incBy (ss_LinkConnections s) (ss_LinkConnections (mn_lastStats mn)) < 0"
    "\<not> incBy (ss_LinkInBytes s) (ss_LinkInBytes (mn_lastStats mn)) < 0"
    "\<not> incBy (ss_LinkOutBytes s) (ss_LinkOutBytes (mn_lastStats mn)) < 0"
    using assms incBy_growth(2) by (auto simp: link_sane_def not_less)
  then have run: "link_stat s mn = Some (mn\<lparr>mn_added := mn_added mn @
      [(Connections, incBy (ss_LinkConnections s) (ss_LinkConnections (mn_lastStats mn))),
       (BytesXfer ''rx'', incBy (ss_LinkInBytes s) (ss_LinkInBytes (mn_lastStats mn))),
       (BytesXfer ''tx'', incBy (ss_LinkOutBytes s) (ss_LinkOutBytes (mn_lastStats mn)))],
      mn_lastStats := (mn_lastStats mn)\<lparr>ss_LinkConnections := ss_LinkConnections s,
        ss_LinkInBytes := ss_LinkInBytes s, ss_LinkOutBytes := ss_LinkOutBytes s\<rparr>\<rparr>)"
    by (simp add: link_stat_def Add_def Let_def)
  show ?thesis by (rule that [OF run]) (simp_all add: counted_def)
qed

text \<open>C32: Over any sequence of summary packets the connection and byte counters add up to the
  reference growth of the values the server reported, whatever else the packets hold: as
  integers, before each amount is converted to \<open>float64\<close>, which is exact up to \<open>2^53\<close>.
\<close>

theorem summary_counts_growth:
  assumes "list_all link_sane (filter (\<lambda>s. ss_Id s = ''link'') stats)" and "link_sane (mn_lastStats mn)"
  defines "links \<equiv> filter (\<lambda>s. ss_Id s = ''link'') stats"
  shows "\<exists>mn'. summary_stats stats mn = Some mn' \<and>
     counted Connections mn' = counted Connections mn +
       growth (sint (ss_LinkConnections (mn_lastStats mn))) (List.map (sint \<circ> ss_LinkConnections) links) \<and>
     counted (BytesXfer ''rx'') mn' = counted (BytesXfer ''rx'') mn +
       growth (sint (ss_LinkInBytes (mn_lastStats mn))) (List.map (sint \<circ> ss_LinkInBytes) links) \<and>
     counted (BytesXfer ''tx'') mn' = counted (BytesXfer ''tx'') mn +
       growth (sint (ss_LinkOutBytes (mn_lastStats mn))) (List.map (sint \<circ> ss_LinkOutBytes) links)"
  using assms(1,2) unfolding links_def
proof (induction stats arbitrary: mn)
  case (Cons s stats)
  show ?case
  proof (cases "ss_Id s = ''link''")
    case True
    with Cons.prems have s: "link_sane s" by simp
    from link_stat_counts [OF s Cons.prems(2)] obtain m where m: "link_stat s mn = Some m"
      and last: "ss_LinkConnections (mn_lastStats m) = ss_LinkConnections s"
        "ss_LinkInBytes (mn_lastStats m) = ss_LinkInBytes s" "ss_LinkOutBytes (mn_lastStats m) = ss_LinkOutBytes s"
      and sums: "counted Connections m = counted Connections mn + incBy (ss_LinkConnections s) (ss_LinkConnections (mn_lastStats mn))"
        "counted (BytesXfer ''rx'') m = counted (BytesXfer ''rx'') mn + incBy (ss_LinkInBytes s) (ss_LinkInBytes (mn_lastStats mn))"
        "counted (BytesXfer ''tx'') m = counted (BytesXfer ''tx'') mn + incBy (ss_LinkOutBytes s) (ss_LinkOutBytes (mn_lastStats mn))" .
    from s last have "link_sane (mn_lastStats m)" by (simp add: link_sane_def)
    with Cons.prems(1) True have "list_all link_sane (filter (\<lambda>s. ss_Id s = ''link'') stats)" "link_sane (mn_lastStats m)"
      by simp_all
    from Cons.IH [OF this] show ?thesis
      using s Cons.prems(2) True m last sums by (auto simp: summary_stat_def link_sane_def incBy_growth(1) algebra_simps)
  next
    case False
    define m where "m = (if ss_Id s = ''sched'' then sched_stat s mn else mn)"
    have "mn_lastStats m = mn_lastStats mn" "\<And>c. counted c m = counted c mn"
      by (simp_all add: m_def sched_stat_def counted_def)
    moreover have "summary_stat s mn = Some m" using False by (simp add: summary_stat_def m_def)
    ultimately show ?thesis using Cons.IH [of m] Cons.prems False by simp
  qed
qed simp

definition example_stat :: "string \<Rightarrow> int64 \<Rightarrow> SummaryStat" where
  "example_stat name n = no_stat\<lparr>ss_Id := name, ss_LinkConnections := n, ss_LinkInBytes := 10 * n\<rparr>"

theorem summary_counts_growth_witness:
  "\<exists>mn'. summary_stats [example_stat ''link'' 4, example_stat ''sched'' 0, example_stat ''link'' 9,
       example_stat ''link'' 2] example_start = Some mn' \<and>
     counted Connections mn' = 11 \<and> counted (BytesXfer ''rx'') mn' = 110 \<and> counted (BytesXfer ''tx'') mn' = 0"
  using summary_counts_growth [of "[example_stat ''link'' 4, example_stat ''sched'' 0, example_stat ''link'' 9,
       example_stat ''link'' 2]" example_start]
  by (simp add: example_stat_def no_stat_def link_sane_def monitoring_init_def counted_def)

end
