(* ===== verification/End_To_End.thy ===== *)
theory End_To_End
  imports Collector_Run Parser_Theorems Correlator_Theorems
begin

section \<open>From the bytes of two packets to a published record\<close>

text \<open>
  The components together: an f-stream packet that opens a file arrives as bytes, later one that
  closes it; in between the collector does anything else. The lemmas follow the packets through
  the parser, the correlator, the queue and a worker; the theorem at the end states what comes
  out in terms of the fields of the two packets.
\<close>

subsection \<open>A packet of file records through the packet loop\<close>

definition fstream_bytes ::
  "uint8 \<Rightarrow> int32 \<Rightarrow> bytes \<Rightarrow> wire_item list \<Rightarrow> bytes" where
  "fstream_bytes pseq stod tod xs = encode_packet PacketTypeFStat pseq stod (tod @ encode_items xs)"

lemma ParsePacket_fstream_bytes:
  assumes "wf_time_block h body" and "\<forall>x \<in> set xs. wf_item x" and "items_records xs \<noteq> []"
    and "length (fstream_bytes pseq stod (encode_time_block h body) xs) < 2 ^ 16"
  shows "\<exists>p. ParsePacket u (fstream_bytes pseq stod (encode_time_block h body) xs) = Inr p \<and>
    pkt_FileRecords p = items_records xs \<and> hdr_ServerStart (pkt_Header p) = stod"
proof -
  let ?tod = "encode_time_block h body" and ?b = "fstream_bytes pseq stod (encode_time_block h body) xs"
  obtain x where x: "x \<in> set xs" using assms(3) by (cases xs) (auto simp: items_records_def)
  with assms(2) have wf: "wf_item x" by simp
  then have "0 < length (encode_item x)" using length_encode_item [OF wf] by (cases "encode_item x") auto
  moreover obtain hdr where hdr: "length hdr = 8"
    "encode_packet PacketTypeFStat pseq stod (?tod @ encode_items xs) = hdr @ ?tod @ encode_items xs"
    using encode_packet_split by blast
  moreover have "?b = hdr @ ?tod @ encode_items xs @ take 0 (encode_item x)"
    using hdr(2) by (simp add: fstream_bytes_def)
  ultimately have "parseFileRecords ?b = (items_records xs, None)"
    using parseFileRecords_cut [OF hdr(1) assms(1,2) wf] by metis
  then show ?thesis
    using assms(4) by (simp add: fstream_bytes_def ParsePacket_encode parse_body_def bare_packet_def packet_header_def Let_def)
qed

lemma process_one_files:
  assumes "ParsePacket Unmarshal_map (pa_Data pkt) = Inr p" and "pkt_FileRecords p \<noteq> []"
    and "pl_ok (co_pl co)" and "p' = p\<lparr>pkt_RemoteAddr := pa_RemoteAddr pkt\<rparr>"
  shows "co_pl (process_one env now dest pkt co) =
    enqueue_records dest (enqueue_one env now) (fst (snd (ProcessPacket now p' (pl_corr (co_pl co)))))
      ((co_pl co)\<lparr>pl_corr := fst (ProcessPacket now p' (pl_corr (co_pl co)))\<rparr>)"
proof -
  have ok: "corr_ok (pl_corr (co_pl co))" using assms(3) by (simp add: pl_ok_def)
  have "pkt_GStreamRecord p = None" using ParsePacket_files [OF assms(1,2)] by simp
  then show ?thesis
    using assms(1,4) ProcessPacket_ok [OF ok, of now p']
    by (simp add: process_one_def handleParsedPacket_def tally_def Let_def case_prod_beta)
qed

subsection \<open>What may happen in between\<close>

text \<open>
  Any number of steps of the packet loop, the workers, the publisher and the janitors, at times
  up to \<open>t\<close>, as long as no packet is about the file \<open>f\<close> of the server \<open>s\<close>.
\<close>

definition about :: "string \<Rightarrow> uint32 \<Rightarrow> PacketWithAddr \<Rightarrow> bool" where
  "about s f pkt \<longleftrightarrow>
     (case ParsePacket Unmarshal_map (pa_Data pkt) of
        Inl e \<Rightarrow> False
      | Inr p \<Rightarrow> touches s f (Received (p\<lparr>pkt_RemoteAddr := pa_RemoteAddr pkt\<rparr>)))"

inductive meanwhile :: "Config \<Rightarrow> string \<Rightarrow> uint32 \<Rightarrow> int \<Rightarrow> 'd Collector \<Rightarrow> 'd Collector \<Rightarrow> bool"
  for config s f t co0 where
  nothing: "meanwhile config s f t co0 co0"
| packet: "meanwhile config s f t co0 co \<Longrightarrow> now \<le> t \<Longrightarrow> \<not> about s f pkt \<Longrightarrow>
    meanwhile config s f t co0 (process_one env now (enrichment_destination config) pkt co)"
| janitor: "meanwhile config s f t co0 co \<Longrightarrow> now \<le> t \<Longrightarrow>
    meanwhile config s f t co0 (co\<lparr>co_pl := (co_pl co)\<lparr>pl_corr := sweep_map now m (pl_corr (co_pl co))\<rparr>\<rparr>)"
| enrich: "meanwhile config s f t co0 co \<Longrightarrow> worker_step resolve uid hostname now give_up (co_pl co) = Some pl \<Longrightarrow>
    meanwhile config s f t co0 (co\<lparr>co_pl := pl\<rparr>)"
| gstream: "meanwhile config s f t co0 co \<Longrightarrow>
    gstream_worker_step resolve marshal genv hostname now config co = Some co' \<Longrightarrow> meanwhile config s f t co0 co'"
| publish: "meanwhile config s f t co0 co \<Longrightarrow> publisher_step render outcome co = Some co' \<Longrightarrow>
    meanwhile config s f t co0 co'"

abbreviation file_state :: "int \<Rightarrow> string \<Rightarrow> uint32 \<Rightarrow> 'd Collector \<Rightarrow> map_value option" where
  "file_state t s f co \<equiv> sm_Get t (BuildFileKey s f) (c_stateMap (pl_corr (co_pl co)))"

lemma enqueue_records_corr:
  "pl_ok pl \<Longrightarrow> ed_Results dest \<Longrightarrow>
     pl_ok (enqueue_records dest (enqueue_one env now) rs pl) \<and>
     pl_corr (enqueue_records dest (enqueue_one env now) rs pl) = pl_corr pl"
proof (induction rs arbitrary: pl)
  case (Cons r rs)
  note one = enqueue_one_accounted [OF Cons.prems, of env now r]
  from Cons.IH [of "enqueue_one env now r dest pl"] one Cons.prems show ?case by simp
qed simp

lemma process_one_corr:
  assumes "pl_ok (co_pl co)" and "ed_Results dest"
  shows "pl_ok (co_pl (process_one env now dest pkt co)) \<and>
    (pl_corr (co_pl (process_one env now dest pkt co)) = pl_corr (co_pl co) \<or>
     (\<exists>p. ParsePacket Unmarshal_map (pa_Data pkt) = Inr p \<and>
        pl_corr (co_pl (process_one env now dest pkt co)) =
          corr_apply (\<lambda>_. None) now (Received (p\<lparr>pkt_RemoteAddr := pa_RemoteAddr pkt\<rparr>)) (pl_corr (co_pl co))))"
proof (cases "ParsePacket Unmarshal_map (pa_Data pkt)")
  case (Inl e)
  with assms show ?thesis by (simp add: process_one_def tally_def Let_def)
next
  case (Inr p)
  let ?p = "p\<lparr>pkt_RemoteAddr := pa_RemoteAddr pkt\<rparr>"
  have ok: "corr_ok (pl_corr (co_pl co))" using assms(1) by (simp add: pl_ok_def)
  obtain c rs err where pp: "ProcessPacket now ?p (pl_corr (co_pl co)) = (c, rs, err)" by (metis prod.collapse)
  with ProcessPacket_ok [OF ok, of now ?p] have c: "corr_ok c" "err = None" by simp_all
  with assms(1) have "pl_ok ((co_pl co)\<lparr>pl_corr := c\<rparr>)" by (simp add: pl_ok_def)
  note enq = enqueue_records_corr [OF this assms(2), of env now rs]
  show ?thesis
  proof (cases "pkt_GStreamRecord p = None")
    case True
    with Inr pp c enq show ?thesis
      by (simp add: process_one_def handleParsedPacket_def tally_def Let_def)
  next
    case False
    with Inr assms(1) show ?thesis
      by (auto simp: process_one_def handleParsedPacket_def tally_def Let_def split: option.split)
  qed
qed

lemma run_enrichers_state:
  "c_stateMap (fst (run_enrichers resolve now cr)) = c_stateMap (fst cr)"
  by (simp add: run_enrichers_def Enrich_def enrich_server_name_def enrich_user_domain_def
      lookupDNSHostname_def Let_def case_prod_beta)

lemma worker_step_state:
  "worker_step resolve uid hostname now g pl = Some pl' \<Longrightarrow> c_stateMap (pl_corr pl') = c_stateMap (pl_corr pl)"
  by (auto simp: worker_step_def processEnrichmentRequest_def Let_def case_prod_beta run_enrichers_state
      split: option.splits prod.splits dequeue_result.splits)

lemma meanwhile_file_state:
  assumes "meanwhile config s f t co0 co" and "pl_ok (co_pl co0)"
  shows "pl_ok (co_pl co) \<and> file_state t s f co = file_state t s f co0"
  using assms
proof (induction rule: meanwhile.induct)
  case (packet co now pkt env)
  then have ok: "pl_ok (co_pl co)" "corr_ok (pl_corr (co_pl co))" by (simp_all add: pl_ok_def)
  have dest: "ed_Results (enrichment_destination config)" by (simp add: enrichment_destination_def)
  note one = process_one_corr [OF ok(1) dest, of env now pkt]
  have "file_state t s f (process_one env now (enrichment_destination config) pkt co) = file_state t s f co"
  proof (cases "pl_corr (co_pl (process_one env now (enrichment_destination config) pkt co)) = pl_corr (co_pl co)")
    case False
    with one obtain p where p: "ParsePacket Unmarshal_map (pa_Data pkt) = Inr p"
      "pl_corr (co_pl (process_one env now (enrichment_destination config) pkt co)) =
        corr_apply (\<lambda>_. None) now (Received (p\<lparr>pkt_RemoteAddr := pa_RemoteAddr pkt\<rparr>)) (pl_corr (co_pl co))"
      by blast
    have "\<not> touches s f (Received (p\<lparr>pkt_RemoteAddr := pa_RemoteAddr pkt\<rparr>))"
      using packet.hyps(3) p(1) by (simp add: about_def)
    from corr_apply_file_frame [OF ok(2) this packet.hyps(2)] show ?thesis unfolding p(2) .
  qed simp
  with one packet show ?case by simp
next
  case (janitor co now m)
  then have ok: "corr_ok (pl_corr (co_pl co))" by (simp add: pl_ok_def)
  have "\<not> touches s f (Janitor m)" by simp
  from corr_apply_file_frame [OF ok this janitor.hyps(2), of "\<lambda>_. None"] janitor corr_ok_sweep [OF ok]
  show ?case by (simp add: pl_ok_def)
next
  case (enrich co resolve uid hostname now give_up pl)
  with worker_step_accounted [OF _ enrich.hyps(2)] worker_step_state [OF enrich.hyps(2)] show ?case by simp
next
  case (gstream co resolve marshal genv hostname now co')
  from gstream_worker_step_Some(1) [OF gstream.hyps(2)] obtain p where
    "co_pl co' = (co_pl co)\<lparr>pl_corr := fst (ProcessGStreamPacket resolve now p (pl_corr (co_pl co)))\<rparr>" by blast
  with gstream show ?case by (simp add: pl_ok_def corr_ok_ProcessGStreamPacket)
next
  case (publish co render outcome co')
  with publisher_step_Some(3) [OF publish.hyps(2)] show ?case by simp
qed simp

subsection \<open>The record of a close\<close>

text \<open>What a record says of the open \<open>r\<close>, sent by a server started at \<open>stod\<close>, and of the close \<open>q\<close>.\<close>

definition tells :: "FileOpenRecord \<Rightarrow> int32 \<Rightarrow> FileCloseRecord \<Rightarrow> int \<Rightarrow> CollectorRecord \<Rightarrow> bool" where
  "tells r stod q now out \<longleftrightarrow>
     cr_Filename out = for_Lfn r \<and> cr_Filesize out = for_FileSize r \<and>
     cr_StartTime out = scast stod \<and> cr_EndTime out = word_of_int (now div 10 ^ 9) \<and>
     cr_Read out = xfr_Read (fcr_Xfr q) \<and> cr_Readv out = xfr_Readv (fcr_Xfr q) \<and>
     cr_Write out = xfr_Write (fcr_Xfr q) \<and> cr_ReadOperations out = ops_Read (fcr_Ops q) \<and>
     cr_WriteOperations out = ops_Write (fcr_Ops q)"

lemma tells_enriched:
  "tells r stod q now rec \<Longrightarrow> tells r stod q now (snd (run_enrichers resolve t (c, rec)))"
  by (simp add: tells_def run_enrichers_def Enrich_def enrich_server_name_def enrich_user_domain_def
      Let_def case_prod_beta)

lemma worker_step_single:
  assumes "pl_queue pl = Some wq" and "q_ok wq" and "q_items wq = [\<lparr>rq_record = rec, rq_destination = dest\<rparr>]"
    and "\<not> pl_done pl" and "tells r stod q now rec"
  shows "\<exists>pl'. worker_step resolve uid host t g pl = Some pl' \<and>
    (case shouldDrop (pl_corr pl) rec of
       Some reason \<Rightarrow> pl_sent pl' = pl_sent pl \<and> pl_recordsDropped pl' reason = Suc (pl_recordsDropped pl reason)
     | None \<Rightarrow> \<exists>e. pl_sent pl' = pl_sent pl @ [e] \<and> tells r stod q now (er_Record e) \<and>
         er_Exchange e = (if matchesWLCG (pl_corr pl) rec then ed_WLCGExchange dest else []))"
proof -
  obtain wq' got where dq: "Dequeue wq = (wq', got)" by (cases "Dequeue wq")
  have "got = Got \<lparr>rq_record = rec, rq_destination = dest\<rparr>"
  proof (cases got)
    case (Got x)
    with Dequeue_Got(1) [OF assms(2) dq [unfolded Got]] assms(3) show ?thesis by simp
  qed (use dq assms(2,3) in \<open>auto simp: Dequeue_def q_ok_def Let_def split: if_splits prod.splits\<close>)
  then have step: "worker_step resolve uid host t g pl = Some (processEnrichmentRequest resolve uid host t g
      \<lparr>rq_record = rec, rq_destination = dest\<rparr> (pl\<lparr>pl_queue := Some wq'\<rparr>))"
    using assms(1) dq by (simp add: worker_step_def)
  show ?thesis
  proof (cases "shouldDrop (pl_corr pl) rec")
    case None
    have vo: "tells r stod q now (rec'\<lparr>cr_VO := v\<rparr>) = tells r stod q now rec'" for rec' v
      by (simp add: tells_def)
    from None step assms(4) tells_enriched [OF assms(5), of resolve t "pl_corr pl"] show ?thesis
      by (simp add: processEnrichmentRequest_def buildEnrichedRecord_def Let_def case_prod_beta run_enrichers_keeps vo)
  next
    case (Some reason)
    with step show ?thesis by (simp add: processEnrichmentRequest_def)
  qed
qed

lemma enqueue_one_idle:
  assumes "pl_queue pl = Some wq" and "q_ok wq" and "\<not> q_closed wq" and "q_items wq = []" and "0 < q_capacity wq"
    and "ed_Results dest"
  obtains wq' where "enqueue_one env now rec dest pl = pl\<lparr>pl_queue := Some wq'\<rparr>" "q_ok wq'"
    "q_items wq' = [\<lparr>rq_record = rec, rq_destination = dest\<rparr>]"
proof -
  let ?req = "\<lparr>rq_record = rec, rq_destination = dest\<rparr>" 
  have room: "q_size wq < q_capacity wq" using assms(2,4,5) by (simp add: q_ok_def)
  note pages = enqueueLocked_pages [OF assms(2) room, of ?req]
  let ?wq = "(enqueueLocked ?req wq)\<lparr>q_gauge := q_size (enqueueLocked ?req wq)\<rparr>"
  have "enqueue_one env now rec dest pl = pl\<lparr>pl_queue := Some ?wq\<rparr>"
    using room assms by (simp add: enqueue_one_def EnqueueForEnrichment_def Enqueue_def case_prod_beta Let_def)
  moreover have "q_ok ?wq" "q_items ?wq = [?req]"
    using pages assms(2,4) room by (simp_all add: q_ok_def q_items_def)
  ultimately show ?thesis by (rule that)
qed

subsection \<open>Open to published\<close>

lemma process_open_packet:
  assumes "pl_ok (co_pl co)" and "wf_time_block h body" and "\<forall>x \<in> set xs. wf_item x"
    and "items_records xs = [OpenRec r]"
    and "length (fstream_bytes pseq stod (encode_time_block h body) xs) < 2 ^ 16"
  shows "\<exists>p. file_packet p \<and> pkt_FileRecords p = [OpenRec r] \<and> BuildServerID stod addr = getServerID p \<and>
    hdr_ServerStart (pkt_Header p) = stod \<and>
    co_pl (process_one env now dest
      \<lparr>pa_Data = fstream_bytes pseq stod (encode_time_block h body) xs, pa_RemoteAddr = addr\<rparr> co) =
      (co_pl co)\<lparr>pl_corr := fst (ProcessPacket now p (pl_corr (co_pl co)))\<rparr>"
proof -
  obtain p where p: "ParsePacket Unmarshal_map (fstream_bytes pseq stod (encode_time_block h body) xs) = Inr p"
    "pkt_FileRecords p = [OpenRec r]" "hdr_ServerStart (pkt_Header p) = stod"
    using ParsePacket_fstream_bytes [OF assms(2,3) _ assms(5)] assms(4) by (metis list.discI)
  let ?p = "p\<lparr>pkt_RemoteAddr := addr\<rparr>"
  let ?pkt = "\<lparr>pa_Data = fstream_bytes pseq stod (encode_time_block h body) xs, pa_RemoteAddr = addr\<rparr>"
  have fp: "file_packet ?p" "pkt_FileRecords ?p = [OpenRec r]" "BuildServerID stod addr = getServerID ?p"
    using ParsePacket_files(1) [OF p(1)] p(2,3) by (simp_all add: file_packet_def getServerID_def)
  have "fst (snd (ProcessPacket now ?p c)) = []" for c
    using fp by (simp add: ProcessPacket_file_packet process_record_def handleFileOpen_def)
  then have "co_pl (process_one env now dest ?pkt co) =
      (co_pl co)\<lparr>pl_corr := fst (ProcessPacket now ?p (pl_corr (co_pl co)))\<rparr>"
    using process_one_files [OF _ _ assms(1) refl, of ?pkt p] p by simp
  with fp p(3) show ?thesis by (intro exI [of _ ?p]) simp
qed

text \<open>C1: Whatever state a run has brought the collector to, and whatever it does between the two
  packets that is not about the file: the bytes of an f-stream packet that opens a file and of
  one that closes it within the time to live make a worker of the idle pipeline send exactly
  one record, with the name and the size from the open, the start of the server, the time of
  the close and its amounts, to the exchange its routing names, or drop it with a count.
\<close>

theorem open_close_published:
  fixes co0 co co1 co2 co3 :: "'d Collector"
  assumes "start_collector registry config output = Some co0" and "collects config co0 pkts co"
    and "wf_time_block h body" and "wf_time_block h' body'"
    and "\<forall>x \<in> set xs. wf_item x" and "items_records xs = [OpenRec r]" and "for_Lfn r \<noteq> []"
    and "\<forall>y \<in> set ys. wf_item y" and "items_records ys = [CloseRec q]"
    and "fh_FileId (fcr_Header q) = fh_FileId (for_Header r)"
    and "length (fstream_bytes pseq stod (encode_time_block h body) xs) < 2 ^ 16"
    and "length (fstream_bytes pseq' stod (encode_time_block h' body') ys) < 2 ^ 16"
    and "sm_room (BuildFileKey (BuildServerID stod addr) (fh_FileId (for_Header r)))
           (c_stateMap (pl_corr (co_pl co)))"
    and "now' \<le> now + sm_ttl (c_stateMap (pl_corr (co_pl co)))"
    and "co1 = process_one env now (enrichment_destination config)
      \<lparr>pa_Data = fstream_bytes pseq stod (encode_time_block h body) xs, pa_RemoteAddr = addr\<rparr> co"
    and "meanwhile config (BuildServerID stod addr) (fh_FileId (for_Header r)) now' co1 co2"
    and "pl_queue (co_pl co2) = Some wq" and "q_items wq = []" and "0 < q_capacity wq"
    and "co3 = process_one env' now' (enrichment_destination config)
      \<lparr>pa_Data = fstream_bytes pseq' stod (encode_time_block h' body') ys, pa_RemoteAddr = addr\<rparr> co2"
  shows "\<exists>rec pl. worker_step resolve uid host t g (co_pl co3) = Some pl \<and> tells r stod q now' rec \<and>
    (case shouldDrop (pl_corr (co_pl co3)) rec of
       Some reason \<Rightarrow> pl_sent pl = pl_sent (co_pl co2) \<and>
         pl_recordsDropped pl reason = Suc (pl_recordsDropped (co_pl co2) reason)
     | None \<Rightarrow> \<exists>e. pl_sent pl = pl_sent (co_pl co2) @ [e] \<and> tells r stod q now' (er_Record e) \<and>
         er_Exchange e = (if matchesWLCG (pl_corr (co_pl co3)) rec then cfg_AmqpExchangeWLCG config else []))"
proof -
  let ?s = "BuildServerID stod addr" and ?f = "fh_FileId (for_Header r)" and ?c = "pl_corr (co_pl co)"
  let ?dest = "enrichment_destination config"
  have dest: "ed_Results ?dest" "ed_WLCGExchange ?dest = cfg_AmqpExchangeWLCG config"
    by (simp_all add: enrichment_destination_def)
  have ok: "pl_ok (co_pl co)"
    using collects_inv [OF assms(2) start_collector_inv [OF assms(1)]] by (simp add: run_inv_def)
  obtain p where p: "file_packet p" "pkt_FileRecords p = [OpenRec r]" "?s = getServerID p"
      "hdr_ServerStart (pkt_Header p) = stod" "co_pl co1 = (co_pl co)\<lparr>pl_corr := fst (ProcessPacket now p ?c)\<rparr>"
    using process_open_packet [OF ok assms(3,5,6,11)] unfolding assms(15) by blast
  have "corr_ok ?c" using ok by (simp add: pl_ok_def)
  with ok have co1: "pl_corr (co_pl co1) = fst (ProcessPacket now p ?c)" "pl_ok (co_pl co1)"
    using p(5) ProcessPacket_ok [of ?c now p] by (simp_all add: pl_ok_def)
  have "file_state now' ?s ?f co1 = Some (VFile (open_state now r p ?s ?c))"
    using open_packet_state [OF p(1-3) assms(13,14)] co1(1) by simp
  with meanwhile_file_state [OF assms(16) co1(2)] have ok2: "pl_ok (co_pl co2)"
    and st: "file_state now' ?s ?f co2 = Some (VFile (open_state now r p ?s ?c))" by simp_all
  obtain p' where p': "ParsePacket Unmarshal_map (fstream_bytes pseq' stod (encode_time_block h' body') ys) = Inr p'"
    "pkt_FileRecords p' = [CloseRec q]" "hdr_ServerStart (pkt_Header p') = stod"
    using ParsePacket_fstream_bytes [OF assms(4,8) _ assms(12)] assms(9) by (metis list.discI)
  let ?p' = "p'\<lparr>pkt_RemoteAddr := addr\<rparr>"
  have fp': "file_packet ?p'" "pkt_FileRecords ?p' = [CloseRec q]" "?s = getServerID ?p'"
    using ParsePacket_files(1) [OF p'(1)] p'(2,3) by (simp_all add: file_packet_def getServerID_def)
  obtain rec where rec: "fst (snd (ProcessPacket now' ?p' (pl_corr (co_pl co2)))) = [rec]"
    and cor: "correlates (open_state now r p ?s ?c) q now' rec"
    using close_packet_open [OF fp'] st assms(10) by metis
  have tells: "tells r stod q now' rec"
    using cor assms(7) p(4) by (simp add: tells_def correlates_def open_state_def open_filename_def)
  let ?pl = "(co_pl co2)\<lparr>pl_corr := fst (ProcessPacket now' ?p' (pl_corr (co_pl co2)))\<rparr>"
  have co3: "co_pl co3 = enqueue_one env' now' rec ?dest ?pl"
    using process_one_files [OF _ _ ok2 refl, of "\<lparr>pa_Data = fstream_bytes pseq' stod (encode_time_block h' body') ys,
        pa_RemoteAddr = addr\<rparr>" p'] p' rec by (simp add: assms(20))
  have wq: "q_ok wq" "\<not> q_closed wq" "\<not> pl_done (co_pl co2)" using ok2 assms(17) by (auto simp: pl_ok_def)
  have "pl_queue ?pl = Some wq" using assms(17) by simp
  from enqueue_one_idle [OF this wq(1,2) assms(18,19) dest(1), of env' now' rec] obtain wq' where
    wq': "co_pl co3 = ?pl\<lparr>pl_queue := Some wq'\<rparr>" "q_ok wq'"
      "q_items wq' = [\<lparr>rq_record = rec, rq_destination = ?dest\<rparr>]"
    unfolding co3 by blast
  then have co3': "pl_queue (co_pl co3) = Some wq'" "\<not> pl_done (co_pl co3)"
    and same: "pl_sent (co_pl co3) = pl_sent (co_pl co2)" "pl_recordsDropped (co_pl co3) = pl_recordsDropped (co_pl co2)"
    using wq(3) by simp_all
  from worker_step_single [OF co3'(1) wq'(2,3) co3'(2) tells, of resolve uid host t g] show ?thesis
    unfolding same dest(2) using tells by blast
qed

definition closing_record :: FileCloseRecord where
  "closing_record = \<lparr>fcr_Header = \<lparr>fh_RecType = 0, fh_RecFlag = 0, fh_RecSize = 32, fh_FileId = 5,
       fh_UserId = 0, fh_NRecs0 = 0, fh_NRecs1 = 0\<rparr>,
     fcr_Xfr = \<lparr>xfr_Read = 100, xfr_Readv = 0, xfr_Write = 7\<rparr>, fcr_Ops = zero_StatOPS\<rparr>"

lemma closing_record_wf: "wf_item (Item (CloseRec closing_record))"
  by (simp add: closing_record_def wf_close_def plain_header_def)

abbreviation (input) "sample_addr \<equiv> ''10.0.0.1:1094''"

definition opening_bytes :: bytes where
  "opening_bytes = fstream_bytes 1 2 (encode_time_block sample_tod sample_tod_body) [Item (OpenRec sample_open)]"

definition closing_bytes :: bytes where
  "closing_bytes = fstream_bytes 2 2 (encode_time_block sample_tod sample_tod_body) [Item (CloseRec closing_record)]"

definition opened :: "MessageStruct list Collector" where
  "opened = process_one sample_env 100 (enrichment_destination Config.sample_config)
     \<lparr>pa_Data = opening_bytes, pa_RemoteAddr = sample_addr\<rparr> sample_start"

definition closed :: "MessageStruct list Collector" where
  "closed = process_one sample_env 200 (enrichment_destination Config.sample_config)
     \<lparr>pa_Data = closing_bytes, pa_RemoteAddr = sample_addr\<rparr> opened"

lemma sample_bytes_length: "length opening_bytes < 2 ^ 16" "length closing_bytes < 2 ^ 16"
proof -
  have "length (encode_open sample_open) = 28"
    using length_encode_open [of sample_open] sample_open_wf by (simp add: sample_open_def)
  then show "length opening_bytes < 2 ^ 16"
    by (simp add: opening_bytes_def fstream_bytes_def encode_time_block_def encode_items_def sample_tod_body_def)
  have "length (encode_close closing_record) < 100"
    by (simp add: closing_record_def encode_close_def)
  then show "length closing_bytes < 2 ^ 16"
    by (simp add: closing_bytes_def fstream_bytes_def encode_time_block_def encode_items_def sample_tod_body_def)
qed

lemma sample_start_pipeline: "co_pl sample_start = new_pipeline empty_registry Config.sample_config"
proof -
  have "registry = empty_registry \<Longrightarrow> start_collector registry config out = Some co \<Longrightarrow>
      co_pl co = new_pipeline registry config" for registry config out and co :: "MessageStruct list Collector"
    by (auto simp: start_collector_def split: if_splits)
  from this [OF refl sample_start] show ?thesis .
qed

lemma sample_start_state:
  "sm_room k (c_stateMap (pl_corr (co_pl sample_start)))"
  "100 \<le> sm_ttl (c_stateMap (pl_corr (co_pl sample_start)))"
  "\<exists>wq. pl_queue (co_pl sample_start) = Some wq \<and> q_items wq = [] \<and> 0 < q_capacity wq"
proof -
  have "st_EntryTTL (cfg_State Config.sample_config) = 300"
    using ReadConfig_fields(3) [OF Config.sample_config_read]
    by (simp add: read_state_def GetInt_def sample_viper_def)
  then show "100 \<le> sm_ttl (c_stateMap (pl_corr (co_pl sample_start)))"
    by (simp add: sample_start_pipeline new_pipeline_def NewCorrelatorWithConfig_def Let_def NewStateMap_def
        buildCorrelatorConfig_def seconds_def)
  show "sm_room k (c_stateMap (pl_corr (co_pl sample_start)))"
    by (auto simp: sample_start_pipeline new_pipeline_def NewCorrelatorWithConfig_def Let_def sm_room_def
        NewStateMap_def)
  show "\<exists>wq. pl_queue (co_pl sample_start) = Some wq \<and> q_items wq = [] \<and> 0 < q_capacity wq"
    by (simp add: sample_start_pipeline new_pipeline_def newEnrichmentWorkQueue_def q_items_def)
qed

theorem open_close_published_witness:
  "\<exists>rec pl. worker_step (\<lambda>_. None) [] [] 300 False (co_pl closed) = Some pl \<and> tells sample_open 2 closing_record 200 rec \<and>
    (case shouldDrop (pl_corr (co_pl closed)) rec of
       Some reason \<Rightarrow> pl_sent pl = pl_sent (co_pl opened) \<and>
         pl_recordsDropped pl reason = Suc (pl_recordsDropped (co_pl opened) reason)
     | None \<Rightarrow> \<exists>e. pl_sent pl = pl_sent (co_pl opened) @ [e] \<and> tells sample_open 2 closing_record 200 (er_Record e) \<and>
         er_Exchange e = (if matchesWLCG (pl_corr (co_pl closed)) rec
                          then cfg_AmqpExchangeWLCG Config.sample_config else []))"
proof -
  have items: "items_records [Item (OpenRec sample_open)] = [OpenRec sample_open]"
    "items_records [Item (CloseRec closing_record)] = [CloseRec closing_record]"
    by (simp_all add: items_records_def)
  have ok: "pl_ok (co_pl sample_start)"
    using start_collector_inv [OF sample_start] by (simp add: run_inv_def)
  obtain c where "co_pl opened = (co_pl sample_start)\<lparr>pl_corr := c\<rparr>"
    using process_open_packet [OF ok sample_tod_wf _ items(1), of 1 2 sample_addr sample_env 100
        "enrichment_destination Config.sample_config"] sample_open_wf sample_bytes_length(1)
    unfolding opened_def opening_bytes_def by auto
  with sample_start_state(3) obtain wq where wq: "pl_queue (co_pl opened) = Some wq" "q_items wq = []" "0 < q_capacity wq"
    by auto
  show ?thesis
  proof (rule open_close_published [OF sample_start collects.start sample_tod_wf sample_tod_wf _ items(1) _ _ items(2)
        _ _ _ sample_start_state(1) _ _ meanwhile.nothing wq])
    show "opened = process_one sample_env 100 (enrichment_destination Config.sample_config)
        \<lparr>pa_Data = fstream_bytes 1 2 (encode_time_block sample_tod sample_tod_body) [Item (OpenRec sample_open)],
          pa_RemoteAddr = sample_addr\<rparr> sample_start"
      by (simp add: opened_def opening_bytes_def)
    show "closed = process_one sample_env 200 (enrichment_destination Config.sample_config)
        \<lparr>pa_Data = fstream_bytes 2 2 (encode_time_block sample_tod sample_tod_body) [Item (CloseRec closing_record)],
          pa_RemoteAddr = sample_addr\<rparr> opened"
      by (simp add: closed_def closing_bytes_def)
  qed (use sample_open_wf closing_record_wf sample_bytes_length sample_start_state(2) in
      \<open>simp_all add: opening_bytes_def closing_bytes_def sample_open_def closing_record_def\<close>)
qed

end
