(* ===== verification/Packet_Sources.thy ===== *)
theory Packet_Sources
  imports Rabbit_Reader Config "HOL-Library.Sublist"
begin

section \<open>The listeners (input/input.go) and the connection loop (input/rabbitmq_input.go)\<close>

text \<open>
  \<open>UDPListener\<close> and \<open>RabbitMQConsumer\<close> are goroutines that hand what they receive to a channel of
  100 places and drop it when the channel is full. Each is a step relation: the goroutine is at
  the top of its loop, waiting for its input, or gone; the input, the receiver of the channel
  and \<open>Stop\<close> step in any order. A select with two ready cases takes either. The connection loop of
  \<open>RabbitMQReader\<close> is a function of the outcomes the AMQP library reports; its calls are logged, so
  that the lemmas can count what is open.
\<close>

subsection \<open>A channel that is never waited for\<close>

text \<open>The channel, with all that was ever accepted, received from it, and dropped before it.\<close>

record 'a outlet =
  ol_items :: "'a list"
  ol_accepted :: "'a list"
  ol_taken :: "'a list"
  ol_dropped :: nat
  ol_closed :: bool

definition outlet_capacity :: nat where
  "outlet_capacity = 100"

definition new_outlet :: "'a outlet" where
  "new_outlet = \<lparr>ol_items = [], ol_accepted = [], ol_taken = [], ol_dropped = 0, ol_closed = False\<rparr>"

datatype offered = Accepted | Refused | Quit

text \<open>The select that ends both loops: send, stop, or neither.\<close>

inductive offer :: "bool \<Rightarrow> 'a \<Rightarrow> 'a outlet \<Rightarrow> 'a outlet \<Rightarrow> offered \<Rightarrow> bool" where
  send: "length (ol_items ol) < outlet_capacity \<Longrightarrow>
    offer stopped x ol (ol\<lparr>ol_items := ol_items ol @ [x], ol_accepted := ol_accepted ol @ [x]\<rparr>) Accepted"
| quit: "stopped \<Longrightarrow> offer stopped x ol ol Quit"
| full: "\<not> length (ol_items ol) < outlet_capacity \<Longrightarrow> \<not> stopped \<Longrightarrow>
    offer stopped x ol (ol\<lparr>ol_dropped := Suc (ol_dropped ol)\<rparr>) Refused"

inductive_cases offerE: "offer stopped x ol ol' res"

definition outlet_ok :: "'a list \<Rightarrow> 'a outlet \<Rightarrow> bool" where
  "outlet_ok seen ol \<longleftrightarrow> ol_accepted ol = ol_taken ol @ ol_items ol \<and> length (ol_items ol) \<le> outlet_capacity \<and>
     subseq (ol_accepted ol) seen \<and> length seen = length (ol_accepted ol) + ol_dropped ol"

lemma outlet_ok_new: "outlet_ok [] new_outlet"
  by (simp add: outlet_ok_def new_outlet_def)

lemma offer_ok:
  assumes "offer stopped x ol ol' res" and "outlet_ok seen ol"
  shows "res \<noteq> Quit \<Longrightarrow> outlet_ok (seen @ [x]) ol'" and "res = Quit \<Longrightarrow> ol' = ol"
    and "ol_closed ol' = ol_closed ol"
proof -
  have more: "subseq (a @ [x]) (seen @ [x]) \<and> subseq a (seen @ [x])" if "subseq a seen" for a
    using list_emb_append_mono [OF that, of "[x]" "[x]"] list_emb_append_mono [OF that, of "[]" "[x]"] by simp
  show "res \<noteq> Quit \<Longrightarrow> outlet_ok (seen @ [x]) ol'" and "res = Quit \<Longrightarrow> ol' = ol"
    and "ol_closed ol' = ol_closed ol"
    using assms more [of "ol_taken ol @ ol_items ol"] by (auto elim!: offerE simp: outlet_ok_def)
qed

lemma take_ok: "outlet_ok seen ol \<Longrightarrow> ol_items ol = x # xs \<Longrightarrow>
    outlet_ok seen (ol\<lparr>ol_items := xs, ol_taken := ol_taken ol @ [x]\<rparr>)"
  by (auto simp: outlet_ok_def)

subsection \<open>UDPListener\<close>

datatype 'a loop_pc = AtTop | Reading | Holding 'a | Gone

text \<open>\<open>ul_given_up\<close> records the packet in hand when the stop signal won the last select; it has no
  counterpart in the code.\<close>

record UDPListener =
  ul_pc :: "PacketWithAddr loop_pc"
  ul_stopped :: bool
  ul_open :: bool
  ul_out :: "PacketWithAddr outlet"
  ul_given_up :: "PacketWithAddr list"

text \<open>Listening and setting the buffer size may fail; \<open>None\<close> then.\<close>

definition UDP_Start :: "int \<Rightarrow> bool \<Rightarrow> bool \<Rightarrow> UDPListener option" where
  "UDP_Start bufferSize listens sets_buffer =
     (if \<not> listens \<or> (0 < bufferSize \<and> \<not> sets_buffer) then None
      else Some \<lparr>ul_pc = AtTop, ul_stopped = False, ul_open = True, ul_out = new_outlet,
                ul_given_up = []\<rparr>)"

definition udp_exit :: "UDPListener \<Rightarrow> UDPListener" where
  "udp_exit u = u\<lparr>ul_pc := Gone, ul_out := (ul_out u)\<lparr>ol_closed := True\<rparr>\<rparr>"

text \<open>A datagram longer than the buffer is cut.\<close>

definition udp_packet :: "bytes \<Rightarrow> string option \<Rightarrow> PacketWithAddr" where
  "udp_packet datagram remote =
     \<lparr>pa_Data = take 65536 datagram, pa_RemoteAddr = (case remote of Some a \<Rightarrow> a | None \<Rightarrow> ''unknown:0'')\<rparr>"

text \<open>
  \<open>udp_reads u0 xs u\<close>: from \<open>u0\<close> the listener came to \<open>u\<close> and has read the packets \<open>xs\<close> from its
  socket. \<open>Stop\<close> signals first and closes the socket then; a read of the closed socket fails.
\<close>

inductive udp_reads :: "UDPListener \<Rightarrow> PacketWithAddr list \<Rightarrow> UDPListener \<Rightarrow> bool" for u0 where
  start: "udp_reads u0 [] u0"
| top_stop: "udp_reads u0 xs u \<Longrightarrow> ul_pc u = AtTop \<Longrightarrow> ul_stopped u \<Longrightarrow> udp_reads u0 xs (udp_exit u)"
| top_read: "udp_reads u0 xs u \<Longrightarrow> ul_pc u = AtTop \<Longrightarrow> \<not> ul_stopped u \<Longrightarrow>
    udp_reads u0 xs (u\<lparr>ul_pc := Reading\<rparr>)"
| read_error: "udp_reads u0 xs u \<Longrightarrow> ul_pc u = Reading \<Longrightarrow>
    udp_reads u0 xs (if ul_stopped u then udp_exit u else u\<lparr>ul_pc := AtTop\<rparr>)"
| read_packet: "udp_reads u0 xs u \<Longrightarrow> ul_pc u = Reading \<Longrightarrow> ul_open u \<Longrightarrow>
    udp_reads u0 (xs @ [udp_packet datagram remote]) (u\<lparr>ul_pc := Holding (udp_packet datagram remote)\<rparr>)"
| offer_packet: "udp_reads u0 xs u \<Longrightarrow> ul_pc u = Holding x \<Longrightarrow> offer (ul_stopped u) x (ul_out u) ol res \<Longrightarrow>
    res \<noteq> Quit \<Longrightarrow> udp_reads u0 xs (u\<lparr>ul_pc := AtTop, ul_out := ol\<rparr>)"
| offer_quit: "udp_reads u0 xs u \<Longrightarrow> ul_pc u = Holding x \<Longrightarrow> offer (ul_stopped u) x (ul_out u) ol Quit \<Longrightarrow>
    udp_reads u0 xs (udp_exit (u\<lparr>ul_given_up := [x]\<rparr>))"
| receive: "udp_reads u0 xs u \<Longrightarrow> ol_items (ul_out u) = x # rest \<Longrightarrow>
    udp_reads u0 xs (u\<lparr>ul_out := (ul_out u)\<lparr>ol_items := rest, ol_taken := ol_taken (ul_out u) @ [x]\<rparr>\<rparr>)"
| stop_signal: "udp_reads u0 xs u \<Longrightarrow> \<not> ul_stopped u \<Longrightarrow> udp_reads u0 xs (u\<lparr>ul_stopped := True\<rparr>)"
| stop_close: "udp_reads u0 xs u \<Longrightarrow> ul_stopped u \<Longrightarrow> udp_reads u0 xs (u\<lparr>ul_open := False\<rparr>)"

definition reading_hand :: "UDPListener \<Rightarrow> PacketWithAddr list" where
  "reading_hand u = (case ul_pc u of Holding x \<Rightarrow> [x] | _ \<Rightarrow> [])"

definition udp_ok :: "PacketWithAddr list \<Rightarrow> UDPListener \<Rightarrow> bool" where
  "udp_ok xs u \<longleftrightarrow>
     (\<exists>ys. outlet_ok ys (ul_out u) \<and> xs = ys @ reading_hand u @ ul_given_up u) \<and>
     length (ul_given_up u) \<le> 1 \<and> (ul_given_up u \<noteq> [] \<longrightarrow> ul_pc u = Gone) \<and>
     (ul_pc u = Gone) = ol_closed (ul_out u) \<and> (ul_pc u = Gone \<longrightarrow> ul_stopped u)"

lemma outlet_ok_close [simp]: "outlet_ok xs (ol\<lparr>ol_closed := b\<rparr>) = outlet_ok xs ol"
  by (simp add: outlet_ok_def)

lemma offer_Quit: "offer stopped x ol ol' Quit \<Longrightarrow> stopped \<and> ol' = ol"
  by (auto elim: offerE)

lemma udp_ok_obtain:
  assumes "udp_ok xs u"
  obtains ys where "outlet_ok ys (ul_out u)" "xs = ys @ reading_hand u @ ul_given_up u"
  using assms by (auto simp: udp_ok_def)

lemma udp_reads_ok: "udp_reads u0 xs u \<Longrightarrow> udp_ok [] u0 \<Longrightarrow> udp_ok xs u"
proof (induction rule: udp_reads.induct)
  case (offer_packet xs u x ol res)
  then have ok: "udp_ok xs u" by simp
  then obtain ys where "outlet_ok ys (ul_out u)" "xs = ys @ reading_hand u @ ul_given_up u" by (rule udp_ok_obtain)
  with offer_packet.hyps ok offer_ok(1,3) [OF offer_packet.hyps(3), of ys] show ?case
    by (auto simp: udp_ok_def reading_hand_def)
next
  case (offer_quit xs u x ol)
  with offer_Quit [OF offer_quit.hyps(3)] show ?case by (auto simp: udp_ok_def udp_exit_def reading_hand_def)
next
  case (receive xs u x rest)
  then have ok: "udp_ok xs u" by simp
  then obtain ys where "outlet_ok ys (ul_out u)" "xs = ys @ reading_hand u @ ul_given_up u" by (rule udp_ok_obtain)
  with take_ok [OF this(1) receive.hyps(2)] ok show ?case by (auto simp: udp_ok_def reading_hand_def)
qed (auto simp: udp_ok_def udp_exit_def reading_hand_def)

lemma UDP_Start_ok: "UDP_Start bufferSize listens sets_buffer = Some u0 \<Longrightarrow> udp_ok [] u0"
  using outlet_ok_new by (auto simp: UDP_Start_def udp_ok_def reading_hand_def new_outlet_def split: if_splits)

lemma udp_ok_delivers:
  assumes "udp_ok xs u"
  shows "subseq (ol_taken (ul_out u) @ ol_items (ul_out u)) xs"
    and "length (ol_items (ul_out u)) \<le> outlet_capacity"
    and "length xs = length (ol_taken (ul_out u)) + length (ol_items (ul_out u)) + ol_dropped (ul_out u) +
      length (reading_hand u) + length (ul_given_up u)"
proof -
  obtain ys where ys: "outlet_ok ys (ul_out u)" "xs = ys @ reading_hand u @ ul_given_up u"
    using assms by (rule udp_ok_obtain)
  then show "subseq (ol_taken (ul_out u) @ ol_items (ul_out u)) xs"
    using prefix_imp_subseq [of ys xs] by (auto simp: outlet_ok_def intro: subseq_order.trans)
  show "length (ol_items (ul_out u)) \<le> outlet_capacity" using ys(1) by (simp add: outlet_ok_def)
  show "length xs = length (ol_taken (ul_out u)) + length (ol_items (ul_out u)) + ol_dropped (ul_out u) +
      length (reading_hand u) + length (ul_given_up u)"
    using ys by (simp add: outlet_ok_def)
qed

text \<open>Once it is gone the listener reads nothing more.\<close>

lemma udp_reads_stopped:
  "udp_reads u0 xs u \<Longrightarrow> ul_stopped u0 \<Longrightarrow> ul_pc u0 = Gone \<Longrightarrow> xs = [] \<and> ul_stopped u \<and> ul_pc u = Gone"
  by (induction rule: udp_reads.induct) (auto simp: udp_exit_def)

text \<open>C19: The UDP listener hands on a subsequence of what it read from its socket, in order and each
  packet at most once, never waiting. Every packet read is accounted for: received, one of the at
  most 100 waiting in the channel, dropped because those 100 were waiting, in the hand of the
  listener, or given up, which happens to at most one, the one in hand when the listener was
  stopped. Its channel is closed once it is gone, which only \<open>Stop\<close> causes.
\<close>

theorem udp_listener_delivers:
  assumes "UDP_Start bufferSize listens sets_buffer = Some u0" and "udp_reads u0 xs u"
  shows "subseq (ol_taken (ul_out u) @ ol_items (ul_out u)) xs \<and>
    length xs = length (ol_taken (ul_out u)) + length (ol_items (ul_out u)) + ol_dropped (ul_out u) +
      length (reading_hand u) + length (ul_given_up u) \<and>
    length (ol_items (ul_out u)) \<le> 100 \<and>
    length (ul_given_up u) \<le> 1 \<and> (ul_given_up u \<noteq> [] \<longrightarrow> ul_pc u = Gone) \<and>
    (ol_closed (ul_out u) \<longleftrightarrow> ul_pc u = Gone) \<and> (ul_pc u = Gone \<longrightarrow> ul_stopped u)"
proof -
  have ok: "udp_ok xs u" by (rule udp_reads_ok [OF assms(2) UDP_Start_ok [OF assms(1)]])
  with udp_ok_delivers [OF ok] show ?thesis by (auto simp: udp_ok_def outlet_capacity_def)
qed

subsection \<open>RabbitMQConsumer\<close>

text \<open>
  The consumer acknowledges nothing itself: the broker settles a message when it delivers it, so
  one that is dropped, or does not decode, is gone. \<open>rc_settled\<close> counts what the broker settled.
\<close>

record RabbitMQConsumer =
  rc_base64Encoded :: bool
  rc_pc :: "bytes loop_pc"
  rc_stopped :: bool
  rc_out :: "bytes outlet"
  rc_settled :: nat
  rc_undecoded :: nat

text \<open>The outcomes of the calls of \<open>Start\<close>, and whether a queue is named.\<close>

definition Consumer_Start :: "bool \<Rightarrow> bool \<Rightarrow> bool \<Rightarrow> string \<Rightarrow> bool \<Rightarrow> bool \<Rightarrow> RabbitMQConsumer option" where
  "Consumer_Start base64Encoded dials opens queue declares consumes =
     (if \<not> dials \<or> \<not> opens \<or> (queue \<noteq> [] \<and> \<not> declares) \<or> \<not> consumes then None
      else Some \<lparr>rc_base64Encoded = base64Encoded, rc_pc = Reading, rc_stopped = False, rc_out = new_outlet,
                rc_settled = 0, rc_undecoded = 0\<rparr>)"

definition consumer_exit :: "RabbitMQConsumer \<Rightarrow> RabbitMQConsumer" where
  "consumer_exit c = c\<lparr>rc_pc := Gone, rc_out := (rc_out c)\<lparr>ol_closed := True\<rparr>\<rparr>"

definition consumer_decode :: "RabbitMQConsumer \<Rightarrow> bytes \<Rightarrow> bytes option" where
  "consumer_decode c body = (if rc_base64Encoded c then DecodeString body else Some body)"

definition consumer_message :: "bytes \<Rightarrow> RabbitMQConsumer \<Rightarrow> RabbitMQConsumer" where
  "consumer_message body c =
     (let c1 = c\<lparr>rc_settled := Suc (rc_settled c)\<rparr>
      in case consumer_decode c body of
           None \<Rightarrow> c1\<lparr>rc_undecoded := Suc (rc_undecoded c)\<rparr>
         | Some data \<Rightarrow> c1\<lparr>rc_pc := Holding data\<rparr>)"

inductive consumer_reads :: "RabbitMQConsumer \<Rightarrow> bytes list \<Rightarrow> RabbitMQConsumer \<Rightarrow> bool" for c0 where
  start: "consumer_reads c0 [] c0"
| message: "consumer_reads c0 xs c \<Longrightarrow> rc_pc c = Reading \<Longrightarrow> consumer_reads c0 xs (consumer_message body c)"
| finished: "consumer_reads c0 xs c \<Longrightarrow> rc_pc c = Reading \<Longrightarrow> consumer_reads c0 xs (consumer_exit c)"
| offer_data: "consumer_reads c0 xs c \<Longrightarrow> rc_pc c = Holding x \<Longrightarrow> offer (rc_stopped c) x (rc_out c) ol res \<Longrightarrow>
    res \<noteq> Quit \<Longrightarrow> consumer_reads c0 (xs @ [x]) (c\<lparr>rc_pc := Reading, rc_out := ol\<rparr>)"
| offer_quit: "consumer_reads c0 xs c \<Longrightarrow> rc_pc c = Holding x \<Longrightarrow> offer (rc_stopped c) x (rc_out c) ol Quit \<Longrightarrow>
    consumer_reads c0 xs (consumer_exit c)"
| receive: "consumer_reads c0 xs c \<Longrightarrow> ol_items (rc_out c) = x # rest \<Longrightarrow>
    consumer_reads c0 xs (c\<lparr>rc_out := (rc_out c)\<lparr>ol_items := rest, ol_taken := ol_taken (rc_out c) @ [x]\<rparr>\<rparr>)"
| stop_signal: "consumer_reads c0 xs c \<Longrightarrow> \<not> rc_stopped c \<Longrightarrow> consumer_reads c0 xs (c\<lparr>rc_stopped := True\<rparr>)"

text \<open>A stop, or the end of the deliveries, ends the loop (\<open>finished\<close>): the broker may close any time.\<close>

definition consumer_ok :: "bytes list \<Rightarrow> RabbitMQConsumer \<Rightarrow> bool" where
  "consumer_ok xs c \<longleftrightarrow> outlet_ok xs (rc_out c) \<and> (rc_pc c = Gone) = ol_closed (rc_out c) \<and>
     (rc_pc c \<noteq> Gone \<longrightarrow> rc_settled c = length xs + rc_undecoded c + (case rc_pc c of Holding x \<Rightarrow> 1 | _ \<Rightarrow> 0)) \<and>
     length xs + rc_undecoded c \<le> rc_settled c"

lemma consumer_reads_ok: "consumer_reads c0 xs c \<Longrightarrow> consumer_ok [] c0 \<Longrightarrow> consumer_ok xs c"
proof (induction rule: consumer_reads.induct)
  case (message xs c body)
  then show ?case by (simp add: consumer_ok_def consumer_message_def Let_def split: option.split)
next
  case (offer_data xs c x ol res)
  then have "consumer_ok xs c" by simp
  with offer_data.hyps offer_ok(1,3) [OF offer_data.hyps(3), of xs] show ?case
    by (simp add: consumer_ok_def)
next
  case (offer_quit xs c x ol)
  with offer_Quit [OF offer_quit.hyps(3)] show ?case by (simp add: consumer_ok_def consumer_exit_def)
next
  case (receive xs c x rest)
  then have "outlet_ok xs (rc_out c)" by (simp add: consumer_ok_def)
  from take_ok [OF this receive.hyps(2)] receive show ?case by (simp add: consumer_ok_def)
qed (simp_all add: consumer_ok_def consumer_exit_def)

text \<open>
  The consumer loses messages the broker has settled: those that do not decode, those dropped
  with a full channel, and the one in its hand when it stops.
\<close>

lemma consumer_loses:
  assumes "Consumer_Start base64Encoded dials opens queue declares consumes = Some c0" and "consumer_reads c0 xs c"
    and "rc_pc c = Reading"
  shows "rc_settled c = length (ol_taken (rc_out c)) + length (ol_items (rc_out c)) +
    ol_dropped (rc_out c) + rc_undecoded c"
proof -
  have "consumer_ok [] c0"
    using assms(1) outlet_ok_new by (auto simp: Consumer_Start_def consumer_ok_def new_outlet_def split: if_splits)
  from consumer_reads_ok [OF assms(2) this] assms(3) show ?thesis
    by (simp add: consumer_ok_def outlet_ok_def)
qed

subsection \<open>The connection loop of RabbitMQReader\<close>

datatype link_call = DialCall | ChannelCall | QosCall | BindCall

datatype link_log = DialedTo URL | OpenedChannel | ClosedChannel | ClosedConnection

text \<open>The settings of the reader, its token, the state of \<open>consume\<close>, and the log of its links.\<close>

record ReaderLink =
  rl_brokerURL :: string
  rl_queueName :: string
  rl_exchange :: string
  rl_tokenPath :: string
  rl_token :: string
  rl_reader :: RabbitMQReader
  rl_log :: "link_log list"

text \<open>\<open>Start\<close>: the token is what the file holds, untrimmed; \<open>None\<close> is an error.\<close>

definition Reader_Start :: "(string \<Rightarrow> URL option) \<Rightarrow> string option \<Rightarrow> ReaderLink \<Rightarrow> ReaderLink option" where
  "Reader_Start parse contents l =
     (case parse (rl_brokerURL l) of
        None \<Rightarrow> None
      | Some url \<Rightarrow>
          if url_User url = None \<and> rl_tokenPath l \<noteq> [] then
            map_option (\<lambda>token. l\<lparr>rl_token := token\<rparr>) contents
          else Some l)"

definition note_link :: "link_log list \<Rightarrow> ReaderLink \<Rightarrow> ReaderLink" where
  "note_link es l = l\<lparr>rl_log := rl_log l @ es\<rparr>"

definition dial_url :: "ReaderLink \<Rightarrow> URL \<Rightarrow> URL" where
  "dial_url l url =
     (if rl_token l \<noteq> [] \<and> url_User url = None then url\<lparr>url_User := Some (''shoveler'', rl_token l)\<rparr> else url)"

text \<open>
  \<open>connect\<close>, with whether it succeeds. The passive declaration of the queue only logs a warning.
\<close>

definition connect :: "(string \<Rightarrow> URL option) \<Rightarrow> (link_call \<Rightarrow> bool) \<Rightarrow> ReaderLink \<Rightarrow> ReaderLink \<times> bool" where
  "connect parse calls l =
     (case parse (rl_brokerURL l) of
        None \<Rightarrow> (l, False)
      | Some url \<Rightarrow>
          if \<not> calls DialCall then (l, False)
          else let l1 = note_link [DialedTo (dial_url l url)] l
               in if \<not> calls ChannelCall then (note_link [ClosedConnection] l1, False)
                  else let l2 = note_link [OpenedChannel] l1
                       in if \<not> calls QosCall \<or>
                             (rl_queueName l \<noteq> [] \<and> rl_exchange l \<noteq> [] \<and> \<not> calls BindCall)
                          then (note_link [ClosedChannel, ClosedConnection] l2, False)
                          else (l2, True))"

text \<open>One turn of \<open>connectionLoop\<close>: \<open>registers\<close> is the outcome of \<open>channel.Consume\<close>, \<open>es\<close> what
  \<open>consume\<close> then meets.\<close>

definition connection_turn ::
  "(string \<Rightarrow> URL option) \<Rightarrow> (bytes \<Rightarrow> PacketWithAddr option) \<Rightarrow> (link_call \<Rightarrow> bool) \<Rightarrow> bool \<Rightarrow>
     consume_event list \<Rightarrow> ReaderLink \<Rightarrow> ReaderLink" where
  "connection_turn parse decode calls registers es l =
     (case connect parse calls l of
        (l1, False) \<Rightarrow> l1
      | (l1, True) \<Rightarrow>
          (let l2 = (if registers then l1\<lparr>rl_reader := fst (consume decode es (rl_reader l1))\<rparr> else l1)
           in note_link [ClosedChannel, ClosedConnection] l2))"

text \<open>The loop, turn by turn, until a turn finds the stop signal.\<close>

fun connectionLoop ::
  "(string \<Rightarrow> URL option) \<Rightarrow> (bytes \<Rightarrow> PacketWithAddr option) \<Rightarrow>
     (bool \<times> (link_call \<Rightarrow> bool) \<times> bool \<times> consume_event list) list \<Rightarrow> ReaderLink \<Rightarrow> ReaderLink \<times> bool" where
  "connectionLoop parse decode [] l = (l, False)"
| "connectionLoop parse decode ((stopped, calls, registers, es) # turns) l =
     (if stopped then (l, True)
      else connectionLoop parse decode turns (connection_turn parse decode calls registers es l))"

text \<open>The links a log opens and closes: at most one connection with one channel at a time.\<close>

datatype link_phase = NoLink | Connected | WithChannel

fun link_next :: "link_phase \<Rightarrow> link_log \<Rightarrow> link_phase option" where
  "link_next NoLink (DialedTo u) = Some Connected"
| "link_next Connected OpenedChannel = Some WithChannel"
| "link_next WithChannel ClosedChannel = Some Connected"
| "link_next Connected ClosedConnection = Some NoLink"
| "link_next _ _ = None"

fun link_run :: "link_phase \<Rightarrow> link_log list \<Rightarrow> link_phase option" where
  "link_run p [] = Some p"
| "link_run p (e # es) = Option.bind (link_next p e) (\<lambda>q. link_run q es)"

lemma link_run_append: "link_run p (es @ fs) = Option.bind (link_run p es) (\<lambda>q. link_run q fs)"
  by (induction es arbitrary: p) (auto split: bind_splits)

definition link_ok :: "(string \<Rightarrow> URL option) \<Rightarrow> ReaderLink \<Rightarrow> ReaderLink \<Rightarrow> bool" where
  "link_ok parse l0 l \<longleftrightarrow>
     (\<exists>es. rl_log l = rl_log l0 @ es \<and> link_run NoLink es = Some NoLink \<and>
        (\<forall>u. DialedTo u \<in> set es \<longrightarrow> map_option (dial_url l0) (parse (rl_brokerURL l0)) = Some u)) \<and>
     rl_brokerURL l = rl_brokerURL l0 \<and> rl_token l = rl_token l0"

lemma link_ok_trans: "link_ok parse l0 l1 \<Longrightarrow> link_ok parse l1 l2 \<Longrightarrow> link_ok parse l0 l2"
  by (fastforce simp: link_ok_def link_run_append dial_url_def)

lemma connection_turn_ok: "link_ok parse l (connection_turn parse decode calls registers es l)"
  by (auto simp: connection_turn_def connect_def note_link_def link_ok_def Let_def
      split: option.split prod.split bool.split)

text \<open>However often the connection fails and at whatever call, the reader never holds more than
  one connection and one channel, closes both in order before it connects again, and leaves
  nothing open; every connection is made with the URL and the token read at the start, so a
  token that is renewed later is never used.
\<close>

theorem connection_loop_links:
  assumes "connectionLoop parse decode turns l = (l', stopped)"
  shows "\<exists>es. rl_log l' = rl_log l @ es \<and> link_run NoLink es = Some NoLink \<and>
    (\<forall>u. DialedTo u \<in> set es \<longrightarrow> map_option (dial_url l) (parse (rl_brokerURL l)) = Some u)"
proof -
  have "link_ok parse l (fst (connectionLoop parse decode turns l))"
  proof (induction turns arbitrary: l)
    case Nil
    then show ?case by (simp add: link_ok_def)
  next
    case (Cons t turns)
    obtain s calls registers es where t: "t = (s, calls, registers, es)" by (cases t)
    show ?case
    proof (cases s)
      case True
      with t show ?thesis by (simp add: link_ok_def)
    next
      case False
      with t link_ok_trans [OF connection_turn_ok Cons.IH] show ?thesis by simp
    qed
  qed
  with assms show ?thesis by (auto simp: link_ok_def)
qed

theorem connection_loop_links_witness:
  "\<exists>l' es. connectionLoop (\<lambda>s. Some \<lparr>url_User = None, url_Rest = s\<rparr>) (\<lambda>_. None)
      [(False, \<lambda>c. c \<noteq> QosCall, True, []), (False, \<lambda>_. True, True, [StopSignal True]), (True, \<lambda>_. True, True, [])]
      \<lparr>rl_brokerURL = ''b'', rl_queueName = ''q'', rl_exchange = [], rl_tokenPath = ''t'', rl_token = ''secret'',
       rl_reader = \<lparr>rr_unackedCount = 0, rr_lastAckDeliveryTag = 0, rr_log = []\<rparr>, rl_log = []\<rparr> = (l', True) \<and>
    rl_log l' = es \<and> length es = 8 \<and> link_run NoLink es = Some NoLink"
proof -
  let ?parse = "\<lambda>s. Some \<lparr>url_User = None, url_Rest = s\<rparr>"
  let ?l = "\<lparr>rl_brokerURL = ''b'', rl_queueName = ''q'', rl_exchange = [], rl_tokenPath = ''t'', rl_token = ''secret'',
       rl_reader = \<lparr>rr_unackedCount = 0, rr_lastAckDeliveryTag = 0, rr_log = []\<rparr>, rl_log = []\<rparr>"
  let ?turns = "[(False, \<lambda>c. c \<noteq> QosCall, True, []), (False, \<lambda>_. True, True, [StopSignal True]), (True, \<lambda>_. True, True, [])]"
  have "\<exists>l'. connectionLoop ?parse (\<lambda>_. None) ?turns ?l = (l', True) \<and> length (rl_log l') = 8"
    by (simp add: connection_turn_def connect_def note_link_def Let_def consume_def consume_start_def)
  then obtain l' where "connectionLoop ?parse (\<lambda>_. None) ?turns ?l = (l', True)" "length (rl_log l') = 8" by blast
  with connection_loop_links [OF this(1)] show ?thesis by auto
qed

definition sample_listener :: UDPListener where
  "sample_listener = \<lparr>ul_pc = AtTop, ul_stopped = False, ul_open = True, ul_out = new_outlet, ul_given_up = []\<rparr>"

lemma listener_takes:
  assumes "udp_reads u0 xs u" and "ul_pc u = AtTop" "\<not> ul_stopped u" "ul_open u"
  shows "udp_reads u0 (xs @ [udp_packet b a]) (u\<lparr>ul_pc := Holding (udp_packet b a)\<rparr>)"
  using udp_reads.read_packet [OF udp_reads.top_read [OF assms(1-3)], of b a] assms(4) by simp

lemma sample_listener_reads:
  "udp_reads sample_listener [udp_packet ''x'' None]
     (sample_listener\<lparr>ul_out := new_outlet\<lparr>ol_items := [udp_packet ''x'' None], ol_accepted := [udp_packet ''x'' None]\<rparr>\<rparr>)"
proof -
  let ?p = "udp_packet ''x'' None"
  have hold: "udp_reads sample_listener [?p] (sample_listener\<lparr>ul_pc := Holding ?p\<rparr>)"
    using listener_takes [OF udp_reads.start, of sample_listener "''x''" None] by (simp add: sample_listener_def)
  have "offer False ?p (new_outlet :: PacketWithAddr outlet)
      (new_outlet\<lparr>ol_items := ol_items new_outlet @ [?p], ol_accepted := ol_accepted new_outlet @ [?p]\<rparr>) Accepted"
    by (rule offer.send) (simp add: new_outlet_def outlet_capacity_def)
  with udp_reads.offer_packet [OF hold, of ?p _ Accepted] show ?thesis
    by (simp add: sample_listener_def new_outlet_def)
qed

text \<open>A second packet is in the listener's hand when it is stopped.\<close>

lemma sample_listener_stopped:
  "\<exists>u. udp_reads sample_listener [udp_packet ''x'' None, udp_packet ''y'' None] u \<and>
     ol_items (ul_out u) = [udp_packet ''x'' None] \<and> ul_given_up u = [udp_packet ''y'' None] \<and> ul_pc u = Gone"
proof -
  let ?p = "udp_packet ''y'' None"
  let ?u = "sample_listener\<lparr>ul_out := new_outlet\<lparr>ol_items := [udp_packet ''x'' None], ol_accepted := [udp_packet ''x'' None]\<rparr>\<rparr>"
  have "udp_reads sample_listener [udp_packet ''x'' None, ?p] (?u\<lparr>ul_pc := Holding ?p\<rparr>)"
    using listener_takes [OF sample_listener_reads, of "''y''" None] by (simp add: sample_listener_def)
  from udp_reads.stop_signal [OF this]
  have hold: "udp_reads sample_listener [udp_packet ''x'' None, ?p] (?u\<lparr>ul_pc := Holding ?p, ul_stopped := True\<rparr>)"
    by (simp add: sample_listener_def)
  from udp_reads.offer_quit [OF hold, of ?p, OF _ offer.quit] show ?thesis
    by (intro exI conjI) (assumption | simp add: udp_exit_def)+
qed

theorem udp_listener_delivers_witness:
  "\<exists>u. udp_reads sample_listener [udp_packet ''x'' None, udp_packet ''y'' None] u \<and>
     ul_given_up u = [udp_packet ''y'' None] \<and>
     subseq (ol_taken (ul_out u) @ ol_items (ul_out u)) [udp_packet ''x'' None, udp_packet ''y'' None] \<and>
     ol_dropped (ul_out u) = 0 \<and> ol_closed (ul_out u)"
proof -
  obtain u where u: "udp_reads sample_listener [udp_packet ''x'' None, udp_packet ''y'' None] u"
    "ol_items (ul_out u) = [udp_packet ''x'' None]" "ul_given_up u = [udp_packet ''y'' None]" "ul_pc u = Gone"
    using sample_listener_stopped by blast
  have "UDP_Start 0 True True = Some sample_listener" by (simp add: UDP_Start_def sample_listener_def)
  from udp_listener_delivers [OF this u(1)] u show ?thesis by auto
qed

end
