(* ===== verification/Source_Runs.thy ===== *)
theory Source_Runs
  imports Packet_Sources File_Reader
begin

section \<open>Running and stopping the readers (input/input.go, input/rabbitmq_input.go)\<close>

text \<open>
  The goroutines of \<open>FileReader\<close> and \<open>RabbitMQReader\<close> beside their \<open>Stop\<close> and the receiver of their
  channel, as step relations over the waiting points. The file reader closes its channel itself,
  when its loop ends; the RabbitMQ reader's channel is closed by \<open>Stop\<close>, which does not wait for the
  goroutine: the theorems are what each delivers, and what closing too early does.
\<close>

subsection \<open>FileReader\<close>

text \<open>
  \<open>fl_content\<close> is what the file holds, which may grow. \<open>fl_given_up\<close> records the packet in hand when
  the stop signal won the select; it has no counterpart in the code.
\<close>

record FileRun =
  fl_reader :: FileReader
  fl_content :: string
  fl_gone :: bool
  fl_stopped :: bool
  fl_open :: bool
  fl_out :: "PacketWithAddr outlet"
  fl_given_up :: "PacketWithAddr list"

text \<open>The file at the path, if it can be opened.\<close>

definition File_Start :: "string option \<Rightarrow> bool \<Rightarrow> bool \<Rightarrow> FileRun option" where
  "File_Start file base64Encoded follow =
     map_option (\<lambda>content. \<lparr>fl_reader = NewFileReaderWithFollow base64Encoded follow, fl_content = content,
       fl_gone = False, fl_stopped = False, fl_open = True, fl_out = new_outlet, fl_given_up = []\<rparr>) file"

definition file_exit :: "FileRun \<Rightarrow> FileRun" where
  "file_exit r = r\<lparr>fl_gone := True, fl_out := (fl_out r)\<lparr>ol_closed := True\<rparr>\<rparr>"

text \<open>The packet of the next line of \<open>content\<close>, if there is one and it decodes.\<close>

definition next_packet :: "string \<Rightarrow> FileReader \<Rightarrow> PacketWithAddr option" where
  "next_packet content f =
     (case snd (Scan content (fr_scanner f)) of
        None \<Rightarrow> None
      | Some line \<Rightarrow> decode_message (fr_base64Encoded f) line)"

text \<open>
  \<open>file_runs r0 xs r\<close>: the packets \<open>xs\<close> were read from the file. A line without a packet is one
  step; one with a packet takes the outcome of the offer, which decides whether there was room.
  A read of a file that \<open>Stop\<close> has closed is an error that ends the loop, unless the line was in
  the scanner's buffer already.
\<close>

inductive file_runs :: "FileRun \<Rightarrow> PacketWithAddr list \<Rightarrow> FileRun \<Rightarrow> bool" for r0 where
  start: "file_runs r0 [] r0"
| stop_seen: "file_runs r0 xs r \<Longrightarrow> \<not> fl_gone r \<Longrightarrow> fl_stopped r \<Longrightarrow> file_runs r0 xs (file_exit r)"
| read_closed: "file_runs r0 xs r \<Longrightarrow> \<not> fl_gone r \<Longrightarrow> \<not> fl_open r \<Longrightarrow> file_runs r0 xs (file_exit r)"
| no_packet: "file_runs r0 xs r \<Longrightarrow> \<not> fl_gone r \<Longrightarrow> next_packet (fl_content r) (fl_reader r) = None \<Longrightarrow>
    read_line (fl_content r) True (fl_reader r) = (f, ex) \<Longrightarrow>
    file_runs r0 xs (if ex = Ended then file_exit (r\<lparr>fl_reader := f\<rparr>) else r\<lparr>fl_reader := f\<rparr>)"
| packet: "file_runs r0 xs r \<Longrightarrow> \<not> fl_gone r \<Longrightarrow> next_packet (fl_content r) (fl_reader r) = Some x \<Longrightarrow>
    offer (fl_stopped r) x (fl_out r) ol res \<Longrightarrow> res \<noteq> Quit \<Longrightarrow>
    file_runs r0 (xs @ [x])
      (r\<lparr>fl_reader := fst (read_line (fl_content r) (res = Accepted) (fl_reader r)), fl_out := ol\<rparr>)"
| packet_quit: "file_runs r0 xs r \<Longrightarrow> \<not> fl_gone r \<Longrightarrow> next_packet (fl_content r) (fl_reader r) = Some x \<Longrightarrow>
    offer (fl_stopped r) x (fl_out r) ol Quit \<Longrightarrow> file_runs r0 (xs @ [x]) (file_exit (r\<lparr>fl_given_up := [x]\<rparr>))"
| receive: "file_runs r0 xs r \<Longrightarrow> ol_items (fl_out r) = x # rest \<Longrightarrow>
    file_runs r0 xs (r\<lparr>fl_out := (fl_out r)\<lparr>ol_items := rest, ol_taken := ol_taken (fl_out r) @ [x]\<rparr>\<rparr>)"
| append: "file_runs r0 xs r \<Longrightarrow> file_runs r0 xs (r\<lparr>fl_content := fl_content r @ added\<rparr>)"
| stop_signal: "file_runs r0 xs r \<Longrightarrow> \<not> fl_stopped r \<Longrightarrow> file_runs r0 xs (r\<lparr>fl_stopped := True\<rparr>)"
| stop_close: "file_runs r0 xs r \<Longrightarrow> fl_stopped r \<Longrightarrow> file_runs r0 xs (r\<lparr>fl_open := False\<rparr>)"

definition file_ok :: "PacketWithAddr list \<Rightarrow> FileRun \<Rightarrow> bool" where
  "file_ok xs r \<longleftrightarrow> (\<exists>ys. outlet_ok ys (fl_out r) \<and> xs = ys @ fl_given_up r) \<and>
     length (fl_given_up r) \<le> 1 \<and> (fl_given_up r \<noteq> [] \<longrightarrow> fl_gone r \<and> fl_stopped r) \<and>
     fl_gone r = ol_closed (fl_out r) \<and>
     fr_packets (fl_reader r) = ol_accepted (fl_out r) \<and> fr_dropped (fl_reader r) = ol_dropped (fl_out r)"

lemma read_line_packets:
  "next_packet content f = Some x \<Longrightarrow>
     fr_packets (fst (read_line content room f)) = (if room then fr_packets f @ [x] else fr_packets f) \<and>
     fr_dropped (fst (read_line content room f)) = (if room then fr_dropped f else Suc (fr_dropped f))"
  by (auto simp: next_packet_def read_line_def Let_def split: prod.splits option.splits)

lemma read_line_no_packet:
  "next_packet content f = None \<Longrightarrow> read_line content room f = (f', ex) \<Longrightarrow>
     fr_packets f' = fr_packets f \<and> fr_dropped f' = fr_dropped f"
  by (auto simp: next_packet_def read_line_def Let_def split: prod.splits option.splits)

lemma file_ok_obtain:
  assumes "file_ok xs r"
  obtains ys where "outlet_ok ys (fl_out r)" "xs = ys @ fl_given_up r"
  using assms by (auto simp: file_ok_def)

lemma file_runs_ok: "file_runs r0 xs r \<Longrightarrow> file_ok [] r0 \<Longrightarrow> file_ok xs r"
proof (induction rule: file_runs.induct)
  case (no_packet xs r f ex)
  from read_line_no_packet [OF no_packet.hyps(3,4)] no_packet show ?case by (auto simp: file_ok_def file_exit_def)
next
  case (packet xs r x ol res)
  have "ol_accepted ol = (if res = Accepted then ol_accepted (fl_out r) @ [x] else ol_accepted (fl_out r)) \<and>
      ol_dropped ol = (if res = Accepted then ol_dropped (fl_out r) else Suc (ol_dropped (fl_out r)))"
    using packet.hyps(4,5) by (auto elim: offerE)
  moreover have "file_ok xs r" "fl_given_up r = []" using packet by (auto simp: file_ok_def)
  moreover from this(1) obtain ys where "outlet_ok ys (fl_out r)" "xs = ys @ fl_given_up r" by (rule file_ok_obtain)
  ultimately show ?case
    using read_line_packets [OF packet.hyps(3)] offer_ok(1,3) [OF packet.hyps(4), of ys] packet.hyps(5)
    by (auto simp: file_ok_def)
next
  case (packet_quit xs r x ol)
  with offer_Quit [OF packet_quit.hyps(4)] show ?case by (auto simp: file_ok_def file_exit_def)
next
  case (receive xs r x rest)
  then have ok: "file_ok xs r" by simp
  then obtain ys where "outlet_ok ys (fl_out r)" "xs = ys @ fl_given_up r" by (rule file_ok_obtain)
  with take_ok [OF this(1) receive.hyps(2)] ok show ?case by (auto simp: file_ok_def)
qed (auto simp: file_ok_def file_exit_def)

lemma File_Start_Some:
  "File_Start file base64Encoded follow = Some r0 \<longleftrightarrow>
     (\<exists>content. file = Some content \<and>
        r0 = \<lparr>fl_reader = NewFileReaderWithFollow base64Encoded follow, fl_content = content,
          fl_gone = False, fl_stopped = False, fl_open = True, fl_out = new_outlet, fl_given_up = []\<rparr>)"
  by (auto simp: File_Start_def)

lemma File_Start_ok: "File_Start file base64Encoded follow = Some r0 \<Longrightarrow> file_ok [] r0"
  using outlet_ok_new
  by (auto simp: File_Start_Some file_ok_def new_outlet_def NewFileReaderWithFollow_def)

subsubsection \<open>What is read of a file\<close>

text \<open>The packets of the part of the file that is still to be read.\<close>

definition packets_left :: "string \<Rightarrow> FileReader \<Rightarrow> PacketWithAddr list" where
  "packets_left content f = packets_of (fr_base64Encoded f) (lines_left content (fr_scanner f))"

lemma next_packet_left:
  assumes "next_packet content f = Some x"
  shows "packets_left content f = x # packets_left content (fst (read_line content room f))"
proof -
  obtain sc' line where scan: "Scan content (fr_scanner f) = (sc', Some line)" "decode_message (fr_base64Encoded f) line = Some x"
    using assms by (cases "Scan content (fr_scanner f)") (auto simp: next_packet_def split: option.splits)
  with Scan_lines_left [of content "fr_scanner f"] show ?thesis
    by (auto simp: packets_left_def read_line_def Let_def)
qed

lemma no_packet_left:
  assumes "next_packet content f = None" and "read_line content room f = (f', ex)"
  shows "packets_left content f' = packets_left content f" and "ex = Ended \<Longrightarrow> packets_left content f' = []"
proof -
  obtain sc' tok where sc: "Scan content (fr_scanner f) = (sc', tok)" by fastforce
  have "packets_left content f' = packets_left content f \<and> (ex = Ended \<longrightarrow> packets_left content f' = [])"
  proof (cases tok)
    case None
    with Scan_lines_left [of content "fr_scanner f"] sc
    have "lines_left content (fr_scanner f) = []" "lines_left content sc' = []" by (simp_all add: lines_left_def)
    with assms(2) sc None show ?thesis by (auto simp: packets_left_def read_line_def)
  next
    case (Some line)
    with Scan_lines_left [of content "fr_scanner f"] sc obtain l
      where "lines_left content (fr_scanner f) = l # lines_left content sc'" "line = drop_cr l" by auto
    with assms sc Some show ?thesis
      by (auto simp: packets_left_def next_packet_def read_line_def Let_def)
  qed
  then show "packets_left content f' = packets_left content f" "ex = Ended \<Longrightarrow> packets_left content f' = []" by blast+
qed

lemma read_line_base64: "fr_base64Encoded (fst (read_line content room f)) = fr_base64Encoded f"
  by (auto simp: read_line_def Let_def split: prod.split option.split)

text \<open>
  As long as nobody stops the reader or adds to the file, what was read and what is left make up
  the file; when the loop has ended by itself, nothing is left.
\<close>

definition file_read :: "string \<Rightarrow> PacketWithAddr list \<Rightarrow> FileRun \<Rightarrow> bool" where
  "file_read content xs r \<longleftrightarrow> prefix content (fl_content r) \<and> (fl_open r \<or> fl_stopped r) \<and>
     (fl_content r = content \<longrightarrow> \<not> fl_stopped r \<longrightarrow>
        file_packets (fr_base64Encoded (fl_reader r)) content = xs @ packets_left content (fl_reader r) \<and>
        (fl_gone r \<longrightarrow> packets_left content (fl_reader r) = []))"

lemma file_runs_read:
  "file_runs r0 xs r \<Longrightarrow> file_read content [] r0 \<Longrightarrow>
     file_read content xs r \<and> fr_base64Encoded (fl_reader r) = fr_base64Encoded (fl_reader r0)"
proof (induction rule: file_runs.induct)
  case (no_packet xs r f ex)
  have "fr_base64Encoded f = fr_base64Encoded (fl_reader r)"
    using read_line_base64 [of "fl_content r" True "fl_reader r"] no_packet.hyps(4) by simp
  with no_packet no_packet_left [OF no_packet.hyps(3,4)] show ?case by (auto simp: file_read_def file_exit_def)
next
  case (packet xs r x ol res)
  with next_packet_left [OF packet.hyps(3), of "res = Accepted"] show ?case
    by (auto simp: file_read_def read_line_base64)
next
  case (packet_quit xs r x ol)
  with offer_Quit [OF packet_quit.hyps(4)] show ?case by (auto simp: file_read_def file_exit_def)
next
  case (append xs r added)
  then show ?case by (auto simp: file_read_def prefix_def)
qed (auto simp: file_read_def file_exit_def)

lemma File_Start_read: "File_Start (Some content) base64Encoded follow = Some r0 \<Longrightarrow> file_read content [] r0"
  by (auto simp: File_Start_Some file_read_def packets_left_def file_packets_def lines_left_def NewFileReaderWithFollow_def)

text \<open>A reader that came to its end unstopped, over a file that stayed as it was, has read it all.\<close>

lemma file_read_all:
  assumes "File_Start (Some content) base64Encoded follow = Some r0" and "file_runs r0 xs r"
    and "fl_gone r" "\<not> fl_stopped r" "fl_content r = content"
  shows "xs = file_packets base64Encoded content"
  using file_runs_read [OF assms(2) File_Start_read [OF assms(1)]] assms(1,3-5)
  by (auto simp: file_read_def File_Start_Some NewFileReaderWithFollow_def)

subsection \<open>RabbitMQReader\<close>

datatype link_pc = LoopTop | Connecting | Consuming | Decoded PacketWithAddr | CleaningUp | Sleeping | Ended_loop | Panicked

text \<open>How far \<open>Stop\<close> has come.\<close>

datatype stop_pc = NotStopped | Signalled | ClosedPackets

text \<open>The stages in their order.\<close>

fun stop_stage :: "stop_pc \<Rightarrow> nat" where
  "stop_stage NotStopped = 0"
| "stop_stage Signalled = 1"
| "stop_stage ClosedPackets = 2"

lemma stop_stage_inject: "stop_stage a = stop_stage b \<longleftrightarrow> a = b"
  by (cases a; cases b) simp_all

instantiation stop_pc :: linorder
begin

definition less_eq_stop_pc :: "stop_pc \<Rightarrow> stop_pc \<Rightarrow> bool" where
  "less_eq_stop_pc a b \<longleftrightarrow> stop_stage a \<le> stop_stage b"

definition less_stop_pc :: "stop_pc \<Rightarrow> stop_pc \<Rightarrow> bool" where
  "less_stop_pc a b \<longleftrightarrow> stop_stage a < stop_stage b"

instance
  by standard (auto simp: less_eq_stop_pc_def less_stop_pc_def stop_stage_inject)

end

record ReaderRun =
  rn_pc :: link_pc
  rn_stop :: stop_pc
  rn_out :: "PacketWithAddr outlet"
  rn_given_up :: nat

definition new_reader_run :: ReaderRun where
  "new_reader_run = \<lparr>rn_pc = LoopTop, rn_stop = NotStopped, rn_out = new_outlet, rn_given_up = 0\<rparr>"

text \<open>
  \<open>reader_runs xs r\<close>: \<open>xs\<close> are the packets of the deliveries that decoded, those the broker
  delivers again after a reconnection (\<open>Rabbit_Sessions\<close>) included. The send of a packet
  waits for room or the stop signal; on a channel that \<open>Stop\<close> has closed it panics when the select
  chooses it, and the select may. Stopping also closes connection and channel if there are some,
  which only ends the deliveries sooner.
\<close>

inductive reader_runs :: "(bytes \<Rightarrow> PacketWithAddr option) \<Rightarrow> PacketWithAddr list \<Rightarrow> ReaderRun \<Rightarrow> bool" for decode where
  start: "reader_runs decode [] new_reader_run"
| top: "reader_runs decode xs r \<Longrightarrow> rn_pc r = LoopTop \<Longrightarrow>
    reader_runs decode xs (r\<lparr>rn_pc := if rn_stop r = NotStopped then Connecting else Ended_loop\<rparr>)"
| connect: "reader_runs decode xs r \<Longrightarrow> rn_pc r = Connecting \<Longrightarrow>
    reader_runs decode xs (r\<lparr>rn_pc := if ok then Consuming else Sleeping\<rparr>)"
| consume_ends: "reader_runs decode xs r \<Longrightarrow> rn_pc r = Consuming \<Longrightarrow> reader_runs decode xs (r\<lparr>rn_pc := CleaningUp\<rparr>)"
| undecodable: "reader_runs decode xs r \<Longrightarrow> rn_pc r = Consuming \<Longrightarrow> decode body = None \<Longrightarrow> reader_runs decode xs r"
| delivery: "reader_runs decode xs r \<Longrightarrow> rn_pc r = Consuming \<Longrightarrow> decode body = Some x \<Longrightarrow>
    reader_runs decode (xs @ [x]) (r\<lparr>rn_pc := Decoded x\<rparr>)"
| send: "reader_runs decode xs r \<Longrightarrow> rn_pc r = Decoded x \<Longrightarrow> rn_stop r \<noteq> ClosedPackets \<Longrightarrow>
    length (ol_items (rn_out r)) < outlet_capacity \<Longrightarrow>
    reader_runs decode xs (r\<lparr>rn_pc := Consuming,
      rn_out := (rn_out r)\<lparr>ol_items := ol_items (rn_out r) @ [x], ol_accepted := ol_accepted (rn_out r) @ [x]\<rparr>\<rparr>)"
| send_closed: "reader_runs decode xs r \<Longrightarrow> rn_pc r = Decoded x \<Longrightarrow> rn_stop r = ClosedPackets \<Longrightarrow>
    reader_runs decode xs (r\<lparr>rn_pc := Panicked\<rparr>)"
| give_up: "reader_runs decode xs r \<Longrightarrow> rn_pc r = Decoded x \<Longrightarrow> rn_stop r \<noteq> NotStopped \<Longrightarrow>
    reader_runs decode xs (r\<lparr>rn_pc := Consuming, rn_given_up := Suc (rn_given_up r)\<rparr>)"
| clean_up: "reader_runs decode xs r \<Longrightarrow> rn_pc r = CleaningUp \<Longrightarrow> reader_runs decode xs (r\<lparr>rn_pc := Sleeping\<rparr>)"
| wake: "reader_runs decode xs r \<Longrightarrow> rn_pc r = Sleeping \<Longrightarrow> reader_runs decode xs (r\<lparr>rn_pc := LoopTop\<rparr>)"
| receive: "reader_runs decode xs r \<Longrightarrow> ol_items (rn_out r) = x # rest \<Longrightarrow>
    reader_runs decode xs (r\<lparr>rn_out := (rn_out r)\<lparr>ol_items := rest, ol_taken := ol_taken (rn_out r) @ [x]\<rparr>\<rparr>)"
| stop_signal: "reader_runs decode xs r \<Longrightarrow> rn_stop r = NotStopped \<Longrightarrow> reader_runs decode xs (r\<lparr>rn_stop := Signalled\<rparr>)"
| stop_close: "reader_runs decode xs r \<Longrightarrow> rn_stop r = Signalled \<Longrightarrow>
    reader_runs decode xs (r\<lparr>rn_stop := ClosedPackets, rn_out := (rn_out r)\<lparr>ol_closed := True\<rparr>\<rparr>)"

definition in_hand :: "ReaderRun \<Rightarrow> PacketWithAddr list" where
  "in_hand r = (case rn_pc r of Decoded x \<Rightarrow> [x] | _ \<Rightarrow> [])"

definition run_ok :: "PacketWithAddr list \<Rightarrow> ReaderRun \<Rightarrow> bool" where
  "run_ok xs r \<longleftrightarrow>
     (let ol = rn_out r; through = ol_taken ol @ ol_items ol
      in length (ol_items ol) \<le> outlet_capacity \<and> ol_closed ol = (rn_stop r = ClosedPackets) \<and>
         (rn_stop r = NotStopped \<longrightarrow> xs = through @ in_hand r) \<and> subseq (through @ in_hand r) xs \<and>
         (rn_pc r = Panicked \<longrightarrow> rn_stop r = ClosedPackets) \<and>
         (rn_pc r = Ended_loop \<longrightarrow> rn_stop r \<noteq> NotStopped))"

lemma subseq_snoc: "subseq as bs \<Longrightarrow> subseq (as @ [x]) (bs @ [x])"
  by (rule list_emb_append_mono) simp_all

lemma subseq_left: "subseq (as @ xs) bs \<Longrightarrow> subseq as bs"
  by (rule subseq_order.trans [OF prefix_imp_subseq]) auto

lemma reader_runs_ok: "reader_runs decode xs r \<Longrightarrow> run_ok xs r"
proof (induction rule: reader_runs.induct)
  case start
  show ?case by (simp add: run_ok_def new_reader_run_def new_outlet_def in_hand_def)
next
  case (delivery xs r body x)
  then show ?case using subseq_snoc by (auto simp: run_ok_def in_hand_def Let_def)
next
  case (give_up xs r x)
  then show ?case using subseq_left [of _ "[x]" xs] by (auto simp: run_ok_def in_hand_def Let_def)
next
  case (send_closed xs r x)
  then show ?case using subseq_left [of _ "[x]" xs] by (auto simp: run_ok_def in_hand_def Let_def)
qed (auto simp: run_ok_def in_hand_def Let_def)

text \<open>What a goroutine of the reader may do rises with the stage its \<open>Stop\<close> has reached: up to the
  signal the channel is open, a loop ends only from the signal on, a panic comes only after it.\<close>

lemma reader_stages:
  assumes "reader_runs decode xs r"
  shows "ol_closed (rn_out r) \<longleftrightarrow> Signalled < rn_stop r"
    and "rn_pc r = Ended_loop \<Longrightarrow> Signalled \<le> rn_stop r"
    and "rn_pc r = Panicked \<Longrightarrow> Signalled < rn_stop r"
  using reader_runs_ok [OF assms]
  by (cases "rn_stop r"; auto simp: run_ok_def Let_def less_eq_stop_pc_def less_stop_pc_def)+

lemma run_ok_source:
  assumes "run_ok xs r"
  shows "subseq (ol_taken (rn_out r) @ ol_items (rn_out r)) xs" and "length (ol_items (rn_out r)) \<le> outlet_capacity"
proof -
  show "subseq (ol_taken (rn_out r) @ ol_items (rn_out r)) xs"
    using assms subseq_left [of "ol_taken (rn_out r) @ ol_items (rn_out r)" "in_hand r" xs]
    by (simp add: run_ok_def Let_def)
  show "length (ol_items (rn_out r)) \<le> outlet_capacity" using assms by (simp add: run_ok_def Let_def)
qed

text \<open>Until it is stopped the RabbitMQ reader drops nothing: the packets of the deliveries that
  decode are, in order, those received from its channel, those waiting there (at most 100), and
  the one in its hand. After a stop what it hands on is still in order, and each packet once. Only
  \<open>Stop\<close> closes the channel, and the goroutine does not panic before that.
\<close>

theorem rabbit_reader_delivers:
  assumes "reader_runs decode xs r"
  shows "let through = ol_taken (rn_out r) @ ol_items (rn_out r)
    in length (ol_items (rn_out r)) \<le> 100 \<and>
      (rn_stop r = NotStopped \<longrightarrow> xs = through @ in_hand r) \<and> subseq through xs \<and>
      (ol_closed (rn_out r) \<longleftrightarrow> rn_stop r = ClosedPackets) \<and>
      (rn_pc r = Panicked \<longrightarrow> rn_stop r = ClosedPackets)"
proof -
  have ok: "run_ok xs r" by (rule reader_runs_ok [OF assms])
  from ok run_ok_source(1) [OF ok] show ?thesis by (auto simp: run_ok_def Let_def outlet_capacity_def)
qed

lemma reader_consuming: "reader_runs decode [] (new_reader_run\<lparr>rn_pc := Consuming\<rparr>)"
proof -
  have "reader_runs decode [] (new_reader_run\<lparr>rn_pc := Connecting\<rparr>)"
    using reader_runs.top [OF reader_runs.start] by (simp add: new_reader_run_def)
  from reader_runs.connect [OF this, where ok = True] show ?thesis by (simp add: new_reader_run_def)
qed

lemma reader_decoded: "decode body = Some x \<Longrightarrow> reader_runs decode [x] (new_reader_run\<lparr>rn_pc := Decoded x\<rparr>)"
  using reader_runs.delivery [OF reader_consuming, where body = body and x = x] by (simp add: new_reader_run_def)

text \<open>C18: Stopping the RabbitMQ reader can panic the process: \<open>Stop\<close> closes the packet channel without
  waiting for the goroutine, and a delivery that was already taken from the broker is then sent
  on the closed channel. This holds whenever any delivery decodes.
\<close>

theorem reader_stop_panics:
  assumes "decode body = Some x"
  shows "\<exists>r. reader_runs decode [x] r \<and> rn_pc r = Panicked \<and> rn_stop r = ClosedPackets \<and>
    ol_items (rn_out r) = [] \<and> ol_taken (rn_out r) = []"
proof -
  let ?r = "new_reader_run\<lparr>rn_pc := Decoded x\<rparr>"
  have "reader_runs decode [x] (?r\<lparr>rn_stop := Signalled\<rparr>)"
    by (rule reader_runs.stop_signal [OF reader_decoded [where decode = decode, OF assms]]) (simp add: new_reader_run_def)
  from reader_runs.stop_close [OF this]
  have "reader_runs decode [x] (?r\<lparr>rn_stop := ClosedPackets, rn_out := new_outlet\<lparr>ol_closed := True\<rparr>\<rparr>)"
    by (simp add: new_reader_run_def)
  from reader_runs.send_closed [OF this, where x = x] show ?thesis
    by (intro exI) (auto simp: new_reader_run_def new_outlet_def)
qed

theorem reader_stop_panics_witness:
  "\<exists>r. reader_runs (\<lambda>b. Some \<lparr>pa_Data = b, pa_RemoteAddr = []\<rparr>) [\<lparr>pa_Data = ''x'', pa_RemoteAddr = []\<rparr>] r \<and>
     rn_pc r = Panicked"
  using reader_stop_panics [of "\<lambda>b. Some \<lparr>pa_Data = b, pa_RemoteAddr = []\<rparr>" "''x''"] by blast

lemma reader_sent:
  assumes "decode body = Some x"
  shows "reader_runs decode [x]
    (new_reader_run\<lparr>rn_pc := Consuming, rn_out := new_outlet\<lparr>ol_items := [x], ol_accepted := [x]\<rparr>\<rparr>)"
  using reader_runs.send [OF reader_decoded [where decode = decode, OF assms], where x = x]
  by (simp add: new_reader_run_def new_outlet_def outlet_capacity_def)

theorem rabbit_reader_delivers_witness:
  "let x = \<lparr>pa_Data = ''x'', pa_RemoteAddr = []\<rparr>;
       r = new_reader_run\<lparr>rn_pc := Consuming, rn_out := new_outlet\<lparr>ol_items := [x], ol_accepted := [x]\<rparr>\<rparr>
   in ol_taken (rn_out r) @ ol_items (rn_out r) = [x] \<and> in_hand r = []"
  using rabbit_reader_delivers [OF reader_sent [where body = "''x''" and decode = "\<lambda>b. Some \<lparr>pa_Data = b, pa_RemoteAddr = []\<rparr>"]]
  by (simp add: new_reader_run_def new_outlet_def Let_def in_hand_def)

text \<open>
  The file reader hands on a subsequence of the packets it read as well: a file that is read faster
  than the pipeline takes its packets loses the difference, which is counted nowhere in the
  program.
\<close>

lemma file_ok_delivers:
  assumes "file_ok xs r"
  shows "subseq (ol_taken (fl_out r) @ ol_items (fl_out r)) xs" and "length (ol_items (fl_out r)) \<le> outlet_capacity"
    and "length xs = length (ol_taken (fl_out r)) + length (ol_items (fl_out r)) + fr_dropped (fl_reader r) +
      length (fl_given_up r)"
    and "\<not> fl_stopped r \<Longrightarrow> fl_given_up r = []"
proof -
  obtain ys where ys: "outlet_ok ys (fl_out r)" "xs = ys @ fl_given_up r" using assms by (rule file_ok_obtain)
  then show "subseq (ol_taken (fl_out r) @ ol_items (fl_out r)) xs"
    using prefix_imp_subseq [of ys xs] by (auto simp: outlet_ok_def intro: subseq_order.trans)
  show "length (ol_items (fl_out r)) \<le> outlet_capacity" using ys(1) by (simp add: outlet_ok_def)
  show "length xs = length (ol_taken (fl_out r)) + length (ol_items (fl_out r)) + fr_dropped (fl_reader r) +
      length (fl_given_up r)"
    using ys assms by (simp add: file_ok_def outlet_ok_def)
  show "\<not> fl_stopped r \<Longrightarrow> fl_given_up r = []" using assms by (auto simp: file_ok_def)
qed

lemma file_reader_delivers:
  assumes "File_Start file base64 follow = Some r0" and "file_runs r0 xs r"
  shows "subseq (ol_taken (fl_out r) @ ol_items (fl_out r)) xs \<and>
    length xs = length (ol_taken (fl_out r)) + length (ol_items (fl_out r)) + fr_dropped (fl_reader r) +
      length (fl_given_up r) \<and>
    length (ol_items (fl_out r)) \<le> 100 \<and> (ol_closed (fl_out r) \<longleftrightarrow> fl_gone r)"
proof -
  have ok: "file_ok xs r" by (rule file_runs_ok [OF assms(2) File_Start_ok [OF assms(1)]])
  then have "ol_closed (fl_out r) \<longleftrightarrow> fl_gone r" by (simp add: file_ok_def)
  with file_ok_delivers(1-3) [OF ok] show ?thesis by (simp add: outlet_capacity_def)
qed

subsection \<open>The interface PacketSource\<close>

text \<open>
  What the packet loops rely on: \<open>runs xs s\<close> says that the source came to the state \<open>s\<close> and had the
  packets \<open>xs\<close> to deliver, \<open>out\<close> is its channel. The channel is bounded, and what came through it
  are packets the source had, in their order.
\<close>

locale packet_source =
  fixes runs :: "PacketWithAddr list \<Rightarrow> 's \<Rightarrow> bool"
    and out :: "'s \<Rightarrow> PacketWithAddr outlet"
  assumes in_order: "runs xs s \<Longrightarrow> subseq (ol_taken (out s) @ ol_items (out s)) xs"
    and bounded: "runs xs s \<Longrightarrow> length (ol_items (out s)) \<le> outlet_capacity"
begin

lemma taken_in_order: "runs xs s \<Longrightarrow> subseq (ol_taken (out s)) xs"
  by (rule subseq_left [OF in_order])

lemma nothing_invented: "runs xs s \<Longrightarrow> set (ol_taken (out s)) \<subseteq> set xs"
  by (auto dest!: taken_in_order elim: list_emb_set)

lemma taken_at_most: "runs xs s \<Longrightarrow> length (ol_taken (out s)) + length (ol_items (out s)) \<le> length xs"
  using list_emb_length [OF in_order] by simp

end

definition udp_source_runs :: "int \<Rightarrow> bool \<Rightarrow> PacketWithAddr list \<Rightarrow> UDPListener \<Rightarrow> bool" where
  "udp_source_runs bufferSize sets_buffer xs u \<longleftrightarrow>
     (\<exists>u0. UDP_Start bufferSize True sets_buffer = Some u0 \<and> udp_reads u0 xs u)"

definition file_source_runs :: "bool \<Rightarrow> bool \<Rightarrow> PacketWithAddr list \<Rightarrow> FileRun \<Rightarrow> bool" where
  "file_source_runs base64Encoded follow xs r \<longleftrightarrow>
     (\<exists>content r0. File_Start (Some content) base64Encoded follow = Some r0 \<and> file_runs r0 xs r)"

lemma udp_source_ok: "udp_source_runs bufferSize sets_buffer xs u \<Longrightarrow> udp_ok xs u"
  unfolding udp_source_runs_def by (blast intro: udp_reads_ok UDP_Start_ok)

lemma file_source_ok: "file_source_runs base64Encoded follow xs r \<Longrightarrow> file_ok xs r"
  unfolding file_source_runs_def by (blast intro: file_runs_ok File_Start_ok)

interpretation udp_ps: packet_source "udp_source_runs bufferSize sets_buffer" ul_out for bufferSize sets_buffer
  by unfold_locales (erule udp_ok_delivers(1,2) [OF udp_source_ok])+

interpretation file_ps: packet_source "file_source_runs base64Encoded follow" fl_out for base64Encoded follow
  by unfold_locales (erule file_ok_delivers(1,2) [OF file_source_ok])+

interpretation rabbit_ps: packet_source "reader_runs decode" rn_out for decode
  by unfold_locales (blast intro: run_ok_source reader_runs_ok)+

end
