(* ===== verification/Stomp_Publisher.thy ===== *)
theory Stomp_Publisher
  imports Confirmation_Queue Config
begin

section \<open>The STOMP publisher (stomp.go)\<close>

text \<open>
  \<open>StartStomp\<close> as a state machine over its waiting points: the select of the message loop, a send
  that waits for its receipt, and the loop of \<open>handleReconnect\<close>. Beside it runs \<open>readMsgStomp\<close>,
  which holds one message it took from the confirmation queue, and whoever puts messages into the
  queue. The \<open>stomp\<close> and \<open>tls\<close> packages are not part of the repository: whether a connection comes
  up and what becomes of a send are the events of the steps. A send that reports an error may
  have reached the broker all the same. The theorem: the broker gets every message, in the order
  of the queue, at least once, on the one topic.
\<close>

subsection \<open>State\<close>

text \<open>
  \<open>ss_cert\<close> is the slice of certificates (empty for nil), \<open>ss_conn\<close> the number of the connection
  in use (\<open>None\<close> for nil), and \<open>ss_conns\<close> counts the connections made.
\<close>

record 'c StompSession =
  ss_username :: string
  ss_password :: string
  ss_stompUrl :: URL
  ss_topic :: string
  ss_cert :: "'c list"
  ss_conn :: "nat option"
  ss_conns :: nat

text \<open>The message a reconnection will send again afterwards, if it interrupts a send.\<close>

datatype stomp_pc = Selecting | Sending MessageStruct | Reconnecting "MessageStruct option"

text \<open>\<open>sp_arrived\<close> is what reached the broker, \<open>sp_put\<close> what was put into the queue since the start.\<close>

record ('c, 'd) StompPublisher =
  sp_session :: "'c StompSession"
  sp_pc :: stomp_pc
  sp_hand :: "MessageStruct option"
  sp_queue :: "'d ConfirmationQueue"
  sp_put :: "MessageStruct list"
  sp_arrived :: "(string \<times> string) list"

subsection \<open>Start\<close>

definition stomp_topic :: "string \<Rightarrow> string" where
  "stomp_topic topic = (if has_prefix topic ''/topic/'' then topic else ''/topic/'' @ topic)"

definition NewStompConnection ::
  "string \<Rightarrow> string \<Rightarrow> URL \<Rightarrow> string \<Rightarrow> 'c list \<Rightarrow> 'c StompSession" where
  "NewStompConnection username password stompUrl topic cert =
     \<lparr>ss_username = username, ss_password = password, ss_stompUrl = stompUrl, ss_topic = topic,
      ss_cert = cert, ss_conn = None, ss_conns = 0\<rparr>"

text \<open>
  \<open>load\<close> is \<open>tls.LoadX509KeyPair\<close>: the pair, or an error beside which the empty certificate
  \<open>no_cert\<close> is returned; the code logs the error and goes on with that.
\<close>

definition GetNewStompConnection ::
  "(string \<Rightarrow> string \<Rightarrow> 'c option) \<Rightarrow> 'c \<Rightarrow> string \<Rightarrow> string \<Rightarrow> URL \<Rightarrow> string \<Rightarrow> string \<Rightarrow> string \<Rightarrow> 'c StompSession" where
  "GetNewStompConnection load no_cert username password stompUrl topic stompCert stompCertKey =
     (if stompCert \<noteq> [] \<and> stompCertKey \<noteq> [] then
        (let cert = (case load stompCert stompCertKey of Some c \<Rightarrow> c | None \<Rightarrow> no_cert)
         in NewStompConnection username password stompUrl topic [cert])
      else NewStompConnection username password stompUrl topic [])"

text \<open>What \<open>GetStompConnection\<close> asks for: a session over TLS has no user and no password.\<close>

datatype 'c stomp_dial = TLSDial URL "'c list" | LoginDial URL string string

definition GetStompConnection :: "'c StompSession \<Rightarrow> 'c stomp_dial" where
  "GetStompConnection s =
     (if ss_cert s \<noteq> [] then TLSDial (ss_stompUrl s) (ss_cert s)
      else LoginDial (ss_stompUrl s) (ss_username s) (ss_password s))"

text \<open>
  The session begins in \<open>handleReconnect\<close>. \<open>None\<close> is the panic of a configuration without URL.
\<close>

definition StartStomp ::
  "(string \<Rightarrow> string \<Rightarrow> 'c option) \<Rightarrow> 'c \<Rightarrow> Config \<Rightarrow> 'd ConfirmationQueue \<Rightarrow> ('c, 'd) StompPublisher option" where
  "StartStomp load no_cert config queue =
     map_option (\<lambda>url.
       \<lparr>sp_session = GetNewStompConnection load no_cert (cfg_StompUser config) (cfg_StompPassword config) url
          (stomp_topic (cfg_StompTopic config)) (cfg_StompCert config) (cfg_StompCertKey config),
        sp_pc = Reconnecting None, sp_hand = None, sp_queue = queue, sp_put = [], sp_arrived = []\<rparr>)
       (cfg_StompURL config)"

subsection \<open>Steps\<close>

datatype send_outcome = Receipt | ReceiptLost | NotSent

text \<open>
  \<open>PutMessage\<close> is the producer's; \<open>ReadQueue\<close> and \<open>Take\<close> are the two ends of the unbuffered
  channel, whose reader is started after the first connection. A tick reconnects, an attempt that
  fails is made again.
\<close>

datatype stomp_event =
    PutMessage MessageStruct
  | ReadQueue
  | Take
  | Tick
  | SendDone send_outcome
  | DialDone bool

definition arrive :: "MessageStruct \<Rightarrow> ('c, 'd) StompPublisher \<Rightarrow> ('c, 'd) StompPublisher" where
  "arrive m p = p\<lparr>sp_arrived := sp_arrived p @ [(ss_topic (sp_session p), ms_Message m)]\<rparr>"

definition connected :: "'c StompSession \<Rightarrow> 'c StompSession" where
  "connected s = s\<lparr>ss_conn := Some (ss_conns s), ss_conns := Suc (ss_conns s)\<rparr>"

text \<open>\<open>None\<close>: the event cannot happen in this state, or the step panics.\<close>

fun stomp_step :: "stomp_event \<Rightarrow> ('c, 'd) StompPublisher \<Rightarrow> ('c, 'd) StompPublisher option" where
  "stomp_step (PutMessage m) p =
     Some (p\<lparr>sp_queue := cq_put m (sp_queue p), sp_put := sp_put p @ [m]\<rparr>)"
| "stomp_step ReadQueue p =
     (if sp_hand p = None \<and> ss_conn (sp_session p) \<noteq> None then
        map_option (\<lambda>(m, q). p\<lparr>sp_queue := q, sp_hand := Some m\<rparr>) (cq_get (sp_queue p))
      else None)"
| "stomp_step Take p =
     (case (sp_pc p, sp_hand p) of
        (Selecting, Some m) \<Rightarrow> Some (p\<lparr>sp_pc := Sending m, sp_hand := None\<rparr>)
      | _ \<Rightarrow> None)"
| "stomp_step Tick p = (if sp_pc p = Selecting then Some (p\<lparr>sp_pc := Reconnecting None\<rparr>) else None)"
| "stomp_step (SendDone outcome) p =
     (case (sp_pc p, ss_conn (sp_session p)) of
        (Sending m, Some conn) \<Rightarrow>
          Some (case outcome of
                  Receipt \<Rightarrow> (arrive m p)\<lparr>sp_pc := Selecting\<rparr>
                | ReceiptLost \<Rightarrow> (arrive m p)\<lparr>sp_pc := Reconnecting (Some m)\<rparr>
                | NotSent \<Rightarrow> p\<lparr>sp_pc := Reconnecting (Some m)\<rparr>)
      | _ \<Rightarrow> None)"
| "stomp_step (DialDone ok) p =
     (case sp_pc p of
        Reconnecting again \<Rightarrow>
          Some (if ok then p\<lparr>sp_session := connected (sp_session p),
                             sp_pc := (case again of None \<Rightarrow> Selecting | Some m \<Rightarrow> Sending m)\<rparr>
                else p)
      | _ \<Rightarrow> None)"

inductive stomp_runs :: "('c, 'd) StompPublisher \<Rightarrow> ('c, 'd) StompPublisher \<Rightarrow> bool" for p0 where
  start: "stomp_runs p0 p0"
| step: "stomp_runs p0 p \<Longrightarrow> stomp_step ev p = Some p' \<Longrightarrow> stomp_runs p0 p'"

subsection \<open>Every message at least once and in order\<close>

text \<open>\<open>ys\<close> is \<open>xs\<close> with every item once or several times in a row.\<close>

inductive repeats :: "'a list \<Rightarrow> 'a list \<Rightarrow> bool" where
  none: "repeats [] []"
| more: "repeats xs ys \<Longrightarrow> repeats (xs @ [x]) (ys @ replicate (Suc n) x)"

lemma repeats_set: "repeats xs ys \<Longrightarrow> set ys = set xs"
  by (induction rule: repeats.induct) auto

lemma repeats_length: "repeats xs ys \<Longrightarrow> length xs \<le> length ys"
  by (induction rule: repeats.induct) auto

definition current :: "('c, 'd) StompPublisher \<Rightarrow> MessageStruct list" where
  "current p = (case sp_pc p of Sending m \<Rightarrow> [m] | Reconnecting (Some m) \<Rightarrow> [m] | _ \<Rightarrow> [])"

definition uses_conn :: "('c, 'd) StompPublisher \<Rightarrow> bool" where
  "uses_conn p = (case sp_pc p of Reconnecting _ \<Rightarrow> False | _ \<Rightarrow> True)"

definition stomp_ok ::
  "('d \<Rightarrow> MessageStruct list) \<Rightarrow> MessageStruct list \<Rightarrow> ('c, 'd) StompPublisher \<Rightarrow> bool" where
  "stomp_ok items found p \<longleftrightarrow> cq_ok items (sp_queue p) \<and>
     (\<exists>sent a k. repeats sent a \<and>
        found @ sp_put p = sent @ current p @ (case sp_hand p of None \<Rightarrow> [] | Some m \<Rightarrow> [m]) @ cq_items items (sp_queue p) \<and>
        sp_arrived p = List.map (\<lambda>m. (ss_topic (sp_session p), ms_Message m)) (a @ concat (replicate k (current p)))) \<and>
     (uses_conn p \<longrightarrow> ss_conn (sp_session p) \<noteq> None)"

lemma stomp_okI:
  assumes "cq_ok items (sp_queue p)" "repeats sent a"
    and "found @ sp_put p = sent @ current p @ (case sp_hand p of None \<Rightarrow> [] | Some m \<Rightarrow> [m]) @ cq_items items (sp_queue p)"
    and "sp_arrived p = List.map (\<lambda>m. (ss_topic (sp_session p), ms_Message m)) (a @ concat (replicate k (current p)))"
    and "uses_conn p \<Longrightarrow> ss_conn (sp_session p) \<noteq> None"
  shows "stomp_ok items found p"
  using assms unfolding stomp_ok_def by blast

lemma stomp_step_ok:
  assumes ok: "stomp_ok items found p" and step: "stomp_step ev p = Some p'"
  shows "stomp_ok items found p'"
proof -
  obtain sent a k where q: "cq_ok items (sp_queue p)" and rep: "repeats sent a"
    and all: "found @ sp_put p = sent @ current p @ (case sp_hand p of None \<Rightarrow> [] | Some m \<Rightarrow> [m]) @ cq_items items (sp_queue p)"
    and arr: "sp_arrived p = List.map (\<lambda>m. (ss_topic (sp_session p), ms_Message m)) (a @ concat (replicate k (current p)))"
    and conn: "uses_conn p \<Longrightarrow> ss_conn (sp_session p) \<noteq> None"
    using ok unfolding stomp_ok_def by blast
  show ?thesis
  proof (cases ev)
    case (PutMessage m)
    with step cq_put_ok [OF q, of m] q rep all arr conn show ?thesis
      by (intro stomp_okI [of items p' sent a found k]) (auto simp: current_def uses_conn_def)
  next
    case ReadQueue
    with step obtain m q' where get: "cq_get (sp_queue p) = Some (m, q')" "sp_hand p = None"
      and p': "p' = p\<lparr>sp_queue := q', sp_hand := Some m\<rparr>"
      by (auto split: if_splits)
    from confirmation_queue.get_some [OF q get(1)] confirmation_queue.inv_get [OF q get(1)] get p' rep all arr conn
    show ?thesis by (intro stomp_okI [of items p' sent a found k]) (auto simp: current_def uses_conn_def)
  next
    case Take
    with step obtain m where "sp_pc p = Selecting" "sp_hand p = Some m" and p': "p' = p\<lparr>sp_pc := Sending m, sp_hand := None\<rparr>"
      by (auto split: stomp_pc.splits option.splits)
    with q rep all arr conn show ?thesis
      by (intro stomp_okI [of items p' sent a found 0]) (auto simp: current_def uses_conn_def)
  next
    case Tick
    with step q rep all arr conn show ?thesis
      by (intro stomp_okI [of items p' sent a found k]) (auto simp: current_def uses_conn_def split: if_splits)
  next
    case (SendDone outcome)
    with step obtain m c where pc: "sp_pc p = Sending m" "ss_conn (sp_session p) = Some c"
      and p': "p' = (case outcome of Receipt \<Rightarrow> (arrive m p)\<lparr>sp_pc := Selecting\<rparr>
                | ReceiptLost \<Rightarrow> (arrive m p)\<lparr>sp_pc := Reconnecting (Some m)\<rparr>
                | NotSent \<Rightarrow> p\<lparr>sp_pc := Reconnecting (Some m)\<rparr>)"
      by (auto split: stomp_pc.splits option.splits)
    have cur: "concat (replicate n [m]) = replicate n m" for n by (induction n) auto
    show ?thesis
    proof (cases outcome)
      case Receipt
      have "repeats (sent @ [m]) (a @ replicate (Suc k) m)" by (rule repeats.more [OF rep])
      with Receipt p' pc q all arr conn show ?thesis
        by (intro stomp_okI [of items p' "sent @ [m]" "a @ replicate (Suc k) m" found 0])
          (auto simp: current_def uses_conn_def arrive_def cur replicate_append_same)
    next
      case ReceiptLost
      with p' pc q rep all arr conn show ?thesis
        by (intro stomp_okI [of items p' sent a found "Suc k"])
          (auto simp: current_def uses_conn_def arrive_def cur replicate_append_same)
    next
      case NotSent
      with p' pc q rep all arr conn show ?thesis
        by (intro stomp_okI [of items p' sent a found k]) (auto simp: current_def uses_conn_def)
    qed
  next
    case (DialDone ok)
    with step q rep all arr conn show ?thesis
      by (intro stomp_okI [of items p' sent a found k])
        (auto simp: current_def uses_conn_def connected_def split: stomp_pc.splits option.splits if_splits)
  qed
qed

text \<open>C14: Over a disk queue that keeps its laws, whatever sends and connections fail and however the
  hourly reconnection comes in between: the messages found on disk and put into the queue are
  those done, then those still to come; every one done has reached the broker, in order, each at
  least once, all of it under one topic, and beside them only the message being sent. Nothing is
  ever sent on a connection that is nil.
\<close>

theorem stomp_at_least_once:
  assumes "dque_laws items ops" and start: "StartStomp load no_cert config (Init ops opened) = Some p0"
    and "stomp_runs p0 p"
  shows "\<exists>sent a inflight waiting k. items opened @ sp_put p = sent @ waiting \<and> repeats sent a \<and>
      waiting = inflight @ cq_items items (sp_queue p) \<and> length inflight \<le> 2 \<and>
      sp_arrived p = List.map (\<lambda>m. (stomp_topic (cfg_StompTopic config), ms_Message m)) (a @ replicate k (hd waiting)) \<and>
      (k = 0 \<or> waiting \<noteq> []) \<and> (\<forall>m. sp_pc p = Sending m \<longrightarrow> ss_conn (sp_session p) \<noteq> None)"
proof -
  have "stomp_ok items (items opened) p0"
    using start cq_ok_Init [OF assms(1), of opened] repeats.none
    by (intro stomp_okI [of items p0 "[]" "[]" "items opened" 0]) (auto simp: StartStomp_def current_def uses_conn_def)
  have topic: "stomp_step ev p1 = Some p2 \<Longrightarrow> ss_topic (sp_session p2) = ss_topic (sp_session p1)" for ev p1 p2
    by (cases ev) (auto simp: arrive_def connected_def split: if_splits stomp_pc.splits option.splits send_outcome.splits)
  have "stomp_ok items (items opened) p \<and> ss_topic (sp_session p) = ss_topic (sp_session p0)"
    using assms(3)
  proof (induction rule: stomp_runs.induct)
    case start
    show ?case using \<open>stomp_ok items (items opened) p0\<close> by simp
  next
    case (step p ev p')
    with stomp_step_ok topic show ?case by metis
  qed
  then have ok: "stomp_ok items (items opened) p"
    and t: "ss_topic (sp_session p) = stomp_topic (cfg_StompTopic config)"
    using start by (auto simp: StartStomp_def GetNewStompConnection_def NewStompConnection_def Let_def)
  obtain sent a k where rep: "repeats sent a"
    and all: "items opened @ sp_put p = sent @ current p @ (case sp_hand p of None \<Rightarrow> [] | Some m \<Rightarrow> [m]) @ cq_items items (sp_queue p)"
    and arr: "sp_arrived p = List.map (\<lambda>m. (ss_topic (sp_session p), ms_Message m)) (a @ concat (replicate k (current p)))"
    and conn: "uses_conn p \<Longrightarrow> ss_conn (sp_session p) \<noteq> None"
    using ok unfolding stomp_ok_def by blast
  let ?inflight = "current p @ (case sp_hand p of None \<Rightarrow> [] | Some m \<Rightarrow> [m])"
  let ?waiting = "?inflight @ cq_items items (sp_queue p)"
  have two: "length ?inflight \<le> 2"
    by (auto simp: current_def split: stomp_pc.splits option.splits)
  have sending: "\<forall>m. sp_pc p = Sending m \<longrightarrow> ss_conn (sp_session p) \<noteq> None" using conn by (auto simp: uses_conn_def)
  show ?thesis
  proof (cases "current p")
    case Nil
    have "concat (replicate k ([] :: MessageStruct list)) = []" by simp
    with Nil rep all arr t sending two show ?thesis
      by (intro exI [of _ sent] exI [of _ a] exI [of _ ?inflight] exI [of _ ?waiting] exI [of _ 0]) simp
  next
    case (Cons m ms)
    then have cur: "current p = [m]" by (auto simp: current_def uses_conn_def split: stomp_pc.splits option.splits)
    have "concat (replicate k [m]) = replicate k m" by (induction k) auto
    with cur rep all arr t sending two show ?thesis
      by (intro exI [of _ sent] exI [of _ a] exI [of _ ?inflight] exI [of _ ?waiting] exI [of _ k]) simp
  qed
qed

definition sample_stomp :: Config where
  "sample_stomp = zero_Config\<lparr>cfg_StompURL := Some \<lparr>url_User = None, url_Rest = ''host''\<rparr>,
     cfg_StompUser := ''u'', cfg_StompPassword := ''p'', cfg_StompTopic := ''xrd''\<rparr>"

definition sample_publisher :: "(unit, MessageStruct list) StompPublisher" where
  "sample_publisher = the (StartStomp (\<lambda>_ _. None) () sample_stomp (Init list_dque []))"

lemma sample_publisher: "StartStomp (\<lambda>_ _. None) () sample_stomp (Init list_dque []) = Some sample_publisher"
  by (simp add: sample_publisher_def StartStomp_def sample_stomp_def)

fun stomp_steps :: "stomp_event list \<Rightarrow> ('c, 'd) StompPublisher \<Rightarrow> ('c, 'd) StompPublisher option" where
  "stomp_steps [] p = Some p"
| "stomp_steps (ev # evs) p = Option.bind (stomp_step ev p) (stomp_steps evs)"

lemma stomp_steps_runs: "stomp_runs p0 p \<Longrightarrow> stomp_steps evs p = Some p' \<Longrightarrow> stomp_runs p0 p'"
  by (induction evs arbitrary: p) (auto simp: bind_eq_Some_conv intro: stomp_runs.step)

definition sample_stomp_events :: "stomp_event list" where
  "sample_stomp_events = [DialDone False, DialDone True, PutMessage \<lparr>ms_Message = ''x'', ms_Exchange = ''e''\<rparr>,
     ReadQueue, Take, SendDone ReceiptLost, DialDone True, SendDone Receipt]"

lemma sample_stomp_run:
  "\<exists>p. stomp_steps sample_stomp_events sample_publisher = Some p \<and>
     sp_arrived p = [(''/topic/xrd'', ''x''), (''/topic/xrd'', ''x'')] \<and> cq_items id (sp_queue p) = []"
  by (simp add: sample_stomp_events_def sample_publisher_def StartStomp_def sample_stomp_def stomp_topic_def
      GetNewStompConnection_def NewStompConnection_def connected_def arrive_def cq_put_def cq_get_def
      EnqueueToExchange_def dequeueLocked_def Init_def list_dque_def cq_items_def zero_Config_def has_prefix_def)

theorem stomp_at_least_once_witness:
  "\<exists>p sent a inflight. stomp_runs sample_publisher p \<and> sp_put p = sent @ inflight \<and> repeats sent a \<and>
     length (sp_arrived p) = 2"
proof -
  obtain p where run: "stomp_steps sample_stomp_events sample_publisher = Some p"
    and p: "sp_arrived p = [(''/topic/xrd'', ''x''), (''/topic/xrd'', ''x'')]" "cq_items id (sp_queue p) = []"
    using sample_stomp_run by blast
  from run have runs: "stomp_runs sample_publisher p" by (rule stomp_steps_runs [OF stomp_runs.start])
  have "dque_laws id list_dque" by (simp add: dque_laws_def list_dque_def)
  from stomp_at_least_once [OF this sample_publisher runs] obtain sent a inflight
    where "sp_put p = sent @ inflight" "repeats sent a"
    using p(2) by auto
  with p(1) runs show ?thesis
    by (intro exI [of _ p] exI [of _ sent] exI [of _ a] exI [of _ inflight]) simp
qed

text \<open>A certificate that cannot be loaded is not an error: the connection uses TLS without one.\<close>

lemma stomp_bad_certificate:
  "cert \<noteq> [] \<Longrightarrow> key \<noteq> [] \<Longrightarrow> load cert key = None \<Longrightarrow>
     GetStompConnection (GetNewStompConnection load no_cert user password url topic cert key) = TLSDial url [no_cert]"
  by (simp add: GetStompConnection_def GetNewStompConnection_def NewStompConnection_def)

end
