(* ===== verification/Queue_Waiting.thy ===== *)
theory Queue_Waiting
  imports Confirmation_Queue
begin

section \<open>Waiting on the confirmation queue (queue.go)\<close>

text \<open>
  \<open>Dequeue\<close> with its condition variable, any number of goroutines beside it. The steps are the
  sections under the queue's lock: an enqueue, which ends in a broadcast; the look of a goroutine
  at the queue, which takes a message or goes to sleep; and a wake-up without cause, which the
  code's loop allows for. The theorem: nobody sleeps while there is a message, and together the
  goroutines take the messages in the order of the queue.
\<close>

text \<open>\<open>wq_got\<close> is what each goroutine returned with, in the order of the queue's lock.\<close>

record 'd WaitQueue =
  wq_queue :: "'d ConfirmationQueue"
  wq_waiting :: "nat set"
  wq_put :: "MessageStruct list"
  wq_got :: "(nat \<times> MessageStruct) list"
  wq_panicked :: bool

datatype wait_event = EnqueueBy string string | LookBy nat | SpuriousWake nat

text \<open>One turn of the loop of \<open>Dequeue\<close> by the goroutine \<open>i\<close>.\<close>

definition look :: "nat \<Rightarrow> 'd WaitQueue \<Rightarrow> 'd WaitQueue" where
  "look i w =
     (case dequeueLocked (wq_queue w) of
        (q, Wait) \<Rightarrow> w\<lparr>wq_queue := q, wq_waiting := insert i (wq_waiting w)\<rparr>
      | (q, Received m) \<Rightarrow> w\<lparr>wq_queue := q, wq_got := wq_got w @ [(i, m)]\<rparr>
      | (q, Panic) \<Rightarrow> w\<lparr>wq_queue := q, wq_panicked := True\<rparr>)"

definition enqueue_broadcast :: "string \<Rightarrow> string \<Rightarrow> 'd WaitQueue \<Rightarrow> 'd WaitQueue" where
  "enqueue_broadcast msg exchange w =
     w\<lparr>wq_queue := EnqueueToExchange msg exchange (wq_queue w), wq_waiting := {},
       wq_put := wq_put w @ [\<lparr>ms_Message = msg, ms_Exchange = exchange\<rparr>]\<rparr>"

text \<open>\<open>None\<close>: a goroutine that sleeps does not look.\<close>

fun wait_step :: "wait_event \<Rightarrow> 'd WaitQueue \<Rightarrow> 'd WaitQueue option" where
  "wait_step (EnqueueBy msg exchange) w = Some (enqueue_broadcast msg exchange w)"
| "wait_step (LookBy i) w = (if i \<in> wq_waiting w then None else Some (look i w))"
| "wait_step (SpuriousWake i) w = Some (w\<lparr>wq_waiting := wq_waiting w - {i}\<rparr>)"

fun wait_run :: "wait_event list \<Rightarrow> 'd WaitQueue \<Rightarrow> 'd WaitQueue option" where
  "wait_run [] w = Some w"
| "wait_run (e # es) w = Option.bind (wait_step e w) (wait_run es)"

definition wait_init :: "'d ConfirmationQueue \<Rightarrow> 'd WaitQueue" where
  "wait_init q = \<lparr>wq_queue = q, wq_waiting = {}, wq_put = [], wq_got = [], wq_panicked = False\<rparr>"

text \<open>The ticker of \<open>queueMetrics\<close>: the gauge gets the size.\<close>

definition queueMetrics :: "'d ConfirmationQueue \<Rightarrow> nat" where
  "queueMetrics cq = Size cq"

definition wait_ok ::
  "('d \<Rightarrow> MessageStruct list) \<Rightarrow> MessageStruct list \<Rightarrow> 'd WaitQueue \<Rightarrow> bool" where
  "wait_ok items found w \<longleftrightarrow> cq_ok items (wq_queue w) \<and> \<not> wq_panicked w \<and>
     (wq_waiting w \<noteq> {} \<longrightarrow> cq_items items (wq_queue w) = []) \<and>
     found @ wq_put w = List.map snd (wq_got w) @ cq_items items (wq_queue w)"

lemma look_ok:
  assumes "wait_ok items found w"
  shows "wait_ok items found (look i w)"
    and "cq_items items (wq_queue w) = m # ms \<Longrightarrow>
      wq_got (look i w) = wq_got w @ [(i, m)] \<and> cq_items items (wq_queue (look i w)) = ms"
proof -
  have q: "cq_ok items (wq_queue w)" using assms by (simp add: wait_ok_def)
  note ok = dequeueLocked_ok [OF q]
  show "wait_ok items found (look i w)"
    using ok assms by (cases "cq_items items (wq_queue w)") (auto simp: look_def wait_ok_def)
  show "cq_items items (wq_queue w) = m # ms \<Longrightarrow>
      wq_got (look i w) = wq_got w @ [(i, m)] \<and> cq_items items (wq_queue (look i w)) = ms"
    using ok by (auto simp: look_def)
qed

lemma enqueue_broadcast_ok:
  "wait_ok items found w \<Longrightarrow> wait_ok items found (enqueue_broadcast msg exchange w)"
  using cq_put_ok [of items "wq_queue w" "\<lparr>ms_Message = msg, ms_Exchange = exchange\<rparr>"]
  by (simp add: wait_ok_def enqueue_broadcast_def cq_put_def)

lemma wait_step_ok: "wait_ok items found w \<Longrightarrow> wait_step e w = Some w' \<Longrightarrow> wait_ok items found w'"
  by (cases e) (auto simp: look_ok(1) enqueue_broadcast_ok split: if_splits, auto simp: wait_ok_def)

lemma wait_run_ok: "wait_ok items found w \<Longrightarrow> wait_run es w = Some w' \<Longrightarrow> wait_ok items found w'"
  by (induction es arbitrary: w) (auto simp: bind_eq_Some_conv dest: wait_step_ok)

text \<open>C28: However the goroutines that enqueue and dequeue interleave, over a disk queue that keeps its
  laws, none sleeps while there is a message: a goroutine that looks then returns with the oldest
  one. What was found on disk and enqueued since is what the goroutines have got, in that order,
  and what is still there.
\<close>

theorem dequeue_never_sleeps_on_messages:
  assumes "dque_laws items ops" and "wait_run es (wait_init (Init ops opened)) = Some w"
  shows "items opened @ wq_put w = List.map snd (wq_got w) @ cq_items items (wq_queue w) \<and> \<not> wq_panicked w \<and>
    (case cq_items items (wq_queue w) of
       [] \<Rightarrow> True
     | m # ms \<Rightarrow> wq_waiting w = {} \<and>
         (\<exists>w'. wait_step (LookBy i) w = Some w' \<and> wq_got w' = wq_got w @ [(i, m)] \<and> cq_items items (wq_queue w') = ms))"
proof -
  have "wait_ok items (items opened) (wait_init (Init ops opened))"
    using cq_ok_Init [OF assms(1), of opened] by (simp add: wait_ok_def wait_init_def)
  from wait_run_ok [OF this assms(2)] have ok: "wait_ok items (items opened) w" .
  with look_ok(2) [OF ok, of _ _ i] show ?thesis
    by (auto simp: wait_ok_def split: list.split)
qed

theorem dequeue_never_sleeps_witness:
  "\<exists>w. wait_run [LookBy 1, LookBy 2, EnqueueBy ''x'' [], LookBy 2, LookBy 1] (wait_init (Init list_dque [])) = Some w \<and>
     wq_put w = List.map snd (wq_got w) \<and> length (wq_put w) = 1 \<and> wq_waiting w = {1}"
proof -
  have laws: "dque_laws id list_dque" by (simp add: dque_laws_def list_dque_def)
  have "\<exists>w. wait_run [LookBy 1, LookBy 2, EnqueueBy ''x'' [], LookBy 2, LookBy 1] (wait_init (Init list_dque [])) = Some w \<and>
      cq_items id (wq_queue w) = [] \<and> length (wq_put w) = 1 \<and> wq_waiting w = {1}"
    by (simp add: wait_init_def look_def enqueue_broadcast_def Init_def list_dque_def dequeueLocked_def
        EnqueueToExchange_def cq_items_def)
  then obtain w where w: "wait_run [LookBy 1, LookBy 2, EnqueueBy ''x'' [], LookBy 2, LookBy 1]
      (wait_init (Init list_dque [])) = Some w" "cq_items id (wq_queue w) = []" "length (wq_put w) = 1" "wq_waiting w = {1}"
    by blast
  from dequeue_never_sleeps_on_messages [OF laws w(1)] w show ?thesis by auto
qed

end
