(* ===== verification/Collector_Start.thy ===== *)
theory Collector_Start
  imports Collector_Run Shoveler
begin

section \<open>Starting the commands (cmd/collector/main.go, cmd/shoveler/main.go)\<close>

text \<open>
  What \<open>main\<close> sets up from a configuration, up to the loops of the other theories: the outputs, the
  publisher behind the queue, the source of the packets. Opening the queue, the output file and
  the sockets are outcomes from the environment, \<open>print\<close> is \<open>URL.String\<close>. The theorems: which
  configurations start and with what, and that each record the publisher takes ends in every
  queue of the outputs, in order.
\<close>

subsection \<open>Outputs\<close>

datatype mq_publisher = NoPublisher | AMQPPublisher | STOMPPublisher

datatype 'd started = FatalExit | StartPanic | Started "'d connector list" mq_publisher

definition needs_queue :: "Config \<Rightarrow> bool" where
  "needs_queue config \<longleftrightarrow> ou_Type (cfg_Output config) \<in> {[], ''mq'', ''both''}"

definition needs_file :: "Config \<Rightarrow> bool" where
  "needs_file config \<longleftrightarrow> ou_Type (cfg_Output config) \<in> {''file'', ''both''}"

definition main_publisher :: "(URL \<Rightarrow> string) \<Rightarrow> Config \<Rightarrow> mq_publisher" where
  "main_publisher print config =
     (if cfg_MQ config = ''amqp'' then
        (case cfg_AmqpURL config of
           Some url \<Rightarrow> if print url \<noteq> [] then AMQPPublisher else NoPublisher
         | None \<Rightarrow> NoPublisher)
      else if cfg_MQ config = ''stomp'' then STOMPPublisher
      else NoPublisher)"

definition NewFileConnector :: "(string \<Rightarrow> bytes option) \<Rightarrow> string \<Rightarrow> FileConnector option" where
  "NewFileConnector open_append path =
     map_option (\<lambda>content. \<lparr>fc_content = content, fc_open = True\<rparr>) (open_append path)"

definition with_file ::
  "(string \<Rightarrow> bytes option) \<Rightarrow> Config \<Rightarrow> 'd connector list \<Rightarrow> mq_publisher \<Rightarrow> 'd started" where
  "with_file open_append config cs publisher =
     (if needs_file config then
        if ou_Path (cfg_Output config) = [] then FatalExit
        else case NewFileConnector open_append (ou_Path (cfg_Output config)) of
               None \<Rightarrow> FatalExit
             | Some fc \<Rightarrow> Started (cs @ [FileConn fc]) publisher
      else Started cs publisher)"

text \<open>\<open>opened\<close> is the disk queue, \<open>None\<close> when it cannot be opened, which panics.\<close>

definition main_outputs ::
  "(URL \<Rightarrow> string) \<Rightarrow> 'd dque \<Rightarrow> 'd option \<Rightarrow> (string \<Rightarrow> bytes option) \<Rightarrow> Config \<Rightarrow> 'd started" where
  "main_outputs print ops opened open_append config =
     (if needs_queue config then
        (case opened of
           None \<Rightarrow> StartPanic
         | Some d \<Rightarrow> with_file open_append config [QueueConn (Init ops d)] (main_publisher print config))
      else with_file open_append config [] NoPublisher)"

subsection \<open>Sources\<close>

datatype packet_source =
    FileSource string bool bool
  | RabbitSource string string string string string
  | UDPSource string int int

definition rabbit_source :: "(URL \<Rightarrow> string) \<Rightarrow> Config \<Rightarrow> packet_source" where
  "rabbit_source print config =
     (let brokerURL =
            (if in_BrokerURL (cfg_Input config) = [] then
               (case cfg_AmqpURL config of Some url \<Rightarrow> print url | None \<Rightarrow> in_BrokerURL (cfg_Input config))
             else in_BrokerURL (cfg_Input config));
          queueName = (if in_Topic (cfg_Input config) = [] then ''xrootd.monitoring'' else in_Topic (cfg_Input config))
      in RabbitSource brokerURL queueName [] ''#'' (cfg_AmqpToken config))"

definition file_source :: "Config \<Rightarrow> packet_source" where
  "file_source config =
     FileSource (in_Path (cfg_Input config)) (in_Base64Encoded (cfg_Input config)) (in_Follow (cfg_Input config))"

definition runCollectorMode :: "(URL \<Rightarrow> string) \<Rightarrow> Config \<Rightarrow> packet_source" where
  "runCollectorMode print config =
     (if in_Type (cfg_Input config) = ''file'' then file_source config
      else if in_Type (cfg_Input config) \<in> {''rabbitmq'', ''amqp''} then rabbit_source print config
      else UDPSource (cfg_ListenIp config) (cfg_ListenPort config) (1024 * 1024))"

definition runShovelingMode :: "Config \<Rightarrow> packet_source" where
  "runShovelingMode config =
     (if in_Type (cfg_Input config) = ''file'' then file_source config
      else UDPSource (cfg_ListenIp config) (cfg_ListenPort config) (1024 * 1024))"

text \<open>The settings of the shoveler's loops; \<open>dial\<close> is \<open>net.Dial\<close> of a forwarding destination.\<close>

definition shovel_config :: "string \<Rightarrow> (string \<Rightarrow> bool) \<Rightarrow> Config \<Rightarrow> ShovelConfig" where
  "shovel_config version dial config =
     \<lparr>vc_Verify = cfg_Verify config,
      vc_Map = \<lparr>mc_IpMapAll = cfg_IpMapAll config, mc_IpMap = cfg_IpMap config\<rparr>,
      vc_Version = version, vc_destinations = List.map dial (slice_items (cfg_DestUdp config))\<rparr>"

subsection \<open>What starts\<close>

lemma read_fields:
  assumes "ReadConfigWithPathAndPrefix parse v envPrefix c = Inr config"
  shows "cfg_MQ config = GetString v ''mq'' ''amqp''" and "cfg_MQ config \<in> {''amqp'', ''stomp''}"
    and "cfg_MQ config = ''amqp'' \<Longrightarrow> cfg_AmqpURL config = parse (GetString v ''amqp.url'' [])"
    and "cfg_Output config = \<lparr>ou_Type = GetString v ''output.type'' ''mq'', ou_Path = GetString v ''output.path'' []\<rparr>"
  using assms
  by (auto simp: ReadConfigWithPathAndPrefix_def read_mq_def read_amqp_def read_stomp_def read_rest_def Let_def
      split: option.splits sum.splits if_splits)

text \<open>C25: What the collector starts with, for every configuration that was read, in terms of the
  settings. It panics exactly when the output type needs the queue (mq, both or empty) and the queue
  cannot be opened; it exits exactly when that is not so and the type needs a file (file or both)
  that is not named or cannot be opened; in every other case it starts, and then the queue is the
  first output when it is needed and the file the last one, so that any other type has no output
  at all. Behind the queue runs the STOMP publisher when mq is stomp, and else the AMQP publisher
  unless the URL is empty; without a queue none runs.
\<close>

theorem collector_outputs:
  assumes "ReadConfigWithPathAndPrefix parse v envPrefix c = Inr config"
  shows "let type = GetString v ''output.type'' ''mq''; path = GetString v ''output.path'' [];
      queue = type \<in> {[], ''mq'', ''both''}; file = type \<in> {''file'', ''both''};
      result = main_outputs print ops opened open_append config
    in (result = StartPanic \<longleftrightarrow> queue \<and> opened = None) \<and>
      (result = FatalExit \<longleftrightarrow> \<not> (queue \<and> opened = None) \<and> file \<and> (path = [] \<or> open_append path = None)) \<and>
      (\<forall>cs publisher. result = Started cs publisher \<longleftrightarrow>
         \<not> (queue \<and> opened = None) \<and> \<not> (file \<and> (path = [] \<or> open_append path = None)) \<and>
         cs = (if queue then [QueueConn (Init ops (the opened))] else []) @
           (if file then [FileConn \<lparr>fc_content = the (open_append path), fc_open = True\<rparr>] else []) \<and>
         publisher =
           (if \<not> queue then NoPublisher
            else if GetString v ''mq'' ''amqp'' = ''stomp'' then STOMPPublisher
            else if map_option print (parse (GetString v ''amqp.url'' [])) = Some [] then NoPublisher
            else AMQPPublisher))"
proof -
  have url: "GetString v ''mq'' ''amqp'' = ''amqp'' \<Longrightarrow> parse (GetString v ''amqp.url'' []) \<noteq> None"
    using assms by (auto simp: ReadConfigWithPathAndPrefix_def read_mq_def read_amqp_def Let_def
        split: option.splits sum.splits)
  note fields = read_fields [OF assms]
  have pub: "main_publisher print config =
      (if GetString v ''mq'' ''amqp'' = ''stomp'' then STOMPPublisher
       else if map_option print (parse (GetString v ''amqp.url'' [])) = Some [] then NoPublisher else AMQPPublisher)"
    using fields(1-3) url by (auto simp: main_publisher_def split: option.splits)
  have type: "ou_Type (cfg_Output config) = GetString v ''output.type'' ''mq''"
    and path: "ou_Path (cfg_Output config) = GetString v ''output.path'' []"
    using fields(4) by simp_all
  show ?thesis
    unfolding Let_def main_outputs_def with_file_def NewFileConnector_def needs_queue_def needs_file_def type path pub
    by (cases opened; cases "open_append (GetString v ''output.path'' [])") auto
qed

theorem collector_outputs_witness:
  "main_outputs url_Rest list_dque (Some []) (\<lambda>_. None) sample_config = Started [QueueConn (Init list_dque [])] NoPublisher \<and>
   main_outputs url_Rest list_dque None (\<lambda>_. None) sample_config = StartPanic"
proof -
  have type: "GetString sample_viper ''output.type'' ''mq'' = ''mq''"
    by (simp add: GetString_def sample_viper_def)
  from collector_outputs [OF sample_config_read, where print = url_Rest and ops = list_dque and open_append = "\<lambda>_. None"] type
  show ?thesis by (auto simp: Let_def GetString_def sample_viper_def sample_url_def)
qed

text \<open>Neither command looks at the settings for the input's host, port and buffer size.\<close>

lemma input_address_ignored:
  "runCollectorMode print (config\<lparr>cfg_Input := (cfg_Input config)\<lparr>in_Host := h, in_Port := p, in_BufferSize := b\<rparr>\<rparr>) =
     runCollectorMode print config"
  "runShovelingMode (config\<lparr>cfg_Input := (cfg_Input config)\<lparr>in_Host := h, in_Port := p, in_BufferSize := b\<rparr>\<rparr>) =
     runShovelingMode config"
  by (simp_all add: runCollectorMode_def runShovelingMode_def file_source_def rabbit_source_def split: option.split)

subsection \<open>From the results to the queues\<close>

definition published_message :: "(out_value \<Rightarrow> bytes) \<Rightarrow> EnrichedRecord \<Rightarrow> MessageStruct" where
  "published_message render msg = \<lparr>ms_Message = render (Payload (er_Payload msg)), ms_Exchange = er_Exchange msg\<rparr>"

lemma publishEnrichedRecord_queue:
  assumes "i < length (co_output co)" and "co_output co ! i = QueueConn q"
  shows "length (co_output (publishEnrichedRecord render outcome msg co)) = length (co_output co) \<and>
    co_output (publishEnrichedRecord render outcome msg co) ! i = QueueConn (cq_put (published_message render msg) q)"
proof -
  have out: "co_output (publishEnrichedRecord render outcome msg co) =
      fst (Multi_WriteToExchange outcome (render (Payload (er_Payload msg))) (er_Exchange msg) (co_output co))"
    by (simp add: publishEnrichedRecord_def emitEnrichedRecord_def tally_def log_error_def Multi_Write_def Let_def
        case_prod_beta)
  from Multi_WriteToExchange_nth [OF assms(1)] assms(2) show ?thesis
    by (simp add: out connector_WriteToExchange_def QueueConnector_WriteToExchange_def cq_put_def published_message_def)
qed

lemma publisher_step_queue:
  assumes "publisher_step render outcome co = Some co'" and "i < length (co_output co)"
    and "co_output co ! i = QueueConn q"
  shows "length (co_output co') = length (co_output co) \<and>
    co_output co' ! i = QueueConn (cq_put (published_message render (pl_sent (co_pl co) ! co_published co)) q)"
  using assms publishEnrichedRecord_queue [of i "co\<lparr>co_published := Suc (co_published co)\<rparr>"]
  by (auto simp: publisher_step_def split: if_splits)

lemma finish_publishing_queue:
  assumes "i < length (co_output co)" and "co_output co ! i = QueueConn q" and "cq_ok items q"
  shows "\<exists>q'. length (co_output (finish_publishing render outcomes co)) = length (co_output co) \<and>
    co_output (finish_publishing render outcomes co) ! i = QueueConn q' \<and> cq_ok items q' \<and>
    cq_items items q' = cq_items items q @ List.map (published_message render) (drop (co_published co) (pl_sent (co_pl co)))"
  using assms
proof (induction render outcomes co arbitrary: q rule: finish_publishing.induct)
  case (1 render outcomes co)
  show ?case
  proof (cases "publisher_step render (outcomes 0) co")
    case None
    with 1(2-4) show ?thesis
      by (simp add: finish_publishing.simps [of render outcomes co] publisher_step_def split: if_splits)
  next
    case (Some co')
    let ?m = "published_message render (pl_sent (co_pl co) ! co_published co)"
    have unfold: "finish_publishing render outcomes co = finish_publishing render (\<lambda>i. outcomes (Suc i)) co'"
      by (subst finish_publishing.simps) (simp add: Some)
    note step = publisher_step_Some(1-3) [OF Some]
    note out = publisher_step_queue [OF Some 1(2,3)]
    note put = cq_put_ok [OF 1(4), of ?m]
    have "drop (co_published co) (pl_sent (co_pl co)) =
        pl_sent (co_pl co) ! co_published co # drop (co_published co') (pl_sent (co_pl co'))"
      using step by (simp add: Cons_nth_drop_Suc)
    with 1(1) [OF Some, of "cq_put ?m q"] out put 1(2) show ?thesis by (auto simp: unfold)
  qed
qed

text \<open>C24: Publishing carries over into the queues: when the publisher empties the results, each queue
  among the outputs has the messages it held, then one for each result that was left, rendered
  and under the result's exchange, in the order of the results, whether the queue is in memory or
  on disk and whatever the other outputs report.
\<close>

theorem published_results_queued:
  assumes "cq_ok items q" and "i < length (co_output co)" and "co_output co ! i = QueueConn q"
  shows "\<exists>q'. co_output (finish_publishing render outcomes co) ! i = QueueConn q' \<and>
    cq_items items q' = cq_items items q @
      List.map (\<lambda>msg. \<lparr>ms_Message = render (Payload (er_Payload msg)), ms_Exchange = er_Exchange msg\<rparr>)
        (drop (co_published co) (pl_sent (co_pl co)))"
  using finish_publishing_queue [OF assms(2,3,1), of render outcomes]
  unfolding published_message_def [abs_def] by blast

lemma start_collector_output:
  "start_collector registry config output = Some co \<Longrightarrow> co_output co = output \<and> co_published co = 0"
  by (auto simp: start_collector_def split: if_splits)

theorem published_results_queued_witness:
  "\<forall>r. \<exists>q'. co_output (finish_publishing (\<lambda>_. ''json'') (\<lambda>_ _. (True, True))
       (sample_start\<lparr>co_pl := (co_pl sample_start)\<lparr>pl_sent := [r, r]\<rparr>\<rparr>)) ! 0 = QueueConn q' \<and>
     cq_items id q' = [\<lparr>ms_Message = ''json'', ms_Exchange = er_Exchange r\<rparr>, \<lparr>ms_Message = ''json'', ms_Exchange = er_Exchange r\<rparr>]"
proof
  fix r
  let ?co = "sample_start\<lparr>co_pl := (co_pl sample_start)\<lparr>pl_sent := [r, r]\<rparr>\<rparr>"
  have "dque_laws id list_dque" by (simp add: dque_laws_def list_dque_def)
  from cq_ok_Init [OF this, of "[]"] have q: "cq_ok id (Init list_dque [])" "cq_items id (Init list_dque []) = []"
    by simp_all
  have co: "co_output ?co = [QueueConn (Init list_dque [])]" "co_published ?co = 0"
    using start_collector_output [OF sample_start] by simp_all
  from published_results_queued [OF q(1), of 0 ?co "\<lambda>_. ''json''" "\<lambda>_ _. (True, True)"] co q(2)
  show "\<exists>q'. co_output (finish_publishing (\<lambda>_. ''json'') (\<lambda>_ _. (True, True)) ?co) ! 0 = QueueConn q' \<and>
     cq_items id q' = [\<lparr>ms_Message = ''json'', ms_Exchange = er_Exchange r\<rparr>, \<lparr>ms_Message = ''json'', ms_Exchange = er_Exchange r\<rparr>]"
    by simp
qed

subsection \<open>A destination that cannot be dialled\<close>

text \<open>
  The shoveler warns that it does not forward to a destination whose \<open>Dial\<close> failed, and then panics
  on the first packet it would forward, after queueing it and sending it to the destinations
  before.
\<close>

lemma forward_undialled:
  "list_all id ds \<Longrightarrow> forward msg i (ds @ False # es) = (List.map (\<lambda>j. (j, msg)) [i..<i + length ds], True)"
proof (induction ds arbitrary: i)
  case (Cons d ds)
  have "[i..<i + length (d # ds)] = i # [Suc i..<Suc i + length ds]"
    by (subst upt_conv_Cons) simp_all
  then have tail: "List.map f [i..<i + length (d # ds)] = f i # List.map f [Suc i..<Suc i + length ds]" for f :: "nat \<Rightarrow> nat \<times> bytes"
    by (simp only: list.map)
  from Cons.prems Cons.IH [of "Suc i"] show ?case by (simp only: tail append_Cons forward.simps) simp
qed simp

theorem shovel_dial_failure_panics:
  assumes "slice_items (cfg_DestUdp config) = ds @ d # es" and "list_all dial ds" and "\<not> dial d"
    and "cfg_Verify config \<longrightarrow> VerifyPacket buf"
  shows "case shovel_udp_loop (shovel_config version dial config) (ReadPacket buf remote # rs) s of
    (s', panic) \<Rightarrow> panic \<and>
      (\<exists>msg. ss_queue s' = Enqueue_msg msg (ss_queue s) \<and>
        ss_forwarded s' = ss_forwarded s @ List.map (\<lambda>j. (j, msg)) [0..<length ds])"
proof -
  let ?c = "shovel_config version dial config"
  have "vc_destinations ?c = List.map dial ds @ False # List.map dial es"
    using assms(1,3) by (simp add: shovel_config_def)
  moreover have "list_all id (List.map dial ds)" using assms(2) by (simp add: list_all_iff)
  ultimately have "forward msg 0 (vc_destinations ?c) = (List.map (\<lambda>j. (j, msg)) [0..<length ds], True)" for msg
    using forward_undialled [of "List.map dial ds" msg 0 "List.map dial es"] by simp
  moreover have "\<not> (vc_Verify ?c \<and> \<not> VerifyPacket buf)" using assms(4) by (simp add: shovel_config_def)
  ultimately show ?thesis by (auto simp: shovel_udp_def Let_def)
qed

theorem shovel_dial_failure_panics_witness:
  "snd (shovel_udp_loop (shovel_config ''1'' (\<lambda>d. d = ''a:1'')
      (zero_Config\<lparr>cfg_DestUdp := Some [''a:1'', ''b'', ''c:1'']\<rparr>)) [ReadPacket ''x'' sample_remote] sample_shoveler)"
  using shovel_dial_failure_panics [where config = "zero_Config\<lparr>cfg_DestUdp := Some [''a:1'', ''b'', ''c:1'']\<rparr>"
      and ds = "[''a:1'']" and d = "''b''" and es = "[''c:1'']" and dial = "\<lambda>d. d = ''a:1''" and buf = "''x''"
      and version = "''1''" and remote = sample_remote and rs = "[]" and s = sample_shoveler]
  by (auto simp: slice_items_def zero_Config_def split: prod.splits)

end
