(* ===== verification/Collector_Modes.thy ===== *)
theory Collector_Modes
  imports Collector_Start Source_Runs
begin

section \<open>The three modes of the collector (cmd/collector/main.go)\<close>

text \<open>
  A mode starts the collector and its source, takes packets until the source's channel is closed
  and empty, stops the source and shuts down. Only then does it call the source's \<open>Stop\<close>: a file's
  channel closes at the end of the file, but the channels of the UDP listener and the RabbitMQ
  reader are closed by \<open>Stop\<close> alone. The theorems: what a file run has accounted for when it ends,
  and that the other two modes never end.
\<close>

subsection \<open>Any source\<close>

text \<open>
  The collector beside a source that keeps the contract: it never counts more packets than the
  source had, and every packet it counts is one of them.
\<close>

context packet_source begin

lemma received_at_most:
  assumes "start_collector registry config outs = Some co0" and "runs xs s"
    and "collects config co0 (ol_taken (out s)) co"
  shows "co_metrics co PacketsReceived + length (ol_items (out s)) \<le> length xs"
proof -
  have "run_inv (ol_taken (out s)) co" by (rule collects_inv [OF assms(3) start_collector_inv [OF assms(1)]])
  then have "co_metrics co PacketsReceived = length (ol_taken (out s))" by (simp add: run_inv_def)
  with taken_at_most [OF assms(2)] show ?thesis by simp
qed

end

text \<open>
  The same for the collector on the UDP listener: what it has received and what waits in the
  channel is at most what the listener read.
\<close>

lemmas udp_received_at_most = udp_ps.received_at_most

subsection \<open>Files\<close>

text \<open>
  \<open>file_mode\<close>: the packets taken from the file's reader, the number it dropped, the collector at the
  end. The goroutines run beside the reader; \<open>collects\<close> is any of their interleavings. \<open>files\<close> are
  the files there are. The loop over the packets ends when the reader has gone and its channel is
  empty; nobody has called \<open>Stop\<close> by then, which is deferred, and the file is one that does not grow
  while it is read.
\<close>

inductive file_mode ::
  "(URL \<Rightarrow> string) \<Rightarrow> ScitagsRegistry \<Rightarrow> Config \<Rightarrow> 'd connector list \<Rightarrow> (string \<Rightarrow> string option) \<Rightarrow>
   PacketWithAddr list \<Rightarrow> nat \<Rightarrow> 'd Collector \<Rightarrow> bool"
  for print registry config outs files where
  ends: "runCollectorMode print config = FileSource path base64 follow \<Longrightarrow>
    start_collector registry config outs = Some co0 \<Longrightarrow> File_Start (files path) base64 follow = Some r0 \<Longrightarrow>
    file_runs r0 xs r \<Longrightarrow> fl_gone r \<Longrightarrow> \<not> fl_stopped r \<Longrightarrow> fl_content r = fl_content r0 \<Longrightarrow> ol_items (fl_out r) = [] \<Longrightarrow>
    collects config co0 (ol_taken (fl_out r)) co \<Longrightarrow>
    file_mode print registry config outs files (ol_taken (fl_out r)) (fr_dropped (fl_reader r))
      (shutdown resolve marshal render envs outcomes schedule hostname config co)"

lemma finish_publishing_received:
  "co_metrics (finish_publishing render outcomes co) PacketsReceived = co_metrics co PacketsReceived \<and>
   co_metrics (finish_publishing render outcomes co) ParseErrors = co_metrics co ParseErrors \<and>
   co_metrics (finish_publishing render outcomes co) PacketsParsedOK = co_metrics co PacketsParsedOK"
proof (induction render outcomes co rule: finish_publishing.induct)
  case (1 render outcomes co)
  show ?case
  proof (cases "publisher_step render (outcomes 0) co")
    case None
    then show ?thesis by (simp add: finish_publishing.simps [of render outcomes co])
  next
    case (Some co')
    have "finish_publishing render outcomes co = finish_publishing render (\<lambda>i. outcomes (Suc i)) co'"
      by (subst finish_publishing.simps) (simp add: Some)
    with 1 [OF Some] publisher_step_Some(7-9) [OF Some] show ?thesis by simp
  qed
qed

lemma shutdown_received:
  "co_metrics (shutdown resolve marshal render envs outcomes schedule hostname config co) PacketsReceived = co_metrics co PacketsReceived"
  "co_metrics (shutdown resolve marshal render envs outcomes schedule hostname config co) ParseErrors = co_metrics co ParseErrors"
  "co_metrics (shutdown resolve marshal render envs outcomes schedule hostname config co) PacketsParsedOK = co_metrics co PacketsParsedOK"
  by (simp_all add: shutdown_def Let_def finish_publishing_received finish_gstream_keeps)

text \<open>C22: When the collector has read a file to its end, it has taken, in their order, packets of the
  file, and every packet of the file was either received or dropped because the pipeline was
  behind: the packets of all lines that decode, up to the end of the file or to the first line of
  10 MB, which the scanner does not get past. Each received one was parsed or counted as an error;
  the g-stream channel is empty, and as many records were emitted as were sent to the results.
\<close>

theorem file_mode_accounts:
  assumes "file_mode print registry config outs files taken dropped co"
    and "runCollectorMode print config = FileSource path base64 follow" and "files path = Some content"
  shows "subseq taken (file_packets base64 content) \<and>
    length (file_packets base64 content) = co_metrics co PacketsReceived + dropped \<and>
    co_metrics co PacketsReceived = length taken \<and>
    co_metrics co PacketsReceived = co_metrics co ParseErrors + co_metrics co PacketsParsedOK \<and>
    co_gstream co = Some [] \<and> co_metrics co RecordsEmitted = length (pl_sent (co_pl co)) \<and>
    co_published co = length (pl_sent (co_pl co))"
  using assms(1)
proof cases
  case (ends path' base64' follow' co0 r0 xs r co1 resolve marshal render envs outcomes schedule hostname)
  have start: "File_Start (Some content) base64 follow = Some r0" using ends(4,6) assms(2,3) by simp
  then have "fl_content r0 = content" by (auto simp: File_Start_Some)
  with file_read_all [OF start ends(7-9)] ends(10) have xs: "xs = file_packets base64 content" by simp
  note reader = file_ok_delivers [OF file_runs_ok [OF ends(7) File_Start_ok [OF start]]]
  have "run_inv (ol_taken (fl_out r)) co1"
    by (rule collects_inv [OF ends(12) start_collector_inv [OF ends(5)]])
  then have inv: "co_metrics co1 PacketsReceived = length (ol_taken (fl_out r))"
    "co_metrics co1 PacketsReceived = co_metrics co1 ParseErrors + co_metrics co1 PacketsParsedOK"
    by (simp_all add: run_inv_def)
  note done' = shutdown_all [OF ends(5) ends(12), of resolve marshal render envs outcomes schedule hostname]
  from reader(1,3,4) inv done' ends(9,11) show ?thesis
    by (simp add: ends(1-3) shutdown_received xs)
qed

definition file_config :: Config where
  "file_config = sample_config\<lparr>cfg_Input := (cfg_Input sample_config)\<lparr>in_Type := ''file'', in_Base64Encoded := True, in_Follow := False\<rparr>\<rparr>"

lemma file_config_source:
  "runCollectorMode url_Rest file_config =
     FileSource (in_Path (cfg_Input sample_config)) True False"
  by (simp add: runCollectorMode_def file_config_def file_source_def)

lemma file_config_start: "start_collector empty_registry file_config [QueueConn (Init list_dque [])] \<noteq> None"
  using sample_start
  by (auto simp: start_collector_def buildCorrelatorConfig_def file_config_def split: if_splits)

text \<open>A file of two lines, the first of which is no packet.\<close>

definition sample_file :: string where
  "sample_file = file_text [''x'', ''{}'']"

definition sample_line :: PacketWithAddr where
  "sample_line = \<lparr>pa_Data = [], pa_RemoteAddr = []\<rparr>"

definition file_reader_at :: "nat \<Rightarrow> scan_error \<Rightarrow> PacketWithAddr list \<Rightarrow> FileReader" where
  "file_reader_at pos err packets =
     (NewFileReaderWithFollow True False)\<lparr>fr_scanner := \<lparr>sc_pos = pos, sc_err = err\<rparr>, fr_packets := packets\<rparr>"

lemma sample_lines: "decode_message True ''x'' = None" "decode_message True ''{}'' = Some sample_line"
  unfolding sample_line_def by code_simp+

lemma sample_scans:
  "Scan sample_file \<lparr>sc_pos = 0, sc_err = NoError\<rparr> = (\<lparr>sc_pos = 2, sc_err = NoError\<rparr>, Some ''x'')"
  "Scan sample_file \<lparr>sc_pos = 2, sc_err = NoError\<rparr> = (\<lparr>sc_pos = 5, sc_err = NoError\<rparr>, Some ''{}'')"
  "Scan sample_file \<lparr>sc_pos = 5, sc_err = NoError\<rparr> = (\<lparr>sc_pos = 5, sc_err = EOF\<rparr>, None)"
  by (simp_all add: sample_file_def Scan_def Let_def before_def drop_cr_def)

lemma sample_read_lines:
  "read_line sample_file True (file_reader_at 0 NoError []) = (file_reader_at 2 NoError [], Continue)"
  "read_line sample_file True (file_reader_at 2 NoError []) = (file_reader_at 5 NoError [sample_line], Continue)"
  "read_line sample_file True (file_reader_at 5 NoError ps) = (file_reader_at 5 EOF ps, Ended)"
  "next_packet sample_file (file_reader_at 0 NoError []) = None"
  "next_packet sample_file (file_reader_at 2 NoError []) = Some sample_line"
  "next_packet sample_file (file_reader_at 5 NoError ps) = None"
  by (simp_all add: read_line_def next_packet_def file_reader_at_def NewFileReaderWithFollow_def sample_scans sample_lines)

definition sample_file_run :: "FileReader \<Rightarrow> PacketWithAddr outlet \<Rightarrow> FileRun" where
  "sample_file_run f ol = \<lparr>fl_reader = f, fl_content = sample_file, fl_gone = False, fl_stopped = False, fl_open = True,
     fl_out = ol, fl_given_up = []\<rparr>"

abbreviation sample_outlet :: "PacketWithAddr list \<Rightarrow> PacketWithAddr list \<Rightarrow> PacketWithAddr outlet" where
  "sample_outlet items taken \<equiv> new_outlet\<lparr>ol_items := items, ol_accepted := [sample_line], ol_taken := taken\<rparr>"

lemma sample_file_runs:
  "file_runs (sample_file_run (file_reader_at 0 NoError []) new_outlet) [sample_line]
     (file_exit (sample_file_run (file_reader_at 5 EOF [sample_line]) (sample_outlet [] [sample_line])))"
proof -
  let ?r0 = "sample_file_run (file_reader_at 0 NoError []) new_outlet"
  have "file_runs ?r0 [] (sample_file_run (file_reader_at 2 NoError []) new_outlet)"
    using file_runs.no_packet [OF file_runs.start, of ?r0 "file_reader_at 2 NoError []" Continue] sample_read_lines
    by (simp add: sample_file_run_def)
  moreover have "offer False sample_line new_outlet (sample_outlet [sample_line] []) Accepted"
    using offer.send [of "new_outlet :: PacketWithAddr outlet" False sample_line] by (simp add: new_outlet_def outlet_capacity_def)
  ultimately have "file_runs ?r0 [sample_line]
      (sample_file_run (file_reader_at 5 NoError [sample_line]) (sample_outlet [sample_line] []))"
    using file_runs.packet [of ?r0 "[]" _ sample_line _ Accepted] sample_read_lines by (fastforce simp: sample_file_run_def)
  from file_runs.receive [OF this, of sample_line "[]"]
  have "file_runs ?r0 [sample_line] (sample_file_run (file_reader_at 5 NoError [sample_line]) (sample_outlet [] [sample_line]))"
    by (simp add: sample_file_run_def new_outlet_def)
  from file_runs.no_packet [OF this, of "file_reader_at 5 EOF [sample_line]" Ended] sample_read_lines
  show ?thesis by (simp add: sample_file_run_def)
qed

theorem file_mode_accounts_witness:
  "\<exists>co. file_mode url_Rest empty_registry file_config [QueueConn (Init list_dque [])] (\<lambda>path. Some sample_file)
       [sample_line] 0 co \<and>
     length (file_packets True sample_file) = 1 \<and> co_metrics co PacketsReceived = 1 \<and> co_gstream co = Some []"
proof -
  let ?outs = "[QueueConn (Init list_dque [])]" and ?in = "cfg_Input sample_config"
  obtain co0 where co0: "start_collector empty_registry file_config ?outs = Some co0"
    using file_config_start by blast
  have "File_Start (Some sample_file) True False = Some (sample_file_run (file_reader_at 0 NoError []) new_outlet)"
    by (simp add: File_Start_def sample_file_run_def file_reader_at_def NewFileReaderWithFollow_def)
  note run = file_mode.ends [OF file_config_source co0 _ sample_file_runs, of "\<lambda>path. Some sample_file", OF this]
  have "collects file_config co0 [sample_line] (process_one sample_env 5 (enrichment_destination file_config) sample_line co0)"
    using collects.packet [OF collects.start, of file_config co0 sample_line sample_env 5] by simp
  then obtain co where "file_mode url_Rest empty_registry file_config ?outs (\<lambda>path. Some sample_file) [sample_line] 0 co"
    using run by (fastforce simp: file_exit_def sample_file_run_def file_reader_at_def NewFileReaderWithFollow_def new_outlet_def)
  with file_mode_accounts [OF this file_config_source] show ?thesis by auto
qed

subsection \<open>UDP and RabbitMQ\<close>

text \<open>
  \<open>udp_mode u0 xs u returned\<close>: the listener beside \<open>runCollectorModeUDP\<close>, whose loop returns when the
  channel is closed and empty; the deferred \<open>Stop\<close> comes after that. No other call of \<open>Stop\<close> is in
  the program.
\<close>

inductive udp_mode :: "UDPListener \<Rightarrow> PacketWithAddr list \<Rightarrow> UDPListener \<Rightarrow> bool \<Rightarrow> bool" for u0 where
  start: "udp_mode u0 [] u0 False"
| listener: "udp_mode u0 xs u returned \<Longrightarrow> udp_reads u ys u' \<Longrightarrow> ul_stopped u' = ul_stopped u \<Longrightarrow>
    udp_mode u0 (xs @ ys) u' returned"
| return: "udp_mode u0 xs u False \<Longrightarrow> ol_closed (ul_out u) \<Longrightarrow> ol_items (ul_out u) = [] \<Longrightarrow> udp_mode u0 xs u True"
| stop: "udp_mode u0 xs u True \<Longrightarrow> udp_mode u0 xs (u\<lparr>ul_stopped := True\<rparr>) True"

lemma udp_reads_open:
  "udp_reads u ys u' \<Longrightarrow> ul_pc u \<noteq> Gone \<Longrightarrow> \<not> ol_closed (ul_out u) \<Longrightarrow> \<not> ul_stopped u' \<Longrightarrow>
     ul_pc u' \<noteq> Gone \<and> \<not> ol_closed (ul_out u')"
  by (induction rule: udp_reads.induct) (auto elim: offerE simp: udp_exit_def split: if_splits)

text \<open>C23: The UDP mode of the collector never ends: its loop waits for a channel that only \<open>Stop\<close>
  closes, and \<open>Stop\<close> is deferred to the end of the loop. So the deferred shutdown, which would
  publish what is pending, is never reached.
\<close>

theorem udp_mode_never_returns:
  assumes "UDP_Start bufferSize listens sets_buffer = Some u0" and "udp_mode u0 xs u returned"
  shows "\<not> returned \<and> \<not> ul_stopped u \<and> \<not> ol_closed (ul_out u)"
proof -
  have u0: "ul_pc u0 \<noteq> Gone" "\<not> ol_closed (ul_out u0)" "\<not> ul_stopped u0"
    using assms(1) by (auto simp: UDP_Start_def new_outlet_def split: if_splits)
  from assms(2) have "\<not> returned \<and> \<not> ul_stopped u \<and> ul_pc u \<noteq> Gone \<and> \<not> ol_closed (ul_out u)"
  proof (induction rule: udp_mode.induct)
    case (listener xs u returned ys u')
    with udp_reads_open [OF listener.hyps(2)] show ?case by simp
  qed (use u0 in auto)
  then show ?thesis by simp
qed

theorem udp_mode_never_returns_witness:
  "\<exists>u. udp_mode sample_listener [udp_packet ''x'' None] u False \<and> \<not> ol_closed (ul_out u)"
proof -
  let ?u = "sample_listener\<lparr>ul_out := new_outlet\<lparr>ol_items := [udp_packet ''x'' None], ol_accepted := [udp_packet ''x'' None]\<rparr>\<rparr>"
  have "UDP_Start 0 True True = Some sample_listener" by (simp add: UDP_Start_def sample_listener_def)
  moreover have "udp_mode sample_listener [udp_packet ''x'' None] ?u False"
    using udp_mode.listener [OF udp_mode.start sample_listener_reads] by simp
  ultimately show ?thesis using udp_mode_never_returns by blast
qed

end
