(* ===== verification/Program_Start.thy ===== *)
theory Program_Start
  imports Collector_Modes
begin

section \<open>The two programs from their configuration (cmd/*/main.go, metrics.go, profile.go)\<close>

text \<open>
  What runs once \<open>main\<close> has read its configuration: the outputs, the publisher, the HTTP servers,
  the goroutines and the source of packets. The servers for metrics and for profiles serve Go's
  default multiplexer, on which importing the profiling package has registered its handlers. The
  theorems: what is served where; and that a RabbitMQ run, like a UDP run, does not come back.
\<close>

subsection \<open>HTTP servers\<close>

record Web =
  wb_patterns :: "string list"
  wb_listening :: "string list"

text \<open>What importing \<open>net/http/pprof\<close> registers.\<close>

definition pprof_patterns :: "string list" where
  "pprof_patterns =
     [''/debug/pprof/'', ''/debug/pprof/cmdline'', ''/debug/pprof/profile'', ''/debug/pprof/symbol'', ''/debug/pprof/trace'']"

definition initial_web :: Web where
  "initial_web = \<lparr>wb_patterns = pprof_patterns, wb_listening = []\<rparr>"

text \<open>\<open>ListenAndServe\<close> of the default multiplexer; \<open>free\<close> tells which addresses can be bound.\<close>

definition ListenAndServe :: "(string \<Rightarrow> bool) \<Rightarrow> string \<Rightarrow> Web \<Rightarrow> Web" where
  "ListenAndServe free addr web =
     (if free addr \<and> addr \<notin> set (wb_listening web) then web\<lparr>wb_listening := addr # wb_listening web\<rparr> else web)"

definition listen_address :: "int \<Rightarrow> string" where
  "listen_address port = '':'' @ dec_int port"

definition StartMetrics :: "(string \<Rightarrow> bool) \<Rightarrow> int \<Rightarrow> Web \<Rightarrow> Web" where
  "StartMetrics free metricsPort web =
     ListenAndServe free (listen_address metricsPort) (web\<lparr>wb_patterns := ''/metrics'' # wb_patterns web\<rparr>)"

definition StartProfile :: "(string \<Rightarrow> bool) \<Rightarrow> int \<Rightarrow> Web \<Rightarrow> Web" where
  "StartProfile free profilePort web = ListenAndServe free (listen_address profilePort) web"

definition start_services :: "(string \<Rightarrow> bool) \<Rightarrow> Config \<Rightarrow> Web \<Rightarrow> Web" where
  "start_services free config web =
     (let web' = (if cfg_Metrics config then StartMetrics free (cfg_MetricsPort config) web else web)
      in if cfg_Profile config then StartProfile free (cfg_ProfilePort config) web' else web')"

text \<open>A pattern that ends in a slash matches everything below it.\<close>

definition pattern_matches :: "string \<Rightarrow> string \<Rightarrow> bool" where
  "pattern_matches pat path \<longleftrightarrow> path = pat \<or> pat \<noteq> [] \<and> last pat = CHR ''/'' \<and> prefix pat path"

definition serves :: "Web \<Rightarrow> string \<Rightarrow> string \<Rightarrow> bool" where
  "serves web addr path \<longleftrightarrow> addr \<in> set (wb_listening web) \<and> list_ex (\<lambda>pat. pattern_matches pat path) (wb_patterns web)"

subsection \<open>The programs\<close>

record 'd program =
  pg_outputs :: "'d connector list"
  pg_publisher :: mq_publisher
  pg_web :: Web
  pg_source :: packet_source

text \<open>\<open>main\<close> of the collector; \<open>None\<close> is an exit or a panic before the packets.\<close>

definition collector_main ::
  "(URL \<Rightarrow> string) \<Rightarrow> 'd dque \<Rightarrow> 'd option \<Rightarrow> (string \<Rightarrow> bytes option) \<Rightarrow> (string \<Rightarrow> bool) \<Rightarrow> Config \<Rightarrow> 'd program option" where
  "collector_main print ops opened open_append free config =
     (case main_outputs print ops opened open_append config of
        Started cs publisher \<Rightarrow> Some
          \<lparr>pg_outputs = cs, pg_publisher = publisher, pg_web = start_services free config initial_web,
           pg_source = runCollectorMode print config\<rparr>
      | _ \<Rightarrow> None)"

definition shoveler_publisher :: "Config \<Rightarrow> mq_publisher" where
  "shoveler_publisher config =
     (if cfg_MQ config = ''amqp'' then AMQPPublisher
      else if cfg_MQ config = ''stomp'' then STOMPPublisher else NoPublisher)"

definition shoveler_main :: "'d dque \<Rightarrow> 'd option \<Rightarrow> (string \<Rightarrow> bool) \<Rightarrow> Config \<Rightarrow> 'd program option" where
  "shoveler_main ops opened free config =
     map_option (\<lambda>d. \<lparr>pg_outputs = [QueueConn (Init ops d)], pg_publisher = shoveler_publisher config,
        pg_web = start_services free config initial_web, pg_source = runShovelingMode config\<rparr>) opened"

text \<open>The UDP run of the shoveler: a socket that cannot be opened panics.\<close>

definition runShovelingModeUDP ::
  "string \<Rightarrow> bool \<Rightarrow> (string \<Rightarrow> bool) \<Rightarrow> Config \<Rightarrow> udp_read list \<Rightarrow> 'd ShovelerState \<Rightarrow> 'd ShovelerState \<times> bool" where
  "runShovelingModeUDP version listens dial config reads s =
     (if listens then shovel_udp_loop (shovel_config version dial config) reads s else (s, True))"

text \<open>The g-stream workers: the capacity of their channel and how many there are.\<close>

definition gstream_worker_count :: "Config \<Rightarrow> nat" where
  "gstream_worker_count config =
     (if st_GStreamWorkers (cfg_State config) \<le> 0 then 4 else nat (st_GStreamWorkers (cfg_State config)))"

definition startGStreamWorkers :: "Config \<Rightarrow> nat \<times> nat" where
  "startGStreamWorkers config = (gstream_queue_size config, gstream_worker_count config)"

lemma gstream_workers_positive: "0 < fst (startGStreamWorkers config) \<and> 0 < snd (startGStreamWorkers config)"
  by (simp add: startGStreamWorkers_def gstream_queue_size_def gstream_worker_count_def)

subsection \<open>What is served\<close>

lemma listening_services:
  "addr \<in> set (wb_listening (start_services free config initial_web)) \<longleftrightarrow> free addr \<and>
     (cfg_Metrics config \<and> addr = listen_address (cfg_MetricsPort config) \<or>
      cfg_Profile config \<and> addr = listen_address (cfg_ProfilePort config))"
  by (auto simp: start_services_def StartMetrics_def StartProfile_def ListenAndServe_def initial_web_def Let_def)

lemma patterns_services:
  "wb_patterns (start_services free config initial_web) =
     (if cfg_Metrics config then ''/metrics'' # pprof_patterns else pprof_patterns)"
  by (simp add: start_services_def StartMetrics_def StartProfile_def ListenAndServe_def initial_web_def Let_def)

lemma pprof_below: "list_ex (\<lambda>pat. pattern_matches pat path) pprof_patterns \<longleftrightarrow> prefix ''/debug/pprof/'' path"
  by (auto simp: pprof_patterns_def pattern_matches_def)

text \<open>C37: What the programs serve over HTTP. Either program, once started, listens exactly at the
  metrics port when metrics are on and at the profile port when profiling is on, as far as the
  addresses can be bound; and every address it listens at serves the same paths: all profiles,
  and the metrics when they are on. So a program with metrics on and profiling off serves the
  profiles all the same, at the metrics port.\<close>

theorem served_paths:
  assumes "collector_main print ops opened open_append free config = Some pg \<or>
    shoveler_main ops opened free config = Some pg"
  shows "(serves (pg_web pg) addr path \<longleftrightarrow> free addr \<and>
      (cfg_Metrics config \<and> addr = listen_address (cfg_MetricsPort config) \<or>
       cfg_Profile config \<and> addr = listen_address (cfg_ProfilePort config)) \<and>
      (prefix ''/debug/pprof/'' path \<or> cfg_Metrics config \<and> path = ''/metrics'')) \<and>
    (cfg_Metrics config \<and> free (listen_address (cfg_MetricsPort config)) \<longrightarrow>
      serves (pg_web pg) (listen_address (cfg_MetricsPort config)) ''/debug/pprof/heap'')"
proof -
  have web: "pg_web pg = start_services free config initial_web"
    using assms by (auto simp: collector_main_def shoveler_main_def split: started.splits)
  have metrics: "pattern_matches ''/metrics'' path \<longleftrightarrow> path = ''/metrics''" for path
    by (auto simp: pattern_matches_def)
  have "serves (pg_web pg) addr path \<longleftrightarrow> free addr \<and>
      (cfg_Metrics config \<and> addr = listen_address (cfg_MetricsPort config) \<or>
       cfg_Profile config \<and> addr = listen_address (cfg_ProfilePort config)) \<and>
      (prefix ''/debug/pprof/'' path \<or> cfg_Metrics config \<and> path = ''/metrics'')" for addr path
    unfolding web serves_def listening_services patterns_services by (auto simp: pprof_below metrics)
  then show ?thesis by simp
qed

lemma served_paths_witness:
  "let config = zero_Config\<lparr>cfg_Metrics := True, cfg_MetricsPort := 8000\<rparr>;
       web = start_services (\<lambda>_. True) config initial_web
   in (serves web '':3030'' ''/metrics'' \<longleftrightarrow> True \<and>
        (True \<and> '':3030'' = listen_address 8000 \<or> False \<and> '':3030'' = listen_address (cfg_ProfilePort config)) \<and>
        (prefix ''/debug/pprof/'' ''/metrics'' \<or> True \<and> ''/metrics'' = ''/metrics'')) \<and>
      (True \<and> True \<longrightarrow> serves web (listen_address 8000) ''/debug/pprof/heap'')"
proof -
  let ?config = "zero_Config\<lparr>cfg_Metrics := True, cfg_MetricsPort := 8000\<rparr>"
  obtain pg where pg: "shoveler_main list_dque (Some []) (\<lambda>_. True) ?config = Some pg"
    "pg_web pg = start_services (\<lambda>_. True) ?config initial_web"
    by (simp add: shoveler_main_def)
  have "cfg_Metrics ?config" "\<not> cfg_Profile ?config" "cfg_MetricsPort ?config = 8000"
    by (simp_all add: zero_Config_def)
  with served_paths [OF disjI2 [OF pg(1)], of "'':3030''" "''/metrics''"] pg(2) show ?thesis
    by (simp add: Let_def)
qed

subsection \<open>The RabbitMQ run\<close>

text \<open>
  \<open>rabbit_mode decode xs r returned\<close>: the reader beside \<open>runCollectorModeRabbitMQ\<close>. The loop over the
  reader's packets returns when the channel is closed and empty; only then are the deferred calls
  made, \<open>Stop\<close> of the reader first.
\<close>

inductive rabbit_mode ::
  "(bytes \<Rightarrow> PacketWithAddr option) \<Rightarrow> PacketWithAddr list \<Rightarrow> ReaderRun \<Rightarrow> bool \<Rightarrow> bool" for decode where
  reader: "reader_runs decode xs r \<Longrightarrow> rn_stop r = NotStopped \<Longrightarrow> rabbit_mode decode xs r False"
| return: "rabbit_mode decode xs r False \<Longrightarrow> ol_closed (rn_out r) \<Longrightarrow> ol_items (rn_out r) = [] \<Longrightarrow>
    rabbit_mode decode xs r True"
| stop: "rabbit_mode decode xs r True \<Longrightarrow> rabbit_mode decode xs (r\<lparr>rn_stop := Signalled\<rparr>) True"

text \<open>The RabbitMQ mode of the collector never returns either: its packets end only when
  \<open>Stop\<close> closes the reader's channel, and \<open>Stop\<close> is deferred to the end of the loop over them. Until
  then nothing is lost: the packets of the deliveries are those received, those waiting and the
  one in the reader's hand.\<close>

theorem rabbit_mode_never_returns:
  assumes "rabbit_mode decode xs r returned"
  shows "\<not> returned \<and> rn_stop r = NotStopped \<and> \<not> ol_closed (rn_out r) \<and>
    xs = ol_taken (rn_out r) @ ol_items (rn_out r) @ in_hand r"
  using assms
proof (induction rule: rabbit_mode.induct)
  case (reader xs r)
  with reader_runs_ok [OF reader(1)] reader_stages(1) [OF reader(1)] show ?case
    by (simp add: run_ok_def Let_def less_stop_pc_def)
qed simp_all

lemma rabbit_mode_never_returns_witness:
  "let r = new_reader_run\<lparr>rn_pc := Decoded \<lparr>pa_Data = ''x'', pa_RemoteAddr = []\<rparr>\<rparr>
   in \<not> False \<and> rn_stop r = NotStopped \<and> \<not> ol_closed (rn_out r) \<and>
      [\<lparr>pa_Data = ''x'', pa_RemoteAddr = []\<rparr>] = ol_taken (rn_out r) @ ol_items (rn_out r) @ in_hand r"
  unfolding Let_def
  by (rule rabbit_mode_never_returns [where decode = "\<lambda>b. Some \<lparr>pa_Data = b, pa_RemoteAddr = []\<rparr>",
        OF rabbit_mode.reader [OF reader_decoded [where body = "''x''"]]])
    (simp_all add: new_reader_run_def)

end
