(* ===== verification/Amqp_Wire.thy ===== *)
theory Amqp_Wire
  imports Amqp_Pool
begin

section \<open>From the AMQP library to the broker (amqp.go)\<close>

text \<open>
  \<open>Push\<close> returns when the library's \<open>Publish\<close> does: \<open>UnsafePush\<close> gives no guarantee that the server
  receives the message, and although \<open>init\<close> puts the channel into confirm mode, no confirmation is
  ever waited for. So what the pool has published is what the library accepted. This theory adds
  the way from there to the broker: an accepted message flies on the AMQP channel it was handed
  to, and either arrives or is lost with its connection. Of the wire only this is taken from AMQP:
  the messages of one channel arrive in the order they were sent, each once at most. The pool has
  one worker here, so that there is one channel at a time.
\<close>

subsection \<open>The wire\<close>

text \<open>
  Messages are named by their index in \<open>wp_published\<close>. \<open>wi_opened\<close> counts the channels opened so
  far, \<open>wi_channels\<close> has for each accepted message the channel that carries it.
\<close>

record 'd Wire =
  wi_pool :: "'d WorkerPool"
  wi_opened :: nat
  wi_channels :: "nat list"
  wi_flight :: "nat list"
  wi_broker :: "nat list"
  wi_lost :: "nat list"

definition wire_start :: "'d WorkerPool \<Rightarrow> 'd Wire" where
  "wire_start p = \<lparr>wi_pool = p, wi_opened = 0, wi_channels = [], wi_flight = [], wi_broker = [], wi_lost = []\<rparr>"

text \<open>A step of the pool; the arrival, or the loss, of the message at a place of those in flight.\<close>

datatype wire_event = PoolEvent pool_event | Arrive nat | Lose nat

definition opens_channel :: "pool_event \<Rightarrow> bool" where
  "opens_channel e \<longleftrightarrow> (case e of Work i (SessionEvent (ChannelOpened ok)) \<Rightarrow> ok | _ \<Rightarrow> False)"

definition pool_moves :: "pool_event \<Rightarrow> 'd WorkerPool \<Rightarrow> 'd Wire \<Rightarrow> 'd Wire" where
  "pool_moves e p' w =
     (let n = length (wp_published (wi_pool w)); n' = length (wp_published p')
      in w\<lparr>wi_pool := p', wi_opened := (if opens_channel e then Suc (wi_opened w) else wi_opened w),
           wi_channels := wi_channels w @ replicate (n' - n) (wi_opened w),
           wi_flight := wi_flight w @ [n..<n']\<rparr>)"

definition without :: "nat \<Rightarrow> 'a list \<Rightarrow> 'a list" where
  "without k xs = take k xs @ drop (Suc k) xs"

text \<open>A message can arrive when no earlier one of its channel is in flight.\<close>

definition oldest_of_channel :: "'d Wire \<Rightarrow> nat \<Rightarrow> bool" where
  "oldest_of_channel w k \<longleftrightarrow>
     list_all (\<lambda>i. wi_channels w ! i \<noteq> wi_channels w ! (wi_flight w ! k)) (take k (wi_flight w))"

fun wire_apply :: "Config \<Rightarrow> wire_event \<Rightarrow> 'd Wire \<Rightarrow> 'd Wire option" where
  "wire_apply config (PoolEvent e) w =
     (case pool_apply config e (wi_pool w) of None \<Rightarrow> None | Some p' \<Rightarrow> Some (pool_moves e p' w))"
| "wire_apply config (Arrive k) w =
     (if k < length (wi_flight w) \<and> oldest_of_channel w k
      then Some (w\<lparr>wi_flight := without k (wi_flight w), wi_broker := wi_broker w @ [wi_flight w ! k]\<rparr>)
      else None)"
| "wire_apply config (Lose k) w =
     (if k < length (wi_flight w)
      then Some (w\<lparr>wi_flight := without k (wi_flight w), wi_lost := wi_lost w @ [wi_flight w ! k]\<rparr>)
      else None)"

fun wire_run :: "Config \<Rightarrow> wire_event list \<Rightarrow> 'd Wire \<Rightarrow> 'd Wire option" where
  "wire_run config [] w = Some w"
| "wire_run config (e # es) w = (case wire_apply config e w of None \<Rightarrow> None | Some w' \<Rightarrow> wire_run config es w')"

fun pool_events :: "wire_event list \<Rightarrow> pool_event list" where
  "pool_events [] = []"
| "pool_events (PoolEvent e # es) = e # pool_events es"
| "pool_events (e # es) = pool_events es"

text \<open>What the broker has got, in the order of the arrivals: the exchange and the body.\<close>

definition broker_got :: "Config \<Rightarrow> 'd Wire \<Rightarrow> (string \<times> string) list" where
  "broker_got config w = List.map (\<lambda>i. addressed config (wp_published (wi_pool w) ! i)) (wi_broker w)"

subsection \<open>The invariant\<close>

definition in_channel_order :: "nat list \<Rightarrow> nat list \<Rightarrow> bool" where
  "in_channel_order chs is \<longleftrightarrow> sorted_wrt (\<lambda>i j. chs ! i = chs ! j \<longrightarrow> i < j) is"

definition wire_ok :: "'d Wire \<Rightarrow> bool" where
  "wire_ok w \<longleftrightarrow> length (wi_channels w) = length (wp_published (wi_pool w)) \<and>
     mset (wi_broker w) + mset (wi_flight w) + mset (wi_lost w) = mset [0..<length (wp_published (wi_pool w))] \<and>
     in_channel_order (wi_channels w) (wi_broker w @ wi_flight w)"

lemma wire_indices:
  assumes "wire_ok w" and "i \<in> set (wi_broker w) \<union> set (wi_flight w) \<union> set (wi_lost w)"
  shows "i < length (wp_published (wi_pool w))"
proof -
  have "i \<in># mset [0..<length (wp_published (wi_pool w))]"
    using assms unfolding wire_ok_def by (metis UnE set_mset_mset union_iff)
  then show ?thesis by simp
qed

lemma without_mset: "k < length xs \<Longrightarrow> add_mset (xs ! k) (mset (without k xs)) = mset xs"
  by (subst (3) id_take_nth_drop [of k xs]) (simp_all add: without_def)

lemma pool_publishes_more:
  assumes "pool_apply config e p = Some p'"
  shows "\<exists>ms. wp_published p' = wp_published p @ ms"
proof (cases e)
  case (Work i we)
  with assms have "pool_worker_step i we p = Some p'" by (simp add: pool_apply_def split: if_splits)
  then have "worker_at i we (wp_workers p ! i) p = Some p'" by (auto simp: pool_worker_step_def split: if_splits)
  then show ?thesis
    by (cases "wk_state (wp_workers p ! i)"; cases we;
      auto simp: worker_at_def Let_def split: if_splits list.splits option.splits sum.splits)
qed (use assms in \<open>auto simp: pool_apply_def feeder_step_def main_step_def watcher_step_def cancel_def
    restart_workers_def split: if_splits feeder_state.splits prod.splits cq_result.splits main_state.splits
    watcher_state.splits watch_event.splits option.splits\<close>)

lemma wire_ok_start: "wp_published p = [] \<Longrightarrow> wire_ok (wire_start p)"
  by (simp add: wire_ok_def wire_start_def in_channel_order_def)

lemma channel_order_more:
  assumes "in_channel_order chs is" and "\<forall>i \<in> set is. i < length chs"
  shows "in_channel_order (chs @ cs) (is @ [length chs..<length chs + k])"
proof -
  have "sorted_wrt (\<lambda>i j. (chs @ cs) ! i = (chs @ cs) ! j \<longrightarrow> i < j) is"
    by (rule sorted_wrt_mono_rel [OF _ assms(1) [unfolded in_channel_order_def]])
      (use assms(2) in \<open>simp add: nth_append\<close>)
  moreover have "sorted_wrt (\<lambda>i j. (chs @ cs) ! i = (chs @ cs) ! j \<longrightarrow> i < j) [length chs..<length chs + k]"
    by (rule sorted_wrt_mono_rel [OF _ sorted_wrt_upt]) simp
  ultimately show ?thesis using assms(2) by (auto simp: in_channel_order_def sorted_wrt_append)
qed

lemma wire_ok_pool:
  assumes "wire_ok w" and "wp_published p' = wp_published (wi_pool w) @ ms"
  shows "wire_ok (pool_moves e p' w)"
proof -
  let ?n = "length (wp_published (wi_pool w))"
  have len: "length (wi_channels w) = ?n" using assms(1) by (simp add: wire_ok_def)
  have "mset [0..<?n + length ms] = mset [0..<?n] + mset [?n..<?n + length ms]"
    by (metis le_add1 mset_append upt_add_eq_append zero_le)
  moreover have "in_channel_order (wi_channels w @ replicate (length ms) (wi_opened w))
      ((wi_broker w @ wi_flight w) @ [?n..<?n + length ms])"
    using channel_order_more [of "wi_channels w" "wi_broker w @ wi_flight w"] wire_indices [OF assms(1)] assms(1)
    unfolding len [symmetric] by (auto simp: wire_ok_def)
  ultimately show ?thesis
    using assms by (simp add: wire_ok_def pool_moves_def Let_def ac_simps)
qed

lemma channel_order_front:
  assumes "in_channel_order chs (bs @ us @ x # vs)" and "\<forall>i \<in> set us. chs ! i \<noteq> chs ! x"
  shows "in_channel_order chs ((bs @ [x]) @ us @ vs)"
  using assms by (auto simp: in_channel_order_def sorted_wrt_append)

lemma channel_order_drop: "in_channel_order chs (bs @ us @ x # vs) \<Longrightarrow> in_channel_order chs (bs @ us @ vs)"
  by (auto simp: in_channel_order_def sorted_wrt_append)

lemma wire_ok_apply:
  assumes "wire_apply config e w = Some w'" and "wire_ok w"
  shows "wire_ok w'"
proof (cases e)
  case (PoolEvent pe)
  with assms(1) obtain p' where p': "pool_apply config pe (wi_pool w) = Some p'" "w' = pool_moves pe p' w"
    by (auto split: option.splits)
  from pool_publishes_more [OF p'(1)] wire_ok_pool [OF assms(2)] p'(2) show ?thesis by blast
next
  case (Arrive k)
  with assms(1) have k: "k < length (wi_flight w)" "oldest_of_channel w k"
    and w': "w' = w\<lparr>wi_flight := without k (wi_flight w), wi_broker := wi_broker w @ [wi_flight w ! k]\<rparr>"
    by (auto split: if_splits)
  have "in_channel_order (wi_channels w) (wi_broker w @ take k (wi_flight w) @ wi_flight w ! k # drop (Suc k) (wi_flight w))"
    using assms(2) k(1) by (simp add: wire_ok_def id_take_nth_drop [symmetric])
  from channel_order_front [OF this] k(2)
  have "in_channel_order (wi_channels w) ((wi_broker w @ [wi_flight w ! k]) @ without k (wi_flight w))"
    by (simp add: oldest_of_channel_def list_all_iff without_def)
  then show ?thesis using assms(2) by (simp add: w' wire_ok_def without_mset [OF k(1), symmetric])
next
  case (Lose k)
  with assms(1) have k: "k < length (wi_flight w)"
    and w': "w' = w\<lparr>wi_flight := without k (wi_flight w), wi_lost := wi_lost w @ [wi_flight w ! k]\<rparr>"
    by (auto split: if_splits)
  have "in_channel_order (wi_channels w) (wi_broker w @ take k (wi_flight w) @ wi_flight w ! k # drop (Suc k) (wi_flight w))"
    using assms(2) k by (simp add: wire_ok_def id_take_nth_drop [symmetric])
  from channel_order_drop [OF this]
  have "in_channel_order (wi_channels w) (wi_broker w @ without k (wi_flight w))" by (simp add: without_def)
  then show ?thesis using assms(2) by (simp add: w' wire_ok_def without_mset [OF k, symmetric])
qed

lemma wire_run_ok:
  "wire_run config es w = Some w' \<Longrightarrow> wire_ok w \<Longrightarrow>
     wire_ok w' \<and> pool_run config (pool_events es) (wi_pool w) = Some (wi_pool w')"
proof (induction es arbitrary: w)
  case (Cons e es)
  then obtain w1 where w1: "wire_apply config e w = Some w1" "wire_run config es w1 = Some w'"
    by (auto split: option.splits)
  from Cons.IH [OF w1(2) wire_ok_apply [OF w1(1) Cons.prems(2)]] w1(1) show ?case
    by (cases e) (auto simp: pool_moves_def Let_def split: option.splits if_splits)
qed simp

text \<open>The shoveler's pool and the wire behind it, from the start of the pool.\<close>

lemma shoveler_wire:
  assumes "StartAMQP config stat contents queue = Some p" and "cq_ok items queue"
    and "cfg_Mode config = ''shoveler''" and "url_User (the (cfg_AmqpURL config)) \<noteq> None"
    and "wire_run config es (wire_start p) = Some w"
  shows "steady items (wi_pool w)" and "in_order items (wi_pool w) = cq_items items queue @ enqueued (pool_events es)"
    and "wire_ok w"
proof -
  have ok: "wire_ok (wire_start p)" using StartAMQP_Some(8) [OF assms(1)] by (rule wire_ok_start)
  from wire_run_ok [OF assms(5) this] have run: "pool_run config (pool_events es) p = Some (wi_pool w)" and "wire_ok w"
    by (simp_all add: wire_start_def)
  then show "wire_ok w" by simp
  from shoveler_pool_order [OF assms(1-4) run] show "steady items (wi_pool w)"
    and "in_order items (wi_pool w) = cq_items items queue @ enqueued (pool_events es)"
    by simp_all
qed

lemma published_nth:
  assumes "in_order items p = ms" and "i < length (wp_published p)"
  shows "wp_published p ! i = ms ! i" and "i < length ms"
  using assms by (auto simp: in_order_def nth_append)

lemma wire_broker_order:
  assumes "wire_ok w"
  shows "distinct (wi_broker w)" and "sorted_wrt (\<lambda>i j. wi_channels w ! i = wi_channels w ! j \<longrightarrow> i < j) (wi_broker w)"
proof -
  have "distinct (wi_broker w @ wi_flight w @ wi_lost w)"
    using assms mset_eq_imp_distinct_iff [of "wi_broker w @ wi_flight w @ wi_lost w" "[0..<length (wp_published (wi_pool w))]"]
    by (simp add: wire_ok_def add.assoc)
  then show "distinct (wi_broker w)" by simp
  show "sorted_wrt (\<lambda>i j. wi_channels w ! i = wi_channels w ! j \<longrightarrow> i < j) (wi_broker w)"
    using assms by (simp add: wire_ok_def in_channel_order_def sorted_wrt_append)
qed

subsection \<open>Theorems\<close>

text \<open>C12: In shoveler mode with the credentials in the URL the AMQP library accepts every message once
  and in order: whatever breaks in between, at every moment the accepted messages, the one with
  the worker, those in the channel, the one with the feeder and those in the queue are, one after
  the other, the messages of the queue at the start followed by those put into it since; nothing
  is given up, and no goroutine panics. Of the accepted messages each is at one place, with the
  broker, in flight, or lost with a connection, never to be sent again; the broker has each at
  most once, at its own exchange or the default one, and those of one AMQP channel in order.\<close>

theorem shoveler_publishes_in_order:
  assumes "StartAMQP config stat contents queue = Some p" and "cq_ok items queue"
    and "cfg_Mode config = ''shoveler''" and "url_User (the (cfg_AmqpURL config)) \<noteq> None"
    and "wire_run config es (wire_start p) = Some w"
  shows "let p' = wi_pool w; ms = cq_items items queue @ enqueued (pool_events es)
    in wp_published p' @ held p' @ wp_channel p' @ fed (wp_feeder p') @ cq_items items (wp_queue p') = ms \<and>
      wp_lost p' = [] \<and> \<not> wp_dead p' \<and>
      mset (wi_broker w) + mset (wi_flight w) + mset (wi_lost w) = mset [0..<length (wp_published p')] \<and>
      broker_got config w = List.map (\<lambda>i. addressed config (ms ! i)) (wi_broker w) \<and>
      distinct (wi_broker w) \<and>
      sorted_wrt (\<lambda>i j. wi_channels w ! i = wi_channels w ! j \<longrightarrow> i < j) (wi_broker w)"
proof -
  note run = shoveler_wire [OF assms]
  have "broker_got config w =
      List.map (\<lambda>i. addressed config ((cq_items items queue @ enqueued (pool_events es)) ! i)) (wi_broker w)"
    using published_nth(1) [OF run(2)] wire_indices [OF run(3)] by (simp add: broker_got_def)
  then show ?thesis
    using run wire_broker_order [OF run(3)] by (simp add: Let_def steady_def in_order_def wire_ok_def)
qed

lemma list_queue_empty: "cq_items id (Init list_dque []) = []"
  using cq_ok_Init [of id list_dque "[]"] by (simp add: dque_laws_def list_dque_def)

text \<open>Two messages, the first of which is lost with the connection it was written to.\<close>

definition lossy_events :: "wire_event list" where
  "lossy_events =
     List.map PoolEvent [Enqueued (sample_msg ''a''), Work 0 (SessionEvent (Dialed True)),
       Work 0 (SessionEvent (ChannelOpened True)), Feed True, Feed True, Feed True, Work 0 TakeMessage, Work 0 Proceed,
       Work 0 (PushAttempt True)] @ [Lose 0] @
     List.map PoolEvent [Work 0 (SessionEvent ConnectionClosed), Work 0 (SessionEvent (Dialed True)),
       Work 0 (SessionEvent (ChannelOpened True)), Enqueued (sample_msg ''b''), Feed True, Feed True, Feed True,
       Work 0 TakeMessage, Work 0 Proceed, Work 0 (PushAttempt True)] @ [Arrive 0]"

definition lossy_wire :: "MessageStruct list Wire" where
  "lossy_wire = the (wire_run (sample_amqp (Some ''p'')) lossy_events (wire_start (sample_pool (Some ''p''))))"

lemma lossy_wire:
  "wire_run (sample_amqp (Some ''p'')) lossy_events (wire_start (sample_pool (Some ''p''))) = Some lossy_wire"
  "enqueued (pool_events lossy_events) = [sample_msg ''a'', sample_msg ''b'']"
  "wi_broker lossy_wire = [1]" "wi_lost lossy_wire = [0]" "wi_flight lossy_wire = []" "wi_channels lossy_wire = [1, 2]"
  "wp_published (wi_pool lossy_wire) = [sample_msg ''a'', sample_msg ''b'']"
proof -
  have "wire_run (sample_amqp (Some ''p'')) lossy_events (wire_start (sample_pool (Some ''p''))) \<noteq> None"
    by code_simp
  then show "wire_run (sample_amqp (Some ''p'')) lossy_events (wire_start (sample_pool (Some ''p''))) = Some lossy_wire"
    by (auto simp: lossy_wire_def)
  show "enqueued (pool_events lossy_events) = [sample_msg ''a'', sample_msg ''b'']" by (simp add: lossy_events_def)
qed code_simp+

lemma shoveler_publishes_in_order_witness:
  "broker_got (sample_amqp (Some ''p'')) lossy_wire = [addressed (sample_amqp (Some ''p'')) (sample_msg ''b'')] \<and>
   wi_lost lossy_wire = [0] \<and> wp_lost (wi_pool lossy_wire) = [] \<and> held (wi_pool lossy_wire) = []"
proof -
  have "broker_got (sample_amqp (Some ''p'')) lossy_wire =
      List.map (\<lambda>i. addressed (sample_amqp (Some ''p'')) ([sample_msg ''a'', sample_msg ''b''] ! i)) [1]"
    "wp_lost (wi_pool lossy_wire) = []" "held (wi_pool lossy_wire) = []"
    using shoveler_publishes_in_order [OF sample_pool cq_ok_list _ _ lossy_wire(1)] lossy_wire(2,3,7) list_queue_empty
    by (simp_all add: sample_amqp_def Let_def)
  then show ?thesis by (simp add: lossy_wire(4))
qed

text \<open>A message can be accepted and lost for ever: the connection breaks before the message is at the
  broker, and as no confirmation was awaited the worker has forgotten it. When everything that was
  put into the queue has been published and nothing is in flight, the broker has the second message
  only.\<close>

theorem accepted_message_lost:
  "\<exists>es (w :: MessageStruct list Wire).
     wire_run (sample_amqp (Some ''p'')) es (wire_start (sample_pool (Some ''p''))) = Some w \<and>
     enqueued (pool_events es) = [sample_msg ''a'', sample_msg ''b''] \<and>
     wp_published (wi_pool w) = [sample_msg ''a'', sample_msg ''b''] \<and> wi_flight w = [] \<and>
     broker_got (sample_amqp (Some ''p'')) w = [addressed (sample_amqp (Some ''p'')) (sample_msg ''b'')]"
  by (rule exI [of _ lossy_events], rule exI [of _ lossy_wire])
    (simp add: lossy_wire broker_got_def)

end
