(* ===== verification/Rabbit_Sessions.thy ===== *)
theory Rabbit_Sessions
  imports Rabbit_Reader
begin

section \<open>The RabbitMQ reader over its connections (input/rabbitmq_input.go)\<close>

text \<open>
  The queue at the broker and the sessions of the reader on it. \<open>connectionLoop\<close> starts \<open>consume\<close> anew
  on every connection, and \<open>consume\<close> forgets what it had not acknowledged; the broker, which keeps
  every message until it is settled, puts those back at their place and delivers them again. So a
  packet can come more than once. The theory shows how: nothing is skipped, and what comes again
  comes in order from a message that was not acknowledged.
\<close>

subsection \<open>The broker's queue\<close>

text \<open>On a channel the broker numbers its deliveries from one.\<close>

fun deliveries_from :: "nat \<Rightarrow> bytes list \<Rightarrow> Delivery list" where
  "deliveries_from t [] = []"
| "deliveries_from t (b # bs) = \<lparr>dl_Body = b, dl_DeliveryTag = t\<rparr> # deliveries_from (Suc t) bs"

text \<open>
  What the loop sees while the reader is not being stopped and before the channel is closed, on
  which the loop leaves without another call.
\<close>

fun consuming :: "consume_event \<Rightarrow> bool" where
  "consuming (StopSignal ok) = False"
| "consuming (AckTick ok) = True"
| "consuming (Message m stopping a n) = (\<not> stopping)"
| "consuming MessagesClosed = False"

fun forwarded :: "reader_log list \<Rightarrow> PacketWithAddr list" where
  "forwarded [] = []"
| "forwarded (Forwarded p # log) = p # forwarded log"
| "forwarded (e # log) = forwarded log"

text \<open>What goes back into the queue when the channel ends: the deliveries that are not settled.\<close>

definition requeued :: "Delivery list \<Rightarrow> broker \<Rightarrow> bytes list" where
  "requeued ms b = List.map dl_Body (filter (\<lambda>m. dl_DeliveryTag m \<in> set (br_outstanding b)) ms)"

text \<open>
  \<open>reader_sessions k all q xs\<close>: the messages \<open>all\<close> have arrived in the queue, \<open>q\<close> of them are not yet
  settled, the reader has had \<open>k\<close> connections and forwarded the packets \<open>xs\<close>. A session is delivered
  the first messages of the queue, and its loop takes them and ticks of the ticker in any order;
  those waiting in the client, which it never took, stay in the queue like the others.
\<close>

inductive reader_sessions ::
  "(bytes \<Rightarrow> PacketWithAddr option) \<Rightarrow> nat \<Rightarrow> bytes list \<Rightarrow> bytes list \<Rightarrow> PacketWithAddr list \<Rightarrow> bool" for decode where
  start: "reader_sessions decode 0 [] [] []"
| arrival: "reader_sessions decode k all q xs \<Longrightarrow> reader_sessions decode k (all @ [body]) (q @ [body]) xs"
| session: "reader_sessions decode k all q xs \<Longrightarrow> list_all consuming es \<Longrightarrow>
    delivered es = deliveries_from 1 (take n q) \<Longrightarrow> r = fst (consume decode es fresh_reader) \<Longrightarrow>
    reader_sessions decode (Suc k) all
      (requeued (delivered es) (broker_after (rr_log r)) @ drop n q) (xs @ forwarded (rr_log r))"

subsection \<open>One session\<close>

text \<open>A nack that fails is not made when every message decodes.\<close>

fun with_nack :: "consume_event \<Rightarrow> consume_event" where
  "with_nack (Message m s a n) = Message m s a True"
| "with_nack e = e"

lemma with_nack_same:
  "list_all (\<lambda>m. decode (dl_Body m) \<noteq> None) (delivered es) \<Longrightarrow>
     consume_loop decode (List.map with_nack es) r = consume_loop decode es r"
proof (induction es arbitrary: r)
  case (Cons e es)
  then have "consume_step decode (with_nack e) r = consume_step decode e r"
    by (cases e) (auto simp: handle_delivery_def processMessage_def Let_def)
  with Cons show ?case by (cases e) (auto split: prod.split consume_exit.split)
qed simp

lemma delivered_with_nack: "delivered (List.map with_nack es) = delivered es"
  by (induction es rule: delivered.induct) simp_all

lemma nacks_with_nack: "list_all nacks_succeed (List.map with_nack es)"
proof (induction es)
  case (Cons e es)
  then show ?case by (cases e) simp_all
qed simp

lemma handled_consuming: "list_all consuming es \<Longrightarrow> handled es = es"
  by (induction es rule: handled.induct) simp_all

lemma consuming_with_nack: "list_all consuming es \<Longrightarrow> list_all consuming (List.map with_nack es)"
proof (induction es)
  case (Cons e es)
  then show ?case by (cases e) simp_all
qed simp

lemma tags_deliveries_from: "tags_of (deliveries_from t bs) = [t..<t + length bs]"
  by (induction t bs rule: deliveries_from.induct) (simp_all add: upt_conv_Cons del: upt_Suc)

lemma bodies_deliveries_from: "List.map dl_Body (deliveries_from t bs) = bs"
  by (induction t bs rule: deliveries_from.induct) simp_all

lemma deliveries_from_append:
  "deliveries_from t (bs @ cs) = deliveries_from t bs @ deliveries_from (t + length bs) cs"
  by (induction t bs rule: deliveries_from.induct) simp_all

lemma deliveries_from_tag:
  "m \<in> set (deliveries_from t bs) \<Longrightarrow> t \<le> dl_DeliveryTag m \<and> dl_DeliveryTag m < t + length bs"
  using imageI [of m "set (deliveries_from t bs)" dl_DeliveryTag]
  by (simp add: list.set_map [symmetric] tags_deliveries_from del: list.set_map)

lemma requeued_rest:
  assumes "set (br_outstanding b) = {1 + a..<1 + length bs}" and "a \<le> length bs"
  shows "requeued (deliveries_from 1 bs) b = drop a bs"
proof -
  have split: "deliveries_from 1 bs = deliveries_from 1 (take a bs) @ deliveries_from (1 + a) (drop a bs)"
    using deliveries_from_append [of 1 "take a bs" "drop a bs"] assms(2) by simp
  have "filter (\<lambda>m. dl_DeliveryTag m \<in> set (br_outstanding b)) (deliveries_from 1 (take a bs)) = []"
    and "filter (\<lambda>m. dl_DeliveryTag m \<in> set (br_outstanding b)) (deliveries_from (1 + a) (drop a bs)) =
      deliveries_from (1 + a) (drop a bs)"
    using assms by (auto simp: filter_empty_conv filter_id_conv dest!: deliveries_from_tag)
  then show ?thesis by (simp only: requeued_def split filter_append bodies_deliveries_from append_Nil)
qed

lemma forwarded_append [simp]: "forwarded (xs @ ys) = forwarded xs @ forwarded ys"
  by (induction xs rule: forwarded.induct) simp_all

lemma consume_loop_forwards:
  "list_all consuming es \<Longrightarrow>
     forwarded (rr_log (fst (consume_loop decode es r))) =
     forwarded (rr_log r) @ List.map_filter (\<lambda>m. decode (dl_Body m)) (delivered es)"
proof (induction es arbitrary: r)
  case Nil
  then show ?case by (simp add: List.map_filter_simps)
next
  case (Cons e es)
  then show ?case
    by (cases e) (auto simp: handle_delivery_def processMessage_def ack_pending_def log_add_def Let_def
        List.map_filter_simps split: option.split)
qed

lemma map_filter_total: "list_all (\<lambda>x. f x \<noteq> None) xs \<Longrightarrow> List.map_filter f xs = List.map (\<lambda>x. the (f x)) xs"
  by (induction xs) (auto simp: List.map_filter_simps)

text \<open>A session whose messages all decode forwards them all and settles the first ones.\<close>

lemma session_settles:
  assumes "list_all consuming es" and "delivered es = deliveries_from 1 bs" and "list_all (\<lambda>b. decode b \<noteq> None) bs"
    and "r = fst (consume decode es fresh_reader)"
  shows "forwarded (rr_log r) = List.map (\<lambda>b. the (decode b)) bs"
    and "\<exists>a \<le> length bs. requeued (delivered es) (broker_after (rr_log r)) = drop a bs"
proof -
  let ?f = "fresh_reader" and ?es = "List.map with_nack es"
  have bodies: "List.map dl_Body (delivered es) = bs" using assms(2) by (simp add: bodies_deliveries_from)
  then have dec: "list_all (\<lambda>m. decode (dl_Body m) \<noteq> None) (delivered es)"
    using assms(3) by (auto simp: list_all_iff)
  have "consume_start ?f = ?f" by (simp add: consume_start_def fresh_reader_def)
  then have r: "r = fst (consume_loop decode es ?f)" using assms(4) by (simp add: consume_def)
  have "forwarded (rr_log r) = List.map_filter (\<lambda>m. decode (dl_Body m)) (delivered es)"
    using consume_loop_forwards [OF assms(1), of decode ?f] by (simp add: r fresh_reader_def)
  also have "\<dots> = List.map (\<lambda>b. the (decode b)) bs"
    using map_filter_total [OF dec] by (simp add: bodies [symmetric] comp_def)
  finally show "forwarded (rr_log r) = List.map (\<lambda>b. the (decode b)) bs" .
  obtain exit where run: "consume_loop decode ?es ?f = (r, exit)"
    using with_nack_same [OF dec, of ?f] r by (metis prod.collapse)
  have "settles decode [] ?f" by (simp add: settles_def fresh_reader_def broker_after_def good_def bad_def)
  moreover have "sorted_wrt (<) (rr_lastAckDeliveryTag ?f # tags_of (delivered ?es))"
    using assms(2) by (simp add: delivered_with_nack tags_deliveries_from fresh_reader_def sorted_wrt_upt del: upt_Suc)
  ultimately have "settles decode ([] @ delivered (handled ?es)) r"
    using consume_loop_settles [OF _ nacks_with_nack _ run] by blast
  then have "settles decode (delivered es) r"
    by (simp add: handled_consuming [OF consuming_with_nack [OF assms(1)]] delivered_with_nack)
  moreover have "good decode (delivered es) = [1..<1 + length bs]"
    using dec filter_True [of "delivered es" "\<lambda>m. decode (dl_Body m) \<noteq> None"]
    by (simp add: good_def list_all_iff assms(2) tags_deliveries_from del: upt_Suc)
  ultimately have "br_acked (broker_after (rr_log r)) @ br_outstanding (broker_after (rr_log r)) = [1..<1 + length bs]"
    by (simp add: settles_def Let_def)
  then have "br_outstanding (broker_after (rr_log r)) = [1 + length (br_acked (broker_after (rr_log r)))..<1 + length bs]"
    and a: "length (br_acked (broker_after (rr_log r))) \<le> length bs"
    by (metis append_eq_conv_conj drop_upt, metis length_append length_upt diff_add_inverse le_add1)
  then have "requeued (delivered es) (broker_after (rr_log r)) = drop (length (br_acked (broker_after (rr_log r)))) bs"
    using requeued_rest a by (simp add: assms(2) del: upt_Suc)
  with a show "\<exists>a \<le> length bs. requeued (delivered es) (broker_after (rr_log r)) = drop a bs" by blast
qed

subsection \<open>Over all sessions\<close>

text \<open>
  A list of indices that skips nothing: each is at most the number of those already reached, so
  that the first occurrences are in order.
\<close>

fun gapless :: "nat \<Rightarrow> nat list \<Rightarrow> bool" where
  "gapless n [] = True"
| "gapless n (i # is) = (i \<le> n \<and> gapless (max n (Suc i)) is)"

fun reached :: "nat \<Rightarrow> nat list \<Rightarrow> nat" where
  "reached n [] = n"
| "reached n (i # is) = reached (max n (Suc i)) is"

lemma gapless_append: "gapless n (is @ js) \<longleftrightarrow> gapless n is \<and> gapless (reached n is) js"
  by (induction n "is" rule: gapless.induct) auto

lemma reached_append: "reached n (is @ js) = reached (reached n is) js"
  by (induction n "is" rule: gapless.induct) auto

lemma gapless_upt: "s \<le> n \<Longrightarrow> gapless n [s..<s + k] \<and> reached n [s..<s + k] = max n (s + k)"
proof (induction k)
  case (Suc k)
  then show ?case by (auto simp: gapless_append reached_append)
qed simp

lemma gapless_take: "gapless n is \<Longrightarrow> gapless n (take m is)"
  by (metis append_take_drop_id gapless_append)

text \<open>What a list without gaps is: it has every index up to the last reached, and no other.\<close>

lemma gapless_set: "gapless n is \<Longrightarrow> {..<n} \<union> set is = {..<reached n is}"
proof (induction n "is" rule: gapless.induct)
  case (2 n i "is")
  then have "{..<max n (Suc i)} \<union> set is = {..<reached (max n (Suc i)) is}" by simp
  moreover have "{..<max n (Suc i)} = insert i {..<n}" using 2(2) by auto
  ultimately show ?case by simp
qed simp

text \<open>When every message decodes: what the sessions forwarded, and what is left in the queue.\<close>

lemma sessions_in_order:
  assumes "reader_sessions decode k all q xs" and "list_all (\<lambda>b. decode b \<noteq> None) all"
  shows "\<exists>is s. xs = List.map (\<lambda>i. the (decode (all ! i))) is \<and> gapless 0 is \<and> reached 0 is \<le> length all \<and>
    q = drop s all \<and> s \<le> reached 0 is \<and> (k = 0 \<longrightarrow> is = []) \<and> (k \<le> 1 \<longrightarrow> is = [0..<length is])"
  using assms
proof (induction rule: reader_sessions.induct)
  case start
  show ?case by (rule exI [of _ "[]"]) simp
next
  case (arrival k all q xs body)
  then obtain js s where ih: "xs = List.map (\<lambda>i. the (decode (all ! i))) js" "gapless 0 js"
    "reached 0 js \<le> length all" "q = drop s all" "s \<le> reached 0 js" "k = 0 \<longrightarrow> js = []" "k \<le> 1 \<longrightarrow> js = [0..<length js]"
    by auto
  have "i < length all" if "i \<in> set js" for i using gapless_set [OF ih(2)] ih(3) that by auto
  with ih show ?case by (intro exI [of _ js] exI [of _ s]) (auto simp: nth_append)
next
  case (session k all q xs es n r)
  then obtain js s where ih: "xs = List.map (\<lambda>i. the (decode (all ! i))) js" "gapless 0 js"
    "reached 0 js \<le> length all" "q = drop s all" "s \<le> reached 0 js" "k = 0 \<longrightarrow> js = []" "k \<le> 1 \<longrightarrow> js = [0..<length js]"
    by auto
  let ?bs = "take n q"
  have "list_all (\<lambda>b. decode b \<noteq> None) ?bs"
    using session.prems ih(4) by (auto simp: list_all_iff dest!: in_set_takeD in_set_dropD)
  note one = session_settles [where decode = decode, OF session.hyps(2,3) this session.hyps(4)]
  obtain a where a: "a \<le> length ?bs" "requeued (delivered es) (broker_after (rr_log r)) = drop a ?bs" using one(2) by blast
  have bs: "?bs = List.map ((!) all) [s..<s + length ?bs]"
    using ih(3,4,5) by (simp add: list_eq_iff_nth_eq)
  have more: "xs @ forwarded (rr_log r) = List.map (\<lambda>i. the (decode (all ! i))) (js @ [s..<s + length ?bs])"
    using one(1) ih(1) by (subst (asm) bs) simp
  have rest: "drop a ?bs @ drop n q = drop (s + a) all"
    using a(1) ih(4) by (simp add: drop_take flip: drop_drop) (metis append_take_drop_id drop_drop le_add_diff_inverse2 add.commute drop_append)
  have "s + length ?bs \<le> length all \<or> ?bs = []" using ih(3,4,5) by auto
  with gapless_upt [OF ih(5), of "length ?bs"] ih(2,3,5) a(1) more rest
  show ?case
    unfolding a(2)
    by (intro exI [of _ "js @ [s..<s + length ?bs]"] exI [of _ "s + a"])
      (use ih(6) in \<open>auto simp: gapless_append reached_append\<close>)
qed

end
