(* ===== verification/Shoveler_To_Collector.thy ===== *)
theory Shoveler_To_Collector
  imports Program_Start Amqp_Wire Rabbit_Sessions
begin

section \<open>From the shoveler's socket to the collector\<close>

text \<open>
  Both programs and the broker between them: packets read from the shoveler's socket are checked,
  packaged and queued, handed by the AMQP pool to its library, carried to the broker or lost on
  the way (\<open>Amqp_Wire\<close>), delivered by the broker to the collector's RabbitMQ reader, again after a
  reconnection when they were not acknowledged (\<open>Rabbit_Sessions\<close>), decoded and received by the
  collector. The theorem composes the components' lemmas over any interleaving of the goroutines
  of either program. Of the broker it assumes that the collector's queue gets what arrives at the
  exchange and nothing else, and keeps a message until it is settled.
\<close>

lemma received_append: "received (rs @ qs) = received rs @ received qs"
  by (induction rs rule: received.induct) simp_all

lemma passed_append: "passed config (rs @ qs) = passed config rs @ passed config qs"
  by (simp add: passed_def received_append)

text \<open>A packet as the collector is to receive it: the same bytes, under the mapped address.\<close>

definition arrived :: "ShovelConfig \<Rightarrow> bytes \<times> UDPAddr \<Rightarrow> PacketWithAddr" where
  "arrived config ba =
     \<lparr>pa_Data = fst ba, pa_RemoteAddr = JoinHostPort (mapIp (snd ba) (vc_Map config)) (dec_int (ua_Port (snd ba)))\<rparr>"

definition ascii_addresses :: "ShovelConfig \<Rightarrow> udp_read list \<Rightarrow> bool" where
  "ascii_addresses config rs \<longleftrightarrow>
     ascii (vc_Version config) \<and> list_all (\<lambda>ba. ascii (mapIp (snd ba) (vc_Map config))) (passed config rs)"

lemma decode_packaged:
  "ascii (vc_Version config) \<Longrightarrow> ascii (mapIp (snd ba) (vc_Map config)) \<Longrightarrow>
     decode_message True (ms_Message (packaged config ba)) = Some (arrived config ba)"
  by (simp add: packaged_def arrived_def decode_PackageUdp)

text \<open>What has arrived at the broker, in terms of the packets.\<close>

lemma broker_bodies:
  assumes "in_order items (wi_pool w) = List.map (packaged sc) ps" and "wire_ok w"
  shows "List.map snd (broker_got config w) = List.map (\<lambda>j. ms_Message (packaged sc (ps ! j))) (wi_broker w)"
    and "\<forall>j \<in> set (wi_broker w). j < length ps"
  using published_nth [OF assms(1)] wire_indices [OF assms(2)]
  by (auto simp: broker_got_def addressed_def)

text \<open>What the reader has forwarded, when it has been delivered packaged packets only.\<close>

lemma reader_forwards:
  assumes "reader_sessions decode k (List.map f js) q xs" and "\<forall>j \<in> set js. decode (f j) = Some (g j)"
  shows "\<exists>is. xs = List.map (\<lambda>i. g (js ! i)) is \<and> gapless 0 is \<and> (k \<le> 1 \<longrightarrow> is = [0..<length is]) \<and>
    set is \<subseteq> {..<length js}"
proof -
  have "list_all (\<lambda>b. decode b \<noteq> None) (List.map f js)" using assms(2) by (simp add: list_all_iff)
  from sessions_in_order [where decode = decode, OF assms(1) this] obtain "is"
    where xs: "xs = List.map (\<lambda>i. the (decode (List.map f js ! i))) is" and "gapless 0 is"
    "reached 0 is \<le> length js" "k \<le> 1 \<longrightarrow> is = [0..<length is]" by auto
  moreover from this have bound: "set is \<subseteq> {..<length js}" using gapless_set [of 0 "is"] by auto
  moreover have "xs = List.map (\<lambda>i. g (js ! i)) is" using xs bound assms(2) by auto
  ultimately show ?thesis by blast
qed

text \<open>C2: From the shoveler's socket to the collector. The shoveler, in its own mode with the
  credentials in the URL, reads packets, some before its publisher starts and some after; whatever
  connections of either program fail, the packets \<open>ps\<close> that passed its check are handed over in
  order. The broker has some of them: each at most once, and in order as far as one AMQP channel
  carried them. What the collector has received are those, from the first one on and skipping
  none: in the order of the broker's queue as long as the reader has not reconnected; after a
  reconnection packets it had not acknowledged come again. Each comes with its own bytes and its
  sender's mapped address, and the collector has counted exactly what it received.\<close>

theorem shoveler_to_collector:
  assumes "shovel_udp_loop sc before_start s = (s', panic)" and "list_all id (vc_destinations sc)"
    and "cq_ok items (ss_queue s)" "cq_items items (ss_queue s) = []"
    and "StartAMQP config stat contents (ss_queue s') = Some p"
    and "cfg_Mode config = ''shoveler''" "url_User (the (cfg_AmqpURL config)) \<noteq> None"
    and "wire_run config es (wire_start p) = Some w"
    and "enqueued (pool_events es) = List.map (packaged sc) (passed sc later)"
    and "ascii_addresses sc (before_start @ later)"
    and "reader_sessions (decode_message True) k (List.map snd (broker_got config w)) q xs"
    and "rabbit_mode (decode_message True) xs r returned"
    and "start_collector registry cconfig outs = Some co0" "collects cconfig co0 (ol_taken (rn_out r)) co"
  shows "let ps = passed sc (before_start @ later); js = wi_broker w
    in (\<exists>is. ol_taken (rn_out r) = List.map (\<lambda>i. arrived sc (ps ! (js ! i))) is \<and> gapless 0 is \<and>
          set is \<subseteq> {..<length js} \<and> (k \<le> 1 \<longrightarrow> is = [0..<length is])) \<and>
      distinct js \<and> set js \<subseteq> {..<length ps} \<and>
      sorted_wrt (\<lambda>i j. wi_channels w ! i = wi_channels w ! j \<longrightarrow> i < j) js \<and>
      co_metrics co PacketsReceived = length (ol_taken (rn_out r)) \<and> \<not> panic"
proof -
  let ?ps = "passed sc (before_start @ later)" and ?js = "wi_broker w"
  note loop = shovel_udp_loop_queue [OF assms(3,2,1)]
  then have ok: "cq_ok items (ss_queue s')" and queue: "cq_items items (ss_queue s') = List.map (packaged sc) (passed sc before_start)"
    using assms(4) by simp_all
  note wire = shoveler_wire [OF assms(5) ok assms(6-8)]
  have order: "in_order items (wi_pool w) = List.map (packaged sc) ?ps"
    using wire(2) queue assms(9) by (simp add: passed_append)
  note bodies = broker_bodies(1) [where config = config, OF order wire(3)]
  note indices = broker_bodies(2) [OF order wire(3)]
  have "\<forall>j \<in> set ?js. decode_message True (ms_Message (packaged sc (?ps ! j))) = Some (arrived sc (?ps ! j))"
    using assms(10) indices by (auto intro!: decode_packaged simp: ascii_addresses_def list_all_length)
  from reader_forwards [where decode = "decode_message True", OF assms(11) [unfolded bodies] this]
  obtain js where js: "xs = List.map (\<lambda>i. arrived sc (?ps ! (?js ! i))) js" "gapless 0 js" "k \<le> 1 \<longrightarrow> js = [0..<length js]"
    "set js \<subseteq> {..<length ?js}" by blast
  obtain m where "ol_taken (rn_out r) = take m xs"
    using rabbit_mode_never_returns [OF assms(12)] by (metis append_eq_conv_conj)
  then have taken: "ol_taken (rn_out r) = List.map (\<lambda>i. arrived sc (?ps ! (?js ! i))) (take m js)"
    by (simp add: js(1) take_map)
  have first: "k \<le> 1 \<longrightarrow> take m js = [0..<length (take m js)]" using js(3) by (metis length_upt take_upt add_0 nat_le_linear take_all length_take min_def)
  have "set (take m js) \<subseteq> {..<length ?js}" using js(4) set_take_subset by fast
  with taken first gapless_take [OF js(2), of m]
  have "\<exists>is. ol_taken (rn_out r) = List.map (\<lambda>i. arrived sc (?ps ! (?js ! i))) is \<and> gapless 0 is \<and>
      set is \<subseteq> {..<length ?js} \<and> (k \<le> 1 \<longrightarrow> is = [0..<length is])" by blast
  moreover have "run_inv (ol_taken (rn_out r)) co"
    by (rule collects_inv [OF assms(14) start_collector_inv [OF assms(13)]])
  moreover have "distinct ?js" "sorted_wrt (\<lambda>i j. wi_channels w ! i = wi_channels w ! j \<longrightarrow> i < j) ?js"
    using wire_broker_order [OF wire(3)] by simp_all
  ultimately show ?thesis using loop indices by (auto simp: Let_def run_inv_def)
qed

subsection \<open>An instance\<close>

text \<open>One packet, read after the publisher has started, that is delivered twice: the reader's
  connection ends before it has acknowledged the message.\<close>

definition sample_sent :: "bytes \<times> UDPAddr" where
  "sample_sent = (''<statistics>'', sample_remote)"

definition sent_events :: "MessageStruct \<Rightarrow> wire_event list" where
  "sent_events m =
     List.map PoolEvent [Enqueued m, Work 0 (SessionEvent (Dialed True)), Feed True, Feed True, Feed True,
       Work 0 (SessionEvent (ChannelOpened True)), Work 0 TakeMessage, Work 0 Proceed, Work 0 (PushAttempt True)] @
     [Arrive 0]"

lemma sent_run:
  "\<exists>w. wire_run (sample_amqp (Some ''p'')) (sent_events m) (wire_start (sample_pool (Some ''p''))) = Some w \<and>
     wi_broker w = [0] \<and> wp_published (wi_pool w) = [m]"
proof -
  have "map_option (\<lambda>w. (wi_broker w, wp_published (wi_pool w)))
      (wire_run (sample_amqp (Some ''p'')) (sent_events m) (wire_start (sample_pool (Some ''p'')))) = Some ([0], [m])"
    by (code_simp, cases m, simp)
  then show ?thesis by (auto simp: map_option_eq_Some)
qed

lemma sample_passed: "passed sample_shovel [ReadPacket ''<statistics>'' sample_remote] = [sample_sent]"
  by (simp add: passed_def sample_sent_def sample_shovel_def VerifyPacket_def)

lemma sample_ascii: "ascii_addresses sample_shovel [ReadPacket ''<statistics>'' sample_remote]"
  by (simp add: ascii_addresses_def sample_passed) (simp add: sample_sent_def sample_shovel_def mapIp_sample ascii_def)

lemma session_unacked:
  assumes "decode body = Some x" and "reader_sessions decode k [body] [body] xs"
  shows "reader_sessions decode (Suc k) [body] [body] (xs @ [x])"
proof -
  let ?es = "[Message \<lparr>dl_Body = body, dl_DeliveryTag = 1\<rparr> False False False]"
  have log: "rr_log (fst (consume decode ?es fresh_reader)) = [Delivered 1, Forwarded x]"
    using assms(1) by (simp add: consume_def consume_start_def fresh_reader_def handle_delivery_def processMessage_def log_add_def Let_def)
  have "requeued (delivered ?es) (broker_after [Delivered 1, Forwarded x]) @ drop 1 [body] = [body]"
    by (simp add: broker_after_def requeued_def)
  moreover have "list_all consuming ?es" "delivered ?es = deliveries_from 1 (take 1 [body])" by simp_all
  note reader_sessions.session [OF assms(2) this refl, unfolded log]
  ultimately show ?thesis by simp
qed

lemma delivered_twice:
  assumes "decode body = Some x"
  shows "reader_sessions decode 2 [body] [body] [x, x]"
proof -
  have "reader_sessions decode 0 [body] [body] []"
    using reader_sessions.arrival [OF reader_sessions.start, of decode body] by simp
  from session_unacked [where decode = decode, OF assms session_unacked [where decode = decode, OF assms this]]
  show ?thesis by (simp add: numeral_2_eq_2)
qed

lemma reader_received_again:
  assumes "decode body = Some x" and "reader_runs decode xs r" and "rn_pc r = Consuming" and "rn_stop r = NotStopped"
    and "ol_items (rn_out r) = []"
  shows "\<exists>r'. reader_runs decode (xs @ [x]) r' \<and> rn_pc r' = Consuming \<and> rn_stop r' = NotStopped \<and>
    ol_items (rn_out r') = [] \<and> ol_taken (rn_out r') = ol_taken (rn_out r) @ [x]"
proof -
  note sent = reader_runs.send [OF reader_runs.delivery [where decode = decode, OF assms(2,3,1)], of x]
  from reader_runs.receive [OF sent, of x "[]"] assms(4,5) show ?thesis
    by (intro exI conjI) (assumption | simp add: outlet_capacity_def)+
qed

lemma rabbit_twice:
  assumes "decode body = Some x"
  shows "\<exists>r. rabbit_mode decode [x, x] r False \<and> ol_taken (rn_out r) = [x, x]"
proof -
  let ?r0 = "new_reader_run\<lparr>rn_pc := Consuming\<rparr>"
  obtain r1 where "reader_runs decode [x] r1" "rn_pc r1 = Consuming" "rn_stop r1 = NotStopped" "ol_items (rn_out r1) = []"
    "ol_taken (rn_out r1) = [x]"
    using reader_received_again [where decode = decode, OF assms reader_consuming]
    by (auto simp: new_reader_run_def new_outlet_def)
  moreover from reader_received_again [where decode = decode, OF assms this(1-4)] this(5)
  obtain r2 where "reader_runs decode [x, x] r2" "rn_stop r2 = NotStopped" "ol_taken (rn_out r2) = [x, x]" by auto
  ultimately show ?thesis using rabbit_mode.reader by blast
qed

lemma shoveler_to_collector_witness:
  "\<exists>(r :: ReaderRun) (co :: MessageStruct list Collector) is.
     ol_taken (rn_out r) = [arrived sample_shovel sample_sent, arrived sample_shovel sample_sent] \<and>
     ol_taken (rn_out r) = List.map (\<lambda>i. arrived sample_shovel ([sample_sent] ! ([0] ! i))) is \<and> gapless 0 is \<and>
     co_metrics co PacketsReceived = 2"
proof -
  let ?m = "packaged sample_shovel sample_sent" and ?x = "arrived sample_shovel sample_sent"
  let ?decode = "decode_message True" and ?read = "[ReadPacket ''<statistics>'' sample_remote]"
  have decode: "?decode (ms_Message ?m) = Some ?x"
    using sample_ascii by (intro decode_packaged) (simp_all add: ascii_addresses_def sample_passed)
  obtain w where w: "wire_run (sample_amqp (Some ''p'')) (sent_events ?m) (wire_start (sample_pool (Some ''p''))) = Some w"
    "wi_broker w = [0]" "wp_published (wi_pool w) = [?m]" using sent_run by blast
  have bodies: "List.map snd (broker_got (sample_amqp (Some ''p'')) w) = [ms_Message ?m]"
    by (simp add: broker_got_def w(2,3) addressed_def)
  obtain r where r: "rabbit_mode ?decode [?x, ?x] r False" "ol_taken (rn_out r) = [?x, ?x]"
    using rabbit_twice [where decode = ?decode, OF decode] by blast
  have "collects sample_config sample_start [?x] (process_one sample_env 5 (enrichment_destination sample_config) ?x sample_start)"
    using collects.packet [OF collects.start, of sample_config sample_start ?x sample_env 5] by simp
  from collects.packet [OF this, of ?x sample_env 5] r(2)
  obtain co where co: "collects sample_config sample_start (ol_taken (rn_out r)) co" by auto
  have loop: "shovel_udp_loop sample_shovel [] sample_shoveler = (sample_shoveler, False)" by simp
  have dests: "list_all id (vc_destinations sample_shovel)" by (simp add: sample_shovel_def)
  have queue: "cq_ok id (ss_queue sample_shoveler)" "cq_items id (ss_queue sample_shoveler) = []"
    using cq_ok_list list_queue_empty by (simp_all add: sample_shoveler_def)
  have pool: "StartAMQP (sample_amqp (Some ''p'')) (Some 1) (Some ''token'') (ss_queue sample_shoveler) = Some (sample_pool (Some ''p''))"
    using sample_pool by (simp add: sample_shoveler_def)
  have mode: "cfg_Mode (sample_amqp (Some ''p'')) = ''shoveler''" "url_User (the (cfg_AmqpURL (sample_amqp (Some ''p'')))) \<noteq> None"
    by (simp_all add: sample_amqp_def)
  have put: "enqueued (pool_events (sent_events ?m)) = List.map (packaged sample_shovel) (passed sample_shovel ?read)"
    by (simp add: sent_events_def sample_passed)
  have ascii: "ascii_addresses sample_shovel ([] @ ?read)" using sample_ascii by simp
  have sessions: "reader_sessions ?decode 2 (List.map snd (broker_got (sample_amqp (Some ''p'')) w)) [ms_Message ?m] [?x, ?x]"
    using delivered_twice [where decode = ?decode, OF decode] bodies by simp
  note result = shoveler_to_collector [OF loop dests queue pool mode w(1) put ascii sessions r(1) sample_start co]
  then have "(\<exists>is. ol_taken (rn_out r) = List.map (\<lambda>i. arrived sample_shovel ([sample_sent] ! ([0] ! i))) is \<and> gapless 0 is) \<and>
      co_metrics co PacketsReceived = 2"
    unfolding Let_def append_Nil sample_passed w(2) by (metis r(2) length_Cons list.size(3) numeral_2_eq_2)
  then show ?thesis using r(2) by metis
qed

end
