(* ===== verification/User_Attribution.thy ===== *)
theory User_Attribution
  imports User_Theorems
begin

section \<open>From a login to the record of a file\<close>

text \<open>
  Who a record is attributed to, across any other traffic. A user's state is found through two
  keys of its server, that of the login's dictionary id and that of the user. The frame lemmas say
  which events leave both alone: everything of other servers, and of the server itself everything
  but what uses that dictionary id or names that user: other logins, tokens, dictionary records
  and disconnects come and go. The theorem composes them with the correlation of the file's open
  and close.
\<close>

subsection \<open>User keys of different servers\<close>

text \<open>A remote address, an IP address with a port, has no dash.\<close>

definition no_dash :: "string \<Rightarrow> bool" where
  "no_dash addr \<longleftrightarrow> CHR ''-'' \<notin> set addr"

definition apart :: "string \<Rightarrow> string \<Rightarrow> bool" where
  "apart s s' \<longleftrightarrow> s \<noteq> s' \<and> (\<forall>u v. BuildUserInfoKey s u \<noteq> BuildUserInfoKey s' v)"

lemma BuildUserInfoKey_shape: "\<exists>rest. BuildUserInfoKey s u = s @ CHR ''-'' # rest"
  by (simp add: BuildUserInfoKey_def WriteUint32_def)

lemma user_key_server:
  assumes "no_dash r" "no_dash q"
    and eq: "BuildUserInfoKey (BuildServerID a r) u = BuildUserInfoKey (BuildServerID b q) v"
  shows "a = b \<and> r = q"
proof -
  obtain x y where "BuildServerID a r @ CHR ''-'' # x = BuildServerID b q @ CHR ''-'' # y"
    using BuildUserInfoKey_shape eq by metis
  then have keys: "BuildServerID a (r @ CHR ''-'' # x) = BuildServerID b (q @ CHR ''-'' # y)"
    by (simp add: BuildServerID_def)
  then have "r @ CHR ''-'' # x = q @ CHR ''-'' # y" and "a = b" by simp_all
  then have "before (CHR ''-'') (r @ CHR ''-'' # x) = before (CHR ''-'') (q @ CHR ''-'' # y)" by simp
  with assms(1,2) \<open>a = b\<close> show ?thesis by (simp add: no_dash_def before_append)
qed

lemma servers_apart:
  assumes "no_dash r" "no_dash q" "BuildServerID a r \<noteq> BuildServerID b q"
  shows "apart (BuildServerID a r) (BuildServerID b q)"
  using assms user_key_server unfolding apart_def by (metis BuildServerID_inject)

subsection \<open>What leaves a login alone\<close>

text \<open>
  The login of the user \<open>u\<close> on the server \<open>s\<close> under the dictionary id \<open>d\<close>. Later records may file
  the user under further ids, those of the paths the user opens; \<open>ids\<close> are all of them. No other id
  of the server holds a user with the same key: a disconnect or a token under such an id would
  change the user's state.
\<close>

definition other_user :: "string \<Rightarrow> UserInfo \<Rightarrow> UserInfo \<Rightarrow> bool" where
  "other_user s u w \<longleftrightarrow> BuildUserInfoKey s w \<noteq> BuildUserInfoKey s u"

definition ids_hold_others :: "uint32 set \<Rightarrow> string \<Rightarrow> UserInfo \<Rightarrow> Correlator \<Rightarrow> bool" where
  "ids_hold_others ids s u c \<longleftrightarrow>
     state_map.holds (\<lambda>k v. \<forall>d w. d \<notin> ids \<longrightarrow> k = BuildDictIDKey s d \<longrightarrow> v = VUserInfo w \<longrightarrow> other_user s u w)
       (c_dictMap c)"

lemma ids_hold_others_found:
  "ids_hold_others ids s u c \<Longrightarrow> sm_Get t (BuildDictIDKey s d) (c_dictMap c) = Some (VUserInfo w) \<Longrightarrow> d \<notin> ids \<Longrightarrow>
     other_user s u w"
  unfolding ids_hold_others_def by (blast dest: state_map.holds_lookup)

text \<open>The lookups of the login at the time \<open>t\<close> stay as they are, and so does what the ids hold.\<close>

definition keeps_login :: "int \<Rightarrow> uint32 set \<Rightarrow> string \<Rightarrow> uint32 \<Rightarrow> UserInfo \<Rightarrow> Correlator \<Rightarrow> Correlator \<Rightarrow> bool" where
  "keeps_login t ids s d u c c' \<longleftrightarrow>
     (ids_hold_others ids s u c \<longrightarrow> ids_hold_others ids s u c' \<and>
        sm_Get t (BuildDictIDKey s d) (c_dictMap c') = sm_Get t (BuildDictIDKey s d) (c_dictMap c) \<and>
        sm_Get t (BuildUserInfoKey s u) (c_userMap c') = sm_Get t (BuildUserInfoKey s u) (c_userMap c))"

lemma keeps_login_refl [simp]: "keeps_login t ids s d u c c"
  by (simp add: keeps_login_def)

lemma keeps_login_maps: "c_dictMap c' = c_dictMap c \<Longrightarrow> c_userMap c' = c_userMap c \<Longrightarrow> keeps_login t ids s d u c c'"
  by (simp add: keeps_login_def ids_hold_others_def)

lemma keeps_login_trans:
  "keeps_login t ids s d u c c' \<Longrightarrow> keeps_login t ids s d u c' c'' \<Longrightarrow> keeps_login t ids s d u c c''"
  by (simp add: keeps_login_def)

lemma keeps_login_count [simp]: "keeps_login t ids s d u (count l c) c' \<longleftrightarrow> keeps_login t ids s d u c c'"
  by (simp add: keeps_login_def ids_hold_others_def)

lemma keeps_login_if: "(ids_hold_others ids s u c \<Longrightarrow> keeps_login t ids s d u c c') \<Longrightarrow> keeps_login t ids s d u c c'"
  by (auto simp: keeps_login_def)

text \<open>Entries of other ids and other users, and entries of other servers.\<close>

definition other_id :: "uint32 set \<Rightarrow> string \<Rightarrow> uint32 \<Rightarrow> UserInfo \<Rightarrow> uint32 \<Rightarrow> UserInfo \<Rightarrow> bool" where
  "other_id ids s d u d' w \<longleftrightarrow> d' \<noteq> d \<and> (d' \<in> ids \<or> other_user s u w)"

lemma keeps_login_dict_put:
  assumes "apart s s' \<or> (s' = s \<and> other_id ids s d u d' w)"
  shows "keeps_login t ids s d u c (dict_put now (BuildDictIDKey s' d') (VUserInfo w) c)"
  using assms
  by (auto simp: keeps_login_def ids_hold_others_def dict_put_def other_id_def apart_def sm_Get_put_other
      intro!: state_map.holds_store)

lemma keeps_login_path_put: "keeps_login t ids s d u c (dict_put now (BuildDictKey s' d') v c)"
  by (auto simp: keeps_login_def ids_hold_others_def dict_put_def sm_Get_put_other intro!: state_map.holds_store)

lemma keeps_login_user_put:
  assumes "apart s s' \<or> (s' = s \<and> other_user s u w)"
  shows "keeps_login t ids s d u c (user_put now (BuildUserInfoKey s' w) v c)"
proof -
  have "BuildUserInfoKey s u \<noteq> BuildUserInfoKey s' w"
    using assms by (auto simp: apart_def other_user_def)
  then show ?thesis by (simp add: keeps_login_def ids_hold_others_def user_put_def sm_Get_put_other)
qed

lemma keeps_login_update_user:
  "apart s s' \<or> (s' = s \<and> other_user s u w) \<Longrightarrow>
     keeps_login t ids s d u c (update_user now (BuildUserInfoKey s' w) change fresh c)"
  by (auto simp: update_user_def intro: keeps_login_user_put split: option.split map_value.split)

lemmas keeps_login_intros = keeps_login_dict_put keeps_login_path_put keeps_login_user_put keeps_login_update_user

text \<open>The records of the server itself that say nothing of the login.\<close>

definition quiet_map :: "uint32 set \<Rightarrow> string \<Rightarrow> uint32 \<Rightarrow> UserInfo \<Rightarrow> char \<Rightarrow> MapRecord \<Rightarrow> bool" where
  "quiet_map ids s d u packetType rec \<longleftrightarrow>
     (let parts = splitn2 newline (mr_Info rec)
      in case collector_parseUserInfo (parts ! 0) of
           None \<Rightarrow> True
         | Some w \<Rightarrow>
             if packetType = PacketTypeDictID then other_id ids s d u (mr_DictId rec) w
             else if packetType = PacketTypeInfo then mr_DictId rec \<noteq> d \<and> other_user s u w
             else if packetType = PacketTypeEAInfo then
               1 < length parts \<longrightarrow> fst (parseEAInfo (parts ! 1)) \<notin> ids \<and> other_user s u w
             else True)"

definition quiet_user :: "uint32 set \<Rightarrow> string \<Rightarrow> uint32 \<Rightarrow> UserInfo \<Rightarrow> UserRecord \<Rightarrow> bool" where
  "quiet_user ids s d u rec \<longleftrightarrow>
     (if ti_UserDictID (ur_TokenInfo rec) \<noteq> 0 then ti_UserDictID (ur_TokenInfo rec) \<notin> ids
      else ur_DictId rec \<noteq> d \<and> other_user s u (ur_UserInfo rec))"

fun quiet_file :: "uint32 set \<Rightarrow> FileRecord \<Rightarrow> bool" where
  "quiet_file ids (DiscRec rec) = (fdr_UserID rec \<notin> ids)"
| "quiet_file ids rec = True"

lemma found_user:
  assumes "ids_hold_others ids s u c" and "sm_Get t (BuildDictIDKey s' d') (c_dictMap c) = Some (VUserInfo w)"
    and "apart s s' \<or> (s' = s \<and> d' \<notin> ids)"
  shows "apart s s' \<or> (s' = s \<and> other_user s u w)"
  using assms ids_hold_others_found by blast

lemma keeps_login_eainfo_user:
  "apart s s' \<or> (s' = s \<and> other_user s u w) \<Longrightarrow> keeps_login t ids s d u c (handle_eainfo_user now s' x e a w c)"
  unfolding handle_eainfo_user_def by (rule keeps_login_update_user)

lemma keeps_login_eainfo:
  assumes "apart s s' \<or> (s' = s \<and> (1 < length parts \<longrightarrow> fst (parseEAInfo (parts ! 1)) \<notin> ids \<and> other_user s u w))"
    and "d \<in> ids"
  shows "keeps_login t ids s d u c (handle_eainfo now s' w parts c)"
proof (rule keeps_login_if)
  assume hold: "ids_hold_others ids s u c"
  show ?thesis
  proof (cases "1 < length parts")
    case True
    obtain x e a where ea: "parseEAInfo (parts ! 1) = (x, e, a)" by (cases "parseEAInfo (parts ! 1)")
    with assms True have id: "apart s s' \<or> (s' = s \<and> x \<notin> ids)" and user: "apart s s' \<or> (s' = s \<and> other_user s u w)"
      and "apart s s' \<or> (s' = s \<and> other_id ids s d u x w)"
      by (auto simp: other_id_def)
    note fresh = keeps_login_trans [OF keeps_login_dict_put [OF this(3)] keeps_login_eainfo_user [OF user]]
    show ?thesis
      using True ea fresh found_user [OF hold _ id] keeps_login_eainfo_user
      by (auto simp: handle_eainfo_def Let_def split: option.split map_value.split)
  qed (simp add: handle_eainfo_def)
qed

lemma keeps_login_handleDictIDRecord:
  assumes "apart s s' \<or> (s' = s \<and> quiet_map ids s d u ty rec)" and "d \<in> ids"
  shows "keeps_login t ids s d u c (handleDictIDRecord now rec s' ty c)"
proof -
  let ?parts = "splitn2 newline (mr_Info rec)"
  show ?thesis
  proof (cases "collector_parseUserInfo (?parts ! 0)")
    case None
    then show ?thesis by (simp add: handleDictIDRecord_def Let_def keeps_login_path_put)
  next
    case (Some w)
    have path: "keeps_login t ids s d u c (handle_path now rec s' w ?parts c)"
      if "apart s s' \<or> (s' = s \<and> other_id ids s d u (mr_DictId rec) w)"
      using that by (auto simp: handle_path_def intro: keeps_login_intros keeps_login_trans)
    have info: "keeps_login t ids s d u c (handle_appinfo now rec s' w ?parts c)"
      if "apart s s' \<or> (s' = s \<and> mr_DictId rec \<noteq> d \<and> other_user s u w)"
    proof -
      have "apart s s' \<or> (s' = s \<and> other_id ids s d u (mr_DictId rec) w)" "apart s s' \<or> (s' = s \<and> other_user s u w)"
        using that by (auto simp: other_id_def)
      from keeps_login_trans [OF keeps_login_dict_put [OF this(1)] keeps_login_update_user [OF this(2)]]
      show ?thesis by (simp add: handle_appinfo_def)
    qed
    show ?thesis
      using assms Some path info keeps_login_eainfo [of s s' ?parts ids u w d]
      by (auto simp: handleDictIDRecord_def quiet_map_def Let_def split: if_splits)
  qed
qed

lemma keeps_login_handle_token:
  assumes "apart s s' \<or> (s' = s \<and> ti_UserDictID (ur_TokenInfo rec) \<notin> ids)"
  shows "keeps_login t ids s d u c (handle_token now rec s' c)"
proof (rule keeps_login_if)
  assume "ids_hold_others ids s u c"
  from found_user [OF this _ assms] show ?thesis
    by (auto simp: handle_token_def Let_def intro: keeps_login_user_put split: option.split map_value.split)
qed

lemma keeps_login_handleUserRecord:
  assumes "apart s s' \<or> (s' = s \<and> quiet_user ids s d u rec)"
  shows "keeps_login t ids s d u c (handleUserRecord now rec s' c)"
proof (cases "ti_UserDictID (ur_TokenInfo rec) = 0")
  case True
  with assms have "apart s s' \<or> (s' = s \<and> other_id ids s d u (ur_DictId rec) (ur_UserInfo rec))"
    "apart s s' \<or> (s' = s \<and> other_user s u (ur_UserInfo rec))"
    by (auto simp: quiet_user_def other_id_def)
  from keeps_login_trans [OF keeps_login_dict_put [OF this(1)] keeps_login_user_put [OF this(2)]] True
  show ?thesis by (simp add: handleUserRecord_def Let_def)
next
  case False
  with assms have "apart s s' \<or> (s' = s \<and> ti_UserDictID (ur_TokenInfo rec) \<notin> ids)" by (auto simp: quiet_user_def)
  with False show ?thesis by (simp add: handleUserRecord_def keeps_login_handle_token)
qed

lemma keeps_login_delete:
  assumes "apart s s' \<or> (s' = s \<and> d' \<noteq> d \<and> other_user s u w)"
  shows "keeps_login t ids s d u c
    (c\<lparr>c_dictMap := sm_Delete (BuildDictIDKey s' d') (c_dictMap c),
       c_userMap := sm_Delete (BuildUserInfoKey s' w) (c_userMap c)\<rparr>)"
proof -
  have "BuildUserInfoKey s u \<noteq> BuildUserInfoKey s' w" "BuildDictIDKey s d \<noteq> BuildDictIDKey s' d'"
    using assms by (auto simp: apart_def other_user_def)
  then show ?thesis by (auto simp: keeps_login_def ids_hold_others_def sm_Get_Delete intro: state_map.holds_remove)
qed

lemma keeps_login_handleDisconnect:
  assumes "apart s s' \<or> (s' = s \<and> fdr_UserID rec \<notin> ids)" and "d \<in> ids"
  shows "keeps_login t ids s d u c (handleDisconnect now rec s' c)"
proof (rule keeps_login_if)
  assume hold: "ids_hold_others ids s u c"
  have "keeps_login t ids s d u c
      (c\<lparr>c_dictMap := sm_Delete (BuildDictIDKey s' (fdr_UserID rec)) (c_dictMap c),
         c_userMap := sm_Delete (BuildUserInfoKey s' w) (c_userMap c)\<rparr>)"
    if "sm_Get now (BuildDictIDKey s' (fdr_UserID rec)) (c_dictMap c) = Some (VUserInfo w)" for w
    using found_user [OF hold that assms(1)] assms by (intro keeps_login_delete) auto
  then show ?thesis
    by (auto simp: handleDisconnect_def Let_def split: option.split map_value.split)
qed

lemma handleFileClose_users:
  "c_dictMap (fst (handleFileClose now r p s c)) = c_dictMap c"
  "c_userMap (fst (handleFileClose now r p s c)) = c_userMap c"
  by (simp_all add: handleFileClose_def Let_def case_prod_beta split: option.split map_value.split)

lemma keeps_login_process_record:
  assumes "apart s s' \<or> (s' = s \<and> quiet_file ids rec)" and "d \<in> ids"
  shows "keeps_login t ids s d u c (fst (process_record now ip p s' rec c))"
proof (cases rec)
  case (DiscRec d)
  with assms show ?thesis by (simp add: process_record_def keeps_login_handleDisconnect)
qed (auto intro!: keeps_login_maps
    simp: process_record_def handleFileOpen_def handleTimeRecord_def state_put_def handleFileClose_users)

lemma keeps_login_process_records:
  assumes "apart s s' \<or> (s' = s \<and> list_all (quiet_file ids) recs)" and "d \<in> ids"
  shows "keeps_login t ids s d u c (fst (process_records now ip p s' recs out c))"
  using assms
proof (induction recs arbitrary: out c)
  case (Cons rec recs)
  have one: "keeps_login t ids s d u c (fst (process_record now ip p s' rec c))"
    using Cons.prems by (intro keeps_login_process_record) auto
  have rest: "keeps_login t ids s d u c' (fst (process_records now ip p s' recs out' c'))" for out' c'
    using Cons.prems by (intro Cons.IH) auto
  show ?case
    using one keeps_login_trans [OF one rest]
    by (auto simp: case_prod_beta split: sum.split option.split)
qed simp

text \<open>The events that say nothing of the login.\<close>

definition quiet_packet :: "uint32 set \<Rightarrow> string \<Rightarrow> uint32 \<Rightarrow> UserInfo \<Rightarrow> Packet \<Rightarrow> bool" where
  "quiet_packet ids s d u p \<longleftrightarrow>
     (case pkt_MapRecord p of Some rec \<Rightarrow> quiet_map ids s d u (pkt_PacketType p) rec | None \<Rightarrow> True) \<and>
     (case pkt_UserRecord p of Some rec \<Rightarrow> quiet_user ids s d u rec | None \<Rightarrow> True) \<and>
     list_all (quiet_file ids) (pkt_FileRecords p)"

fun leaves_login :: "uint32 set \<Rightarrow> string \<Rightarrow> uint32 \<Rightarrow> UserInfo \<Rightarrow> corr_event \<Rightarrow> bool" where
  "leaves_login ids s d u (Received p) \<longleftrightarrow>
     (if getServerID p = s then quiet_packet ids s d u p else apart s (getServerID p))"
| "leaves_login ids s d u (ReceivedGStream p) \<longleftrightarrow> True"
| "leaves_login ids s d u (Janitor m) \<longleftrightarrow> True"

lemma keeps_login_ProcessPacket:
  assumes "leaves_login ids s d u (Received p)" and "d \<in> ids"
  shows "keeps_login t ids s d u c (fst (ProcessPacket now p c))"
proof (cases "pkt_IsXML p \<or> pkt_ServerInfo p \<noteq> None")
  case True
  then show ?thesis
    by (auto simp: ProcessPacket_def Let_def handleServerInfo_def intro: keeps_login_maps)
next
  case False
  let ?c = "count (PacketsPerServer (packet_server_ip p) (PacketTypeName (pkt_PacketType p))) c"
  let ?s = "getServerID p"
  have frame: "keeps_login t ids s d u c c'" if "keeps_login t ids s d u ?c c'" for c' using that by simp
  have quiet: "apart s ?s \<or> (?s = s \<and> quiet_packet ids s d u p)" using assms(1) by (auto split: if_splits)
  consider (map) rec where "pkt_MapRecord p = Some rec"
    | (user) rec where "pkt_MapRecord p = None" "pkt_UserRecord p = Some rec"
    | (files) "pkt_MapRecord p = None" "pkt_UserRecord p = None" by fastforce
  then show ?thesis
  proof cases
    case (map rec)
    with quiet have "apart s ?s \<or> (?s = s \<and> quiet_map ids s d u (pkt_PacketType p) rec)" by (auto simp: quiet_packet_def)
    from frame [OF keeps_login_handleDictIDRecord [OF this assms(2)]] map False show ?thesis
      by (simp add: ProcessPacket_def Let_def)
  next
    case (user rec)
    with quiet have "apart s ?s \<or> (?s = s \<and> quiet_user ids s d u rec)" by (auto simp: quiet_packet_def)
    from frame [OF keeps_login_handleUserRecord [OF this]] user False show ?thesis
      by (simp add: ProcessPacket_def Let_def)
  next
    case files
    with quiet have "apart s ?s \<or> (?s = s \<and> list_all (quiet_file ids) (pkt_FileRecords p))" by (auto simp: quiet_packet_def)
    from frame [OF keeps_login_process_records [OF this assms(2)]] files False show ?thesis
      by (simp add: ProcessPacket_def Let_def)
  qed
qed

lemma keeps_login_apply:
  assumes "corr_ok c" and "leaves_login ids s d u ev" and "d \<in> ids" and "now \<le> t"
  shows "keeps_login t ids s d u c (corr_apply resolve now ev c)"
proof (cases ev)
  case (Received p)
  with assms(2,3) keeps_login_ProcessPacket show ?thesis by simp
next
  case (Janitor m)
  with assms show ?thesis
    by (cases m) (auto simp: corr_ok_def typed_map_def keeps_login_def ids_hold_others_def state_map.lookup_sweep
        intro: state_map.holds_sweep)
qed (auto intro: keeps_login_maps)

lemma keeps_login_run:
  assumes "corr_ok c" and "\<forall>(now, ev) \<in> set evs. now \<le> t \<and> leaves_login ids s d u ev" and "d \<in> ids"
  shows "keeps_login t ids s d u c (corr_run resolve evs c)"
  using assms
proof (induction evs arbitrary: c)
  case (Cons x evs)
  obtain now ev where x: "x = (now, ev)" by (cases x)
  have "keeps_login t ids s d u c (corr_apply resolve now ev c)"
    using Cons.prems x by (intro keeps_login_apply) auto
  moreover have "keeps_login t ids s d u (corr_apply resolve now ev c) (corr_run resolve evs (corr_apply resolve now ev c))"
    using Cons.prems x by (intro Cons.IH) (auto intro: corr_ok_apply)
  ultimately show ?case by (auto simp: corr_run_def x intro: keeps_login_trans)
qed (simp add: corr_run_def)

lemma keeps_login_getUserInfo:
  assumes "keeps_login t ids s d u c c'" and "ids_hold_others ids s u c" and "d \<noteq> 0"
    and "sm_Get t (BuildDictIDKey s d) (c_dictMap c) = Some (VUserInfo u)"
    and "sm_Get t (BuildUserInfoKey s u) (c_userMap c) = Some (VUser us)"
  shows "getUserInfo t d f s c' = Some us"
  using assms by (intro getUserInfo_known) (auto simp: keeps_login_def)

subsection \<open>The record of a user's file\<close>

definition user_packet :: "UserRecord \<Rightarrow> Packet \<Rightarrow> bool" where
  "user_packet rec p \<longleftrightarrow> \<not> pkt_IsXML p \<and> pkt_ServerInfo p = None \<and> pkt_MapRecord p = None \<and> pkt_UserRecord p = Some rec"

text \<open>What a record says of the user who logged in with \<open>rec\<close>.\<close>

definition names_user :: "UserRecord \<Rightarrow> CollectorRecord \<Rightarrow> bool" where
  "names_user rec out \<longleftrightarrow> cr_User out = ui_Username (ur_UserInfo rec) \<and> cr_Host out = ui_Host (ur_UserInfo rec) \<and>
     cr_Protocol out = ui_Protocol (ur_UserInfo rec) \<and> cr_UserDN out = first_of_dn (ai_DN (ur_AuthInfo rec)) \<and>
     cr_VO out = (if ai_Org (ur_AuthInfo rec) \<noteq> [] then normalizeVO (ai_Org (ur_AuthInfo rec)) else []) \<and>
     cr_TokenSubject out = ti_Subject (ur_TokenInfo rec)"

lemma createCorrelatedRecord_names:
  assumes "getUserInfo now (fs_UserID st) (fs_FileID st) (fs_ServerID st) c = Some (user_state_of t rec)"
  shows "names_user rec (snd (createCorrelatedRecord now st q p c))"
  using assms
  by (simp add: names_user_def createCorrelatedRecord_def user_state_of_def Let_def case_prod_beta)

lemma getUserInfo_count: "getUserInfo t d f s (count l c) = getUserInfo t d f s c"
  unfolding getUserInfo_def user_of_id_def user_of_file_def count_maps ..

lemma user_packet_stored:
  assumes "user_packet rec p" and "s = getServerID p" and "stores_user rec s c" and "t \<le> now + user_ttl c"
  defines "c' \<equiv> fst (ProcessPacket now p c)"
  shows "sm_Get t (BuildDictIDKey s (ur_DictId rec)) (c_dictMap c') = Some (VUserInfo (ur_UserInfo rec))"
    and "sm_Get t (BuildUserInfoKey s (ur_UserInfo rec)) (c_userMap c') = Some (VUser (user_state_of now rec))"
proof -
  let ?c = "count (PacketsPerServer (packet_server_ip p) (PacketTypeName (pkt_PacketType p))) c"
  have c': "c' = handleUserRecord now rec s ?c"
    using assms(1,2) by (simp add: c'_def ProcessPacket_def user_packet_def Let_def)
  have "stores_user rec s ?c" using assms(3) by (simp add: stores_user_def)
  note stored = handleUserRecord_stored [OF this, of now]
  show "sm_Get t (BuildDictIDKey s (ur_DictId rec)) (c_dictMap c') = Some (VUserInfo (ur_UserInfo rec))"
    "sm_Get t (BuildUserInfoKey s (ur_UserInfo rec)) (c_userMap c') = Some (VUser (user_state_of now rec))"
    using assms(3,4) unfolding c' stored
    by (simp_all add: sm_Get_put_same stores_user_def user_ttl_def)
qed

lemma close_packet_record:
  assumes "file_packet p" and "pkt_FileRecords p = [CloseRec q]" and "s = getServerID p"
    and "sm_Get now (BuildFileKey s (fh_FileId (fcr_Header q))) (c_stateMap c) = Some (VFile st)"
  obtains l l' where "fst (snd (ProcessPacket now p c)) = [snd (createCorrelatedRecord now st q p (count l (count l' c)))]"
  using assms by (simp add: ProcessPacket_file_packet process_record_def handleFileClose_def Let_def case_prod_beta)

lemma file_packet_leaves_login:
  "file_packet p \<Longrightarrow> pkt_FileRecords p = [OpenRec r] \<Longrightarrow> s = getServerID p \<Longrightarrow> leaves_login ids s d u (Received p)"
  by (simp add: file_packet_def quiet_packet_def)

lemma user_packet_ids:
  assumes "user_packet rec p" and "s = getServerID p" and "stores_user rec s c" and "ur_DictId rec \<in> ids"
    and "ids_hold_others ids s (ur_UserInfo rec) c"
  shows "ids_hold_others ids s (ur_UserInfo rec) (fst (ProcessPacket now p c))"
proof -
  let ?c = "count (PacketsPerServer (packet_server_ip p) (PacketTypeName (pkt_PacketType p))) c"
  have "stores_user rec s ?c" using assms(3) by (simp add: stores_user_def)
  note stored = handleUserRecord_stored(1) [OF this, of now]
  have "fst (ProcessPacket now p c) = handleUserRecord now rec s ?c"
    using assms(1,2) by (simp add: ProcessPacket_def user_packet_def Let_def)
  with assms(4,5) stored show ?thesis by (auto simp: ids_hold_others_def intro!: state_map.holds_store)
qed

text \<open>C4: Who used a file. A user logs in, then opens a file, then closes it, with any traffic in
  between that does not use the login's dictionary id, does not name this user, and does not touch
  the file: packets of other servers of every kind, and of the same server other files, the logins,
  tokens, dictionary records and disconnects of other users, the paths this user is known to open
  (under the further ids \<open>ids\<close>, which no token or disconnect may use), g-streams, janitor sweeps.
  Within the TTLs the close yields one record, and it names the file of the open and the user, host,
  protocol, DN, VO and token subject of the login.
\<close>

theorem login_open_close_attributed:
  assumes "corr_reach resolve config (t0, c)"
    and "user_packet rec pu" "stores_user rec s c" "s = getServerID pu"
    and "file_packet p" "pkt_FileRecords p = [OpenRec r]" "getServerID p = s" "for_Lfn r \<noteq> []"
    and "fh_UserId (for_Header r) = ur_DictId rec"
    and "file_packet p'" "pkt_FileRecords p' = [CloseRec q]" "getServerID p' = s"
    and "fh_FileId (fcr_Header q) = fh_FileId (for_Header r)"
    and "c1 = corr_run resolve evs (fst (ProcessPacket t1 pu c))"
    and "sm_room (BuildFileKey s (fh_FileId (for_Header r))) (c_stateMap c1)"
    and "\<forall>(t, ev) \<in> set evs. t \<le> t3 \<and> leaves_login ids s (ur_DictId rec) (ur_UserInfo rec) ev"
    and "\<forall>(t, ev) \<in> set evs'. t \<le> t3 \<and> leaves_login ids s (ur_DictId rec) (ur_UserInfo rec) ev \<and>
      \<not> touches s (fh_FileId (for_Header r)) ev"
    and "t2 \<le> t3" "t3 \<le> t1 + user_ttl c" "t3 \<le> t2 + sm_ttl (c_stateMap c1)"
    and "ur_DictId rec \<in> ids" "ids_hold_others ids s (ur_UserInfo rec) c"
  shows "\<exists>out. fst (snd (ProcessPacket t3 p' (corr_run resolve evs' (fst (ProcessPacket t2 p c1))))) = [out] \<and>
    cr_Filename out = for_Lfn r \<and> names_user rec out"
proof -
  let ?f = "fh_FileId (for_Header r)" and ?u = "ur_UserInfo rec" and ?d = "ur_DictId rec"
  let ?c0 = "fst (ProcessPacket t1 pu c)" and ?c2 = "fst (ProcessPacket t2 p c1)"
  let ?c3 = "corr_run resolve evs' ?c2" and ?st = "open_state t2 r p s c1"
  have ok: "corr_ok ?c0" "corr_ok c1" "corr_ok ?c2"
    using corr_reach_ok [OF assms(1)] ProcessPacket_ok corr_ok_run by (simp_all add: assms(14))
  have "keeps_login t3 ids s ?d ?u ?c0 c1" unfolding assms(14) by (rule keeps_login_run [OF ok(1) assms(16,21)])
  moreover have "keeps_login t3 ids s ?d ?u c1 ?c2"
    using assms(5-7,21) by (intro keeps_login_ProcessPacket file_packet_leaves_login) simp_all
  moreover have "keeps_login t3 ids s ?d ?u ?c2 ?c3"
    using assms(17,21) by (intro keeps_login_run [OF ok(3)]) auto
  ultimately have users: "keeps_login t3 ids s ?d ?u ?c0 ?c3" by (blast intro: keeps_login_trans)
  have user: "getUserInfo t3 ?d ?f s ?c3 = Some (user_state_of t1 rec)"
    using user_packet_stored [OF assms(2,4,3,19)] user_packet_ids [OF assms(2,4,3,21,22)] assms(3)
    by (intro keeps_login_getUserInfo [OF users]) (simp_all add: stores_user_def)
  have "sm_Get t3 (BuildFileKey s ?f) (c_stateMap ?c3) = sm_Get t3 (BuildFileKey s ?f) (c_stateMap ?c2)"
    using assms(17) by (intro corr_run_file_frame [OF ok(3)]) auto
  also have "\<dots> = Some (VFile ?st)"
    using assms(7,15,20) by (intro open_packet_state [OF assms(5,6)]) simp_all
  finally have "sm_Get t3 (BuildFileKey s (fh_FileId (fcr_Header q))) (c_stateMap ?c3) = Some (VFile ?st)"
    by (simp add: assms(13))
  then obtain l l' where out: "fst (snd (ProcessPacket t3 p' ?c3)) =
      [snd (createCorrelatedRecord t3 ?st q p' (count l (count l' ?c3)))]"
    using close_packet_record [OF assms(10,11)] assms(12) by metis
  have "?d \<noteq> 0" using assms(3) by (simp add: stores_user_def)
  then have st: "fs_UserID ?st = ?d" "fs_FileID ?st = ?f" "fs_ServerID ?st = s" "fs_Filename ?st = for_Lfn r"
    using assms(8,9) by (simp_all add: open_state_def open_filename_def)
  have "names_user rec (snd (createCorrelatedRecord t3 ?st q p' (count l (count l' ?c3))))"
    using user by (intro createCorrelatedRecord_names [where t = t1]) (simp add: st getUserInfo_count)
  moreover have "cr_Filename (snd (createCorrelatedRecord t3 ?st q p' (count l (count l' ?c3)))) = for_Lfn r"
    using createCorrelatedRecord_correlates [of ?st q t3 p' "count l (count l' ?c3)"] by (simp add: correlates_def st)
  ultimately show ?thesis using out by blast
qed

definition sample_user_packet :: Packet where
  "sample_user_packet = zero_Packet\<lparr>pkt_UserRecord := Some sample_user_rec\<rparr>"

definition sample_other_packet :: Packet where
  "sample_other_packet = sample_user_packet\<lparr>pkt_RemoteAddr := ''10.0.0.2:9000''\<rparr>"

text \<open>Another user of the same server: a login and a disconnect.\<close>

definition sample_second_user :: UserInfo where
  "sample_second_user = sample_user\<lparr>ui_Protocol := ''http''\<rparr>"

definition sample_second_packet :: Packet where
  "sample_second_packet = zero_Packet\<lparr>pkt_UserRecord :=
     Some (sample_user_rec\<lparr>ur_DictId := 8, ur_UserInfo := sample_second_user\<rparr>)\<rparr>"

definition sample_disconnect :: Packet where
  "sample_disconnect = sample_file_packet [DiscRec \<lparr>fdr_Header = sample_file_header, fdr_UserID = 8\<rparr>]"

definition sample_user_open :: FileOpenRecord where
  "sample_user_open = sample_open_rec\<lparr>for_Header := sample_file_header\<lparr>fh_UserId := 7\<rparr>\<rparr>"

lemma sample_servers [simp]:
  "getServerID sample_user_packet = getServerID zero_Packet" "getServerID sample_second_packet = getServerID zero_Packet"
  "getServerID sample_disconnect = getServerID zero_Packet"
  by (simp_all add: getServerID_def sample_user_packet_def sample_second_packet_def sample_disconnect_def
      sample_file_packet_def zero_Packet_def)

lemma sample_other_apart: "apart (getServerID zero_Packet) (getServerID sample_other_packet)"
  unfolding getServerID_def
  by (rule servers_apart) (simp_all add: no_dash_def sample_other_packet_def sample_user_packet_def zero_Packet_def BuildServerID_inject)

lemma user_packet_stateMap: "user_packet rec p \<Longrightarrow> c_stateMap (fst (ProcessPacket now p c)) = c_stateMap c"
  by (simp add: ProcessPacket_def user_packet_def Let_def)

lemma sample_user_packets:
  "user_packet sample_user_rec sample_user_packet" "user_packet sample_user_rec sample_other_packet"
  "user_packet (sample_user_rec\<lparr>ur_DictId := 8, ur_UserInfo := sample_second_user\<rparr>) sample_second_packet"
  by (simp_all add: user_packet_def sample_other_packet_def sample_user_packet_def sample_second_packet_def zero_Packet_def)

lemma sample_second_other: "other_user s sample_user sample_second_user"
  by (simp add: other_user_def BuildUserInfoKey_def WriteUint32_def sample_second_user_def sample_user_def)

lemma sample_quiet:
  assumes "ev \<in> {Received sample_second_packet, Received sample_other_packet, Received sample_disconnect, Janitor UserM}"
  shows "leaves_login {7} (getServerID zero_Packet) 7 sample_user ev"
proof -
  have "quiet_packet {7} (getServerID zero_Packet) 7 sample_user sample_second_packet"
    using sample_second_other
    by (simp add: quiet_packet_def quiet_user_def sample_second_packet_def sample_user_rec_def zero_Packet_def zero_TokenInfo_def)
  moreover have "quiet_packet {7} (getServerID zero_Packet) 7 sample_user sample_disconnect"
    by (simp add: quiet_packet_def sample_disconnect_def sample_file_packet_def zero_Packet_def)
  ultimately show ?thesis using assms sample_other_apart by (auto simp: apart_def)
qed

lemma sample_before_open: "c_stateMap (corr_run (\<lambda>_. None) [(6, Received sample_second_packet), (8, Received sample_other_packet)]
    (fst (ProcessPacket 5 sample_user_packet sample_corr))) = NewStateMap 1000 10"
  by (simp add: corr_run_def user_packet_stateMap [OF sample_user_packets(1)] user_packet_stateMap [OF sample_user_packets(2)]
      user_packet_stateMap [OF sample_user_packets(3)])

lemma login_open_close_attributed_witness:
  "\<exists>out. fst (snd (ProcessPacket 900 (sample_file_packet [CloseRec sample_close_rec])
      (corr_run (\<lambda>_. None) [(20, Janitor UserM), (30, Received sample_disconnect)]
        (fst (ProcessPacket 10 (sample_file_packet [OpenRec sample_user_open])
          (corr_run (\<lambda>_. None) [(6, Received sample_second_packet), (8, Received sample_other_packet)]
            (fst (ProcessPacket 5 sample_user_packet sample_corr)))))))) = [out] \<and>
    cr_Filename out = for_Lfn sample_user_open \<and> names_user sample_user_rec out"
proof (rule login_open_close_attributed [where ?t1.0 = 5 and pu = sample_user_packet and ids = "{7}",
      OF sample_corr_reach _ _ refl _ _ _ _ _ _ _ _ _ refl])
  have rec: "ur_DictId sample_user_rec = 7" "ur_UserInfo sample_user_rec = sample_user"
    by (simp_all add: sample_user_rec_def)
  show "\<forall>(t, ev) \<in> set [(6::int, Received sample_second_packet), (8, Received sample_other_packet)]. t \<le> 900 \<and>
      leaves_login {7} (getServerID sample_user_packet) (ur_DictId sample_user_rec) (ur_UserInfo sample_user_rec) ev"
    using sample_quiet by (simp add: rec del: leaves_login.simps)
  show "\<forall>(t, ev) \<in> set [(20::int, Janitor UserM), (30, Received sample_disconnect)]. t \<le> 900 \<and>
      leaves_login {7} (getServerID sample_user_packet) (ur_DictId sample_user_rec) (ur_UserInfo sample_user_rec) ev \<and>
      \<not> touches (getServerID sample_user_packet) (fh_FileId (for_Header sample_user_open)) ev"
    using sample_quiet by (simp add: rec sample_disconnect_def del: leaves_login.simps)
  show "stores_user sample_user_rec (getServerID sample_user_packet) sample_corr"
    by (simp add: stores_user_def sample_user_rec_def zero_TokenInfo_def sm_room_New)
  show "user_packet sample_user_rec sample_user_packet" by (rule sample_user_packets)
  show "ids_hold_others {7} (getServerID sample_user_packet) (ur_UserInfo sample_user_rec) sample_corr"
    by (simp add: ids_hold_others_def state_map.holds_def)
qed (simp_all add: sample_before_open sm_room_New, simp_all add: sample_user_open_def sample_open_rec_def
    sample_close_rec_def sample_user_rec_def getServerID_def sample_user_packet_def sample_file_packet_def zero_Packet_def file_packet_def)

end
