(* ===== verification/State_History.thy ===== *)
theory State_History
  imports State_Map
begin

section \<open>The expiring map and its history\<close>

text \<open>
  What the expiring map promises, stated over the operations that were performed rather than over
  its entries: a lookup returns the value of the last \<open>Set\<close> of the key that the map accepted, when
  no \<open>Delete\<close> of the key followed and its \<open>ttl\<close> has not passed. Sweeps, the bound and the order of
  the entries do not show, except through which sets are accepted.
\<close>

subsection \<open>The specification\<close>

text \<open>The last operation on a key, and what it leaves to be found at the time \<open>t\<close>.\<close>

definition last_on :: "string \<Rightarrow> 'v store_op list \<Rightarrow> 'v store_op option" where
  "last_on k xs = List.find (\<lambda>x. op_key x = Some k) (rev xs)"

definition history_Get :: "int \<Rightarrow> int \<Rightarrow> string \<Rightarrow> 'v store_op list \<Rightarrow> 'v option" where
  "history_Get ttl t k xs =
     (case last_on k xs of
        Some (Put now k' v) \<Rightarrow> if t \<le> now + ttl then Some v else None
      | _ \<Rightarrow> None)"

lemma last_on_Nil [simp]: "last_on k [] = None"
  by (simp add: last_on_def)

lemma last_on_snoc [simp]: "last_on k (xs @ [x]) = (if op_key x = Some k then Some x else last_on k xs)"
  by (simp add: last_on_def)

lemma history_Get_Nil [simp]: "history_Get ttl t k [] = None"
  by (simp add: history_Get_def)

lemma history_Get_other: "op_key x \<noteq> Some k \<Longrightarrow> history_Get ttl t k (xs @ [x]) = history_Get ttl t k xs"
  by (simp add: history_Get_def)

subsection \<open>The operations the map accepts\<close>

text \<open>A \<open>Set\<close> is refused when the map is at its bound and does not hold the key.\<close>

fun refused :: "'v StateMap \<Rightarrow> 'v store_op \<Rightarrow> bool" where
  "refused sm (Put now k v) \<longleftrightarrow> \<not> snd (sm_Set now k v sm)"
| "refused sm (Remove k) \<longleftrightarrow> False"
| "refused sm (Sweep now) \<longleftrightarrow> False"

fun accepted :: "'v StateMap \<Rightarrow> 'v store_op list \<Rightarrow> 'v store_op list" where
  "accepted sm [] = []"
| "accepted sm (x # xs) = (if refused sm x then [] else [x]) @ accepted (sm_apply x sm) xs"

lemma sm_Set_accepts: "snd (sm_Set now k v sm) \<longleftrightarrow> sm_room k sm"
  by (auto simp: sm_Set_def sm_room_def)

lemma refused_same: "refused sm x \<Longrightarrow> sm_apply x sm = sm"
  by (cases x) (auto simp: sm_Set_accepts intro: state_map.store_full)

lemma sm_run_snoc: "sm_run (xs @ [x]) sm = sm_apply x (sm_run xs sm)"
  by (simp add: sm_run_def)

lemma accepted_snoc:
  "accepted sm (xs @ [x]) = accepted sm xs @ (if refused (sm_run xs sm) x then [] else [x])"
  by (induction xs arbitrary: sm) (simp_all add: sm_run_def)

lemma accepted_unbounded: "sm_maxEntries sm \<le> 0 \<Longrightarrow> accepted sm xs = xs"
proof (induction xs arbitrary: sm)
  case (Cons x xs)
  then have "\<not> refused sm x" by (cases x) (simp_all add: sm_Set_accepts sm_room_def)
  with Cons show ?case by (simp add: sm_apply_bounds)
qed simp

subsection \<open>One step\<close>

lemma sm_Get_put_exact:
  "sm_room k sm \<Longrightarrow> sm_Get t k (sm_put now k v sm) = (if t \<le> now + sm_ttl sm then Some v else None)"
  by (auto simp: sm_room_def sm_Get_def sm_Set_def map_of_update sm_expired_def)

lemma sm_Get_step:
  assumes "sm_ok sm" and "\<not> refused sm x" and "\<And>w. x = Sweep w \<Longrightarrow> w \<le> t"
    and "sm_Get t k sm = history_Get (sm_ttl sm) t k xs"
  shows "sm_Get t k (sm_apply x sm) = history_Get (sm_ttl sm) t k (xs @ [x])"
proof (cases "op_key x = Some k")
  case True
  then show ?thesis
    using assms(2) by (cases x) (simp_all add: sm_Set_accepts sm_Get_put_exact history_Get_def state_map.lookup_remove)
next
  case False
  then have "sm_Get t k (sm_apply x sm) = sm_Get t k sm"
    using assms(1,3)
    by (cases x) (simp_all add: state_map.lookup_store_other state_map.lookup_remove state_map.lookup_sweep)
  with False assms(4) show ?thesis by (simp add: history_Get_other)
qed

subsection \<open>The map implements its history\<close>

text \<open>C34: The expiring map refines its history. After any run of sets, deletes and janitor sweeps on
  a new map, none of the sweeps later than the lookup, \<open>Get\<close> returns exactly what the last accepted
  operation on the key leaves: the value it set, until \<open>ttl\<close> later. \<open>GetAll\<close> lists the same, and
  without a bound every operation is accepted.\<close>

theorem state_map_refines_history:
  fixes ttl m :: int and xs :: "'v store_op list"
  assumes "\<forall>w. Sweep w \<in> set xs \<longrightarrow> w \<le> t"
  defines "sm \<equiv> sm_run xs (NewStateMap ttl m)"
  shows "sm_Get t k sm = history_Get ttl t k (accepted (NewStateMap ttl m) xs) \<and>
    map_of (sm_GetAll t sm) k = sm_Get t k sm \<and>
    (m \<le> 0 \<longrightarrow> accepted (NewStateMap ttl m :: 'v StateMap) xs = xs)"
proof -
  have "sm_Get t k (sm_run xs (NewStateMap ttl m)) = history_Get ttl t k (accepted (NewStateMap ttl m) xs)"
    using assms(1)
  proof (induction xs rule: rev_induct)
    case (snoc x xs)
    let ?sm = "sm_run xs (NewStateMap ttl m)"
    have ttl: "sm_ttl ?sm = ttl" using sm_run_bounds [of xs] by (simp add: NewStateMap_def)
    have IH: "sm_Get t k ?sm = history_Get ttl t k (accepted (NewStateMap ttl m) xs)"
      using snoc by auto
    show ?case
    proof (cases "refused ?sm x")
      case True
      with IH show ?thesis by (simp add: sm_run_snoc accepted_snoc refused_same)
    next
      case False
      with sm_Get_step [OF sm_ok_run [OF sm_ok_New] False] IH ttl snoc.prems show ?thesis
        by (simp add: sm_run_snoc accepted_snoc)
    qed
  qed (simp add: sm_run_def)
  then show ?thesis
    unfolding sm_def by (simp add: map_of_GetAll sm_ok_run accepted_unbounded) (simp add: NewStateMap_def accepted_unbounded)
qed

lemma state_map_refines_history_witness:
  "let xs = [Put 1 ''a'' True, Put 2 ''b'' False, Put 3 ''c'' True, Sweep 8, Put 9 ''b'' True, Remove ''a''];
       sm = sm_run xs (NewStateMap 10 2)
   in sm_Get 12 ''b'' sm = history_Get 10 12 ''b'' (accepted (NewStateMap 10 2) xs) \<and>
      map_of (sm_GetAll 12 sm) ''b'' = sm_Get 12 ''b'' sm \<and>
      ((2::int) \<le> 0 \<longrightarrow> accepted (NewStateMap 10 2) xs = xs)"
  unfolding Let_def by (rule state_map_refines_history) simp

end
