(* ===== verification/Key_Pool.thy ===== *)
theory Key_Pool
  imports Keys
begin

section \<open>The pool of key builders (collector/key_builder.go)\<close>

text \<open>
  Keys are written into buffers that calls share through a \<open>sync.Pool\<close>, which hands out any of its
  builders or makes a new one, and may forget some. Here the builders are cells of a store and the
  calls of all goroutines take their steps in any order. The theorem: every key that is built is
  the text its own writes give, so the functions of \<open>Keys\<close> describe the pooled code.
\<close>

subsection \<open>Builders\<close>

datatype key_write = WriteString string | WriteByte char | WriteDec uint32 | WriteDec64 int64 | WriteHex int32

fun write_key :: "key_write \<Rightarrow> string \<Rightarrow> string" where
  "write_key (WriteString s) buf = buf @ s"
| "write_key (WriteByte b) buf = buf @ [b]"
| "write_key (WriteDec n) buf = WriteUint32 buf n"
| "write_key (WriteDec64 n) buf = WriteInt64 buf n"
| "write_key (WriteHex n) buf = WriteInt32Hex buf n"

text \<open>What a sequence of writes to an empty buffer gives.\<close>

definition text_of :: "key_write list \<Rightarrow> string" where
  "text_of ws = fold write_key ws []"

text \<open>The functions that build a key, with the writes each makes and the key it is to give.\<close>

datatype key_request =
    DictKey string uint32 | DictIDKey string uint32 | FileKey string uint32 | TimeKey string uint32 int64
  | UserInfoKey string UserInfo | ServerID int32 string | UserHex uint32

fun key_writes :: "key_request \<Rightarrow> key_write list" where
  "key_writes (DictKey serverID dictID) = [WriteString serverID, WriteString ''-dict-'', WriteDec dictID]"
| "key_writes (DictIDKey serverID dictID) = [WriteString serverID, WriteString ''-dictid-'', WriteDec dictID]"
| "key_writes (FileKey serverID fileID) = [WriteString serverID, WriteString ''-file-'', WriteDec fileID]"
| "key_writes (TimeKey serverID fileID sid) =
     [WriteString serverID, WriteString ''-time-'', WriteDec fileID, WriteByte (CHR ''-''), WriteDec64 sid]"
| "key_writes (UserInfoKey serverID info) =
     [WriteString serverID, WriteString ''-userinfo-'', WriteString (ui_Protocol info), WriteByte (CHR ''/''),
      WriteString (ui_Username info), WriteByte (CHR ''.''), WriteDec (word_of_int (ui_Pid info)),
      WriteByte (CHR '':''), WriteDec (word_of_int (ui_Sid info)), WriteByte (CHR ''@''), WriteString (ui_Host info)]"
| "key_writes (ServerID serverStart remoteAddr) =
     [WriteDec64 (scast serverStart), WriteByte (CHR ''#''), WriteString remoteAddr]"
| "key_writes (UserHex userID) = [WriteHex userID]"

fun plain_key :: "key_request \<Rightarrow> string" where
  "plain_key (DictKey serverID dictID) = BuildDictKey serverID dictID"
| "plain_key (DictIDKey serverID dictID) = BuildDictIDKey serverID dictID"
| "plain_key (FileKey serverID fileID) = BuildFileKey serverID fileID"
| "plain_key (TimeKey serverID fileID sid) = BuildTimeKey serverID fileID sid"
| "plain_key (UserInfoKey serverID info) = BuildUserInfoKey serverID info"
| "plain_key (ServerID serverStart remoteAddr) = BuildServerID serverStart remoteAddr"
| "plain_key (UserHex userID) = BuildUserHex userID"

text \<open>A running call: its builder, the writes it has made and those it has yet to make.\<close>

record key_call =
  kc_builder :: nat
  kc_request :: key_request
  kc_written :: "key_write list"
  kc_todo :: "key_write list"

record key_pool =
  kp_buf :: "nat \<Rightarrow> string"
  kp_free :: "nat list"
  kp_next :: nat
  kp_calls :: "key_call list"
  kp_built :: "(key_request \<times> string) list"

definition new_pool :: key_pool where
  "new_pool = \<lparr>kp_buf = (\<lambda>_. []), kp_free = [], kp_next = 0, kp_calls = [], kp_built = []\<rparr>"

text \<open>\<open>choice\<close> is the builder the pool hands out, if it hands out one it has.\<close>

definition GetKeyBuilder :: "nat option \<Rightarrow> key_pool \<Rightarrow> nat \<times> key_pool" where
  "GetKeyBuilder choice p =
     (case choice of
        Some i \<Rightarrow>
          if i < length (kp_free p)
          then (kp_free p ! i, p\<lparr>kp_free := take i (kp_free p) @ drop (Suc i) (kp_free p)\<rparr>)
          else (kp_next p, p\<lparr>kp_buf := (kp_buf p)(kp_next p := []), kp_next := Suc (kp_next p)\<rparr>)
      | None \<Rightarrow> (kp_next p, p\<lparr>kp_buf := (kp_buf p)(kp_next p := []), kp_next := Suc (kp_next p)\<rparr>))"

definition Release :: "nat \<Rightarrow> key_pool \<Rightarrow> key_pool" where
  "Release a p = p\<lparr>kp_buf := (kp_buf p)(a := []), kp_free := a # kp_free p\<rparr>"

definition kb_write :: "nat \<Rightarrow> key_write \<Rightarrow> key_pool \<Rightarrow> key_pool" where
  "kb_write a w p = p\<lparr>kp_buf := (kp_buf p)(a := write_key w (kp_buf p a))\<rparr>"

definition kb_String :: "nat \<Rightarrow> key_pool \<Rightarrow> string" where
  "kb_String a p = kp_buf p a"

subsection \<open>All goroutines\<close>

text \<open>A call takes a builder, makes its writes one by one, reads the text and releases the builder.\<close>

inductive key_runs :: "key_pool \<Rightarrow> bool" where
  start: "key_runs new_pool"
| get: "key_runs p \<Longrightarrow> GetKeyBuilder choice p = (a, p') \<Longrightarrow>
    key_runs (p'\<lparr>kp_calls := \<lparr>kc_builder = a, kc_request = r, kc_written = [], kc_todo = key_writes r\<rparr> # kp_calls p'\<rparr>)"
| append: "key_runs p \<Longrightarrow> kp_calls p = cs @ c # ds \<Longrightarrow> kc_todo c = w # ws \<Longrightarrow>
    key_runs ((kb_write (kc_builder c) w p)
      \<lparr>kp_calls := cs @ c\<lparr>kc_written := kc_written c @ [w], kc_todo := ws\<rparr> # ds\<rparr>)"
| finish: "key_runs p \<Longrightarrow> kp_calls p = cs @ c # ds \<Longrightarrow> kc_todo c = [] \<Longrightarrow>
    key_runs ((Release (kc_builder c) p)
      \<lparr>kp_calls := cs @ ds, kp_built := (kc_request c, kb_String (kc_builder c) p) # kp_built p\<rparr>)"
| forget: "key_runs p \<Longrightarrow> kp_free p = fs @ a # gs \<Longrightarrow> key_runs (p\<lparr>kp_free := fs @ gs\<rparr>)"

text \<open>No builder is in two hands, the free ones are empty, and a builder in use holds what its call
  has written.\<close>

definition pool_ok :: "key_pool \<Rightarrow> bool" where
  "pool_ok p \<longleftrightarrow> distinct (kp_free p @ List.map kc_builder (kp_calls p)) \<and>
     (\<forall>a \<in> set (kp_free p) \<union> kc_builder ` set (kp_calls p). a < kp_next p) \<and>
     (\<forall>a \<in> set (kp_free p). kp_buf p a = []) \<and>
     (\<forall>c \<in> set (kp_calls p). kp_buf p (kc_builder c) = text_of (kc_written c) \<and>
        kc_written c @ kc_todo c = key_writes (kc_request c)) \<and>
     (\<forall>(r, key) \<in> set (kp_built p). key = text_of (key_writes r))"

lemma text_of_Nil [simp]: "text_of [] = []"
  by (simp add: text_of_def)

lemma text_of_snoc: "text_of (ws @ [w]) = write_key w (text_of ws)"
  by (simp add: text_of_def)

lemma GetKeyBuilder_ok:
  assumes "pool_ok p" and "GetKeyBuilder choice p = (a, p')"
  shows "pool_ok (p'\<lparr>kp_calls := \<lparr>kc_builder = a, kc_request = r, kc_written = [], kc_todo = key_writes r\<rparr> # kp_calls p'\<rparr>)"
proof (cases "\<exists>i. choice = Some i \<and> i < length (kp_free p)")
  case True
  then obtain i where i: "choice = Some i" "i < length (kp_free p)" by blast
  then have split: "kp_free p = take i (kp_free p) @ a # drop (Suc i) (kp_free p)"
    using assms(2) id_take_nth_drop by (fastforce simp: GetKeyBuilder_def)
  have p': "p' = p\<lparr>kp_free := take i (kp_free p) @ drop (Suc i) (kp_free p)\<rparr>"
    using assms(2) i by (simp add: GetKeyBuilder_def)
  obtain xs ys where f: "kp_free p = xs @ a # ys" "p' = p\<lparr>kp_free := xs @ ys\<rparr>" using split p' by blast
  then show ?thesis using assms(1) by (auto simp: pool_ok_def)
next
  case False
  then have "a = kp_next p" "p' = p\<lparr>kp_buf := (kp_buf p)(kp_next p := []), kp_next := Suc (kp_next p)\<rparr>"
    using assms(2) by (auto simp: GetKeyBuilder_def split: option.splits if_splits)
  then show ?thesis using assms(1)
    by (auto simp: pool_ok_def less_Suc_eq) (metis UnI2 image_eqI less_irrefl)
qed

lemma key_runs_ok: "key_runs p \<Longrightarrow> pool_ok p"
proof (induction rule: key_runs.induct)
  case start
  then show ?case by (simp add: new_pool_def pool_ok_def)
next
  case (get p choice a p' r)
  then show ?case by (intro GetKeyBuilder_ok)
next
  case (append p cs c ds w ws)
  then show ?case by (auto simp: pool_ok_def kb_write_def text_of_snoc) (metis image_eqI)+
next
  case (finish p cs c ds)
  then show ?case by (auto simp: pool_ok_def Release_def kb_String_def) (metis image_eqI)+
next
  case (forget p fs a gs)
  then show ?case by (auto simp: pool_ok_def)
qed

subsection \<open>The keys\<close>

lemma text_of_key_writes: "text_of (key_writes r) = plain_key r"
  by (cases r) (simp_all add: text_of_def BuildDictKey_def BuildDictIDKey_def BuildFileKey_def BuildTimeKey_def
      BuildUserInfoKey_def BuildServerID_def BuildUserHex_def WriteUint32_def WriteInt64_def sint_up_scast is_up)

text \<open>C35: Pooling the buffers does not show. However the calls of all goroutines interleave, whichever
  builders the pool hands out again and whichever it forgets, a key that has been built is the
  concatenation of the pieces of its own request, as the functions of \<open>Keys\<close> give it; and every
  builder waiting in the pool is empty and in nobody's use.\<close>

theorem pooled_keys_plain:
  assumes "key_runs p"
  shows "(\<forall>(r, key) \<in> set (kp_built p). key = plain_key r) \<and>
    (\<forall>a \<in> set (kp_free p). kp_buf p a = [] \<and> (\<forall>c \<in> set (kp_calls p). kc_builder c \<noteq> a))"
  using key_runs_ok [OF assms] by (auto simp: pool_ok_def text_of_key_writes)

text \<open>A pool with one empty builder, and nothing running.\<close>

definition idle_pool :: "(key_request \<times> string) list \<Rightarrow> key_pool" where
  "idle_pool b = \<lparr>kp_buf = (\<lambda>_. []), kp_free = [0], kp_next = 1, kp_calls = [], kp_built = b\<rparr>"

lemma idle_pool_builds:
  assumes "key_runs p" and "p = new_pool \<and> b = [] \<or> p = idle_pool b"
  shows "key_runs (idle_pool ((UserHex n, plain_key (UserHex n)) # b))"
proof -
  have upd: "(\<lambda>_. [])(0 := []) = (\<lambda>_ :: nat. [] :: string)" by auto
  let ?c = "\<lparr>kc_builder = 0, kc_request = UserHex n, kc_written = [], kc_todo = [WriteHex n]\<rparr>"
  let ?p1 = "\<lparr>kp_buf = (\<lambda>_. []), kp_free = [], kp_next = 1, kp_calls = [?c], kp_built = b\<rparr>"
  let ?p2 = "\<lparr>kp_buf = (\<lambda>_. [])(0 := WriteInt32Hex [] n), kp_free = [], kp_next = 1,
      kp_calls = [?c\<lparr>kc_written := [WriteHex n], kc_todo := []\<rparr>], kp_built = b\<rparr>"
  have "key_runs ?p1"
    using assms(2) key_runs.get [OF assms(1), of "Some 0" 0 _ "UserHex n"]
    by (auto simp: GetKeyBuilder_def new_pool_def idle_pool_def upd)
  then have "key_runs ?p2"
    using key_runs.append [of ?p1 "[]" ?c "[]"] by (simp add: kb_write_def)
  then show ?thesis
    using key_runs.finish [of ?p2 "[]" "?c\<lparr>kc_written := [WriteHex n], kc_todo := []\<rparr>" "[]"]
    by (simp add: Release_def kb_String_def idle_pool_def upd BuildUserHex_def)
qed

text \<open>Two keys, the second written into the builder of the first.\<close>

lemma pooled_keys_plain_witness:
  "let p = idle_pool [(UserHex 255, ''ff''), (UserHex 7, ''7'')]
   in (\<forall>(r, key) \<in> set (kp_built p). key = plain_key r) \<and>
      (\<forall>a \<in> set (kp_free p). kp_buf p a = [] \<and> (\<forall>c \<in> set (kp_calls p). kc_builder c \<noteq> a))"
proof -
  have hex: "plain_key (UserHex 7) = ''7''" "plain_key (UserHex 255) = ''ff''"
    by code_simp+
  have "key_runs (idle_pool [(UserHex 7, ''7'')])"
    using idle_pool_builds [OF key_runs.start, of "[]" 7] by (simp only: hex) simp
  then have "key_runs (idle_pool [(UserHex 255, ''ff''), (UserHex 7, ''7'')])"
    using idle_pool_builds [of "idle_pool [(UserHex 7, ''7'')]" "[(UserHex 7, ''7'')]" 255] by (simp only: hex) simp
  from pooled_keys_plain [OF this] show ?thesis unfolding Let_def .
qed

end
