(* ===== verification/Go_BigFloat.thy ===== *)
theory Go_BigFloat
  imports Go_Numbers Go_Floats
begin

section \<open>Reading a number with math/big\<close>

text \<open>
  \<open>big.ParseFloat(s, 10, 0, ToNearestEven)\<close> and \<open>Float.Int64\<close> of the standard library, as the
  status command uses them on the text format of the metrics page. A finite number is a mantissa
  and a binary exponent, rounded to 64 bits; a power of five beyond \<open>5 ^ 27\<close> is itself rounded, as
  the library does. \<open>format_g\<close> is \<open>strconv.FormatFloat(f, 'g', -1, 64)\<close> of a count, and the last
  lemma says that the count is read back.
\<close>

subsection \<open>Rounded arithmetic\<close>

type_synonym big = "nat \<times> int"

definition big_round :: "nat \<Rightarrow> big \<Rightarrow> big" where
  "big_round prec x =
     (let drop = bit_length (fst x) - prec
      in (round_half_even (fst x) (2 ^ drop), snd x + int drop))"

definition big_mul :: "nat \<Rightarrow> big \<Rightarrow> big \<Rightarrow> big" where
  "big_mul prec x y = big_round prec (fst x * fst y, snd x + snd y)"

text \<open>A quotient with a sticky bit: at least two bits more than the rounding needs.\<close>

definition big_quo :: "nat \<Rightarrow> big \<Rightarrow> big \<Rightarrow> big" where
  "big_quo prec x y =
     (let k = prec + 2 + bit_length (fst y); n = fst x * 2 ^ k
      in big_round prec (2 * (n div fst y) + (if n mod fst y = 0 then 0 else 1), snd x - snd y - int k - 1))"

fun pow5_loop :: "big \<Rightarrow> big \<Rightarrow> nat \<Rightarrow> big" where
  "pow5_loop z f n =
     (if n = 0 then z
      else pow5_loop (if odd n then big_mul 128 z f else z) (big_mul 192 f f) (n div 2))"

declare pow5_loop.simps [simp del]

definition pow5 :: "nat \<Rightarrow> big" where
  "pow5 n = (if n \<le> 27 then (5 ^ n, 0) else pow5_loop (5 ^ 27, 0) (5, 0) (n - 27))"

subsection \<open>The scanner\<close>

datatype big_float = Finite bool nat int | Inf bool

definition unsign :: "string \<Rightarrow> bool \<times> string" where
  "unsign s =
     (case s of
        [] \<Rightarrow> (False, [])
      | c # t \<Rightarrow> if c = CHR ''-'' then (True, t) else if c = CHR ''+'' then (False, t) else (False, s))"

text \<open>Digits with at most one point: all the digits, how many follow the point, and the rest.\<close>

definition scan_mantissa :: "string \<Rightarrow> (string \<times> nat \<times> string) option" where
  "scan_mantissa s =
     (let ip = takeWhile is_digit s; rest = dropWhile is_digit s;
          (fp, rest') = (case rest of
             c # t \<Rightarrow> if c = CHR ''.'' then (takeWhile is_digit t, dropWhile is_digit t) else ([], rest)
           | [] \<Rightarrow> ([], rest))
      in if ip @ fp = [] then None else Some (ip @ fp, length fp, rest'))"

text \<open>The exponent, whether it is a decimal one, and the rest.\<close>

definition scan_exponent :: "string \<Rightarrow> (int \<times> bool \<times> string) option" where
  "scan_exponent s =
     (case s of
        [] \<Rightarrow> Some (0, True, [])
      | c # t \<Rightarrow>
          if c \<in> {CHR ''e'', CHR ''E'', CHR ''p'', CHR ''P''} then
            let (neg, u) = unsign t; ds = takeWhile is_digit u;
                v = (if neg then - int (dec_val ds) else int (dec_val ds))
            in if ds = [] \<or> v < - (2 ^ 63) \<or> 2 ^ 63 \<le> v then None
               else Some (v, c \<in> {CHR ''e'', CHR ''E''}, dropWhile is_digit u)
          else Some (0, True, s))"

definition scale :: "bool \<Rightarrow> nat \<Rightarrow> int \<Rightarrow> int \<Rightarrow> big_float" where
  "scale neg mant e2 e5 =
     (let z = (mant, e2);
          y = (if e5 = 0 then big_round 64 z
               else if e5 < 0 then big_quo 64 z (pow5 (nat (- e5)))
               else big_mul 64 z (pow5 (nat e5)))
      in Finite neg (fst y) (snd y))"

definition parse_big :: "string \<Rightarrow> big_float option" where
  "parse_big s =
     (if s = ''Inf'' \<or> s = ''inf'' \<or> s = ''+Inf'' \<or> s = ''+inf'' then Some (Inf False)
      else if s = ''-Inf'' \<or> s = ''-inf'' then Some (Inf True)
      else
        let (neg, t) = unsign s
        in (case scan_mantissa t of
              None \<Rightarrow> None
            | Some (ds, frac, t') \<Rightarrow>
                (case scan_exponent t' of
                   None \<Rightarrow> None
                 | Some (e, decimal, rest) \<Rightarrow>
                     let mant = dec_val ds; e2 = e - int frac; e5 = (if decimal then e else 0) - int frac
                     in if rest \<noteq> [] then None
                        else if mant = 0 then Some (Finite neg 0 0)
                        else if int (bit_length mant) + e2 < - (2 ^ 31) \<or> 2 ^ 31 \<le> int (bit_length mant) + e2 then None
                        else Some (scale neg mant e2 e5))))"

text \<open>\<open>Float.Int64\<close>: truncated, and saturated outside the range.\<close>

fun big_Int64 :: "big_float \<Rightarrow> int" where
  "big_Int64 (Inf neg) = (if neg then - (2 ^ 63) else 2 ^ 63 - 1)"
| "big_Int64 (Finite neg m e) =
     (if m = 0 \<or> int (bit_length m) + e \<le> 0 then 0
      else if int (bit_length m) + e \<le> 63
           then let i = int (if 0 \<le> e then m * 2 ^ nat e else m div 2 ^ nat (- e)) in if neg then - i else i
           else if neg then - (2 ^ 63) else 2 ^ 63 - 1)"

lemmas big_float_defs = parse_big_def unsign_def scan_mantissa_def scan_exponent_def Let_def

subsection \<open>Counts as the metrics page prints them\<close>

text \<open>
  \<open>strconv.FormatFloat(f, 'g', -1, 64)\<close> of a natural number below 2^53, whose shortest digits are its
  own without the trailing zeros: six digits or fewer plainly, more with an exponent of at least two
  digits.
\<close>

definition format_g :: "nat \<Rightarrow> string" where
  "format_g n =
     (let ds = dec_nat n; x = length ds - 1; short = trim_right_char (CHR ''0'') ds
      in if x < 6 then ds
         else take 1 short @ (if length short = 1 then [] else CHR ''.'' # drop 1 short) @
              ''e+'' @ (if x < 10 then ''0'' else []) @ dec_nat x)"

subsection \<open>Exact results\<close>

lemma bit_length_mult_pow: "0 < m \<Longrightarrow> bit_length (m * 2 ^ k) = bit_length m + k"
proof -
  assume "0 < m"
  then obtain j where j: "bit_length m = Suc j" "2 ^ j \<le> m" "m < 2 ^ Suc j"
    using bit_length_bounds [of m] by (cases "bit_length m") auto
  then have "2 ^ (j + k) \<le> m * 2 ^ k" "m * 2 ^ k < 2 ^ Suc (j + k)"
    by (simp_all add: power_add)
  then show ?thesis using bit_length_unique j(1) by simp
qed

lemma round_half_even_one: "round_half_even m (Suc 0) = m"
  using round_half_even_exact [of 1 m] by simp

lemma big_round_small: "m < 2 ^ 64 \<Longrightarrow> big_round 64 (m, e) = (m, e)"
  using bit_length_small [of m 64] by (simp add: big_round_def Let_def round_half_even_one)

text \<open>A mantissa and a power of ten that give a 63-bit number are read exactly.\<close>

lemma scale_exact:
  assumes "0 < mant" and n: "mant * 10 ^ k < 2 ^ 63" and "k \<le> 27"
  shows "big_Int64 (scale False mant (int k) (int k)) = int (mant * 10 ^ k)"
proof -
  have ten: "mant * 10 ^ k = mant * 5 ^ k * 2 ^ k" by (simp flip: power_mult_distrib)
  have "mant * 5 ^ k \<le> mant * 10 ^ k" by (simp add: power_mono)
  then have small: "mant * 5 ^ k < 2 ^ 64" using n by (rule le_less_trans [THEN less_trans]) simp
  have "scale False mant (int k) (int k) = Finite False (mant * 5 ^ k) (int k)"
  proof (cases "k = 0")
    case True
    with small show ?thesis by (simp add: scale_def big_round_small)
  next
    case False
    with small assms(3) show ?thesis
      by (simp add: scale_def Let_def pow5_def big_mul_def big_round_small)
  qed
  moreover have "bit_length (mant * 5 ^ k) + k = bit_length (mant * 10 ^ k)"
    using assms(1) unfolding ten by (simp add: bit_length_mult_pow)
  moreover have "bit_length (mant * 10 ^ k) \<le> 63" by (rule bit_length_small [OF n])
  moreover have "0 < bit_length (mant * 10 ^ k)" using bit_length_bounds [of "mant * 10 ^ k"] assms(1) by simp
  ultimately show ?thesis using assms(1) ten by (simp add: Let_def)
qed

definition all_digits :: "string \<Rightarrow> bool" where
  "all_digits s \<longleftrightarrow> (\<forall>c \<in> set s. is_digit c)"

lemma all_digits_dec_nat [simp]: "all_digits (dec_nat n)"
  by (simp add: all_digits_def dec_nat_digits)

lemma digits_span:
  assumes "all_digits ds" and "rest = [] \<or> \<not> is_digit (hd rest)"
  shows "takeWhile is_digit (ds @ rest) = ds \<and> dropWhile is_digit (ds @ rest) = rest"
  using assms by (cases rest) (auto simp: all_digits_def takeWhile_append dropWhile_append takeWhile_eq_all_conv)

lemma scan_mantissa_digits:
  assumes "all_digits ip" "all_digits fp" "ip \<noteq> []" "rest = [] \<or> \<not> is_digit (hd rest) \<and> hd rest \<noteq> CHR ''.''"
  shows "scan_mantissa (ip @ (if fp = [] then [] else CHR ''.'' # fp) @ rest) = Some (ip @ fp, length fp, rest)"
proof -
  let ?tail = "(if fp = [] then [] else CHR ''.'' # fp) @ rest"
  have dot: "\<not> is_digit (CHR ''.'')" by (simp add: is_digit_def)
  then have tail: "?tail = [] \<or> \<not> is_digit (hd ?tail)" using assms(4) by auto
  have stop: "rest = [] \<or> \<not> is_digit (hd rest)" using assms(4) by auto
  have fp: "takeWhile is_digit fp = fp \<and> dropWhile is_digit fp = []"
    using digits_span [OF assms(2), of "[]"] by simp
  show ?thesis
    using digits_span [OF assms(1) tail] digits_span [OF assms(2) stop] fp assms(3,4)
    by (cases rest)
      (auto simp: scan_mantissa_def simp del: takeWhile_eq_all_conv dropWhile_eq_Nil_conv split: list.splits)
qed

lemma scan_exponent_plus:
  "ds \<noteq> [] \<Longrightarrow> all_digits ds \<Longrightarrow> dec_val ds < 2 ^ 63 \<Longrightarrow> scan_exponent (''e+'' @ ds) = Some (int (dec_val ds), True, [])"
  using digits_span [of ds "[]"]
  by (simp add: scan_exponent_def unsign_def Let_def del: takeWhile_eq_all_conv dropWhile_eq_Nil_conv)

lemma dec_val_append_zeros: "dec_val (s @ replicate j (CHR ''0'')) = dec_val s * 10 ^ j"
  by (induction j) (simp_all add: dec_val_snoc digit_val_def flip: replicate_append_same append_assoc)

lemma dec_val_leading_zero: "dec_val (CHR ''0'' # s) = dec_val s"
  by (simp add: dec_val_def digit_val_def)

lemma trim_right_char_split: "\<exists>j. s = trim_right_char c s @ replicate j c"
proof -
  have "\<forall>x \<in> set (takeWhile (\<lambda>x. x = c) (rev s)). x = c" by (auto dest: set_takeWhileD)
  then have "takeWhile (\<lambda>x. x = c) (rev s) = replicate (length (takeWhile (\<lambda>x. x = c) (rev s))) c"
    by (simp add: replicate_length_same)
  then have "rev s = replicate (length (takeWhile (\<lambda>x. x = c) (rev s))) c @ dropWhile (\<lambda>x. x = c) (rev s)"
    by (metis takeWhile_dropWhile_id)
  then show ?thesis unfolding trim_right_char_def by (metis rev_append rev_replicate rev_rev_ident)
qed

lemma unsign_digit: "is_digit c \<Longrightarrow> unsign (c # s) = (False, c # s)"
  by (auto simp: unsign_def dest: digit_not_special)

lemma parse_big_digit:
  assumes "is_digit c"
  shows "parse_big (c # s) =
    (case scan_mantissa (c # s) of
       None \<Rightarrow> None
     | Some (ds, frac, t') \<Rightarrow>
         (case scan_exponent t' of
            None \<Rightarrow> None
          | Some (e, decimal, rest) \<Rightarrow>
              let mant = dec_val ds; e2 = e - int frac; e5 = (if decimal then e else 0) - int frac
              in if rest \<noteq> [] then None
                 else if mant = 0 then Some (Finite False 0 0)
                 else if int (bit_length mant) + e2 < - (2 ^ 31) \<or> 2 ^ 31 \<le> int (bit_length mant) + e2 then None
                 else Some (scale False mant e2 e5)))"
proof -
  have "c \<noteq> CHR ''I''" "c \<noteq> CHR ''i''" using assms by (auto simp: is_digit_def)
  then show ?thesis
    using digit_not_special [OF assms] by (simp add: parse_big_def unsign_digit [OF assms])
qed

lemma read_scientific:
  assumes "all_digits ip" "all_digits fp" "ip \<noteq> []" "ex \<noteq> []" "all_digits ex"
    and "dec_val ex = length fp + k" "k \<le> 27" "dec_val ex < 2 ^ 63"
    and "0 < dec_val (ip @ fp)" "dec_val (ip @ fp) * 10 ^ k < 2 ^ 63"
  shows "map_option big_Int64 (parse_big (ip @ (if fp = [] then [] else CHR ''.'' # fp) @ ''e+'' @ ex)) =
    Some (int (dec_val (ip @ fp) * 10 ^ k))"
proof -
  let ?mant = "dec_val (ip @ fp)" and ?rest = "''e+'' @ ex"
  obtain c ip' where c: "ip = c # ip'" "is_digit c" using assms(1,3) by (cases ip) (auto simp: all_digits_def)
  have mant: "scan_mantissa (ip @ (if fp = [] then [] else CHR ''.'' # fp) @ ?rest) = Some (ip @ fp, length fp, ?rest)"
    by (rule scan_mantissa_digits [OF assms(1-3)]) (simp add: is_digit_def)
  have "?mant * 1 \<le> ?mant * 10 ^ k" by (intro mult_le_mono2) simp
  then have "?mant < 2 ^ 63" using assms(10) by linarith
  then have len: "bit_length ?mant \<le> 63" by (rule bit_length_small)
  have "parse_big (ip @ (if fp = [] then [] else CHR ''.'' # fp) @ ?rest) = Some (scale False ?mant (int k) (int k))"
    using mant c(1) len assms(6,7,9) scan_exponent_plus [OF assms(4,5,8)]
    by (simp add: parse_big_digit [OF c(2)] Let_def)
  then show ?thesis using scale_exact [OF assms(9,10,7)] by simp
qed

lemma read_plain:
  assumes "n < 2 ^ 63"
  shows "map_option big_Int64 (parse_big (dec_nat n)) = Some (int n)"
proof -
  obtain c ds where c: "dec_nat n = c # ds" "is_digit c" using dec_nat_hd [of n] by (cases "dec_nat n") auto
  have "scan_mantissa (dec_nat n) = Some (dec_nat n, 0, [])"
    using scan_mantissa_digits [OF all_digits_dec_nat [of n], of "[]" "[]"] by (simp add: all_digits_def [of "[]"])
  moreover have "bit_length n \<le> 63" by (rule bit_length_small [OF assms])
  ultimately have "parse_big (dec_nat n) = Some (if n = 0 then Finite False 0 0 else scale False n 0 0)"
    using dec_val_dec_nat [of n] unfolding c(1)
    by (simp add: parse_big_digit [OF c(2)] scan_exponent_def Let_def)
  then show ?thesis using scale_exact [of n 0] assms by simp
qed

lemma length_dec_nat: "length (dec_nat n) \<le> Suc n"
proof (induction "10::nat" n rule: fmt_nat.induct)
  case (1 n)
  then show ?case by (subst fmt_nat.simps) (auto split: if_splits)
qed

text \<open>What the page prints for a count is read back as the count.\<close>

lemma read_format_g:
  assumes "n < 2 ^ 53"
  shows "map_option big_Int64 (parse_big (format_g n)) = Some (int n)"
proof (cases "length (dec_nat n) - 1 < 6")
  case True
  then show ?thesis using assms read_plain [of n] by (simp add: format_g_def)
next
  case False
  let ?ds = "dec_nat n" and ?s = "trim_right_char (CHR ''0'') (dec_nat n)"
  let ?x = "length ?ds - 1"
  let ?ex = "(if ?x < 10 then ''0'' else []) @ dec_nat ?x"
  obtain k where k: "?ds = ?s @ replicate k (CHR ''0'')" using trim_right_char_split by blast
  have "dec_nat 0 = [digit_char 0]" by (subst fmt_nat.simps) simp
  then have "0 < n" using False by (cases n) auto
  have n: "n = dec_val ?s * 10 ^ k" using dec_val_append_zeros [of ?s k] k dec_val_dec_nat [of n] by metis
  with \<open>0 < n\<close> have s: "0 < dec_val ?s" "?s \<noteq> []" by (auto simp: dec_val_def intro: gr0I)
  have "(10 :: nat) ^ k \<le> n" using s(1) n by (metis One_nat_def Suc_leI mult.commute mult_le_mono2 nat_mult_1_right)
  also note assms
  also have "(2 :: nat) ^ 53 < 10 ^ 27" by simp
  finally have "(10 :: nat) ^ k < 10 ^ 27" .
  then have k27: "k \<le> 27" by (intro less_imp_le) (rule power_less_imp_less_exp [of 10], simp)
  have digits: "all_digits ?s" using all_digits_dec_nat [of n] k unfolding all_digits_def by (metis Un_iff set_append)
  let ?ip = "take 1 ?s" and ?fp = "drop 1 ?s"
  have split: "?ip @ ?fp = ?s" by simp
  have ex: "all_digits ?ex" "dec_val ?ex = ?x"
    using all_digits_dec_nat [of ?x]
    by (auto simp: all_digits_def dec_val_leading_zero dec_val_dec_nat) (simp add: is_digit_def)
  have len: "length ?ds = length ?s + k" using k by (metis length_append length_replicate)
  have "?x = length ?fp + k" using len s(2) by (cases ?s) auto
  have small: "?x < 2 ^ 63" using length_dec_nat [of n] assms by simp
  have "map_option big_Int64 (parse_big (?ip @ (if ?fp = [] then [] else CHR ''.'' # ?fp) @ ''e+'' @ ?ex)) =
      Some (int (dec_val (?ip @ ?fp) * 10 ^ k))"
    using digits s ex n assms k27 \<open>?x = length ?fp + k\<close> small
    by (intro read_scientific) (auto simp: all_digits_def dest: in_set_takeD in_set_dropD)
  moreover have "format_g n = ?ip @ (if ?fp = [] then [] else CHR ''.'' # ?fp) @ ''e+'' @ ?ex"
    using False s(2) by (cases ?s) (simp_all add: format_g_def Let_def)
  ultimately show ?thesis using n by simp
qed

end
