(* ===== verification/Metric_Registry.thy ===== *)
theory Metric_Registry
  imports Go_Numbers
begin

section \<open>The metrics the programs register (metrics.go, collector/metrics.go, collector/filter.go)\<close>

text \<open>
  The Prometheus metrics created when a program starts, each with its name, help text, kind and
  labels, and a page of samples as an HTTP client of \<open>/metrics\<close> sees it. Registering panics on a
  name that is taken or that is no metric name; the lemmas say that neither happens, and which
  lines of the page can start with the name of a metric.
\<close>

subsection \<open>The metrics\<close>

text \<open>The start of the buckets is in hundredths.\<close>

datatype metric_kind = Counter | Gauge | Histogram nat nat nat

record metric_opts =
  m_Name :: string
  m_Help :: string
  m_Kind :: metric_kind
  m_Labels :: "string list"

definition NewCounter :: "string \<Rightarrow> string \<Rightarrow> metric_opts" where
  "NewCounter name help = \<lparr>m_Name = name, m_Help = help, m_Kind = Counter, m_Labels = []\<rparr>"

definition NewCounterVec :: "string \<Rightarrow> string \<Rightarrow> string list \<Rightarrow> metric_opts" where
  "NewCounterVec name help labels = \<lparr>m_Name = name, m_Help = help, m_Kind = Counter, m_Labels = labels\<rparr>"

definition NewGauge :: "string \<Rightarrow> string \<Rightarrow> metric_opts" where
  "NewGauge name help = \<lparr>m_Name = name, m_Help = help, m_Kind = Gauge, m_Labels = []\<rparr>"

definition NewHistogram :: "string \<Rightarrow> string \<Rightarrow> metric_kind \<Rightarrow> metric_opts" where
  "NewHistogram name help buckets = \<lparr>m_Name = name, m_Help = help, m_Kind = buckets, m_Labels = []\<rparr>"

abbreviation "ExponentialBuckets \<equiv> Histogram"

definition shoveler_metrics :: "metric_opts list" where
  "shoveler_metrics =
    [NewCounter ''shoveler_packets_received''
       ''The total number of packets received'',
     NewCounter ''shoveler_validations_failed''
       ''The total number of packets that failed validation'',
     NewCounter ''shoveler_rabbitmq_reconnects''
       ''The total number of reconnections to rabbitmq bus'',
     NewGauge ''shoveler_queue_size''
       ''The number of messages in the queue'',
     NewCounter ''shoveler_packets_parsed_ok''
       ''The total number of packets parsed successfully'',
     NewCounter ''shoveler_parse_errors''
       ''The total number of parse errors'',
     NewCounter ''shoveler_ttl_evictions''
       ''The total number of state entries evicted due to TTL'',
     NewCounter ''shoveler_state_collisions''
       ''The total number of state key collisions'',
     NewGauge ''shoveler_state_size''
       ''Current number of entries in the state map'',
     NewCounter ''shoveler_queue_segments_quarantined_total''
       ''Total number of corrupt on-disk queue segments moved aside at startup'',
     NewCounter ''shoveler_records_emitted''
       ''The total number of collector records emitted'',
     NewCounterVec ''shoveler_records_emitted_by_server_total''
       ''Total number of collector records emitted, partitioned by upstream server IP'' [''server_ip''],
     NewHistogram ''shoveler_parse_time_ms''
       ''Packet parsing time in milliseconds'' (ExponentialBuckets 1 2 10),
     NewHistogram ''shoveler_request_latency_ms''
       ''Request latency in milliseconds (collector mode)'' (ExponentialBuckets 100 2 15),
     NewCounter ''shoveler_gstream_packets_enqueued''
       ''The total number of gstream packets accepted into the async worker queue'',
     NewCounter ''shoveler_gstream_queue_dropped''
       ''The total number of gstream packets dropped because the bounded gstream queue was full'',
     NewGauge ''shoveler_gstream_queue_size''
       ''Current number of pending gstream packets in the async worker queue'',
     NewCounterVec ''shoveler_packets_by_type''
       ''Total number of successfully parsed packets, partitioned by XRootD packet type'' [''packet_type'']]"

definition collector_metrics :: "metric_opts list" where
  "collector_metrics =
    [NewCounter ''shoveler_enrichment_queue_dropped''
       ''Total number of enrichment records dropped because the bounded queue was at capacity'',
     NewGauge ''shoveler_enrichment_queue_size''
       ''Current number of pending records in the enrichment queue'',
     NewCounterVec ''shoveler_packets_by_server_total''
       ''Total number of successfully parsed monitoring packets per upstream server IP and XRootD stream type'' [''server_ip'', ''packet_type''],
     NewCounter ''shoveler_standalone_close_records_total''
       ''Total number of file close records emitted without a matching open in stateMap (degraded records missing LFN, open-time, and full user context)'',
     NewCounterVec ''shoveler_file_open_records_total''
       ''Total number of file open records received in f-stream and t-stream packets per upstream server IP'' [''server_ip''],
     NewCounterVec ''shoveler_file_close_records_total''
       ''Total number of file close records received in f-stream and t-stream packets per upstream server IP'' [''server_ip''],
     NewCounterVec ''shoveler_file_time_records_total''
       ''Total number of file time (TOD) records received in f-stream and t-stream packets per upstream server IP'' [''server_ip''],
     NewGauge ''shoveler_scitags_registry_experiments''
       ''Number of experiments in the currently loaded SciTags registry'',
     NewGauge ''shoveler_scitags_registry_activities''
       ''Number of (experiment, activity) pairs in the currently loaded SciTags registry'',
     NewCounter ''shoveler_scitags_registry_reload_failures_total''
       ''Total number of SciTags registry background refresh attempts that failed'',
     NewCounterVec ''shoveler_scitags_unmapped_ids_total''
       ''Total number of SciTags ids that could not be resolved to a name'' [''kind'']]"

definition recordsDropped :: metric_opts where
  "recordsDropped =
     NewCounterVec ''shoveler_records_dropped''
       ''The total number of records dropped by the filter before publishing, labeled by reason (vo or path_prefix)'' [''reason'']"

text \<open>Everything a program of the repository can have registered.\<close>

definition all_metrics :: "metric_opts list" where
  "all_metrics = shoveler_metrics @ collector_metrics @ [recordsDropped]"

lemmas metric_defs = NewCounter_def NewCounterVec_def NewGauge_def NewHistogram_def
  shoveler_metrics_def collector_metrics_def recordsDropped_def all_metrics_def

subsection \<open>Registration\<close>

definition name_char :: "char \<Rightarrow> bool" where
  "name_char c \<longleftrightarrow> is_digit c \<or> c = CHR ''_'' \<or> c = CHR '':'' \<or>
     (65 \<le> byte_nat c \<and> byte_nat c \<le> 90) \<or> (97 \<le> byte_nat c \<and> byte_nat c \<le> 122)"

definition metric_name :: "string \<Rightarrow> bool" where
  "metric_name s \<longleftrightarrow> s \<noteq> [] \<and> \<not> is_digit (hd s) \<and> list_all name_char s"

text \<open>\<open>promauto\<close> registers as it creates; \<open>None\<close> is its panic.\<close>

definition register :: "metric_opts \<Rightarrow> metric_opts list \<Rightarrow> metric_opts list option" where
  "register m ms =
     (if metric_name (m_Name m) \<and> m_Name m \<notin> m_Name ` set ms then Some (m # ms) else None)"

fun register_all :: "metric_opts list \<Rightarrow> metric_opts list \<Rightarrow> metric_opts list option" where
  "register_all [] ms = Some ms"
| "register_all (m # rest) ms = (case register m ms of None \<Rightarrow> None | Some ms' \<Rightarrow> register_all rest ms')"

lemma register_all_ok:
  "distinct (List.map m_Name (ms @ old)) \<Longrightarrow> list_all (metric_name \<circ> m_Name) ms \<Longrightarrow>
     register_all ms old = Some (rev ms @ old)"
  by (induction ms arbitrary: old) (auto simp: register_def)

lemma all_names_distinct: "distinct (List.map m_Name all_metrics)"
  by (simp add: metric_defs)

lemma letters_valid: "list_all name_char ''abcdefghijklmnopqrstuvwxyz_''"
  by (simp add: name_char_def is_digit_def)

lemmas letter_valid = letters_valid [unfolded list.pred_inject simp_thms]

lemma all_names_valid: "list_all (metric_name \<circ> m_Name) all_metrics"
  by (simp add: metric_defs metric_name_def letter_valid) (simp add: is_digit_def)

text \<open>No program panics while its packages create their metrics.\<close>

lemma metrics_register: "register_all all_metrics [] = Some (rev all_metrics)"
  using register_all_ok [of all_metrics "[]"] all_names_distinct all_names_valid by simp

subsection \<open>The page of samples\<close>

text \<open>A line of the page: a comment, a sample of a registered metric (its labels or suffix and its
  value as text), or a sample of the client library's own metrics of the process.\<close>

datatype page_line = Comment string | Sample metric_opts string string | Foreign string

fun page_text :: "page_line \<Rightarrow> string" where
  "page_text (Comment t) = CHR ''#'' # t"
| "page_text (Sample m labels v) = m_Name m @ labels @ CHR '' '' # v"
| "page_text (Foreign t) = t"

fun page_line_ok :: "page_line \<Rightarrow> bool" where
  "page_line_ok (Comment t) \<longleftrightarrow> True"
| "page_line_ok (Sample m labels v) \<longleftrightarrow> m \<in> set all_metrics"
| "page_line_ok (Foreign t) \<longleftrightarrow> \<not> prefix ''shoveler_'' t"

abbreviation "packets_name \<equiv> ''shoveler_packets_received''"
abbreviation "reconnects_name \<equiv> ''shoveler_rabbitmq_reconnects''"
abbreviation "queue_size_name \<equiv> ''shoveler_queue_size''"

definition watched :: "string list" where
  "watched = [packets_name, reconnects_name, queue_size_name]"

lemma watched_registered: "\<forall>n \<in> set watched. n \<in> m_Name ` set all_metrics"
  by (simp add: watched_def metric_defs)

lemma watched_parallel:
  "\<forall>n \<in> set watched. \<forall>m \<in> set all_metrics. m_Name m \<noteq> n \<longrightarrow> \<not> prefix n (m_Name m) \<and> \<not> prefix (m_Name m) n"
  by (simp add: watched_def metric_defs)

lemma watched_shoveler: "n \<in> set watched \<Longrightarrow> prefix ''shoveler_'' n"
  by (auto simp: watched_def)

text \<open>Only the samples of a watched metric have lines that start with its name.\<close>

lemma page_line_prefix:
  assumes "n \<in> set watched" "page_line_ok l" "prefix n (page_text l)"
  shows "\<exists>m labels v. l = Sample m labels v \<and> m_Name m = n"
proof (cases l)
  case (Comment t)
  with assms show ?thesis by (auto simp: watched_def)
next
  case (Sample m labels v)
  have "prefix n (m_Name m) \<or> prefix (m_Name m) n"
    using assms(3) prefix_same_cases [of n "page_text l" "m_Name m"] by (auto simp: Sample prefix_def)
  with watched_parallel assms(1,2) Sample show ?thesis by auto
next
  case (Foreign t)
  have "prefix ''shoveler_'' n" by (rule watched_shoveler [OF assms(1)])
  moreover have "prefix n t" using assms(3) by (simp add: Foreign)
  ultimately have "prefix ''shoveler_'' t" by (rule prefix_order.order_trans)
  with assms(2) show ?thesis by (simp add: Foreign)
qed

fun sample_of :: "page_line \<Rightarrow> string" where
  "sample_of (Sample m labels v) = m_Name m"
| "sample_of _ = []"

lemma watched_iff: "n \<in> set watched \<longleftrightarrow> n = packets_name \<or> n = reconnects_name \<or> n = queue_size_name"
  by (simp add: watched_def)

lemma page_line_not_prefix:
  "page_line_ok l \<Longrightarrow> n \<in> set watched \<Longrightarrow> sample_of l \<noteq> n \<Longrightarrow> \<not> prefix n (page_text l)"
  using page_line_prefix [of n l] by auto

end
