(* ===== verification/Shoveler_Status.thy ===== *)
theory Shoveler_Status
  imports Go_BigFloat Metric_Registry Config Wire_Types
begin

section \<open>The status command and the token command (cmd/shoveler-status, cmd/createtoken)\<close>

text \<open>
  \<open>shoveler-status\<close> checks the token file, reads the metrics page twice and reports; \<open>createtoken\<close>
  writes the token. What is printed is a list of messages, in order. Files, the HTTP request and
  the JWT library are arguments. A panic is its own outcome: \<open>main\<close> declares a local \<open>logger\<close> that
  hides the package's, which stays nil, so a number that cannot be parsed panics where the code
  means to log it.
\<close>

subsection \<open>The metrics page\<close>

record ShovelerStats =
  st_packetsReceived :: int
  st_rabbitmqReconnections :: int
  st_shoveler_queue_size :: int

text \<open>\<open>strings.Split(line, '' '')[1]\<close> panics on a line without a space, \<open>logger.Errorln\<close> when the
  package's logger is not set.\<close>

definition parsePrometheusMetric :: "bool \<Rightarrow> string \<Rightarrow> int option" where
  "parsePrometheusMetric logger line =
     (case split_on (CHR '' '') line of
        _ # value # _ \<Rightarrow>
          (case parse_big value of
             None \<Rightarrow> if logger then Some 0 else None
           | Some flt \<Rightarrow> Some (big_Int64 flt))
      | _ \<Rightarrow> None)"

definition stats_line :: "bool \<Rightarrow> string \<Rightarrow> ShovelerStats \<Rightarrow> ShovelerStats option" where
  "stats_line logger line stats =
     (if has_prefix line packets_name
      then map_option (\<lambda>v. stats\<lparr>st_packetsReceived := v\<rparr>) (parsePrometheusMetric logger line)
      else if has_prefix line reconnects_name
      then map_option (\<lambda>v. stats\<lparr>st_rabbitmqReconnections := v\<rparr>) (parsePrometheusMetric logger line)
      else if has_prefix line queue_size_name
      then map_option (\<lambda>v. stats\<lparr>st_shoveler_queue_size := v\<rparr>) (parsePrometheusMetric logger line)
      else Some stats)"

fun stats_lines :: "bool \<Rightarrow> string list \<Rightarrow> ShovelerStats \<Rightarrow> ShovelerStats option" where
  "stats_lines logger [] stats = Some stats"
| "stats_lines logger (l # ls) stats = Option.bind (stats_line logger l stats) (stats_lines logger ls)"

definition zero_stats :: ShovelerStats where
  "zero_stats = \<lparr>st_packetsReceived = 0, st_rabbitmqReconnections = 0, st_shoveler_queue_size = 0\<rparr>"

definition parseShovelerStats :: "bool \<Rightarrow> string \<Rightarrow> ShovelerStats option" where
  "parseShovelerStats logger body = stats_lines logger (split_on newline body) zero_stats"

subsection \<open>The token\<close>

datatype status_message =
    Token_skipped | Token_not_found | Token_not_readable | Token_wrong_signature | Token_not_parsed
  | Token_no_audience | Token_audience string | Token_no_scope | Token_scope string | Token_valid
  | Metrics_disabled | Endpoint_failed | No_packets_yet | Queue_not_kept_up int | Running
  | No_packets | Queue_still_not_kept_up int | Queue_below_threshold | Nothing_received | Received int

datatype token_file = Not_found | Not_readable | Contents string

datatype jwt_error = Verification_error | Other_error

type_synonym claims = "(string \<times> json) list"

definition expected_scope :: string where
  "expected_scope = ''my_rabbit_server.write:xrd-mon/shoveled-xrd''"

text \<open>A claim that is missing is nil, like one that is null.\<close>

definition claim :: "claims \<Rightarrow> string \<Rightarrow> json" where
  "claim cs name = (case map_of cs name of None \<Rightarrow> JNull | Some v \<Rightarrow> v)"

text \<open>The two checks: what they print, and whether the type assertion on the claim holds.\<close>

definition check_audience :: "bool \<Rightarrow> claims \<Rightarrow> status_message list option" where
  "check_audience verified cs =
     (if verified then Some []
      else case claim cs ''aud'' of
             JNull \<Rightarrow> Some [Token_no_audience]
           | JStr s \<Rightarrow> Some [Token_audience s]
           | _ \<Rightarrow> None)"

definition check_scope :: "claims \<Rightarrow> status_message list option" where
  "check_scope cs =
     (case claim cs ''scope'' of
        JNull \<Rightarrow> Some [Token_no_scope]
      | JStr s \<Rightarrow> Some (if s = expected_scope then [] else [Token_scope s])
      | _ \<Rightarrow> None)"

text \<open>The messages of \<open>CheckToken\<close>, and whether it returns.\<close>

definition CheckToken :: "(string \<Rightarrow> jwt_error + claims) \<Rightarrow> (string \<Rightarrow> bool \<Rightarrow> claims \<Rightarrow> bool) \<Rightarrow>
    Config \<Rightarrow> token_file \<Rightarrow> status_message list \<times> bool" where
  "CheckToken parse verifyAudience config file =
     (if cfg_MQ config \<noteq> ''amqp'' then ([Token_skipped], True)
      else case file of
        Not_found \<Rightarrow> ([Token_not_found], True)
      | Not_readable \<Rightarrow> ([Token_not_readable], True)
      | Contents tokenString \<Rightarrow>
          (case parse tokenString of
             Inl Verification_error \<Rightarrow> ([Token_wrong_signature], True)
           | Inl Other_error \<Rightarrow> ([Token_not_parsed], True)
           | Inr cs \<Rightarrow>
               (case check_audience (verifyAudience ''my_rabbit_server'' True cs) cs of
                  None \<Rightarrow> ([], False)
                | Some aud \<Rightarrow>
                    (case check_scope cs of
                       None \<Rightarrow> (aud, False)
                     | Some scope \<Rightarrow> (aud @ scope @ [Token_valid], True)))))"

subsection \<open>The command\<close>

datatype status_end = Exits int | Returns | Panics

text \<open>\<open>None\<close> is a request that fails; its result is the page otherwise.\<close>

definition CheckPrometheusEndpoint :: "string option \<Rightarrow> (unit + ShovelerStats) option" where
  "CheckPrometheusEndpoint response =
     (case response of
        None \<Rightarrow> Some (Inl ())
      | Some body \<Rightarrow> map_option Inr (parseShovelerStats False body))"

definition first_check :: "ShovelerStats \<Rightarrow> status_message list \<times> bool" where
  "first_check stats =
     ((if st_packetsReceived stats = 0 then [No_packets_yet] else []) @
      (if 100 < st_shoveler_queue_size stats then [Queue_not_kept_up (st_shoveler_queue_size stats)] else [Running]),
      \<not> 100 < st_shoveler_queue_size stats)"

text \<open>The difference of the counts is an int64.\<close>

definition second_check :: "ShovelerStats \<Rightarrow> ShovelerStats \<Rightarrow> status_message list" where
  "second_check initial second =
     (if st_packetsReceived second = 0 then [No_packets] else []) @
     (if 100 < st_shoveler_queue_size second then [Queue_still_not_kept_up (st_shoveler_queue_size second)]
      else [Queue_below_threshold]) @
     (if st_packetsReceived second = st_packetsReceived initial then [Nothing_received]
      else [Received (sint (word_of_int (st_packetsReceived second - st_packetsReceived initial) :: int64))])"

text \<open>\<open>main\<close> after the flags: the page as the first request and, a period later, the second get it.\<close>

definition status_main :: "(string \<Rightarrow> jwt_error + claims) \<Rightarrow> (string \<Rightarrow> bool \<Rightarrow> claims \<Rightarrow> bool) \<Rightarrow>
    Config \<Rightarrow> token_file \<Rightarrow> string option \<Rightarrow> string option \<Rightarrow> status_message list \<times> status_end" where
  "status_main parse verifyAudience config file response1 response2 =
     (let (token, returned) = CheckToken parse verifyAudience config file;
          ms = token @ (if cfg_Metrics config then [] else [Metrics_disabled])
      in if \<not> returned then (token, Panics)
         else case CheckPrometheusEndpoint response1 of
           None \<Rightarrow> (ms, Panics)
         | Some (Inl _) \<Rightarrow> (ms @ [Endpoint_failed], Exits 1)
         | Some (Inr initial) \<Rightarrow>
             (let (first, go_on) = first_check initial
              in if \<not> go_on then (ms @ first, Exits 1)
                 else case CheckPrometheusEndpoint response2 of
                   None \<Rightarrow> (ms @ first, Panics)
                 | Some (Inl _) \<Rightarrow> (ms @ first @ [Endpoint_failed], Exits 1)
                 | Some (Inr second) \<Rightarrow> (ms @ first @ second_check initial second, Returns)))"

subsection \<open>Making a token\<close>

record MyCustomClaims =
  cl_Scope :: string
  cl_ExpiresAt :: int
  cl_Issuer :: string
  cl_Audience :: string
  cl_Subject :: string

text \<open>The time is in nanoseconds since the epoch; the duration is an int64 of nanoseconds.\<close>

definition custom_claims :: "string \<Rightarrow> int \<Rightarrow> int \<Rightarrow> MyCustomClaims" where
  "custom_claims exchange now hours =
     \<lparr>cl_Scope = ''my_rabbit_server.write:xrd-mon/'' @ exchange,
      cl_ExpiresAt = (now + sint (word_of_int (3600000000000 * hours) :: int64)) div 1000000000,
      cl_Issuer = ''test'', cl_Audience = ''my_rabbit_server'', cl_Subject = ''shoveler''\<rparr>"

datatype 'key pem = No_block | Block "'key option"

datatype token_end = Token string | Wrong_usage | Key_not_read | Not_signed | Token_panics

text \<open>\<open>createtoken\<close>: the arguments behind the flags, the file of the key and its PEM block. A file
  that is no PEM has no block, whose bytes are read all the same; a key that cannot be parsed is a
  nil key, which \<open>sign\<close> gets (\<open>None\<close> of it is an error, a nil key panics in it).\<close>

definition createtoken :: "('key \<Rightarrow> (string \<times> string) list \<Rightarrow> MyCustomClaims \<Rightarrow> string option) \<Rightarrow>
    string list \<Rightarrow> 'key pem option \<Rightarrow> string \<Rightarrow> int \<Rightarrow> int \<Rightarrow> token_end" where
  "createtoken sign args file exchange now hours =
     (if length args \<noteq> 1 then Wrong_usage
      else case file of
        None \<Rightarrow> Key_not_read
      | Some No_block \<Rightarrow> Token_panics
      | Some (Block None) \<Rightarrow> Token_panics
      | Some (Block (Some key)) \<Rightarrow>
          (case sign key [(''kid'', ''xrdshoveler'')] (custom_claims exchange now hours) of
             None \<Rightarrow> Not_signed
           | Some ss \<Rightarrow> Token ss))"

subsection \<open>Reading the page\<close>

lemma format_g_chars: "c \<in> set (format_g n) \<Longrightarrow> is_digit c \<or> c \<in> {CHR ''.'', CHR ''e'', CHR ''+''}"
proof -
  have zero: "is_digit (CHR ''0'')" by (simp add: is_digit_def)
  have short: "c \<in> set (trim_right_char (CHR ''0'') (dec_nat n)) \<Longrightarrow> is_digit c" for c
    using trim_right_char_split [of "dec_nat n" "CHR ''0''"] dec_nat_digits [of c n] by (metis Un_iff set_append)
  assume "c \<in> set (format_g n)"
  then show ?thesis
    using zero short dec_nat_digits
    by (auto simp: format_g_def Let_def split: if_splits dest: in_set_takeD in_set_dropD)
qed

lemma format_g_no_space: "CHR '' '' \<notin> set (format_g n)" "newline \<notin> set (format_g n)"
  using format_g_chars [of "CHR '' ''" n] format_g_chars [of newline n] by (auto simp: is_digit_def)

lemma read_count:
  assumes "n < 2 ^ 53" and "CHR '' '' \<notin> set name"
  shows "parsePrometheusMetric logger (name @ CHR '' '' # format_g n) = Some (int n)"
proof -
  have "split_on (CHR '' '') (name @ CHR '' '' # format_g n) = [name, format_g n]"
    using assms(2) format_g_no_space(1) by (simp add: split_on_append split_on_none)
  moreover obtain flt where "parse_big (format_g n) = Some flt" "big_Int64 flt = int n"
    using read_format_g [OF assms(1)] by auto
  ultimately show ?thesis by (simp add: parsePrometheusMetric_def)
qed

text \<open>A page that shows the three counts: its samples of the watched metrics have no labels and are
  printed as the client library prints counts.\<close>

definition counts :: "nat \<Rightarrow> nat \<Rightarrow> nat \<Rightarrow> string \<Rightarrow> nat" where
  "counts p r q name = (if name = packets_name then p else if name = reconnects_name then r else q)"

definition shows_counts :: "nat \<Rightarrow> nat \<Rightarrow> nat \<Rightarrow> page_line \<Rightarrow> bool" where
  "shows_counts p r q l \<longleftrightarrow> page_line_ok l \<and> newline \<notin> set (page_text l) \<and>
     (case l of Sample m labels v \<Rightarrow> m_Name m \<in> set watched \<longrightarrow> labels = [] \<and> v = format_g (counts p r q (m_Name m))
      | _ \<Rightarrow> True)"

definition page_shows :: "nat \<Rightarrow> nat \<Rightarrow> nat \<Rightarrow> page_line list \<Rightarrow> bool" where
  "page_shows p r q page \<longleftrightarrow> list_all (shows_counts p r q) page \<and> set watched \<subseteq> sample_of ` set page \<and>
     p < 2 ^ 53 \<and> r < 2 ^ 53 \<and> q < 2 ^ 53"

definition page_body :: "page_line list \<Rightarrow> string" where
  "page_body page = join [newline] (List.map page_text page)"

lemma stats_line_other:
  "page_line_ok l \<Longrightarrow> sample_of l \<notin> set watched \<Longrightarrow> stats_line logger (page_text l) s = Some s"
  using page_line_not_prefix [of l packets_name] page_line_not_prefix [of l reconnects_name]
    page_line_not_prefix [of l queue_size_name]
  unfolding stats_line_def has_prefix_def by (metis watched_iff)

definition put_count :: "string \<Rightarrow> int \<Rightarrow> ShovelerStats \<Rightarrow> ShovelerStats" where
  "put_count name v s =
     (if name = packets_name then s\<lparr>st_packetsReceived := v\<rparr>
      else if name = reconnects_name then s\<lparr>st_rabbitmqReconnections := v\<rparr>
      else s\<lparr>st_shoveler_queue_size := v\<rparr>)"

lemma stats_line_watched:
  assumes "shows_counts p r q l" "sample_of l \<in> set watched" "p < 2 ^ 53" "r < 2 ^ 53" "q < 2 ^ 53"
  shows "stats_line logger (page_text l) s = Some (put_count (sample_of l) (int (counts p r q (sample_of l))) s)"
proof -
  obtain m labels v where l: "l = Sample m labels v" using assms(2) by (cases l) (auto simp: watched_def)
  let ?n = "m_Name m"
  have n: "?n = packets_name \<or> ?n = reconnects_name \<or> ?n = queue_size_name"
    using assms(2) unfolding l watched_iff by simp
  have line: "page_text l = ?n @ CHR '' '' # format_g (counts p r q ?n)"
    using assms(1,2) l by (simp add: shows_counts_def)
  have "parsePrometheusMetric logger (page_text l) = Some (int (counts p r q ?n))"
    unfolding line using n assms(3-5) by (intro read_count) (auto simp: counts_def)
  then show ?thesis
    using n by (auto simp: stats_line_def has_prefix_def put_count_def l line)
qed

lemma stats_lines_counts:
  assumes "list_all (shows_counts p r q) page" "p < 2 ^ 53" "r < 2 ^ 53" "q < 2 ^ 53"
  shows "stats_lines logger (List.map page_text page) s = Some
    \<lparr>st_packetsReceived = (if packets_name \<in> sample_of ` set page then int p else st_packetsReceived s),
     st_rabbitmqReconnections = (if reconnects_name \<in> sample_of ` set page then int r else st_rabbitmqReconnections s),
     st_shoveler_queue_size = (if queue_size_name \<in> sample_of ` set page then int q else st_shoveler_queue_size s)\<rparr>"
  using assms(1)
proof (induction page arbitrary: s)
  case (Cons l page)
  then have IH: "list_all (shows_counts p r q) page" and l: "shows_counts p r q l" by simp_all
  show ?case
  proof (cases "sample_of l \<in> set watched")
    case True
    then have "sample_of l = packets_name \<or> sample_of l = reconnects_name \<or> sample_of l = queue_size_name"
      by (auto simp: watched_def)
    with stats_line_watched [OF l True assms(2-4)] Cons.IH [OF IH] show ?thesis
      by (auto simp: put_count_def counts_def)
  next
    case False
    then have "stats_line logger (page_text l) s = Some s" for s
      using l by (intro stats_line_other) (simp_all add: shows_counts_def)
    with False Cons.IH [OF IH] show ?thesis by (auto simp: watched_def)
  qed
qed simp

lemma parse_page:
  assumes "page_shows p r q page"
  shows "parseShovelerStats logger (page_body page) = Some
    \<lparr>st_packetsReceived = int p, st_rabbitmqReconnections = int r, st_shoveler_queue_size = int q\<rparr>"
proof -
  have page: "list_all (shows_counts p r q) page" "set watched \<subseteq> sample_of ` set page" "page \<noteq> []"
    using assms by (auto simp: page_shows_def watched_def)
  have "split_on newline (page_body page) = List.map page_text page"
    unfolding page_body_def using page(1,3) by (intro split_on_join) (auto simp: list_all_iff shows_counts_def)
  moreover have "packets_name \<in> sample_of ` set page" "reconnects_name \<in> sample_of ` set page"
    "queue_size_name \<in> sample_of ` set page"
    using page(2) by (simp_all add: watched_def)
  ultimately show ?thesis
    using stats_lines_counts [OF page(1)] assms by (simp add: parseShovelerStats_def page_shows_def)
qed

subsection \<open>What the commands report\<close>

lemma sint_int64: "- (2 ^ 63) \<le> i \<Longrightarrow> i < 2 ^ 63 \<Longrightarrow> sint (word_of_int i :: int64) = i"
  by (simp add: sint_sbintrunc' signed_take_bit_int_eq_self del: of_int_numeral)

text \<open>C36: The status command reports the counts of the metrics page. Both times the page has the
  three watched counters as the client library prints them, among any other metrics of the
  programs and of the library; then the command, whatever the token check said, reports exactly
  what the counts say: a queue over 100 ends it with status 1, otherwise it says how many packets
  came between the two requests.\<close>

theorem status_reports_counts:
  assumes "page_shows p1 r1 q1 page1" "page_shows p2 r2 q2 page2" "cfg_Metrics config"
    and "CheckToken parse verifyAudience config file = (token, True)"
  shows "status_main parse verifyAudience config file (Some (page_body page1)) (Some (page_body page2)) =
    (let seen = token @ (if p1 = 0 then [No_packets_yet] else [])
     in if 100 < q1 then (seen @ [Queue_not_kept_up (int q1)], Exits 1)
        else (seen @ [Running] @ (if p2 = 0 then [No_packets] else []) @
              [if 100 < q2 then Queue_still_not_kept_up (int q2) else Queue_below_threshold] @
              [if p2 = p1 then Nothing_received else Received (int p2 - int p1)], Returns))"
proof -
  have small: "p1 < 2 ^ 53" "p2 < 2 ^ 53" using assms(1,2) by (simp_all add: page_shows_def)
  then have "- (2 ^ 63) \<le> int p2 - int p1" "int p2 - int p1 < 2 ^ 63" by simp_all
  then have "sint (word_of_int (int p2 - int p1) :: int64) = int p2 - int p1" by (rule sint_int64)
  then show ?thesis
    using assms(3,4) parse_page [OF assms(1)] parse_page [OF assms(2)]
    by (simp add: status_main_def CheckPrometheusEndpoint_def first_check_def second_check_def Let_def)
qed

text \<open>A token made by \<open>createtoken\<close> and accepted by the JWT library passes the status command's
  check of audience and scope for the default exchange; for any other exchange the scope is
  reported as wrong, although the token is right for it. In both cases the last message says that
  the token is valid. It expires the given hours after it was made.\<close>

theorem created_token_checked:
  assumes "createtoken sign [key_file] (Some (Block (Some key))) exchange now hours = Token ss"
    and "parse ss = Inr cs" and "\<And>s. claim cs ''aud'' = JStr s \<Longrightarrow> verifyAudience ''my_rabbit_server'' True cs = (s = ''my_rabbit_server'')"
    and "claim cs ''scope'' = JStr (cl_Scope (custom_claims exchange now hours))"
    and "claim cs ''aud'' = JStr (cl_Audience (custom_claims exchange now hours))"
    and "cfg_MQ config = ''amqp''" and "0 \<le> hours" "hours \<le> 2562047"
  shows "sign key [(''kid'', ''xrdshoveler'')] (custom_claims exchange now hours) = Some ss \<and>
    CheckToken parse verifyAudience config (Contents ss) =
      ((if exchange = ''shoveled-xrd'' then [] else [Token_scope (''my_rabbit_server.write:xrd-mon/'' @ exchange)]) @
       [Token_valid], True) \<and>
    cl_ExpiresAt (custom_claims exchange now hours) = now div 1000000000 + 3600 * hours"
proof -
  have "sint (word_of_int (3600000000000 * hours) :: int64) = 3600000000000 * hours"
    using assms(7,8) by (intro sint_int64) simp_all
  then have "cl_ExpiresAt (custom_claims exchange now hours) = now div 1000000000 + 3600 * hours"
    by (simp add: custom_claims_def)
  moreover have "check_scope cs = Some (if exchange = ''shoveled-xrd'' then []
      else [Token_scope (''my_rabbit_server.write:xrd-mon/'' @ exchange)])"
    using assms(4) by (simp add: check_scope_def custom_claims_def expected_scope_def)
  moreover have "verifyAudience ''my_rabbit_server'' True cs"
    using assms(3,5) by (simp add: custom_claims_def)
  moreover have "sign key [(''kid'', ''xrdshoveler'')] (custom_claims exchange now hours) = Some ss"
    using assms(1) by (simp add: createtoken_def split: option.splits)
  ultimately show ?thesis
    using assms(2,6) by (simp add: CheckToken_def check_audience_def)
qed

lemma parse_no_number:
  assumes "n \<in> set watched" and "parse_big value = None" and "CHR '' '' \<notin> set value" "newline \<notin> set value"
  shows "parseShovelerStats False (n @ CHR '' '' # value) = None"
proof -
  let ?line = "n @ CHR '' '' # value"
  have n: "CHR '' '' \<notin> set n" "newline \<notin> set n" using assms(1) by (auto simp: watched_def)
  then have "split_on (CHR '' '') ?line = [n, value]" using assms(3) by (simp add: split_on_append split_on_none)
  with assms(2) have "parsePrometheusMetric False ?line = None" by (simp add: parsePrometheusMetric_def)
  then have "stats_line False ?line s = None" for s
    using assms(1) unfolding watched_iff by (auto simp: stats_line_def has_prefix_def)
  then show ?thesis using n assms(4) by (simp add: parseShovelerStats_def split_on_none)
qed

text \<open>The command does not see that a page is not a metrics page. A response that names none of
  the metrics, such as an error page, is reported as a shoveler that runs and keeps up; and a
  watched metric whose value is no number makes the command panic.\<close>

theorem status_misreads:
  assumes "\<forall>l \<in> set (split_on newline body). \<forall>n \<in> set watched. \<not> prefix n l"
    and "CheckToken parse verifyAudience config file = (token, True)" and "cfg_Metrics config"
    and "n \<in> set watched" and "parse_big value = None" and "CHR '' '' \<notin> set value" "newline \<notin> set value"
  shows "status_main parse verifyAudience config file (Some body) (Some body) =
      (token @ [No_packets_yet, Running, No_packets, Queue_below_threshold, Nothing_received], Returns) \<and>
    status_main parse verifyAudience config file (Some (n @ CHR '' '' # value)) response = (token, Panics)"
proof -
  have other: "stats_lines False ls zero_stats = Some zero_stats"
    if "\<forall>l \<in> set ls. \<forall>n \<in> set watched. \<not> prefix n l" for ls
    using that by (induction ls) (simp_all add: stats_line_def has_prefix_def watched_def)
  then have "parseShovelerStats False body = Some zero_stats"
    using assms(1) by (simp add: parseShovelerStats_def)
  moreover have "parseShovelerStats False (n @ CHR '' '' # value) = None"
    using assms(4-7) by (rule parse_no_number)
  ultimately show ?thesis
    using assms(2,3)
    by (simp add: status_main_def CheckPrometheusEndpoint_def first_check_def second_check_def Let_def zero_stats_def)
qed

text \<open>A page with counts, a histogram and a metric of the client library.\<close>

definition sample_page :: "nat \<Rightarrow> nat \<Rightarrow> nat \<Rightarrow> page_line list" where
  "sample_page p r q =
     [Comment '' HELP shoveler_packets_received The total number of packets received'',
      Sample (shoveler_metrics ! 0) [] (format_g p), Sample (shoveler_metrics ! 2) [] (format_g r),
      Sample (shoveler_metrics ! 12) ''_bucket{le=0.01}'' ''3'', Foreign ''go_goroutines 12'',
      Sample (shoveler_metrics ! 3) [] (format_g q), Foreign []]"

lemma sample_metrics:
  "shoveler_metrics ! 0 = NewCounter packets_name ''The total number of packets received''"
  "shoveler_metrics ! 2 = NewCounter reconnects_name ''The total number of reconnections to rabbitmq bus''"
  "shoveler_metrics ! 3 = NewGauge queue_size_name ''The number of messages in the queue''"
  "m_Name (shoveler_metrics ! 12) = ''shoveler_parse_time_ms''"
  by (simp_all add: shoveler_metrics_def NewHistogram_def)

lemma sample_metric_ok: "i < 18 \<Longrightarrow> shoveler_metrics ! i \<in> set all_metrics"
proof -
  have "length shoveler_metrics = 18" by (simp add: shoveler_metrics_def)
  then show "i < 18 \<Longrightarrow> shoveler_metrics ! i \<in> set all_metrics" by (simp add: all_metrics_def)
qed

lemma sample_page_shows:
  assumes "p < 2 ^ 53" "r < 2 ^ 53" "q < 2 ^ 53"
  shows "page_shows p r q (sample_page p r q)"
proof -
  have names: "m_Name (shoveler_metrics ! 0) = packets_name" "m_Name (shoveler_metrics ! 2) = reconnects_name"
    "m_Name (shoveler_metrics ! 3) = queue_size_name" "m_Name (shoveler_metrics ! 12) = ''shoveler_parse_time_ms''"
    by (simp_all only: sample_metrics) (simp_all add: NewCounter_def NewGauge_def)
  have in_list: "shoveler_metrics ! i \<in> set all_metrics" if "i \<in> {0, 2, 3, 12}" for i
    using that by (intro sample_metric_ok) auto
  have "list_all (shows_counts p r q) (sample_page p r q)"
    using in_list format_g_no_space
    by (simp add: sample_page_def shows_counts_def names watched_def counts_def del: nth_Cons_numeral nth_Cons_0)
  moreover have "set watched \<subseteq> sample_of ` set (sample_page p r q)"
    by (simp add: watched_def sample_page_def names del: nth_Cons_numeral nth_Cons_0)
  ultimately show ?thesis using assms by (simp add: page_shows_def)
qed

lemma status_reports_counts_witness:
  "status_main (\<lambda>_. Inl Other_error) (\<lambda>_ _ _. False) (zero_Config\<lparr>cfg_Metrics := True\<rparr>) Not_found
      (Some (page_body (sample_page 1234567 0 7))) (Some (page_body (sample_page 1234600 1 101))) =
    (let seen = [Token_skipped] @ (if (1234567 :: nat) = 0 then [No_packets_yet] else [])
     in if 100 < (7 :: nat) then (seen @ [Queue_not_kept_up (int 7)], Exits 1)
        else (seen @ [Running] @ (if (1234600 :: nat) = 0 then [No_packets] else []) @
              [if 100 < (101 :: nat) then Queue_still_not_kept_up (int 101) else Queue_below_threshold] @
              [if (1234600 :: nat) = 1234567 then Nothing_received else Received (int 1234600 - int 1234567)], Returns))"
  by (rule status_reports_counts [OF sample_page_shows sample_page_shows])
    (simp_all add: zero_Config_def CheckToken_def)

lemma created_token_checked_witness:
  "let claims = custom_claims ''other'' 1700000000000000000 24;
       sign = (\<lambda>key h c. Some (cl_Scope c)); parse = (\<lambda>s. Inr [(''scope'', JStr s), (''aud'', JStr ''my_rabbit_server'')])
   in sign () [(''kid'', ''xrdshoveler'')] claims = Some (cl_Scope claims) \<and>
    CheckToken parse (\<lambda>a required cs. claim cs ''aud'' = JStr a) (zero_Config\<lparr>cfg_MQ := ''amqp''\<rparr>) (Contents (cl_Scope claims)) =
      ((if ''other'' = ''shoveled-xrd'' then [] else [Token_scope (''my_rabbit_server.write:xrd-mon/'' @ ''other'')]) @
       [Token_valid], True) \<and>
    cl_ExpiresAt claims = 1700000000000000000 div 1000000000 + 3600 * 24"
  unfolding Let_def
  by (rule created_token_checked [where key_file = "''key.pem''" and cs = "[(''scope'', JStr (cl_Scope (custom_claims ''other'' 1700000000000000000 24))), (''aud'', JStr ''my_rabbit_server'')]"])
    (simp_all add: createtoken_def claim_def custom_claims_def)

lemma status_misreads_witness:
  "status_main (\<lambda>_. Inl Other_error) (\<lambda>_ _ _. False) (zero_Config\<lparr>cfg_Metrics := True\<rparr>) Not_found
      (Some ''404 page not found'') (Some ''404 page not found'') =
      ([Token_skipped] @ [No_packets_yet, Running, No_packets, Queue_below_threshold, Nothing_received], Returns) \<and>
    status_main (\<lambda>_. Inl Other_error) (\<lambda>_ _ _. False) (zero_Config\<lparr>cfg_Metrics := True\<rparr>) Not_found
      (Some (queue_size_name @ CHR '' '' # ''NaN'')) None = ([Token_skipped], Panics)"
  by (rule status_misreads)
    (simp_all add: watched_def zero_Config_def CheckToken_def big_float_defs is_digit_def)

end
