(* ===== verification/Spec2Isabelle.thy ===== *)
theory Spec2Isabelle
  imports User_Theorems Enrichment Confirmation_Queue Rabbit_Reader File_Reader Shoveler Collector_Config Amqp_Pool Metrics_Theorems End_To_End Source_Runs Stomp_Publisher Queue_Waiting Shoveler_To_Collector User_Attribution State_History Key_Pool Shoveler_Status
begin

text \<open>
  A verification library for xrootd-monitoring-shoveler: the shoveler, which puts the monitoring
  packets of XRootD servers on a message bus, and the collector, which reads them, correlates
  the records of a file's life and publishes one record per closed file.

  \<^bold>\<open>The parts and how they interact.\<close> A packet comes from a socket, a file or RabbitMQ
  (\<open>input/\<close>). The shoveler (\<open>cmd/shoveler\<close>) checks it, packages it as JSON and puts it into the
  confirmation queue (\<open>queue.go\<close>), from which a publisher (\<open>amqp.go\<close>, \<open>stomp.go\<close>) takes it to the
  broker. The collector (\<open>cmd/collector\<close>) parses it (\<open>parser/\<close>), hands g-stream packets to workers
  of their own and all others to the correlator (\<open>collector/correlator.go\<close>), whose expiring maps
  (\<open>collector/state.go\<close>) remember opens, users, servers and dictionary entries under textual keys
  (\<open>collector/key_builder.go\<close>). Each close gives a record, which waits in the enrichment queue
  (\<open>collector/enrichment.go\<close>); a worker drops it by the filter, completes it, routes and converts
  it (\<open>collector/filter.go\<close>, \<open>collector/wlcg_converter.go\<close>); the publisher writes the result to the
  outputs (\<open>connectors/\<close>), among them the confirmation queue. Both programs serve their metrics over
  HTTP (\<open>metrics.go\<close>), where the status command (\<open>cmd/shoveler-status\<close>) reads them.
  \<open>metrics/xrootd_metrics.go\<close> is a second, independent consumer of packets.

  \<^bold>\<open>The theories.\<close>
  \<^item> \<open>Prelude\<close>, \<open>Go_Strings\<close>, \<open>Go_Numbers\<close>, \<open>Go_Floats\<close>, \<open>Go_Base64\<close>, \<open>Go_Json\<close>, \<open>Go_Url\<close>, \<open>Net_Addr\<close>,
    \<open>Paths\<close>: bytes, words and association lists, and what the program uses of Go's standard
    library. A byte slice and a string are both a \<open>string\<close>; a w-bit integer is a \<open>w word\<close>.
  \<^item> \<open>Wire_Types\<close>, \<open>Packet_Parser\<close>, \<open>User_Info\<close>, \<open>Fstream\<close>, \<open>Parse_Packet\<close>, \<open>Parser_Theorems\<close>:
    \<open>parser/xrootd_parser.go\<close>. Round trips of the packet kinds, exactly which bytes are accepted,
    what the loop over file records yields and where it goes wrong.
  \<^item> \<open>Keys\<close>, \<open>Key_Pool\<close>, \<open>State_Map\<close>, \<open>State_History\<close>, \<open>Collector_Types\<close>, \<open>Scitags\<close>, \<open>Correlator\<close>, \<open>Correlator_Invariant\<close>,
    \<open>Correlator_Frame\<close>, \<open>Correlator_Theorems\<close>, \<open>User_Theorems\<close>, \<open>User_Attribution\<close>: the correlator.
    Keys built in pooled buffers are the plain ones. The map is the interpretation of the locale
    \<open>ttl_store\<close> and refines the history of its operations. The type invariant of every reachable
    state, one record per close, correlation of an open with its close across any other traffic,
    isolation of servers, and from a login to the record that names its user.
  \<^item> \<open>Fifo\<close>, \<open>Record_Filter\<close>, \<open>Wlcg\<close>, \<open>Gstream_Events\<close>, \<open>Enrichment\<close>: what happens to a record, and
    the events of the g-stream. The work queue and the confirmation queue are interpretations of
    the locale \<open>fifo\<close>.
  \<^item> \<open>Confirmation_Queue\<close>, \<open>Queue_Waiting\<close>, \<open>Output_Connectors\<close>: \<open>queue.go\<close>, \<open>connectors/\<close> and
    \<open>filewriter.go\<close>. First in, first out across memory and disk, waiting without lost wake-ups,
    the quarantine of corrupt segments, writes that reach every output.
  \<^item> \<open>Config\<close>, \<open>Scitags_Source\<close>, \<open>Collector_Main\<close>, \<open>Collector_Run\<close>, \<open>Collector_Config\<close>,
    \<open>Collector_Start\<close>, \<open>Collector_Modes\<close>, \<open>Program_Start\<close>, \<open>End_To_End\<close>: \<open>config.go\<close>,
    \<open>collector/scitags.go\<close>, \<open>cmd/collector/main.go\<close>, \<open>profile.go\<close>. What a configuration starts and
    what is served over HTTP; the goroutines' steps in any order and where each record is at any
    time; the shutdown; the three modes to their end; and, through all components, from the bytes
    of an open and a close to the published record. \<open>Shoveler_To_Collector\<close> composes the two
    programs over the broker: the collector receives packets the shoveler read and let through,
    unaltered; which ones can be lost on the way, and which can come twice.
  \<^item> \<open>Udp_Message\<close>, \<open>Shoveler\<close>: \<open>verify.go\<close>, \<open>map.go\<close>, \<open>packageudp.go\<close>, \<open>cmd/shoveler/main.go\<close>. What is
    queued is what passed the check, and the collector unpacks what the shoveler packaged.
  \<^item> \<open>File_Reader\<close>, \<open>Rabbit_Reader\<close>, \<open>Rabbit_Sessions\<close>, \<open>Packet_Sources\<close>, \<open>Source_Runs\<close>: \<open>input/\<close>.
    What each source reads, hands on and drops, acknowledgements, what the broker delivers again
    after a reconnection, connections, stopping. The locale \<open>packet_source\<close> is the
    interface \<open>PacketSource\<close>, interpreted for all three.
  \<^item> \<open>Amqp_Session\<close>, \<open>Amqp_Pool\<close>, \<open>Amqp_Wire\<close>, \<open>Stomp_Publisher\<close>: \<open>amqp.go\<close>, \<open>stomp.go\<close>. Over AMQP every
    message is accepted by the library, in order where the code keeps it, over any failures; as no
    confirmation is awaited an accepted message can still be lost on the wire. Over STOMP, where a
    receipt is awaited, every message reaches the broker. And what a renewed token does.
  \<^item> \<open>Xrootd_Metrics\<close>, \<open>Metrics_Loop\<close>, \<open>Metrics_Theorems\<close>: \<open>metrics/xrootd_metrics.go\<close>. When its loop
    over a packet ends, and what its counters count.
  \<^item> \<open>Go_BigFloat\<close>, \<open>Metric_Registry\<close>, \<open>Shoveler_Status\<close>: \<open>metrics.go\<close>, \<open>collector/metrics.go\<close>,
    \<open>cmd/shoveler-status\<close>, \<open>cmd/createtoken\<close>. The registered metrics are distinct, the status command
    reads their counts back exactly from the page, and what it makes of other pages and of tokens.

  \<^bold>\<open>How the model stands to the code.\<close> A struct is a \<open>record\<close> whose fields carry its initials, an
  \<open>interface{}\<close> a \<open>datatype\<close> of the types stored in it; a function keeps its name, up to a suffix
  where HOL has one. Errors are \<open>Inl\<close> or \<open>None\<close>, and so are panics where the code can run into
  them. An operation under a lock, and a step of a goroutine between two points where it waits,
  is one atomic step; the runs (\<open>corr_reach\<close>, \<open>collects\<close>, \<open>meanwhile\<close>, \<open>pool_run\<close>, \<open>stomp_runs\<close>,
  \<open>wire_run\<close>, \<open>reader_sessions\<close>, \<open>wait_run\<close>, \<open>udp_reads\<close>, \<open>file_runs\<close>, \<open>reader_runs\<close>, \<open>key_runs\<close>) take these
  steps in any order. A handler reads the clock once, as its argument \<open>now\<close>.

  \<^bold>\<open>Bounds and fuel.\<close> Loops are structural, or have a measure; \<open>fstream_loop\<close> of the monitoring
  package may not end and is a partial function, \<open>None\<close> when it does not. \<open>transfer_back\<close> has as
  fuel the size of the disk queue, which \<open>transfer_back_all\<close> shows to be enough under the laws of
  the disk queue. The JSON reader's fuel is twice the length of its text and a little more, which
  \<open>json_fuel_enough\<close> shows to be enough.

  \<^bold>\<open>Arguments.\<close> What is not in the repository is an argument: rendering JSON of a record, the DNS
  resolver, fresh identifiers and the host name, the viper library's lookups and URL parsing, the
  disk queue \<open>dque\<close> (hypothesis \<open>dque_laws\<close>: an append, a removal of the oldest, the size), the
  AMQP, STOMP and TLS libraries (events with their outcomes), the AMQP broker (it keeps what arrives
  until it is settled, and delivers again what a closed channel had not acknowledged), the JWT library, \<open>ttlcache\<close> and the XML reader of the
  monitoring package, files, sockets and HTTP (outcomes).

  \<^bold>\<open>Not modelled.\<close> Logging, the progress display and the text of errors and of debug output; the
  values of gauges other than queue sizes; the rounding of floating-point averages and of counters beyond \<open>2^53\<close>; command-line
  flags and version strings. What is left of the source besides is declarations of imports,
  accessors of channels and struct fields that only carry handles of libraries.
\<close>

end
